(* ===== verification/Json.thy ===== *)
theory Json
  imports Prelude
begin

text \<open>
  The standard library's \<open>json.loads\<close> as the gateway uses it: byte strings are decoded after
  \<open>json.detect_encoding\<close>, the text is scanned into values, and an optional
  \<open>object_pairs_hook\<close> sees the pairs of every object as it closes.

  Scanning runs on fuel; \<open>loads_text\<close> gives more fuel than the text has characters and
  \<open>loads_text_fuel\<close> shows that it never runs out. \<open>rl\<close> is the interpreter's recursion
  limit for the scanner: an object or array nested deeper raises \<open>RecursionError\<close>. A decimal
  literal keeps its exact value (\<open>Fin\<close>); rounding to a double is not modelled.
\<close>

section \<open>Byte decoding\<close>

definition is_surrogate :: "nat \<Rightarrow> bool" where
  "is_surrogate c \<longleftrightarrow> 55296 \<le> c \<and> c \<le> 57343"

text \<open>\<open>s.encode('utf-8')\<close>; a lone surrogate raises \<open>UnicodeEncodeError\<close>.\<close>

definition utf8_cp :: "nat \<Rightarrow> pybytes" where
  "utf8_cp c =
    (if c < 128 then [c]
     else if c < 2048 then [192 + c div 64, 128 + c mod 64]
     else if c < 65536 then [224 + c div 4096, 128 + c div 64 mod 64, 128 + c mod 64]
     else [240 + c div 262144, 128 + c div 4096 mod 64, 128 + c div 64 mod 64, 128 + c mod 64])"

fun utf8_encode :: "pystr \<Rightarrow> pybytes option" where
  "utf8_encode [] = Some []"
| "utf8_encode (c # s) =
     (if is_surrogate c then None
      else map_option ((@) (utf8_cp c)) (utf8_encode s))"

definition cont_byte :: "nat \<Rightarrow> bool" where
  "cont_byte b \<longleftrightarrow> 128 \<le> b \<and> b < 192"

text \<open>UTF-8 with the \<open>surrogatepass\<close> handler: overlong forms and values past \<open>U+10FFFF\<close> are
  errors, encoded surrogates are not.\<close>

fun utf8_decode :: "pybytes \<Rightarrow> pystr option" where
  "utf8_decode [] = Some []"
| "utf8_decode (a # s) =
    (if a < 128 then map_option ((#) a) (utf8_decode s)
     else if 194 \<le> a \<and> a < 224 then
       (case s of b # s' \<Rightarrow>
          if cont_byte b then map_option ((#) ((a - 192) * 64 + (b - 128))) (utf8_decode s')
          else None
        | _ \<Rightarrow> None)
     else if 224 \<le> a \<and> a < 240 then
       (case s of b # c # s' \<Rightarrow>
          (let n = (a - 224) * 4096 + (b - 128) * 64 + (c - 128)
           in if cont_byte b \<and> cont_byte c \<and> 2048 \<le> n
              then map_option ((#) n) (utf8_decode s') else None)
        | _ \<Rightarrow> None)
     else if 240 \<le> a \<and> a < 245 then
       (case s of b # c # d # s' \<Rightarrow>
          (let n = (a - 240) * 262144 + (b - 128) * 4096 + (c - 128) * 64 + (d - 128)
           in if cont_byte b \<and> cont_byte c \<and> cont_byte d \<and> 65536 \<le> n \<and> n < 1114112
              then map_option ((#) n) (utf8_decode s') else None)
        | _ \<Rightarrow> None)
     else None)"

fun utf32_decode :: "bool \<Rightarrow> pybytes \<Rightarrow> pystr option" where
  "utf32_decode be [] = Some []"
| "utf32_decode be (a # b # c # d # s) =
    (let n = (if be then ((a * 256 + b) * 256 + c) * 256 + d
              else ((d * 256 + c) * 256 + b) * 256 + a)
     in if n < 1114112 then map_option ((#) n) (utf32_decode be s) else None)"
| "utf32_decode be _ = None"

fun utf16_units :: "bool \<Rightarrow> pybytes \<Rightarrow> nat list option" where
  "utf16_units be [] = Some []"
| "utf16_units be [a] = None"
| "utf16_units be (a # b # s) =
     map_option ((#) (if be then a * 256 + b else b * 256 + a)) (utf16_units be s)"

fun join_surrogates :: "nat list \<Rightarrow> pystr" where
  "join_surrogates (h # l # s) =
    (if 55296 \<le> h \<and> h < 56320 \<and> 56320 \<le> l \<and> l < 57344
     then (65536 + (h - 55296) * 1024 + (l - 56320)) # join_surrogates s
     else h # join_surrogates (l # s))"
| "join_surrogates s = s"

definition utf16_decode :: "bool \<Rightarrow> pybytes \<Rightarrow> pystr option" where
  "utf16_decode be s = map_option join_surrogates (utf16_units be s)"

text \<open>\<open>json.detect_encoding\<close> followed by \<open>bytes.decode(_, 'surrogatepass')\<close>.\<close>

definition json_decode :: "pybytes \<Rightarrow> pystr option" where
  "json_decode b =
    (if starts_with b [0, 0, 254, 255] then utf32_decode True (drop 4 b)
     else if starts_with b [255, 254, 0, 0] then utf32_decode False (drop 4 b)
     else if starts_with b [254, 255] then utf16_decode True (drop 2 b)
     else if starts_with b [255, 254] then utf16_decode False (drop 2 b)
     else if starts_with b [239, 187, 191] then utf8_decode (drop 3 b)
     else (case b of
       b0 # b1 # b2 # b3 # _ \<Rightarrow>
         if b0 = 0 then (if b1 \<noteq> 0 then utf16_decode True b else utf32_decode True b)
         else if b1 = 0 then
           (if b2 \<noteq> 0 \<or> b3 \<noteq> 0 then utf16_decode False b else utf32_decode False b)
         else utf8_decode b
     | [b0, b1] \<Rightarrow>
         if b0 = 0 then utf16_decode True b
         else if b1 = 0 then utf16_decode False b
         else utf8_decode b
     | _ \<Rightarrow> utf8_decode b))"

section \<open>Scanning\<close>

datatype json_error =
    JSONDecodeError
  | UnicodeDecodeError
  | HookValueError pystr
  | IntDigitLimit
  | RecursionError
  | OutOfFuel

type_synonym pairs_hook = "(pystr \<times> pyval) list \<Rightarrow> json_error + pyval"

text \<open>Without a hook the scanner builds \<open>dict(pairs)\<close>: the last value of a repeated key wins.\<close>

definition dict_of_pairs :: "(pystr \<times> pyval) list \<Rightarrow> pydict" where
  "dict_of_pairs ps = foldl (\<lambda>d (k, v). dset k v d) [] ps"

definition plain_hook :: pairs_hook where
  "plain_hook ps = Inr (PDict (dict_of_pairs ps))"

definition json_ws :: "nat \<Rightarrow> bool" where
  "json_ws c \<longleftrightarrow> c = 32 \<or> c = 9 \<or> c = 10 \<or> c = 13"

definition skip_ws :: "pystr \<Rightarrow> pystr" where
  "skip_ws s = dropWhile json_ws s"

lemma skip_ws_le: "length (skip_ws s) \<le> length s"
  by (simp add: skip_ws_def length_dropWhile_le)

fun hex4 :: "pystr \<Rightarrow> (nat \<times> pystr) option" where
  "hex4 (a # b # c # d # s) =
    (case (hex_val a, hex_val b, hex_val c, hex_val d) of
       (Some a', Some b', Some c', Some d') \<Rightarrow>
         Some (((a' * 16 + b') * 16 + c') * 16 + d', s)
     | _ \<Rightarrow> None)"
| "hex4 _ = None"

lemma hex4_length: "hex4 s = Some (n, r) \<Longrightarrow> length s = length r + 4"
  by (cases s rule: hex4.cases) (auto split: option.splits)

definition escape_char :: "nat \<Rightarrow> nat option" where
  "escape_char c = map_of [(34, 34), (92, 92), (47, 47), (98, 8), (102, 12), (110, 10),
                           (114, 13), (116, 9)] c"

text \<open>\<open>\uXXXX\<close>, joining an escaped surrogate pair.\<close>

definition unicode_escape :: "pystr \<Rightarrow> (nat \<times> pystr) option" where
  "unicode_escape s =
    (case hex4 s of
       None \<Rightarrow> None
     | Some (h, r) \<Rightarrow>
         (if 55296 \<le> h \<and> h \<le> 56319 \<and> starts_with r [92, 117] then
            (case hex4 (drop 2 r) of
               Some (l, r') \<Rightarrow>
                 if 56320 \<le> l \<and> l \<le> 57343
                 then Some (65536 + (h - 55296) * 1024 + (l - 56320), r')
                 else Some (h, r)
             | None \<Rightarrow> Some (h, r))
          else Some (h, r)))"

lemma unicode_escape_length: "unicode_escape s = Some (n, r) \<Longrightarrow> length r < length s"
  by (auto simp: unicode_escape_def split: option.splits if_splits dest!: hex4_length)

text \<open>The rest of a string literal after its opening quote (strict mode).\<close>

function jstring :: "pystr \<Rightarrow> (pystr \<times> pystr) option" where
  "jstring [] = None"
| "jstring (c # s) =
    (if c = 34 then Some ([], s)
     else if c < 32 then None
     else if c = 92 then
       (case s of
          [] \<Rightarrow> None
        | e # s' \<Rightarrow>
            if e = 117 then
              (case unicode_escape s' of
                 None \<Rightarrow> None
               | Some (n, r) \<Rightarrow> map_option (\<lambda>(t, r'). (n # t, r')) (jstring r))
            else
              (case escape_char e of
                 None \<Rightarrow> None
               | Some n \<Rightarrow> map_option (\<lambda>(t, r'). (n # t, r')) (jstring s')))
     else map_option (\<lambda>(t, r'). (c # t, r')) (jstring s))"
  by pat_completeness auto
termination
  by (relation "measure length") (auto dest: unicode_escape_length)

lemma jstring_length: "jstring s = Some (t, r) \<Longrightarrow> length r < length s"
proof (induction s arbitrary: t r rule: measure_induct_rule [of length])
  case (less s)
  show ?case
  proof (cases s)
    case Nil
    with less.prems show ?thesis by simp
  next
    case (Cons c s')
    with less.prems show ?thesis
      by (auto split: if_splits list.splits option.splits
          dest!: unicode_escape_length less.IH [rotated])
  qed
qed

text \<open>Number literals: \<open>-?(0|[1-9][0-9]*)(.[0-9]+)?([eE][-+]?[0-9]+)?\<close>. An integer of more than
  4300 digits is the \<open>ValueError\<close> of \<open>int\<close>.\<close>

definition take_digits :: "pystr \<Rightarrow> pystr \<times> pystr" where
  "take_digits s = (takeWhile is_digit s, dropWhile is_digit s)"

definition int_part :: "pystr \<Rightarrow> (pystr \<times> pystr) option" where
  "int_part s =
    (case s of
       [] \<Rightarrow> None
     | c # r \<Rightarrow> if c = 48 then Some ([48], r)
               else if is_digit c then Some (take_digits s) else None)"

definition frac_part :: "pystr \<Rightarrow> pystr \<times> pystr" where
  "frac_part s =
    (case s of
       c # d # r \<Rightarrow> if c = 46 \<and> is_digit d then take_digits (d # r) else ([], s)
     | _ \<Rightarrow> ([], s))"

definition exp_part :: "pystr \<Rightarrow> int option \<times> pystr" where
  "exp_part s =
    (case s of
       c # r \<Rightarrow>
         if c = 101 \<or> c = 69 then
           (let neg = starts_with r [45];
                r' = (if neg \<or> starts_with r [43] then tl r else r);
                (ds, r'') = take_digits r'
            in if ds = [] then (None, s)
               else (Some (if neg then - int (digits_val ds) else int (digits_val ds)), r''))
         else (None, s)
     | [] \<Rightarrow> (None, s))"

definition scale10 :: "int \<Rightarrow> int \<Rightarrow> rat" where
  "scale10 m e = (if 0 \<le> e then of_int m * 10 ^ nat e else of_int m / 10 ^ nat (- e))"

definition jnumber :: "pystr \<Rightarrow> (json_error + pyval \<times> pystr)" where
  "jnumber s =
    (let neg = starts_with s [45]; s1 = (if neg then tl s else s)
     in case int_part s1 of
          None \<Rightarrow> Inl JSONDecodeError
        | Some (ds, r1) \<Rightarrow>
            (let (fs, r2) = frac_part r1; (ex, r3) = exp_part r2;
                 m = int (digits_val (ds @ fs)); sm = (if neg then - m else m)
             in if fs = [] \<and> ex = None
                then (if length ds > 4300 then Inl IntDigitLimit else Inr (PInt sm, r3))
                else Inr (PFloat (Fin (scale10 sm
                       ((case ex of None \<Rightarrow> 0 | Some e \<Rightarrow> e) - int (length fs)))), r3)))"

lemma take_digits_le: "take_digits s = (a, r) \<Longrightarrow> length r \<le> length s"
  by (auto simp: take_digits_def length_dropWhile_le)

lemma int_part_less: "int_part s = Some (a, r) \<Longrightarrow> length r < length s"
  by (auto simp: int_part_def take_digits_def length_dropWhile_le less_Suc_eq_le
      split: list.splits if_splits)

lemma frac_part_le: "frac_part s = (a, r) \<Longrightarrow> length r \<le> length s"
  by (auto simp: frac_part_def split: list.splits if_splits dest: take_digits_le)

lemma exp_part_le: "exp_part s = (a, r) \<Longrightarrow> length r \<le> length s"
  by (auto simp: exp_part_def Let_def split: list.splits if_splits prod.splits
      dest!: take_digits_le)

lemma jnumber_less: "jnumber s = Inr (v, r) \<Longrightarrow> length r < length s"
proof -
  assume r: "jnumber s = Inr (v, r)"
  let ?s = "if starts_with s [45] then tl s else s"
  obtain ds r1 fs r2 ex where p: "int_part ?s = Some (ds, r1)" "frac_part r1 = (fs, r2)"
      "exp_part r2 = (ex, r)"
    using r by (auto simp: jnumber_def Let_def split: option.splits prod.splits if_splits)
  have "length r \<le> length r2" "length r2 \<le> length r1" "length r1 < length ?s"
    using exp_part_le [OF p(3)] frac_part_le [OF p(2)] int_part_less [OF p(1)] by blast+
  then show ?thesis by (auto split: if_splits)
qed

definition jliterals :: "(pystr \<times> pyval) list" where
  "jliterals = [(u ''null'', PNone), (u ''true'', PBool True), (u ''false'', PBool False),
     (u ''NaN'', PFloat NaN), (u ''Infinity'', PFloat PosInf), (u ''-Infinity'', PFloat NegInf)]"

definition jliteral :: "pystr \<Rightarrow> (pyval \<times> pystr) option" where
  "jliteral s =
     map_option (\<lambda>(w, v). (v, drop (length w) s)) (find (\<lambda>(w, v). starts_with s w) jliterals)"

lemma jliteral_less: "jliteral s = Some (v, r) \<Longrightarrow> length r < length s"
  by (auto simp: jliteral_def jliterals_def starts_with_iff split: if_splits)

text \<open>Values, the members of an array after \<open>[\<close> or a comma, and the members of an object after
  \<open>{\<close> or a comma.\<close>

fun jvalue :: "pairs_hook \<Rightarrow> nat \<Rightarrow> nat \<Rightarrow> pystr \<Rightarrow> json_error + pyval \<times> pystr"
  and jitems :: "pairs_hook \<Rightarrow> nat \<Rightarrow> nat \<Rightarrow> pystr \<Rightarrow> json_error + pyval list \<times> pystr"
  and jmembers :: "pairs_hook \<Rightarrow> nat \<Rightarrow> nat \<Rightarrow> pystr
      \<Rightarrow> json_error + (pystr \<times> pyval) list \<times> pystr"
where
  "jvalue hk 0 rl s = Inl OutOfFuel"
| "jvalue hk (Suc f) rl s =
    (case s of
       [] \<Rightarrow> Inl JSONDecodeError
     | c # r \<Rightarrow>
         if c = 34 then
           (case jstring r of None \<Rightarrow> Inl JSONDecodeError | Some (t, r') \<Rightarrow> Inr (PStr t, r'))
         else if c = 123 then
           (if rl = 0 then Inl RecursionError
            else if starts_with (skip_ws r) [125]
              then rbind (hk []) (\<lambda>v. Inr (v, tl (skip_ws r)))
            else rbind (jmembers hk f (rl - 1) (skip_ws r))
                   (\<lambda>(ps, r'). rbind (hk ps) (\<lambda>v. Inr (v, r'))))
         else if c = 91 then
           (if rl = 0 then Inl RecursionError
            else if starts_with (skip_ws r) [93] then Inr (PList [], tl (skip_ws r))
            else rbind (jitems hk f (rl - 1) (skip_ws r)) (\<lambda>(xs, r'). Inr (PList xs, r')))
         else (case jliteral s of Some (v, r') \<Rightarrow> Inr (v, r') | None \<Rightarrow> jnumber s))"
| "jitems hk 0 rl s = Inl OutOfFuel"
| "jitems hk (Suc f) rl s =
    rbind (jvalue hk f rl s) (\<lambda>(v, r).
      (case skip_ws r of
         [] \<Rightarrow> Inl JSONDecodeError
       | c # r' \<Rightarrow>
           if c = 93 then Inr ([v], r')
           else if c = 44 then
             rbind (jitems hk f rl (skip_ws r')) (\<lambda>(vs, r''). Inr (v # vs, r''))
           else Inl JSONDecodeError))"
| "jmembers hk 0 rl s = Inl OutOfFuel"
| "jmembers hk (Suc f) rl s =
    (case s of
       [] \<Rightarrow> Inl JSONDecodeError
     | q # s1 \<Rightarrow>
       if q \<noteq> 34 then Inl JSONDecodeError
       else (case jstring s1 of
           None \<Rightarrow> Inl JSONDecodeError
         | Some (k, s2) \<Rightarrow>
           if \<not> starts_with (skip_ws s2) [58] then Inl JSONDecodeError
           else rbind (jvalue hk f rl (skip_ws (tl (skip_ws s2)))) (\<lambda>(v, r).
             (case skip_ws r of
                [] \<Rightarrow> Inl JSONDecodeError
              | c # r' \<Rightarrow>
                  if c = 125 then Inr ([(k, v)], r')
                  else if c = 44 then
                    rbind (jmembers hk f rl (skip_ws r'))
                      (\<lambda>(kvs, r''). Inr ((k, v) # kvs, r''))
                  else Inl JSONDecodeError))))"

text \<open>\<open>json.loads(text)\<close>: one value, white space around it, nothing after it.\<close>

definition loads_text :: "pairs_hook \<Rightarrow> nat \<Rightarrow> pystr \<Rightarrow> json_error + pyval" where
  "loads_text hk rl s =
    (if starts_with s [65279] then Inl JSONDecodeError
     else rbind (jvalue hk (Suc (2 * length s)) rl (skip_ws s))
       (\<lambda>(v, r). if skip_ws r = [] then Inr v else Inl JSONDecodeError))"

definition loads_bytes :: "pairs_hook \<Rightarrow> nat \<Rightarrow> pybytes \<Rightarrow> json_error + pyval" where
  "loads_bytes hk rl b =
    (case json_decode b of
       None \<Rightarrow> Inl UnicodeDecodeError
     | Some s \<Rightarrow> loads_text hk rl s)"

section \<open>The fuel is enough\<close>

lemma starts_with_Cons_tl: "starts_with s [c] \<Longrightarrow> length (tl s) < length s"
  by (cases s) auto

lemma skip_ws_Cons: "skip_ws s = c # r \<Longrightarrow> length r < length s"
  using skip_ws_le [of s] by simp

lemma less_skip_wsD: "n < length (skip_ws s) \<Longrightarrow> n < length s"
  using skip_ws_le [of s] by simp

lemma less_tl_skip_wsD: "n < length (tl (skip_ws s)) \<Longrightarrow> n < length s"
  using skip_ws_le [of s] by simp

lemma scan_consumes:
  "jvalue hk f rl s = Inr (v, r) \<Longrightarrow> length r < length s"
  "jitems hk f rl s = Inr (vs, r) \<Longrightarrow> length r < length s"
  "jmembers hk f rl s = Inr (kvs, r) \<Longrightarrow> length r < length s"
proof (induction f arbitrary: rl s v vs kvs r)
  case 0
  {
    case 1 then show ?case by simp
  next
    case 2 then show ?case by simp
  next
    case 3 then show ?case by simp
  }
next
  case (Suc f)
  {
    case 1
    then show ?case
      using skip_ws_le [of "tl s"]
      by (auto split: list.splits if_splits option.splits
          dest!: jstring_length jliteral_less jnumber_less Suc.IH(2) Suc.IH(3)
          dest: starts_with_Cons_tl)
  next
    case 2
    then obtain v' r1 where v: "jvalue hk f rl s = Inr (v', r1)" by auto
    have "length r1 < length s" using Suc.IH(1) [OF v] .
    with 2 v show ?case
      by (auto split: list.splits if_splits dest!: Suc.IH(2) skip_ws_Cons less_skip_wsD)
  next
    case 3
    then obtain s1 k s2 where s: "s = 34 # s1" "jstring s1 = Some (k, s2)"
      by (auto split: list.splits if_splits option.splits)
    from 3 s obtain v' r1 where v: "jvalue hk f rl (skip_ws (tl (skip_ws s2))) = Inr (v', r1)"
      by (auto split: if_splits)
    have "length r1 < length s"
      using Suc.IH(1) [OF v] jstring_length [OF s(2)] s(1)
      by (auto dest!: less_skip_wsD less_tl_skip_wsD)
    with 3 s v show ?case
      by (cases "skip_ws r1")
        (auto split: if_splits dest!: Suc.IH(3) skip_ws_Cons less_skip_wsD)
  }
qed

lemma scan_enough_fuel:
  assumes hk: "\<And>ps. hk ps \<noteq> Inl OutOfFuel"
  shows "2 * length s < f \<Longrightarrow> jvalue hk f rl s \<noteq> Inl OutOfFuel"
    and "2 * length s + 1 < f \<Longrightarrow> jitems hk f rl s \<noteq> Inl OutOfFuel"
    and "2 * length s + 1 < f \<Longrightarrow> jmembers hk f rl s \<noteq> Inl OutOfFuel"
proof (induction f arbitrary: rl s)
  case 0
  {
    case 1 then show ?case by simp
  next
    case 2 then show ?case by simp
  next
    case 3 then show ?case by simp
  }
next
  case (Suc f)
  have num: "jnumber t \<noteq> Inl OutOfFuel" for t
    by (auto simp: jnumber_def Let_def split: option.splits prod.splits)
  {
    case 1
    show ?case
    proof (cases s)
      case Nil
      then show ?thesis by simp
    next
      case (Cons c r)
      have le: "2 * length (skip_ws r) + 1 < f"
        using 1 Cons skip_ws_le [of r] by simp
      have "jitems hk f (rl - 1) (skip_ws r) \<noteq> Inl OutOfFuel"
        "jmembers hk f (rl - 1) (skip_ws r) \<noteq> Inl OutOfFuel"
        using Suc.IH(2) [OF le] Suc.IH(3) [OF le] by auto
      with Cons num hk show ?thesis
        by (auto simp: rbind_eq_Inl split: option.splits prod.splits)
    qed
  next
    case 2
    have v: "jvalue hk f rl s \<noteq> Inl OutOfFuel" using Suc.IH(1) 2 by simp
    have "jitems hk f rl (skip_ws r') \<noteq> Inl OutOfFuel"
      if "jvalue hk f rl s = Inr (w, r)" "skip_ws r = c # r'" for w r c r'
      using scan_consumes(1) [OF that(1)] skip_ws_Cons [OF that(2)] skip_ws_le [of r'] 2
      by (intro Suc.IH(2)) simp
    with v show ?case
      by (auto simp: rbind_eq_Inl split: list.splits prod.splits)
  next
    case 3
    show ?case
    proof (cases "\<exists>q s1 k s2. s = q # s1 \<and> jstring s1 = Some (k, s2)")
      case False
      then show ?thesis by (auto split: list.splits option.splits)
    next
      case True
      then obtain q s1 k s2 where s: "s = q # s1" "jstring s1 = Some (k, s2)" by blast
      let ?t = "skip_ws (tl (skip_ws s2))"
      have lt: "length ?t < length s"
        using jstring_length [OF s(2)] s(1) skip_ws_le [of "tl (skip_ws s2)"] skip_ws_le [of s2]
        by simp
      then have v: "jvalue hk f rl ?t \<noteq> Inl OutOfFuel" using Suc.IH(1) 3 by simp
      have "jmembers hk f rl (skip_ws r') \<noteq> Inl OutOfFuel"
        if "jvalue hk f rl ?t = Inr (w, r)" "skip_ws r = c # r'" for w r c r'
        using scan_consumes(1) [OF that(1)] skip_ws_Cons [OF that(2)] skip_ws_le [of r'] 3 lt
        by (intro Suc.IH(3)) simp
      with v s show ?thesis
        by (auto simp: rbind_eq_Inl split: list.splits prod.splits)
    qed
  }
qed

theorem loads_text_fuel:
  assumes "\<And>ps. hk ps \<noteq> Inl OutOfFuel"
  shows "loads_text hk rl s \<noteq> Inl OutOfFuel"
proof -
  have "jvalue hk (Suc (2 * length s)) rl (skip_ws s) \<noteq> Inl OutOfFuel"
    using skip_ws_le [of s] by (intro scan_enough_fuel(1) assms) simp
  then show ?thesis
    by (auto simp: loads_text_def rbind_eq_Inl split: if_splits)
qed

lemma loads_bytes_fuel:
  assumes "\<And>ps. hk ps \<noteq> Inl OutOfFuel"
  shows "loads_bytes hk rl b \<noteq> Inl OutOfFuel"
  using loads_text_fuel [OF assms] by (auto simp: loads_bytes_def split: option.splits)

section \<open>Hooks\<close>

lemma dset_fresh: "\<not> has_key d k \<Longrightarrow> dset k v d = d @ [(k, v)]"
  by (induction k v d rule: dset.induct) (auto simp: has_key_def split: if_splits)

lemma dict_of_pairs_distinct:
  "distinct (map fst (d @ ps)) \<Longrightarrow> foldl (\<lambda>d (k, v). dset k v d) d ps = d @ ps"
proof (induction ps arbitrary: d)
  case Nil
  show ?case by simp
next
  case (Cons p ps)
  obtain k v where p: "p = (k, v)" by fastforce
  then have "\<not> has_key d k" using Cons.prems by (auto simp: has_key_iff)
  with Cons p show ?case by (simp add: dset_fresh)
qed

lemma plain_hook_distinct: "distinct (map fst ps) \<Longrightarrow> plain_hook ps = Inr (PDict ps)"
  using dict_of_pairs_distinct [of "[]" ps] by (simp add: plain_hook_def dict_of_pairs_def)

text \<open>A hook that accepts more builds the same values wherever the stricter one succeeds.\<close>

lemma scan_hook_mono:
  assumes hk: "\<And>ps v. hk ps = Inr v \<Longrightarrow> hk' ps = Inr v"
  shows "jvalue hk f rl s = Inr x \<Longrightarrow> jvalue hk' f rl s = Inr x"
    and "jitems hk f rl s = Inr xs \<Longrightarrow> jitems hk' f rl s = Inr xs"
    and "jmembers hk f rl s = Inr kvs \<Longrightarrow> jmembers hk' f rl s = Inr kvs"
proof (induction f arbitrary: rl s x xs kvs)
  case 0
  {
    case 1 then show ?case by simp
  next
    case 2 then show ?case by simp
  next
    case 3 then show ?case by simp
  }
next
  case (Suc f)
  {
    case 1
    then show ?case
      by (cases s) (auto split: if_splits option.splits dest!: hk Suc.IH(2) Suc.IH(3))
  next
    case 2
    then obtain v r where v: "jvalue hk f rl s = Inr (v, r)" by auto
    with 2 show ?case
      by (cases "skip_ws r") (auto split: if_splits dest!: Suc.IH(1) Suc.IH(2))
  next
    case 3
    then obtain s1 k s2 where s: "s = 34 # s1" "jstring s1 = Some (k, s2)"
      by (auto split: list.splits if_splits option.splits)
    from 3 s obtain v r where "jvalue hk f rl (skip_ws (tl (skip_ws s2))) = Inr (v, r)"
      by (auto split: if_splits)
    with 3 s show ?case
      by (cases "skip_ws r") (auto split: if_splits dest!: Suc.IH(1) Suc.IH(3))
  }
qed

lemma loads_text_Inr:
  "loads_text hk rl s = Inr v \<longleftrightarrow> \<not> starts_with s [65279] \<and>
    (\<exists>r. jvalue hk (Suc (2 * length s)) rl (skip_ws s) = Inr (v, r) \<and> skip_ws r = [])"
  by (auto simp: loads_text_def simp del: jvalue.simps split: if_splits prod.splits)

lemma loads_bytes_hook_mono:
  assumes "\<And>ps v. hk ps = Inr v \<Longrightarrow> hk' ps = Inr v"
  shows "loads_bytes hk rl b = Inr v \<Longrightarrow> loads_bytes hk' rl b = Inr v"
proof -
  have mono: "jvalue hk f rl s = Inr x \<Longrightarrow> jvalue hk' f rl s = Inr x" for f s x
    using assms by (rule scan_hook_mono(1))
  show "loads_bytes hk rl b = Inr v \<Longrightarrow> loads_bytes hk' rl b = Inr v"
    unfolding loads_bytes_def
    by (cases "json_decode b") (auto simp: loads_text_Inr simp del: jvalue.simps dest: mono)
qed

text \<open>A property of values that holds of every scalar, and that the hook and lists preserve,
  holds of everything the scanner builds.\<close>

definition scalar :: "pyval \<Rightarrow> bool" where
  "scalar v \<longleftrightarrow> \<not> is_dict v \<and> \<not> is_list v"

lemma jnumber_scalar: "jnumber s = Inr (v, r) \<Longrightarrow> scalar v"
  by (auto simp: jnumber_def Let_def scalar_def split: option.splits prod.splits if_splits)

lemma jliteral_scalar: "jliteral s = Some (v, r) \<Longrightarrow> scalar v"
  by (auto simp: jliteral_def jliterals_def scalar_def split: if_splits)

lemma scan_all:
  assumes sc: "\<And>v. scalar v \<Longrightarrow> P v"
    and li: "\<And>vs. (\<And>v. v \<in> set vs \<Longrightarrow> P v) \<Longrightarrow> P (PList vs)"
    and hk: "\<And>ps v. hk ps = Inr v \<Longrightarrow> (\<And>w. w \<in> snd ` set ps \<Longrightarrow> P w) \<Longrightarrow> P v"
  shows "jvalue hk f rl s = Inr (v, r) \<Longrightarrow> P v"
    and "jitems hk f rl s = Inr (vs, r) \<Longrightarrow> list_all P vs"
    and "jmembers hk f rl s = Inr (kvs, r) \<Longrightarrow> list_all P (map snd kvs)"
proof (induction f arbitrary: rl s v vs kvs r)
  case 0
  {
    case 1 then show ?case by simp
  next
    case 2 then show ?case by simp
  next
    case 3 then show ?case by simp
  }
next
  case (Suc f)
  have str: "P (PStr t)" for t by (rule sc) (simp add: scalar_def)
  have nil: "P (PList [])" by (rule li) simp
  have obj: "P w" if "jmembers hk f rl' s' = Inr (ps, r')" "hk ps = Inr w" for rl' s' ps r' w
    using Suc.IH(3) [OF that(1)] by (intro hk [OF that(2)]) (auto simp: list_all_iff)
  have arr: "P (PList ws)" if "jitems hk f rl' s' = Inr (ws, r')" for rl' s' ws r'
    using Suc.IH(2) [OF that] by (intro li) (auto simp: list_all_iff)
  {
    case 1
    then show ?case
    proof (cases s)
      case (Cons c t)
      with 1 show ?thesis
        using str nil hk [of "[]"] obj arr
        by (auto split: if_splits option.splits dest: jnumber_scalar jliteral_scalar intro: sc)
    qed simp
  next
    case 2
    then obtain w r1 where v: "jvalue hk f rl s = Inr (w, r1)" by auto
    with 2 Suc.IH(1) [OF v] show ?case
      by (cases "skip_ws r1") (auto split: if_splits dest!: Suc.IH(2))
  next
    case 3
    then obtain s1 k s2 where s: "s = 34 # s1" "jstring s1 = Some (k, s2)"
      by (auto split: list.splits if_splits option.splits)
    from 3 s obtain w r1 where v: "jvalue hk f rl (skip_ws (tl (skip_ws s2))) = Inr (w, r1)"
      by (auto split: if_splits)
    with 3 s Suc.IH(1) [OF v] show ?case
      by (cases "skip_ws r1") (auto split: if_splits dest!: Suc.IH(3))
  }
qed

lemma loads_bytes_all:
  assumes "\<And>v. scalar v \<Longrightarrow> P v"
    and "\<And>vs. (\<And>v. v \<in> set vs \<Longrightarrow> P v) \<Longrightarrow> P (PList vs)"
    and "\<And>ps v. hk ps = Inr v \<Longrightarrow> (\<And>w. w \<in> snd ` set ps \<Longrightarrow> P w) \<Longrightarrow> P v"
  shows "loads_bytes hk rl b = Inr v \<Longrightarrow> P v"
  using scan_all(1) [of P hk, OF assms]
  by (auto simp: loads_bytes_def loads_text_Inr simp del: jvalue.simps split: option.splits)

end
