(* ===== verification/JsonRpc.thy ===== *)
theory JsonRpc
  imports Json
begin

text \<open>
  \<open>protocol/jsonrpc.py\<close>: the JSON-RPC 2.0 adapter. \<open>parse_message\<close> turns a raw message into the
  tool calls it carries, under a byte budget and a nesting budget. The text of an error is kept
  as a constructor of \<open>rpc_reason\<close>, one per \<open>raise\<close> of the source.
\<close>

section \<open>Data\<close>

datatype rpc_reason =
    MessageTooLarge nat int
  | InvalidJson json_error
  | NotObjectOrArray
  | DepthExceeded int
  | EmptyBatch
  | BadVersion "pyval option"
  | BadMethod
  | BadParams
  | BadToolName
  | BadArguments

text \<open>\<open>JSONRPCError\<close> and the two exceptions of the standard library that \<open>parse_message\<close> lets
  through: a \<open>str\<close> with a lone surrogate cannot be encoded, and the scanner may hit the recursion
  limit, neither of which is a \<open>JSONRPCError\<close>.\<close>

datatype rpc_exn =
    JSONRPCError int rpc_reason
  | EncodeError
  | RecursionLimit

record parsed_tool_call =
  tc_name :: pystr
  tc_arguments :: pydict
  tc_request_id :: pyval
  tc_method :: pystr
  tc_is_notification :: bool
  tc_raw_message :: pydict

definition to_internal_format :: "parsed_tool_call \<Rightarrow> pydict" where
  "to_internal_format tc =
     [(u ''name'', PStr (tc_name tc)), (u ''arguments'', PDict (tc_arguments tc))]"

record adapter =
  ad_max_message_bytes :: int
  ad_max_depth :: int

definition DEFAULT_MAX_MESSAGE_BYTES :: int where
  "DEFAULT_MAX_MESSAGE_BYTES = 1048576"

definition DEFAULT_MAX_DEPTH :: int where
  "DEFAULT_MAX_DEPTH = 64"

definition make_adapter :: "int option \<Rightarrow> int option \<Rightarrow> adapter" where
  "make_adapter max_bytes max_depth =
    \<lparr>ad_max_message_bytes = (case max_bytes of None \<Rightarrow> DEFAULT_MAX_MESSAGE_BYTES | Some b \<Rightarrow> b),
     ad_max_depth = (case max_depth of None \<Rightarrow> DEFAULT_MAX_DEPTH | Some d \<Rightarrow> d)\<rparr>"

definition TOOL_CALL_METHODS :: "pystr list" where
  "TOOL_CALL_METHODS = [u ''tools/call'']"

text \<open>\<open>raw: str | bytes | dict | list\<close>; any other already-parsed value is a \<open>RawValue\<close> too.\<close>

datatype raw_message = RawStr pystr | RawBytes pybytes | RawValue pyval

section \<open>The nesting guard\<close>

definition is_container :: "pyval \<Rightarrow> bool" where
  "is_container v \<longleftrightarrow> is_dict v \<or> is_list v"

fun node_values :: "pyval \<Rightarrow> pyval list" where
  "node_values (PDict d) = map snd d"
| "node_values (PList xs) = xs"
| "node_values _ = []"

definition pushed :: "pyval \<Rightarrow> int \<Rightarrow> (pyval \<times> int) list" where
  "pushed node depth = map (\<lambda>v. (v, depth + 1)) (filter is_container (node_values node))"

fun vsize :: "pyval \<Rightarrow> nat" where
  "vsize (PList xs) = Suc (sum_list (map vsize xs))"
| "vsize (PDict d) = Suc (sum_list (map (\<lambda>(k, v). vsize v) d))"
| "vsize _ = 1"

lemma vsize_node_values: "sum_list (map vsize (node_values v)) < vsize v"
  by (cases v) (simp_all add: case_prod_unfold comp_def)

lemma sum_filter_le: "sum_list (map f (filter P xs)) \<le> sum_list (map f (xs :: 'a list))" for f :: "'a \<Rightarrow> nat"
  by (induction xs) auto

lemma pushed_less: "sum_list (map (vsize \<circ> fst) (pushed v d)) < vsize v"
  using vsize_node_values [of v] sum_filter_le [of vsize is_container "node_values v"]
  by (simp add: pushed_def comp_def)

text \<open>\<open>_check_depth\<close>: an explicit work stack, its top at the head of the list. \<open>pop\<close> takes the
  entry pushed last, so the children come back in reverse order.\<close>

function check_depth_loop :: "int \<Rightarrow> (pyval \<times> int) list \<Rightarrow> bool" where
  "check_depth_loop max_depth [] = True"
| "check_depth_loop max_depth ((node, depth) # stack) =
     (if depth > max_depth then False
      else check_depth_loop max_depth (rev (pushed node depth) @ stack))"
  by pat_completeness auto
termination
  by (relation "measure (\<lambda>(m, st). sum_list (map (vsize \<circ> fst) st))")
    (auto simp: rev_map [symmetric] pushed_less)

definition check_depth :: "adapter \<Rightarrow> pyval \<Rightarrow> rpc_exn + unit" where
  "check_depth ad data =
     (if check_depth_loop (ad_max_depth ad) [(data, 1)] then Inr ()
      else Inl (JSONRPCError (-32600) (DepthExceeded (ad_max_depth ad))))"

text \<open>The reference: how many containers are nested along the deepest path (a scalar counts as
  the level it sits at only when it is the whole message).\<close>

fun nesting :: "pyval \<Rightarrow> int" where
  "nesting (PList xs) = 1 + foldr max (map nesting xs) 0"
| "nesting (PDict d) = 1 + foldr max (map (\<lambda>(k, v). nesting v) d) 0"
| "nesting _ = 0"

section \<open>Parsing\<close>

text \<open>\<open>_parse_single\<close>.\<close>

definition parse_single :: "pydict \<Rightarrow> rpc_exn + parsed_tool_call option" where
  "parse_single msg =
    (if dget msg (u ''jsonrpc'') \<noteq> Some (PStr (u ''2.0''))
     then Inl (JSONRPCError (-32600) (BadVersion (dget msg (u ''jsonrpc''))))
     else if has_key msg (u ''result'') \<or> has_key msg (u ''error'') then Inr None
     else (case dget_or msg (u ''method'') PNone of
       PStr method \<Rightarrow>
         (let is_notification = \<not> has_key msg (u ''id'');
              request_id = dget_or msg (u ''id'') PNone
          in if method \<notin> set TOOL_CALL_METHODS then
               (if starts_with method (u ''tools/'') \<or> starts_with method (u ''notifications/'')
                then Inr (Some \<lparr>tc_name = [], tc_arguments = [], tc_request_id = request_id,
                       tc_method = method, tc_is_notification = is_notification,
                       tc_raw_message = msg\<rparr>)
                else Inr None)
             else (case dget_or msg (u ''params'') (PDict []) of
               PDict params \<Rightarrow>
                 (case dget_or params (u ''name'') (PStr []) of
                    PStr tool_name \<Rightarrow>
                      (case dget_or params (u ''arguments'') (PDict []) of
                         PDict arguments \<Rightarrow>
                           Inr (Some \<lparr>tc_name = tool_name, tc_arguments = arguments,
                             tc_request_id = request_id, tc_method = method,
                             tc_is_notification = is_notification, tc_raw_message = msg\<rparr>)
                       | _ \<Rightarrow> Inl (JSONRPCError (-32602) BadArguments))
                  | _ \<Rightarrow> Inl (JSONRPCError (-32602) BadToolName))
             | _ \<Rightarrow> Inl (JSONRPCError (-32602) BadParams)))
     | _ \<Rightarrow> Inl (JSONRPCError (-32600) BadMethod)))"

text \<open>\<open>_parse_batch\<close>: entries that are not objects are skipped, an invalid object fails the
  whole batch.\<close>

fun parse_batch_loop :: "pyval list \<Rightarrow> rpc_exn + parsed_tool_call list" where
  "parse_batch_loop [] = Inr []"
| "parse_batch_loop (PDict msg # msgs) =
     rbind (parse_single msg) (\<lambda>parsed.
       rbind (parse_batch_loop msgs) (\<lambda>results.
         Inr (case parsed of None \<Rightarrow> results | Some tc \<Rightarrow> tc # results)))"
| "parse_batch_loop (_ # msgs) = parse_batch_loop msgs"

definition parse_batch :: "pyval list \<Rightarrow> rpc_exn + parsed_tool_call list" where
  "parse_batch messages =
     (if messages = [] then Inl (JSONRPCError (-32600) EmptyBatch)
      else parse_batch_loop messages)"

text \<open>The first half of \<open>parse_message\<close>: the byte budget, then \<open>json.loads\<close>.\<close>

definition loads_checked ::
    "adapter \<Rightarrow> pybytes \<Rightarrow> json_error + pyval \<Rightarrow> rpc_exn + pyval" where
  "loads_checked ad raw_bytes loaded =
    (if int (length raw_bytes) > ad_max_message_bytes ad
     then Inl (JSONRPCError (-32600)
            (MessageTooLarge (length raw_bytes) (ad_max_message_bytes ad)))
     else (case loaded of
         Inr data \<Rightarrow> Inr data
       | Inl RecursionError \<Rightarrow> Inl RecursionLimit
       | Inl e \<Rightarrow> Inl (JSONRPCError (-32700) (InvalidJson e))))"

definition read_raw :: "adapter \<Rightarrow> nat \<Rightarrow> raw_message \<Rightarrow> rpc_exn + pyval" where
  "read_raw ad rl raw =
    (case raw of
       RawStr s \<Rightarrow>
         (case utf8_encode s of
            None \<Rightarrow> Inl EncodeError
          | Some raw_bytes \<Rightarrow> loads_checked ad raw_bytes (loads_text plain_hook rl s))
     | RawBytes b \<Rightarrow> loads_checked ad b (loads_bytes plain_hook rl b)
     | RawValue v \<Rightarrow> Inr v)"

definition parse_message :: "adapter \<Rightarrow> nat \<Rightarrow> raw_message \<Rightarrow> rpc_exn + parsed_tool_call list" where
  "parse_message ad rl raw =
     rbind (read_raw ad rl raw) (\<lambda>data.
     rbind (check_depth ad data) (\<lambda>_.
       (case data of
          PList messages \<Rightarrow> parse_batch messages
        | PDict msg \<Rightarrow>
            rbind (parse_single msg) (\<lambda>result.
              Inr (case result of None \<Rightarrow> [] | Some tc \<Rightarrow> [tc]))
        | _ \<Rightarrow> Inl (JSONRPCError (-32600) NotObjectOrArray))))"

definition parse_and_extract :: "adapter \<Rightarrow> nat \<Rightarrow> raw_message \<Rightarrow> rpc_exn + pydict list" where
  "parse_and_extract ad rl raw =
     rbind (parse_message ad rl raw) (\<lambda>parsed. Inr (map to_internal_format parsed))"

text \<open>\<open>is_tool_call_request\<close> catches \<open>JSONRPCError\<close> only.\<close>

definition is_tool_call_request :: "adapter \<Rightarrow> nat \<Rightarrow> raw_message \<Rightarrow> rpc_exn + bool" where
  "is_tool_call_request ad rl raw =
     (case parse_message ad rl raw of
        Inr parsed \<Rightarrow> Inr (length parsed > 0)
      | Inl (JSONRPCError c r) \<Rightarrow> Inr False
      | Inl e \<Rightarrow> Inl e)"

section \<open>The nesting guard is the nesting depth\<close>

lemma foldr_max_le: "foldr max xs (0::int) \<le> b \<longleftrightarrow> 0 \<le> b \<and> (\<forall>x \<in> set xs. x \<le> b)"
  by (induction xs) auto

lemma nesting_node: "is_container v \<Longrightarrow> nesting v = 1 + foldr max (map nesting (node_values v)) 0"
  by (cases v) (auto simp: is_container_def case_prod_unfold comp_def)

lemma nesting_scalar: "\<not> is_container v \<Longrightarrow> nesting v = 0"
  by (cases v) (auto simp: is_container_def)

lemma foldr_max_nonneg: "0 \<le> foldr max xs (0::int)"
  by (induction xs) auto

lemma nesting_container: "is_container v \<Longrightarrow> 1 \<le> nesting v"
  using foldr_max_nonneg [of "map nesting (node_values v)"] by (simp add: nesting_node)

lemma node_values_scalar: "\<not> is_container v \<Longrightarrow> node_values v = []"
  by (cases v) (auto simp: is_container_def)

lemma level_step:
  "d \<le> m \<and> (\<forall>c \<in> set (node_values v). is_container c \<longrightarrow> (d + 1) + max 0 (nesting c - 1) \<le> m)
    \<longleftrightarrow> d + max 0 (nesting v - 1) \<le> m"
proof (cases "is_container v")
  case True
  have "(d + 1) + max 0 (nesting c - 1) \<le> m \<longleftrightarrow> d + nesting c \<le> m" if "is_container c" for c
    using nesting_container [OF that] by auto
  moreover have "nesting c \<le> b" if "\<not> is_container c" "0 \<le> b" for c b
    using that by (simp add: nesting_scalar)
  ultimately have "(d \<le> m \<and> (\<forall>c \<in> set (node_values v). is_container c \<longrightarrow>
        (d + 1) + max 0 (nesting c - 1) \<le> m))
      \<longleftrightarrow> (0 \<le> m - d \<and> (\<forall>c \<in> set (node_values v). nesting c \<le> m - d))"
    by (smt (verit, best))
  also have "\<dots> \<longleftrightarrow> foldr max (map nesting (node_values v)) 0 \<le> m - d"
    by (simp add: foldr_max_le)
  also have "\<dots> \<longleftrightarrow> d + max 0 (nesting v - 1) \<le> m"
    using foldr_max_nonneg [of "map nesting (node_values v)"] True by (auto simp: nesting_node)
  finally show ?thesis .
next
  case False
  then show ?thesis by (simp add: node_values_scalar nesting_scalar)
qed

lemma check_depth_loop_iff:
  "check_depth_loop m st \<longleftrightarrow> (\<forall>(v, d) \<in> set st. d + max 0 (nesting v - 1) \<le> m)"
proof (induction m st rule: check_depth_loop.induct)
  case (1 m)
  show ?case by simp
next
  case (2 m node depth stack)
  have "check_depth_loop m ((node, depth) # stack) \<longleftrightarrow>
      depth \<le> m \<and> (\<forall>(v, d) \<in> set (pushed node depth) \<union> set stack. d + max 0 (nesting v - 1) \<le> m)"
    using 2 by auto
  also have "\<dots> \<longleftrightarrow> (depth \<le> m \<and> (\<forall>c \<in> set (node_values node). is_container c \<longrightarrow>
        (depth + 1) + max 0 (nesting c - 1) \<le> m))
      \<and> (\<forall>(v, d) \<in> set stack. d + max 0 (nesting v - 1) \<le> m)"
    by (auto simp: pushed_def)
  also have "\<dots> \<longleftrightarrow> (\<forall>(v, d) \<in> set ((node, depth) # stack). d + max 0 (nesting v - 1) \<le> m)"
    by (subst level_step) simp
  finally show ?case .
qed

lemma check_depth_iff: "check_depth ad data = Inr () \<longleftrightarrow> max 1 (nesting data) \<le> ad_max_depth ad"
  by (auto simp: check_depth_def check_depth_loop_iff)

text \<open>
  C15: The explicit-stack guard \<open>_check_depth\<close> accepts a message exactly when its recursive
  nesting depth (at least one level, the message itself) is within \<open>max_depth\<close>: the
  stack-safe loop computes the same verdict as the obvious recursion it replaces.
\<close>

theorem check_depth_nesting:
  "check_depth ad data = Inr () \<longleftrightarrow> max 1 (nesting data) \<le> ad_max_depth ad"
  by (rule check_depth_iff)

section \<open>What a parsed message guarantees\<close>

lemma parse_single_codes:
  "parse_single msg = Inl e \<Longrightarrow> \<exists>c r. e = JSONRPCError c r \<and> c \<in> {-32600, -32602}"
  by (auto simp: parse_single_def Let_def split: if_splits pyval.splits)

lemma parse_batch_loop_codes:
  "parse_batch_loop ms = Inl e \<Longrightarrow> \<exists>c r. e = JSONRPCError c r \<and> c \<in> {-32600, -32602}"
  by (induction ms rule: parse_batch_loop.induct)
    (auto simp: rbind_eq_Inl dest: parse_single_codes)

lemma read_raw_codes:
  "read_raw ad rl raw = Inl e \<Longrightarrow>
     e = EncodeError \<or> e = RecursionLimit \<or> (\<exists>c r. e = JSONRPCError c r \<and> c \<in> {-32600, -32700})"
  by (auto simp: read_raw_def loads_checked_def
      split: raw_message.splits option.splits if_splits sum.splits json_error.splits)

text \<open>
  Every failure of \<open>parse_message\<close> carries one of the three documented JSON-RPC codes
  (parse error, invalid request, invalid params), or is one of the two exceptions the method
  does not convert: an unencodable \<open>str\<close> and the scanner's recursion limit.
\<close>

theorem parse_message_error_codes:
  assumes "parse_message ad rl raw = Inl e"
  shows "e = EncodeError \<or> e = RecursionLimit \<or>
    (\<exists>c r. e = JSONRPCError c r \<and> c \<in> {-32700, -32600, -32602})"
proof -
  have depth: "check_depth ad v = Inl e' \<Longrightarrow> \<exists>c r. e' = JSONRPCError c r \<and> c = -32600" for v e'
    by (auto simp: check_depth_def split: if_splits)
  show ?thesis
  proof (cases "read_raw ad rl raw")
    case (Inl e')
    with assms show ?thesis by (auto simp: parse_message_def dest: read_raw_codes)
  next
    case (Inr data)
    with assms show ?thesis
      by (cases data)
        (auto simp: parse_message_def rbind_eq_Inl parse_batch_def split: if_splits
          dest!: depth parse_single_codes parse_batch_loop_codes)
  qed
qed

text \<open>The error codes at a concrete input: an empty batch is refused with code -32600.\<close>

theorem parse_message_error_codes_witness:
  "parse_message (make_adapter None None) 100 (RawValue (PList [])) =
     Inl (JSONRPCError (-32600) EmptyBatch) \<and>
   (JSONRPCError (-32600) EmptyBatch = EncodeError \<or> JSONRPCError (-32600) EmptyBatch = RecursionLimit
    \<or> (\<exists>c r. JSONRPCError (-32600) EmptyBatch = JSONRPCError c r \<and> c \<in> {-32700, -32600, -32602}))"
proof -
  have e: "parse_message (make_adapter None None) 100 (RawValue (PList [])) =
      Inl (JSONRPCError (-32600) EmptyBatch)"
    by (simp add: parse_message_def read_raw_def check_depth_def pushed_def make_adapter_def
        DEFAULT_MAX_DEPTH_def parse_batch_def)
  show ?thesis using e parse_message_error_codes [OF e] by blast
qed

text \<open>The budgets hold for whatever comes out of \<open>parse_message\<close>.\<close>

fun within_budget :: "adapter \<Rightarrow> raw_message \<Rightarrow> bool" where
  "within_budget ad (RawStr s) =
     (case utf8_encode s of None \<Rightarrow> False | Some b \<Rightarrow> int (length b) \<le> ad_max_message_bytes ad)"
| "within_budget ad (RawBytes b) = (int (length b) \<le> ad_max_message_bytes ad)"
| "within_budget ad (RawValue v) = True"

lemma loads_checked_Inr:
  "loads_checked ad b l = Inr v \<longleftrightarrow> int (length b) \<le> ad_max_message_bytes ad \<and> l = Inr v"
  by (auto simp: loads_checked_def split: sum.splits json_error.splits if_splits)

lemma read_raw_Inr: "read_raw ad rl raw = Inr v \<Longrightarrow> within_budget ad raw"
  by (cases raw) (auto simp: read_raw_def loads_checked_Inr split: option.splits)

text \<open>
  A message that \<open>parse_message\<close> accepts came in within the byte budget (measured in
  UTF-8 for a \<open>str\<close>) and holds a value nested at most \<open>max_depth\<close> deep; both guards run
  before any message is interpreted.
\<close>

theorem parse_message_within_budgets:
  assumes "parse_message ad rl raw = Inr calls"
  shows "within_budget ad raw \<and>
    (\<exists>data. read_raw ad rl raw = Inr data \<and> nesting data \<le> ad_max_depth ad)"
proof -
  from assms obtain data where d: "read_raw ad rl raw = Inr data" "check_depth ad data = Inr ()"
    by (auto simp: parse_message_def)
  then show ?thesis
    using check_depth_iff [of ad data] by (auto dest: read_raw_Inr)
qed

theorem parse_message_within_budgets_witness:
  "parse_message (make_adapter (Some 3) None) 10 (RawBytes [91, 48, 93]) = Inr [] \<and>
   within_budget (make_adapter (Some 3) None) (RawBytes [91, 48, 93])"
proof -
  have e: "parse_message (make_adapter (Some 3) None) 10 (RawBytes [91, 48, 93]) = Inr []"
    by code_simp
  show ?thesis using e parse_message_within_budgets [OF e] by blast
qed

section \<open>Which messages become tool calls\<close>

text \<open>A message asks for tool \<open>name\<close> with \<open>args\<close> when it is a JSON-RPC 2.0 request for
  \<open>tools/call\<close>, no response, and each of the optional members is absent or of the right kind.\<close>

definition requests_call :: "pydict \<Rightarrow> pystr \<Rightarrow> pydict \<Rightarrow> bool" where
  "requests_call msg name args \<longleftrightarrow>
     dget msg (u ''jsonrpc'') = Some (PStr (u ''2.0'')) \<and>
     \<not> has_key msg (u ''result'') \<and> \<not> has_key msg (u ''error'') \<and>
     dget msg (u ''method'') = Some (PStr (u ''tools/call'')) \<and>
     (\<exists>params. dget_or msg (u ''params'') (PDict []) = PDict params \<and>
        dget_or params (u ''name'') (PStr []) = PStr name \<and>
        dget_or params (u ''arguments'') (PDict []) = PDict args)"

definition call_of :: "pydict \<Rightarrow> pystr \<Rightarrow> pydict \<Rightarrow> parsed_tool_call" where
  "call_of msg name args =
    \<lparr>tc_name = name, tc_arguments = args, tc_request_id = dget_or msg (u ''id'') PNone,
     tc_method = u ''tools/call'', tc_is_notification = (\<not> has_key msg (u ''id'')),
     tc_raw_message = msg\<rparr>"

lemma dget_or_PStr_method:
  "dget_or msg k PNone = PStr s \<longleftrightarrow> dget msg k = Some (PStr s)"
  by (auto simp: dget_or_def split: option.splits)

text \<open>
  \<open>_parse_single\<close> yields a \<open>tools/call\<close> for inspection exactly when the message requests
  one, with the name, arguments, request id and notification flag of the message: nothing that
  requests a call is dropped, and nothing is inspected under another name or other arguments.
\<close>

theorem parse_single_tool_call_iff:
  "(parse_single msg = Inr (Some tc) \<and> tc_method tc = u ''tools/call'') \<longleftrightarrow>
   (\<exists>name args. requests_call msg name args \<and> tc = call_of msg name args)"
proof
  assume "parse_single msg = Inr (Some tc) \<and> tc_method tc = u ''tools/call''"
  then show "\<exists>name args. requests_call msg name args \<and> tc = call_of msg name args"
    by (auto simp: parse_single_def requests_call_def call_of_def Let_def TOOL_CALL_METHODS_def
        dget_or_PStr_method split: if_splits pyval.splits)
next
  assume "\<exists>name args. requests_call msg name args \<and> tc = call_of msg name args"
  then show "parse_single msg = Inr (Some tc) \<and> tc_method tc = u ''tools/call''"
    by (auto simp: parse_single_def requests_call_def call_of_def Let_def TOOL_CALL_METHODS_def
        dget_or_PStr_method split: if_splits pyval.splits)
qed

end
