(* ===== verification/TokenBucket.thy ===== *)
theory TokenBucket
  imports Prelude
begin

text \<open>
  \<open>production/rate_limiter.py\<close>: the token bucket used by the stdio proxy and by the production
  server, and the interface through which its clients rely on it. Each operation is given the
  reading \<open>now\<close> of \<open>time.monotonic()\<close>; the lock makes every operation one step. Times and
  token counts are rationals, so the rounding of floats is not modelled.
\<close>

section \<open>The interface: a gate with credit\<close>

text \<open>A gate admits or refuses a request at a time. Its state carries a credit that admission
  spends and that grows at a bounded rate. Runs at non-decreasing times then admit at most the
  credit they started with plus what accrued.\<close>

fun gate_run :: "(rat \<Rightarrow> 's \<Rightarrow> bool \<times> 's) \<Rightarrow> rat list \<Rightarrow> 's \<Rightarrow> bool list \<times> 's" where
  "gate_run gate [] s = ([], s)"
| "gate_run gate (t # ts) s =
     (let (ok, s') = gate t s; (oks, s'') = gate_run gate ts s' in (ok # oks, s''))"

definition admitted :: "bool list \<Rightarrow> rat" where
  "admitted oks = of_nat (length (filter id oks))"

lemma admitted_simps [simp]:
  "admitted [] = 0" "admitted (b # bs) = (if b then 1 else 0) + admitted bs"
  by (simp_all add: admitted_def)

lemma admitted_nonneg: "0 \<le> admitted bs"
  by (simp add: admitted_def)

locale rate_gate =
  fixes gate :: "rat \<Rightarrow> 's \<Rightarrow> bool \<times> 's"
    and credit :: "'s \<Rightarrow> rat"
    and rate :: "'s \<Rightarrow> rat"
    and clock :: "'s \<Rightarrow> rat"
    and ok :: "'s \<Rightarrow> bool"
  assumes ok_gate: "ok s \<Longrightarrow> clock s \<le> now \<Longrightarrow> gate now s = (b, s') \<Longrightarrow> ok s'"
    and clock_gate: "gate now s = (b, s') \<Longrightarrow> clock s' = now"
    and rate_gate: "gate now s = (b, s') \<Longrightarrow> rate s' = rate s"
    and spend: "ok s \<Longrightarrow> clock s \<le> now \<Longrightarrow> gate now s = (b, s') \<Longrightarrow>
      credit s' + (if b then 1 else 0) \<le> credit s + rate s * (now - clock s)"
    and credit_nonneg: "ok s \<Longrightarrow> 0 \<le> credit s"
begin

lemma run_step:
  assumes "ok s" "clock s \<le> t" "gate t s = (b, s')"
  shows "ok s'" "clock s' = t" "rate s' = rate s"
    "credit s' + (if b then 1 else 0) \<le> credit s + rate s * (t - clock s)"
  using ok_gate [OF assms] clock_gate [OF assms(3)] rate_gate [OF assms(3)] spend [OF assms]
  by auto

lemma run_spend:
  "ok s \<Longrightarrow> sorted (clock s # ts) \<Longrightarrow> gate_run gate ts s = (oks, s') \<Longrightarrow>
    ok s' \<and> clock s' = last (clock s # ts) \<and>
    credit s' + admitted oks \<le> credit s + rate s * (clock s' - clock s)"
proof (induction ts arbitrary: s oks)
  case Nil
  then show ?case by simp
next
  case (Cons t ts)
  obtain b s1 where g: "gate t s = (b, s1)" by fastforce
  obtain bs where r: "gate_run gate ts s1 = (bs, s')" "oks = b # bs"
    using Cons.prems(3) g by (auto split: prod.splits)
  have le: "clock s \<le> t" using Cons.prems(2) by simp
  note st = run_step [OF Cons.prems(1) le g]
  have IH: "ok s' \<and> clock s' = last (clock s1 # ts) \<and>
      credit s' + admitted bs \<le> credit s1 + rate s1 * (clock s' - clock s1)"
    using Cons.prems(2) st by (intro Cons.IH r) auto
  have "rate s * (clock s' - t) + rate s * (t - clock s) = rate s * (clock s' - clock s)"
    by (simp add: algebra_simps)
  with IH st r(2) show ?case by auto
qed

theorem run_admitted:
  assumes "ok s" "sorted (clock s # ts)" "gate_run gate ts s = (oks, s')"
  shows "admitted oks \<le> credit s + rate s * (last (clock s # ts) - clock s)"
  using run_spend [OF assms] credit_nonneg [of s'] by auto

end

section \<open>The token bucket\<close>

record rate_limiter =
  rl_tokens_per_minute :: int
  rl_burst_size :: int
  rl_tokens :: rat
  rl_last_refill :: rat

definition make_rate_limiter :: "int \<Rightarrow> int option \<Rightarrow> rat \<Rightarrow> rate_limiter" where
  "make_rate_limiter tokens_per_minute burst_size now =
    (let burst = (case burst_size of None \<Rightarrow> tokens_per_minute | Some b \<Rightarrow> b)
     in \<lparr>rl_tokens_per_minute = tokens_per_minute, rl_burst_size = burst,
         rl_tokens = of_int burst, rl_last_refill = now\<rparr>)"

definition refill_rate :: "rate_limiter \<Rightarrow> rat" where
  "refill_rate s = of_int (rl_tokens_per_minute s) / 60"

text \<open>\<open>_refill\<close>, \<open>allow\<close>, \<open>remaining_tokens\<close>, \<open>reset\<close>.\<close>

definition rl_refill :: "rat \<Rightarrow> rate_limiter \<Rightarrow> rate_limiter" where
  "rl_refill now s =
    (let elapsed = now - rl_last_refill s;
         new_tokens = elapsed * refill_rate s
     in s\<lparr>rl_tokens := min (rl_tokens s + new_tokens) (of_int (rl_burst_size s)),
          rl_last_refill := now\<rparr>)"

definition rl_allow :: "rat \<Rightarrow> rate_limiter \<Rightarrow> bool \<times> rate_limiter" where
  "rl_allow now s =
    (let s1 = rl_refill now s
     in if 1 \<le> rl_tokens s1 then (True, s1\<lparr>rl_tokens := rl_tokens s1 - 1\<rparr>) else (False, s1))"

definition rl_remaining_tokens :: "rat \<Rightarrow> rate_limiter \<Rightarrow> rat \<times> rate_limiter" where
  "rl_remaining_tokens now s = (let s1 = rl_refill now s in (rl_tokens s1, s1))"

definition rl_reset :: "rat \<Rightarrow> rate_limiter \<Rightarrow> rate_limiter" where
  "rl_reset now s = s\<lparr>rl_tokens := of_int (rl_burst_size s), rl_last_refill := now\<rparr>"

text \<open>The state invariant: a non-negative configuration and a token count within the bucket.\<close>

definition bucket_ok :: "rate_limiter \<Rightarrow> bool" where
  "bucket_ok s \<longleftrightarrow> 0 \<le> rl_tokens_per_minute s \<and> 0 \<le> rl_tokens s \<and>
     rl_tokens s \<le> of_int (rl_burst_size s)"

lemma bucket_ok_burst: "bucket_ok s \<Longrightarrow> 0 \<le> rl_burst_size s"
  by (auto simp: bucket_ok_def dest: order_trans)

lemma bucket_ok_tokens: "bucket_ok s \<Longrightarrow> 0 \<le> rl_tokens s"
  by (simp add: bucket_ok_def)

lemma refill_rate_nonneg: "bucket_ok s \<Longrightarrow> 0 \<le> refill_rate s"
  by (simp add: bucket_ok_def refill_rate_def)

lemma refill_simps [simp]:
  "rl_tokens_per_minute (rl_refill now s) = rl_tokens_per_minute s"
  "rl_burst_size (rl_refill now s) = rl_burst_size s"
  "rl_last_refill (rl_refill now s) = now"
  "refill_rate (rl_refill now s) = refill_rate s"
  by (simp_all add: rl_refill_def Let_def refill_rate_def)

lemma refill_tokens:
  "rl_tokens (rl_refill now s) =
     min (rl_tokens s + (now - rl_last_refill s) * refill_rate s) (of_int (rl_burst_size s))"
  by (simp add: rl_refill_def Let_def)

lemma refill_ok: "bucket_ok s \<Longrightarrow> rl_last_refill s \<le> now \<Longrightarrow> bucket_ok (rl_refill now s)"
  using refill_rate_nonneg [of s] bucket_ok_burst [of s]
  by (simp add: bucket_ok_def refill_tokens)

lemma allow_ok: "bucket_ok s \<Longrightarrow> rl_last_refill s \<le> now \<Longrightarrow> rl_allow now s = (b, s') \<Longrightarrow> bucket_ok s'"
  using refill_ok [of s now] by (auto simp: rl_allow_def Let_def bucket_ok_def split: if_splits)

lemma allow_frame:
  "rl_allow now s = (b, s') \<Longrightarrow> rl_last_refill s' = now \<and> refill_rate s' = refill_rate s \<and>
     rl_tokens_per_minute s' = rl_tokens_per_minute s \<and> rl_burst_size s' = rl_burst_size s"
  by (auto simp: rl_allow_def Let_def refill_rate_def split: if_splits)

lemma allow_spend:
  "rl_allow now s = (b, s') \<Longrightarrow>
     rl_tokens s' + (if b then 1 else 0) \<le> rl_tokens s + refill_rate s * (now - rl_last_refill s)"
  by (auto simp: rl_allow_def Let_def refill_tokens mult.commute split: if_splits)

interpretation bucket: rate_gate rl_allow rl_tokens refill_rate rl_last_refill bucket_ok
  by unfold_locales
    (auto dest: allow_ok allow_frame allow_spend bucket_ok_tokens)

section \<open>Properties\<close>

lemma make_rate_limiter_ok:
  "0 \<le> tpm \<Longrightarrow> (\<And>b. burst = Some b \<Longrightarrow> 0 \<le> b) \<Longrightarrow> bucket_ok (make_rate_limiter tpm burst now)"
  by (auto simp: bucket_ok_def make_rate_limiter_def Let_def split: option.splits)

text \<open>
  C23: Admission bound. A limiter created at time \<open>t0\<close> with \<open>tpm\<close> tokens per minute and a
  burst of \<open>burst\<close> admits, over any sequence of calls at non-decreasing times up to \<open>T\<close>, at
  most \<open>burst + tpm / 60 * (T - t0)\<close> requests.
\<close>

theorem rate_limiter_admission_bound:
  assumes "0 \<le> tpm" "0 \<le> burst" "sorted (t0 # ts)"
    and "gate_run rl_allow ts (make_rate_limiter tpm (Some burst) t0) = (oks, s')"
  shows "admitted oks \<le> of_int burst + of_int tpm / 60 * (last (t0 # ts) - t0)"
proof -
  let ?s = "make_rate_limiter tpm (Some burst) t0"
  have "bucket_ok ?s" using assms(1,2) by (intro make_rate_limiter_ok) auto
  then have "admitted oks \<le> rl_tokens ?s + refill_rate ?s *
      (last (rl_last_refill ?s # ts) - rl_last_refill ?s)"
    using assms(3,4) by (intro bucket.run_admitted) (auto simp: make_rate_limiter_def)
  then show ?thesis by (simp add: make_rate_limiter_def refill_rate_def)
qed

theorem rate_limiter_admission_bound_witness:
  "admitted [True, True, False] \<le> of_int 2 + of_int 60 / 60 * (last [0, 0, 0, 1 / 2] - 0)"
proof -
  have r: "gate_run rl_allow [0, 0, 1 / 2] (make_rate_limiter 60 (Some 2) 0) =
      ([True, True, False], \<lparr>rl_tokens_per_minute = 60, rl_burst_size = 2, rl_tokens = 1 / 2,
        rl_last_refill = 1 / 2\<rparr>)"
    by (simp add: rl_allow_def rl_refill_def refill_rate_def make_rate_limiter_def Let_def)
  show ?thesis
    by (rule rate_limiter_admission_bound [OF _ _ _ r]) simp_all
qed

text \<open>
  Recovery. Whatever the bucket's history, a client that waits long enough for one token
  to accrue (\<open>60 / tokens_per_minute\<close> seconds) is admitted, provided the bucket can hold a
  token at all: a refusal never lasts.
\<close>

theorem rate_limiter_recovers:
  assumes "bucket_ok s" "0 < rl_tokens_per_minute s" "1 \<le> rl_burst_size s"
    and "rl_last_refill s + 60 / of_int (rl_tokens_per_minute s) \<le> now"
  shows "fst (rl_allow now s)"
proof -
  have pos: "0 < refill_rate s" using assms(2) by (simp add: refill_rate_def)
  have "(60 / of_int (rl_tokens_per_minute s)) * refill_rate s = 1"
    using assms(2) by (simp add: refill_rate_def)
  moreover have "(60 / of_int (rl_tokens_per_minute s)) * refill_rate s
      \<le> (now - rl_last_refill s) * refill_rate s"
    using assms(4) pos by (intro mult_right_mono) auto
  moreover have "0 \<le> rl_tokens s" using assms(1) by (simp add: bucket_ok_def)
  ultimately have "1 \<le> rl_tokens (rl_refill now s)"
    using assms(3) by (simp add: refill_tokens)
  then show ?thesis by (simp add: rl_allow_def Let_def)
qed

theorem rate_limiter_recovers_witness:
  "fst (rl_allow 1 \<lparr>rl_tokens_per_minute = 60, rl_burst_size = 1, rl_tokens = 0,
     rl_last_refill = 0\<rparr>)"
  by (rule rate_limiter_recovers) (simp_all add: bucket_ok_def)

end
