(* ===== verification/StdioProxy.thy ===== *)
theory StdioProxy
  imports JsonRpc TokenBucket "HOL-Library.Sublist"
begin

text \<open>
  \<open>proxy/stdio_proxy.py\<close>: the inline proxy between an MCP client and the downstream server.
  The detector and the transport are injected, as in the source: the detector is a function from
  the internal tool-call format to a verdict or an exception text, the transport is what it
  answers (\<open>transport_env\<close>) and the bytes it was sent (\<open>px_sent\<close>). The k-th reading of the clock
  during one call is \<open>clk k\<close>. Replies built by the proxy are kept as records; their
  \<open>json.dumps\<close> text is not modelled.
\<close>

section \<open>Duplicate keys\<close>

text \<open>\<open>_unique_json_pairs\<close>.\<close>

fun unique_pairs_loop :: "pydict \<Rightarrow> (pystr \<times> pyval) list \<Rightarrow> json_error + pydict" where
  "unique_pairs_loop result [] = Inr result"
| "unique_pairs_loop result ((key, val) # pairs) =
     (if has_key result key then Inl (HookValueError key)
      else unique_pairs_loop (dset key val result) pairs)"

definition unique_json_pairs :: pairs_hook where
  "unique_json_pairs pairs = rbind (unique_pairs_loop [] pairs) (\<lambda>d. Inr (PDict d))"

section \<open>Decisions\<close>

datatype decision = ALLOW | BLOCK | INDETERMINATE

datatype inspect_reason =
    InvalidJsonText json_error
  | EmptyBatchText
  | BatchPassed
  | NotRequestObject
  | NonToolCall "pyval"
  | MalformedToolCall rpc_reason
  | DetectorFailed pystr
  | InjectionDetected "pystr list"
  | PassedInspection

record inspection_result =
  ir_decision :: decision
  ir_reason :: inspect_reason
  ir_matched_patterns :: "pystr list"
  ir_request_id :: pyval
  ir_detector_errors :: "pystr list"

type_synonym detector = "pydict \<Rightarrow> pystr + bool \<times> pystr list"

text \<open>The loop over the tool calls of one message; it stops at the first detector failure.\<close>

fun detect_calls :: "detector \<Rightarrow> parsed_tool_call list \<Rightarrow> pystr list \<Rightarrow> pystr + pystr list" where
  "detect_calls det [] all_matched = Inr all_matched"
| "detect_calls det (tc # tcs) all_matched =
     (case det (to_internal_format tc) of
        Inl exc \<Rightarrow> Inl exc
      | Inr (detected, patterns) \<Rightarrow>
          detect_calls det tcs (if detected then all_matched @ patterns else all_matched))"

definition verdict_of :: "pyval \<Rightarrow> pystr + pystr list \<Rightarrow> inspection_result" where
  "verdict_of request_id outcome =
    (case outcome of
       Inl exc \<Rightarrow> \<lparr>ir_decision = INDETERMINATE, ir_reason = DetectorFailed exc,
          ir_matched_patterns = [], ir_request_id = request_id,
          ir_detector_errors = [u ''prompt_injection: '' @ exc]\<rparr>
     | Inr all_matched \<Rightarrow>
         (if all_matched \<noteq> [] then
            \<lparr>ir_decision = BLOCK, ir_reason = InjectionDetected all_matched,
             ir_matched_patterns = all_matched, ir_request_id = request_id,
             ir_detector_errors = []\<rparr>
          else \<lparr>ir_decision = ALLOW, ir_reason = PassedInspection, ir_matched_patterns = [],
             ir_request_id = request_id, ir_detector_errors = []\<rparr>))"

text \<open>\<open>StdioMCPProxy._inspect\<close>; only \<open>JSONRPCError\<close> is caught around the adapter.\<close>

definition proxy_inspect :: "detector \<Rightarrow> adapter \<Rightarrow> pydict \<Rightarrow> rpc_exn + inspection_result" where
  "proxy_inspect det ad parsed =
    (let request_id = dget_or parsed (u ''id'') PNone
     in case parse_message ad 0 (RawValue (PDict parsed)) of
          Inr tool_calls \<Rightarrow> Inr (verdict_of request_id (detect_calls det tool_calls []))
        | Inl (JSONRPCError code reason) \<Rightarrow>
            Inr \<lparr>ir_decision = BLOCK, ir_reason = MalformedToolCall reason,
              ir_matched_patterns = [u ''malformed_jsonrpc''], ir_request_id = request_id,
              ir_detector_errors = []\<rparr>
        | Inl e \<Rightarrow> Inl e)"

section \<open>Replies\<close>

datatype reply_text =
    TextInvalidJson json_error
  | TextInvalidRequest
  | TextRateLimited
  | TextDetectorFailure
  | TextSecurity inspect_reason

record error_response =
  er_id :: pyval
  er_code :: int
  er_message :: reply_text
  er_data :: "pydict option"

definition build_error_response ::
    "pyval \<Rightarrow> int \<Rightarrow> reply_text \<Rightarrow> pydict option \<Rightarrow> error_response" where
  "build_error_response request_id code message data =
     \<lparr>er_id = request_id, er_code = code, er_message = message, er_data = data\<rparr>"

datatype client_reply =
    NoReply
  | ErrorReply error_response
  | ErrorBatch "error_response list"
  | ServerReply pybytes

section \<open>The proxy\<close>

record proxy_stats =
  st_allowed :: nat
  st_blocked :: nat
  st_passthrough :: nat
  st_rate_limited :: nat

record proxy =
  px_adapter :: adapter
  px_limiter :: rate_limiter
  px_stats :: proxy_stats
  px_running :: bool
  px_sent :: "pybytes list"

definition SECURITY_BLOCK_CODE :: int where
  "SECURITY_BLOCK_CODE = -32001"

definition make_proxy :: "int \<Rightarrow> rat \<Rightarrow> proxy" where
  "make_proxy tool_calls_per_minute now =
    \<lparr>px_adapter = make_adapter None None,
     px_limiter = make_rate_limiter tool_calls_per_minute (Some tool_calls_per_minute) now,
     px_stats = \<lparr>st_allowed = 0, st_blocked = 0, st_passthrough = 0, st_rate_limited = 0\<rparr>,
     px_running = False, px_sent = []\<rparr>"

datatype proxy_exn = ScannerRecursion | AdapterError rpc_exn | TransportError pystr

record transport_env =
  te_send_error :: "pystr option"
  te_receive :: "pystr + pybytes"

type_synonym denial = "int \<times> reply_text \<times> pydict"

definition is_tools_call :: "pydict \<Rightarrow> bool" where
  "is_tools_call message \<longleftrightarrow> dget message (u ''method'') = Some (PStr (u ''tools/call''))"

definition denial_text :: "inspection_result \<Rightarrow> reply_text" where
  "denial_text result =
    (if ir_decision result = INDETERMINATE then TextDetectorFailure
     else TextSecurity (ir_reason result))"

text \<open>The \<open>for message in messages\<close> loop of \<open>handle_message\<close>: the limiter and the counters are
  threaded through, and the first denial breaks out.\<close>

fun scan_messages :: "detector \<Rightarrow> adapter \<Rightarrow> (nat \<Rightarrow> rat) \<Rightarrow> pydict list \<Rightarrow> nat \<Rightarrow>
    rate_limiter \<Rightarrow> proxy_stats \<Rightarrow>
    (proxy_exn + denial option \<times> nat) \<times> rate_limiter \<times> proxy_stats" where
  "scan_messages det ad clk [] tool_count limr stats = (Inr (None, tool_count), limr, stats)"
| "scan_messages det ad clk (message # messages) tool_count limr stats =
    (if \<not> is_tools_call message then scan_messages det ad clk messages tool_count limr stats
     else
       (let (admitted, limr') = rl_allow (clk tool_count) limr
        in if \<not> admitted then
             (Inr (Some (-32029, TextRateLimited, []), Suc tool_count), limr',
              stats\<lparr>st_rate_limited := Suc (st_rate_limited stats)\<rparr>)
           else (case proxy_inspect det ad message of
               Inl e \<Rightarrow> (Inl (AdapterError e), limr', stats)
             | Inr result \<Rightarrow>
                 if ir_decision result \<noteq> ALLOW then
                   (Inr (Some (SECURITY_BLOCK_CODE, denial_text result,
                       [(u ''patterns'', PList (map PStr (ir_matched_patterns result)))]),
                      Suc tool_count), limr',
                    stats\<lparr>st_blocked := Suc (st_blocked stats)\<rparr>)
                 else scan_messages det ad clk messages (Suc tool_count) limr' stats)))"

fun as_dicts :: "pyval list \<Rightarrow> pydict list option" where
  "as_dicts [] = Some []"
| "as_dicts (PDict d # vs) = map_option ((#) d) (as_dicts vs)"
| "as_dicts (_ # vs) = None"

text \<open>The messages of a parsed payload, or \<open>None\<close> for an invalid request (an empty batch or an
  entry that is no object).\<close>

definition messages_of :: "pyval \<Rightarrow> pydict list option" where
  "messages_of parsed =
    (case as_dicts (case parsed of PList vs \<Rightarrow> vs | v \<Rightarrow> [v]) of
       None \<Rightarrow> None
     | Some [] \<Rightarrow> None
     | Some ms \<Rightarrow> Some ms)"

text \<open>One error for each message that has an id.\<close>

definition denial_responses :: "pydict list \<Rightarrow> denial \<Rightarrow> error_response list" where
  "denial_responses messages den =
    (case den of (code, reason, data) \<Rightarrow>
       map (\<lambda>m. build_error_response (dget_or m (u ''id'') PNone) code reason (Some data))
         (filter (\<lambda>m. has_key m (u ''id'')) messages))"

definition denial_reply :: "bool \<Rightarrow> pydict list \<Rightarrow> denial \<Rightarrow> client_reply" where
  "denial_reply is_batch messages den =
    (let responses = denial_responses messages den
     in if responses = [] then NoReply
        else if is_batch then ErrorBatch responses else ErrorReply (hd responses))"

definition expects_reply :: "pydict list \<Rightarrow> bool" where
  "expects_reply messages \<longleftrightarrow>
     (\<exists>m \<in> set messages. has_key m (u ''id'') \<and> has_key m (u ''method''))"

definition count_blocked :: "proxy \<Rightarrow> proxy" where
  "count_blocked px = px\<lparr>px_stats := (px_stats px)\<lparr>st_blocked := Suc (st_blocked (px_stats px))\<rparr>\<rparr>"

text \<open>The last part of \<open>handle_message\<close>: nothing was denied.\<close>

definition forward_message :: "transport_env \<Rightarrow> pybytes \<Rightarrow> pydict list \<Rightarrow> nat \<Rightarrow> proxy \<Rightarrow>
    proxy \<times> (proxy_exn + client_reply)" where
  "forward_message tr raw_message messages tool_count px =
    (case te_send_error tr of
       Some exc \<Rightarrow> (px, Inl (TransportError exc))
     | None \<Rightarrow>
         (let st = px_stats px;
              px' = px\<lparr>px_sent := px_sent px @ [raw_message @ [10]],
                px_stats := (if tool_count \<noteq> 0 then st\<lparr>st_allowed := Suc (st_allowed st)\<rparr>
                             else st\<lparr>st_passthrough := Suc (st_passthrough st)\<rparr>)\<rparr>
          in if \<not> expects_reply messages then (px', Inr NoReply)
             else (px', (case te_receive tr of
                 Inl exc \<Rightarrow> Inl (TransportError exc)
               | Inr bytes \<Rightarrow> Inr (ServerReply bytes)))))"

definition handle_message :: "detector \<Rightarrow> nat \<Rightarrow> (nat \<Rightarrow> rat) \<Rightarrow> transport_env \<Rightarrow> pybytes \<Rightarrow>
    proxy \<Rightarrow> proxy \<times> (proxy_exn + client_reply)" where
  "handle_message det rl clk tr raw_message px =
    (case loads_bytes unique_json_pairs rl raw_message of
       Inl RecursionError \<Rightarrow> (px, Inl ScannerRecursion)
     | Inl e \<Rightarrow>
         (count_blocked px,
          Inr (ErrorReply (build_error_response PNone (-32700) (TextInvalidJson e) None)))
     | Inr parsed \<Rightarrow>
         (case messages_of parsed of
            None \<Rightarrow>
              (count_blocked px,
               Inr (ErrorReply (build_error_response PNone (-32600) TextInvalidRequest None)))
          | Some messages \<Rightarrow>
              (let (scan, limr, st) = scan_messages det (px_adapter px) clk messages 0
                     (px_limiter px) (px_stats px);
                   px' = px\<lparr>px_limiter := limr, px_stats := st\<rparr>
               in case scan of
                    Inl e \<Rightarrow> (px', Inl e)
                  | Inr (Some den, n) \<Rightarrow> (px', Inr (denial_reply (is_list parsed) messages den))
                  | Inr (None, n) \<Rightarrow> forward_message tr raw_message messages n px')))"

section \<open>Running the proxy\<close>

text \<open>\<open>bytes.strip()\<close>, and the loop of \<open>run\<close> over the lines of standard input. An exception that
  leaves \<open>handle_message\<close> ends the loop; the \<open>finally\<close> clause stops the proxy in any case.\<close>

definition ascii_ws :: "nat \<Rightarrow> bool" where
  "ascii_ws b \<longleftrightarrow> b = 32 \<or> (9 \<le> b \<and> b \<le> 13)"

definition bytes_strip :: "pybytes \<Rightarrow> pybytes" where
  "bytes_strip b = rev (dropWhile ascii_ws (rev (dropWhile ascii_ws b)))"

fun run_loop :: "detector \<Rightarrow> nat \<Rightarrow> (nat \<Rightarrow> nat \<Rightarrow> rat) \<Rightarrow> (nat \<Rightarrow> transport_env) \<Rightarrow> nat \<Rightarrow>
    pybytes list \<Rightarrow> proxy \<Rightarrow> proxy \<times> client_reply list \<times> proxy_exn option" where
  "run_loop det rl clk tr i [] px = (px, [], None)"
| "run_loop det rl clk tr i (line # lines) px =
    (let line = bytes_strip line
     in if line = [] then run_loop det rl clk tr (Suc i) lines px
        else (case handle_message det rl (clk i) (tr i) line px of
            (px', Inl e) \<Rightarrow> (px', [], Some e)
          | (px', Inr response) \<Rightarrow>
              (let (px'', out, e) = run_loop det rl clk tr (Suc i) lines px'
               in (px'', (if response = NoReply then out else response # out), e))))"

definition proxy_start :: "proxy \<Rightarrow> proxy" where
  "proxy_start px = px\<lparr>px_running := True\<rparr>"

definition proxy_stop :: "proxy \<Rightarrow> proxy" where
  "proxy_stop px = px\<lparr>px_running := False\<rparr>"

definition proxy_run :: "detector \<Rightarrow> nat \<Rightarrow> (nat \<Rightarrow> nat \<Rightarrow> rat) \<Rightarrow> (nat \<Rightarrow> transport_env) \<Rightarrow>
    pybytes list \<Rightarrow> proxy \<Rightarrow> proxy \<times> client_reply list \<times> proxy_exn option" where
  "proxy_run det rl clk tr lines px =
     (let (px', out, e) = run_loop det rl clk tr 0 lines (proxy_start px)
      in (proxy_stop px', out, e))"

section \<open>The subprocess transport's line reader\<close>

text \<open>\<open>SubprocessTransport.receive\<close>: \<open>chunks\<close> are what successive reads of the pipe return (an
  empty chunk is end of file, and so is a list that has run out). The result is the next
  non-blank line with the buffer and the chunks left, or \<open>None\<close> for the \<open>RuntimeError\<close> at end of
  file.\<close>

function receive_line :: "pybytes \<Rightarrow> pybytes list \<Rightarrow> (pybytes \<times> pybytes \<times> pybytes list) option"
where
  "receive_line buf chunks =
    (case py_find buf [10] of
       Some newline_pos \<Rightarrow>
         (let line = bytes_strip (take newline_pos buf); rest = drop (newline_pos + 1) buf
          in if line \<noteq> [] then Some (line, rest, chunks) else receive_line rest chunks)
     | None \<Rightarrow>
         (case chunks of
            [] \<Rightarrow> None
          | chunk # chunks' \<Rightarrow>
              if chunk = [] then None else receive_line (buf @ chunk) chunks'))"
  by pat_completeness auto
termination
  by (relation "measures [\<lambda>(buf, chunks). length chunks, \<lambda>(buf, chunks). length buf]")
    (auto dest!: py_find_Some)

declare receive_line.simps [simp del]

text \<open>\<open>main\<close>: the downstream command is what follows \<open>--\<close>, or all arguments.\<close>

definition parse_command :: "pystr list \<Rightarrow> pystr list option" where
  "parse_command args =
    (let command = (if u ''--'' \<in> set args
                    then tl (dropWhile (\<lambda>a. a \<noteq> u ''--'') args) else args)
     in if command = [] then None else Some command)"

section \<open>Unambiguous payloads\<close>

text \<open>Every object, at any depth, has each key once.\<close>

fun unambiguous :: "pyval \<Rightarrow> bool" where
  "unambiguous (PList vs) = list_all unambiguous vs"
| "unambiguous (PDict d) = (distinct (map fst d) \<and> list_all (\<lambda>(k, v). unambiguous v) d)"
| "unambiguous _ = True"

lemma unique_pairs_loop_Inr:
  "unique_pairs_loop d ps = Inr d' \<Longrightarrow> distinct (map fst d) \<Longrightarrow>
    d' = d @ ps \<and> distinct (map fst d')"
proof (induction d ps rule: unique_pairs_loop.induct)
  case (1 d)
  then show ?case by simp
next
  case (2 d k v ps)
  then have new: "\<not> has_key d k" by (auto split: if_splits)
  then have "distinct (map fst (dset k v d))" using "2.prems" by simp
  moreover have "unique_pairs_loop (dset k v d) ps = Inr d'" using new "2.prems"(1) by simp
  ultimately have r: "d' = dset k v d @ ps" "distinct (map fst d')"
    using "2.IH" [OF new] by blast+
  from r(1) new have "d' = d @ (k, v) # ps" by (simp add: dset_fresh)
  with r(2) show ?case by metis
qed

lemma unique_json_pairs_Inr:
  "unique_json_pairs ps = Inr v \<Longrightarrow> v = PDict ps \<and> distinct (map fst ps)"
  by (auto simp: unique_json_pairs_def dest: unique_pairs_loop_Inr)

lemma unique_is_plain: "unique_json_pairs ps = Inr v \<Longrightarrow> plain_hook ps = Inr v"
  by (auto simp: plain_hook_distinct dest!: unique_json_pairs_Inr)

text \<open>
  C11: What the proxy inspects is what any parser sees. When the payload passes the
  duplicate-key hook, no object in it, at any depth, repeats a key, and the ordinary
  \<open>json.loads\<close> (last key wins) reads the very same value: a payload cannot show the inspector
  one value and the downstream server another by repeating keys.
\<close>

theorem accepted_payload_unambiguous:
  assumes "loads_bytes unique_json_pairs rl b = Inr v"
  shows "unambiguous v \<and> loads_bytes plain_hook rl b = Inr v"
proof
  have hook: "unambiguous v" if "unique_json_pairs ps = Inr v"
    "\<And>w. w \<in> snd ` set ps \<Longrightarrow> unambiguous w" for ps v
    using unique_json_pairs_Inr [OF that(1)] that(2) by (force simp: list_all_iff)
  have sc: "unambiguous v" if "scalar v" for v
    using that by (cases v) (auto simp: scalar_def)
  show "unambiguous v"
    by (rule loads_bytes_all [OF sc _ hook assms]) (auto simp: list_all_iff)
  show "loads_bytes plain_hook rl b = Inr v"
    using assms by (rule loads_bytes_hook_mono [rotated]) (rule unique_is_plain)
qed

text \<open>The bytes of \<open>{"a":[1]}\<close>.\<close>

theorem accepted_payload_unambiguous_witness:
  "loads_bytes plain_hook 9 [123, 34, 97, 34, 58, 91, 49, 93, 125] =
     Inr (PDict [([97], PList [PInt 1])]) \<and> unambiguous (PDict [([97], PList [PInt 1])])"
proof -
  have "loads_bytes unique_json_pairs 9 [123, 34, 97, 34, 58, 91, 49, 93, 125] =
      Inr (PDict [([97], PList [PInt 1])])"
    by code_simp
  from accepted_payload_unambiguous [OF this] show ?thesis by blast
qed

section \<open>The verdict on one message\<close>

text \<open>What the proxy asks of its detector: the flag is raised exactly when patterns are named.\<close>

locale detector_contract =
  fixes det :: detector
  assumes flag_patterns: "det call = Inr (flag, patterns) \<Longrightarrow> flag \<longleftrightarrow> patterns \<noteq> []"
begin

lemma detect_calls_clean:
  "detect_calls det tcs [] = Inr [] \<Longrightarrow> tc \<in> set tcs \<Longrightarrow>
     det (to_internal_format tc) = Inr (False, [])"
proof -
  have acc: "detect_calls det tcs acc = Inr r \<Longrightarrow> \<exists>new. r = acc @ new" for tcs acc r
  proof (induction tcs arbitrary: acc)
    case (Cons t tcs)
    then obtain flag ps where "detect_calls det tcs (if flag then acc @ ps else acc) = Inr r"
      by (auto split: sum.splits prod.splits)
    from Cons.IH [OF this] show ?case by (cases flag) auto
  qed simp
  show "detect_calls det tcs [] = Inr [] \<Longrightarrow> tc \<in> set tcs \<Longrightarrow>
     det (to_internal_format tc) = Inr (False, [])"
  proof (induction tcs)
    case (Cons t tcs)
    then obtain flag ps where d: "det (to_internal_format t) = Inr (flag, ps)"
      by (auto split: sum.splits)
    with Cons.prems(1) have r: "detect_calls det tcs (if flag then [] @ ps else []) = Inr []"
      by simp
    from acc [OF r] flag_patterns [OF d] have "\<not> flag" "ps = []"
      by (cases flag; auto)+
    with d r Cons show ?case by auto
  qed simp
qed

end

lemma parse_message_dict:
  "parse_message ad rl (RawValue (PDict msg)) =
     rbind (check_depth ad (PDict msg)) (\<lambda>_. rbind (parse_single msg) (\<lambda>result.
       Inr (case result of None \<Rightarrow> [] | Some tc \<Rightarrow> [tc])))"
  by (simp add: parse_message_def read_raw_def)

lemma parse_message_dict_exn:
  assumes "parse_message ad rl (RawValue (PDict msg)) = Inl e"
  shows "\<exists>c r. e = JSONRPCError c r"
  using assms parse_single_codes [of msg e]
  by (auto simp: parse_message_dict rbind_eq_Inl check_depth_def split: if_splits)

text \<open>The inspector never raises: everything the adapter can raise on an object is caught.\<close>

lemma proxy_inspect_total: "\<exists>result. proxy_inspect det ad msg = Inr result"
  using parse_message_dict_exn [of ad 0 msg]
  by (cases "parse_message ad 0 (RawValue (PDict msg))")
    (auto simp: proxy_inspect_def Let_def split: rpc_exn.splits)

definition allowed_by :: "detector \<Rightarrow> adapter \<Rightarrow> pydict \<Rightarrow> bool" where
  "allowed_by det ad msg \<longleftrightarrow>
     (case proxy_inspect det ad msg of Inl e \<Rightarrow> False | Inr result \<Rightarrow> ir_decision result = ALLOW)"

lemma verdict_of_allow: "ir_decision (verdict_of i out) = ALLOW \<longleftrightarrow> out = Inr []"
  by (auto simp: verdict_of_def split: sum.splits)

lemma allowed_by_iff:
  "allowed_by det ad msg \<longleftrightarrow> (\<exists>tcs. parse_message ad 0 (RawValue (PDict msg)) = Inr tcs \<and>
     detect_calls det tcs [] = Inr [])"
  using parse_message_dict_exn [of ad 0 msg]
  by (cases "parse_message ad 0 (RawValue (PDict msg))")
    (auto simp: allowed_by_def proxy_inspect_def Let_def verdict_of_allow split: rpc_exn.splits)

text \<open>A response-shaped object carries no call for the adapter, whatever its method says.\<close>

definition response_shaped :: "pydict \<Rightarrow> bool" where
  "response_shaped msg \<longleftrightarrow> has_key msg (u ''result'') \<or> has_key msg (u ''error'')"

lemma parse_single_tools_call:
  "is_tools_call msg \<Longrightarrow> parse_single msg = Inr r \<longleftrightarrow>
     dget msg (u ''jsonrpc'') = Some (PStr (u ''2.0'')) \<and>
     (if response_shaped msg then r = None
      else \<exists>name args. requests_call msg name args \<and> r = Some (call_of msg name args))"
  by (auto simp: parse_single_def is_tools_call_def requests_call_def call_of_def Let_def
      response_shaped_def TOOL_CALL_METHODS_def dget_or_def split: if_splits pyval.splits)

lemma inspection_allows:
  assumes "is_tools_call msg"
  shows "allowed_by det ad msg \<longleftrightarrow>
    max 1 (nesting (PDict msg)) \<le> ad_max_depth ad \<and>
    dget msg (u ''jsonrpc'') = Some (PStr (u ''2.0'')) \<and>
    (response_shaped msg \<or>
     (\<exists>name args flag patterns. requests_call msg name args \<and>
        det (to_internal_format (call_of msg name args)) = Inr (flag, patterns) \<and>
        (\<not> flag \<or> patterns = [])))"
proof -
  have rq: "requests_call msg n a \<Longrightarrow> requests_call msg n' a' \<Longrightarrow> n' = n \<and> a' = a" for n a n' a'
    by (auto simp: requests_call_def)
  have nr: "requests_call msg n a \<Longrightarrow> \<not> response_shaped msg" for n a
    by (auto simp: requests_call_def response_shaped_def)
  have v: "requests_call msg n a \<Longrightarrow> dget msg (u ''jsonrpc'') = Some (PStr (u ''2.0''))" for n a
    by (simp add: requests_call_def)
  have one: "detect_calls det [tc] [] = Inr [] \<longleftrightarrow>
      (\<exists>flag ps. det (to_internal_format tc) = Inr (flag, ps) \<and> (\<not> flag \<or> ps = []))" for tc
    by (auto split: sum.splits)
  have "allowed_by det ad msg \<longleftrightarrow> check_depth ad (PDict msg) = Inr () \<and>
      (\<exists>r. parse_single msg = Inr r \<and>
        detect_calls det (case r of None \<Rightarrow> [] | Some tc \<Rightarrow> [tc]) [] = Inr [])"
    unfolding allowed_by_iff parse_message_dict by auto
  then have eq: "allowed_by det ad msg \<longleftrightarrow> max 1 (nesting (PDict msg)) \<le> ad_max_depth ad \<and>
      (\<exists>r. parse_single msg = Inr r \<and>
        detect_calls det (case r of None \<Rightarrow> [] | Some tc \<Rightarrow> [tc]) [] = Inr [])"
    unfolding check_depth_iff .
  show ?thesis
  proof (cases "response_shaped msg")
    case True
    then show ?thesis
      unfolding eq parse_single_tools_call [OF assms] by auto
  next
    case False
    have "(\<exists>r. parse_single msg = Inr r \<and>
        detect_calls det (case r of None \<Rightarrow> [] | Some tc \<Rightarrow> [tc]) [] = Inr []) \<longleftrightarrow>
      (\<exists>n a. requests_call msg n a \<and> detect_calls det [call_of msg n a] [] = Inr [])"
      unfolding parse_single_tools_call [OF assms] if_not_P [OF False] using v
      by (metis option.simps(5))
    with False v show ?thesis unfolding eq one by blast
  qed
qed

text \<open>
  C16: The complete specification of a positive verdict on a \<open>tools/call\<close> message: it is within
  the nesting budget, claims JSON-RPC 2.0, and either is shaped like a response (then the
  detector never runs) or is a well-formed call that the detector inspected without an
  exception and without naming a pattern. A malformed call, a detector failure and a match are
  all refused.
\<close>

theorem inspection_allows_iff:
  assumes "is_tools_call msg"
  shows "allowed_by det ad msg \<longleftrightarrow>
    max 1 (nesting (PDict msg)) \<le> ad_max_depth ad \<and>
    dget msg (u ''jsonrpc'') = Some (PStr (u ''2.0'')) \<and>
    (response_shaped msg \<or>
     (\<exists>name args flag patterns. requests_call msg name args \<and>
        det (to_internal_format (call_of msg name args)) = Inr (flag, patterns) \<and>
        (\<not> flag \<or> patterns = [])))"
  using assms by (rule inspection_allows)

text \<open>A detector that never raises the flag, and a \<open>tools/call\<close> that also carries a \<open>result\<close>.\<close>

theorem inspection_allows_iff_witness:
  "allowed_by (\<lambda>call. Inl []) (make_adapter None None)
     [(u ''jsonrpc'', PStr (u ''2.0'')), (u ''method'', PStr (u ''tools/call'')),
      (u ''result'', PNone)]"
proof -
  let ?m = "[(u ''jsonrpc'', PStr (u ''2.0'')), (u ''method'', PStr (u ''tools/call'')),
      (u ''result'', PNone)]"
  have "is_tools_call ?m" by (simp add: is_tools_call_def)
  from inspection_allows_iff [OF this, of "\<lambda>call. Inl []" "make_adapter None None"]
  show ?thesis
    by (simp add: make_adapter_def DEFAULT_MAX_DEPTH_def response_shaped_def has_key_def)
qed

section \<open>The scan of a payload\<close>

abbreviation tool_calls_in :: "pydict list \<Rightarrow> nat" where
  "tool_calls_in ms \<equiv> length (filter is_tools_call ms)"

definition all_admitted :: "(nat \<Rightarrow> rat) \<Rightarrow> nat \<Rightarrow> nat \<Rightarrow> rate_limiter \<Rightarrow> bool" where
  "all_admitted clk i k limr \<longleftrightarrow>
     list_all id (fst (gate_run rl_allow (map clk [i..<i + k]) limr))"

definition cleared_calls :: "detector \<Rightarrow> adapter \<Rightarrow> pydict list \<Rightarrow> bool" where
  "cleared_calls det ad ms \<longleftrightarrow> list_all (\<lambda>m. is_tools_call m \<longrightarrow> allowed_by det ad m) ms"

text \<open>What one tool call does to the scan: refused by the limiter, refused by the inspector, or
  let through.\<close>

lemma scan_call:
  assumes "is_tools_call m" "rl_allow (clk n) l = (b, l')"
  shows "scan_messages det ad clk (m # ms) n l st =
    (if \<not> b then (Inr (Some (-32029, TextRateLimited, []), Suc n), l',
        st\<lparr>st_rate_limited := Suc (st_rate_limited st)\<rparr>)
     else if allowed_by det ad m then scan_messages det ad clk ms (Suc n) l' st
     else (let result = projr (proxy_inspect det ad m)
       in (Inr (Some (SECURITY_BLOCK_CODE, denial_text result,
                  [(u ''patterns'', PList (map PStr (ir_matched_patterns result)))]), Suc n), l',
           st\<lparr>st_blocked := Suc (st_blocked st)\<rparr>)))"
  using proxy_inspect_total [of det ad m] assms
  by (auto simp: allowed_by_def Let_def)

lemma scan_other:
  "\<not> is_tools_call m \<Longrightarrow>
     scan_messages det ad clk (m # ms) n l st = scan_messages det ad clk ms n l st"
  by simp

lemmas scan_steps = scan_call scan_other

lemma gate_split:
  "list_all id (fst (gate_run gate (t # ts) s)) \<longleftrightarrow>
     fst (gate t s) \<and> list_all id (fst (gate_run gate ts (snd (gate t s))))"
  by (simp add: Let_def split: prod.splits)

lemma upt_shift: "[n..<n + Suc k] = n # [Suc n..<Suc n + k]"
  by (simp add: upt_conv_Cons)

lemma all_admitted_0 [simp]: "all_admitted clk n 0 l"
  by (simp add: all_admitted_def)

lemma all_admitted_Suc [simp]:
  "all_admitted clk n (Suc k) l \<longleftrightarrow>
     fst (rl_allow (clk n) l) \<and> all_admitted clk (Suc n) k (snd (rl_allow (clk n) l))"
  unfolding all_admitted_def upt_shift list.map gate_split ..

lemma gate_run_Suc:
  "snd (gate_run rl_allow (map clk [n..<n + Suc k]) l) =
     snd (gate_run rl_allow (map clk [Suc n..<Suc n + k]) (snd (rl_allow (clk n) l)))"
  unfolding upt_shift list.map by (simp add: Let_def del: upt_Suc split: prod.splits)

lemma scan_clear:
  "cleared_calls det ad ms \<and> all_admitted clk n (tool_calls_in ms) l \<Longrightarrow>
     scan_messages det ad clk ms n l st =
       (Inr (None, n + tool_calls_in ms),
        snd (gate_run rl_allow (map clk [n..<n + tool_calls_in ms]) l), st)"
proof (induction ms arbitrary: n l)
  case Nil
  then show ?case by simp
next
  case (Cons m ms)
  show ?case
  proof (cases "is_tools_call m")
    case True
    obtain b l' where g: "rl_allow (clk n) l = (b, l')" by fastforce
    have a: "b" "all_admitted clk (Suc n) (tool_calls_in ms) l'"
      using Cons.prems True g by simp_all
    have c: "allowed_by det ad m" "cleared_calls det ad ms"
      using Cons.prems True by (simp_all add: cleared_calls_def)
    with Cons.IH [of "Suc n" l'] a c True g gate_run_Suc [of clk n "tool_calls_in ms" l]
    show ?thesis
      by (simp add: scan_call [of m clk n l b l', OF True g] del: scan_messages.simps gate_run.simps upt_Suc)
  next
    case False
    with Cons show ?thesis by (simp add: cleared_calls_def)
  qed
qed

lemma scan_refused:
  "\<not> (cleared_calls det ad ms \<and> all_admitted clk n (tool_calls_in ms) l) \<Longrightarrow>
     \<exists>den k l' st'. scan_messages det ad clk ms n l st = (Inr (Some den, k), l', st') \<and>
       fst den \<in> {-32029, SECURITY_BLOCK_CODE} \<and>
       (st' = st\<lparr>st_rate_limited := Suc (st_rate_limited st)\<rparr> \<or>
        st' = st\<lparr>st_blocked := Suc (st_blocked st)\<rparr>)"
proof (induction ms arbitrary: n l)
  case Nil
  then show ?case by (simp add: cleared_calls_def)
next
  case (Cons m ms)
  show ?case
  proof (cases "is_tools_call m")
    case True
    obtain b l' where g: "rl_allow (clk n) l = (b, l')" by fastforce
    show ?thesis
    proof (cases "b \<and> allowed_by det ad m")
      case ok: True
      have "\<not> (cleared_calls det ad ms \<and> all_admitted clk (Suc n) (tool_calls_in ms) l')"
        using Cons.prems True ok g by (simp add: cleared_calls_def)
      from Cons.IH [OF this] show ?thesis
        using ok by (simp add: scan_call [of m clk n l b l', OF True g] del: scan_messages.simps)
    next
      case False
      then show ?thesis
        by (auto simp: scan_call [of m clk n l b l', OF True g] Let_def simp del: scan_messages.simps)
    qed
  next
    case False
    with Cons show ?thesis by (simp add: cleared_calls_def)
  qed
qed


section \<open>What the proxy forwards\<close>

text \<open>The messages of a payload, when the payload is well formed: no duplicate key, and an object
  or a non-empty array of objects.\<close>

definition payload_messages :: "nat \<Rightarrow> pybytes \<Rightarrow> pydict list option" where
  "payload_messages rl raw =
    (case loads_bytes unique_json_pairs rl raw of Inl e \<Rightarrow> None | Inr v \<Rightarrow> messages_of v)"

definition cleared_payload :: "detector \<Rightarrow> nat \<Rightarrow> adapter \<Rightarrow> pybytes \<Rightarrow> bool" where
  "cleared_payload det rl ad raw \<longleftrightarrow>
     (\<exists>ms. payload_messages rl raw = Some ms \<and> cleared_calls det ad ms)"

lemma handle_not_messages:
  assumes "payload_messages rl raw = None"
  shows "handle_message det rl clk tr raw px = (px, Inl ScannerRecursion) \<or>
    (\<exists>code text. handle_message det rl clk tr raw px =
      (count_blocked px, Inr (ErrorReply (build_error_response PNone code text None))))"
  using assms by (auto simp: payload_messages_def handle_message_def
      split: sum.splits json_error.splits)

lemma handle_clear:
  assumes "payload_messages rl raw = Some ms" "cleared_calls det (px_adapter px) ms"
    "all_admitted clk 0 (tool_calls_in ms) (px_limiter px)"
  shows "\<exists>l. handle_message det rl clk tr raw px =
    forward_message tr raw ms (tool_calls_in ms) (px\<lparr>px_limiter := l, px_stats := px_stats px\<rparr>)"
  using assms
  by (auto simp: payload_messages_def handle_message_def scan_clear split: sum.splits)

lemma handle_refused:
  assumes "payload_messages rl raw = Some ms"
    "\<not> (cleared_calls det (px_adapter px) ms \<and>
        all_admitted clk 0 (tool_calls_in ms) (px_limiter px))"
  shows "\<exists>den l st is_batch. handle_message det rl clk tr raw px =
      (px\<lparr>px_limiter := l, px_stats := st\<rparr>, Inr (denial_reply is_batch ms den)) \<and>
    (is_batch \<or> length ms = 1) \<and>
    fst den \<in> {-32029, SECURITY_BLOCK_CODE} \<and>
    (st = (px_stats px)\<lparr>st_rate_limited := Suc (st_rate_limited (px_stats px))\<rparr> \<or>
     st = (px_stats px)\<lparr>st_blocked := Suc (st_blocked (px_stats px))\<rparr>)"
proof -
  from scan_refused [OF assms(2), of "px_stats px"] obtain den k l st where sc:
    "scan_messages det (px_adapter px) clk ms 0 (px_limiter px) (px_stats px) =
      (Inr (Some den, k), l, st)" and den: "fst den \<in> {-32029, SECURITY_BLOCK_CODE}"
    "st = (px_stats px)\<lparr>st_rate_limited := Suc (st_rate_limited (px_stats px))\<rparr> \<or>
     st = (px_stats px)\<lparr>st_blocked := Suc (st_blocked (px_stats px))\<rparr>" by blast
  obtain v where v: "loads_bytes unique_json_pairs rl raw = Inr v" "messages_of v = Some ms"
    using assms(1) by (auto simp: payload_messages_def split: sum.splits)
  moreover have "is_list v \<or> length ms = 1"
    using v(2) by (cases v) (auto simp: messages_of_def split: option.splits list.splits)
  moreover have "handle_message det rl clk tr raw px =
      (px\<lparr>px_limiter := l, px_stats := st\<rparr>, Inr (denial_reply (is_list v) ms den))"
    using sc v by (simp add: handle_message_def)
  ultimately show ?thesis using den by blast
qed

lemma forward_effect:
  "px_sent (fst (forward_message tr raw ms n px)) =
     (if te_send_error tr = None then px_sent px @ [raw @ [10]] else px_sent px)"
  "px_adapter (fst (forward_message tr raw ms n px)) = px_adapter px"
  "px_running (fst (forward_message tr raw ms n px)) = px_running px"
  by (auto simp: forward_message_def Let_def split: option.splits)

lemma handle_message_sent:
  "px_sent (fst (handle_message det rl clk tr raw px)) =
    (if (\<exists>ms. payload_messages rl raw = Some ms \<and> cleared_calls det (px_adapter px) ms \<and>
           all_admitted clk 0 (tool_calls_in ms) (px_limiter px)) \<and> te_send_error tr = None
     then px_sent px @ [raw @ [10]] else px_sent px)"
proof (cases "payload_messages rl raw")
  case None
  with handle_not_messages [OF None, of det clk tr px] show ?thesis
    by (auto simp: count_blocked_def)
next
  case (Some ms)
  show ?thesis
  proof (cases "cleared_calls det (px_adapter px) ms \<and>
      all_admitted clk 0 (tool_calls_in ms) (px_limiter px)")
    case True
    with handle_clear [OF Some, of det px clk tr] Some show ?thesis
      by (auto simp: forward_effect)
  next
    case False
    with handle_refused [OF Some False, of tr] Some show ?thesis by auto
  qed
qed

text \<open>
  C4: Exactly what reaches the downstream server. One call of \<open>handle_message\<close> writes the raw
  payload and a newline downstream when the payload is well formed, every \<open>tools/call\<close> in it
  was let through by the inspector, every one got a token from the rate limiter in turn, and
  the transport accepts the write; in every other case, errors and exceptions included, it
  writes nothing at all. A batch is therefore forwarded whole or not at all.
\<close>

theorem handle_message_forwards_iff:
  "px_sent (fst (handle_message det rl clk tr raw px)) =
    (if (\<exists>ms. payload_messages rl raw = Some ms \<and> cleared_calls det (px_adapter px) ms \<and>
           all_admitted clk 0 (tool_calls_in ms) (px_limiter px)) \<and> te_send_error tr = None
     then px_sent px @ [raw @ [10]] else px_sent px)"
  by (rule handle_message_sent)

text \<open>
  C13: A refused payload is answered. When some \<open>tools/call\<close> of a well-formed payload is not
  cleared or not admitted, the caller gets one error for each message that has an id, in order
  and under that id, all with the same code (rate limited or blocked); a payload of
  notifications gets no reply.
\<close>

theorem refused_payload_answered:
  assumes "payload_messages rl raw = Some ms"
    and "\<not> (cleared_calls det (px_adapter px) ms \<and>
        all_admitted clk 0 (tool_calls_in ms) (px_limiter px))"
  shows "\<exists>reply errors code. snd (handle_message det rl clk tr raw px) = Inr reply \<and>
    code \<in> {-32029, -32001} \<and>
    map er_id errors = map (\<lambda>m. dget_or m (u ''id'') PNone)
      (filter (\<lambda>m. has_key m (u ''id'')) ms) \<and>
    list_all (\<lambda>e. er_code e = code) errors \<and>
    (if errors = [] then reply = NoReply
     else reply = ErrorBatch errors \<or> length ms = 1 \<and> reply = ErrorReply (hd errors))"
proof -
  from handle_refused [OF assms, of tr] obtain den is_batch where
    d: "snd (handle_message det rl clk tr raw px) = Inr (denial_reply is_batch ms den)"
    "is_batch \<or> length ms = 1" "fst den \<in> {-32029, SECURITY_BLOCK_CODE}" by force
  let ?errors = "denial_responses ms den"
  have "map er_id ?errors = map (\<lambda>m. dget_or m (u ''id'') PNone)
      (filter (\<lambda>m. has_key m (u ''id'')) ms)" "list_all (\<lambda>e. er_code e = fst den) ?errors"
    by (cases den; simp add: denial_responses_def build_error_response_def list_all_iff)+
  moreover have "if ?errors = [] then denial_reply is_batch ms den = NoReply
      else denial_reply is_batch ms den = ErrorBatch ?errors \<or>
        length ms = 1 \<and> denial_reply is_batch ms den = ErrorReply (hd ?errors)"
    using d(2) by (auto simp: denial_reply_def Let_def)
  ultimately show ?thesis using d
    by (intro exI [of _ "denial_reply is_batch ms den"] exI [of _ ?errors] exI [of _ "fst den"])
      (simp add: SECURITY_BLOCK_CODE_def)
qed

text \<open>A call without arguments under a detector that always fails; the payload is
  \<open>{"jsonrpc":"2.0","id":7,"method":"tools/call"}\<close>.\<close>

definition sample_call_bytes :: pybytes where
  "sample_call_bytes =
     map of_char ''{'' @ [34] @ map of_char ''jsonrpc'' @ [34, 58, 34] @ map of_char ''2.0'' @
     [34, 44, 34] @ map of_char ''id'' @ [34, 58, 55, 44, 34] @ map of_char ''method'' @
     [34, 58, 34] @ map of_char ''tools/call'' @ [34] @ map of_char ''}''"

lemma sample_call_messages:
  "payload_messages 9 sample_call_bytes = Some [[(u ''jsonrpc'', PStr (u ''2.0'')),
     (u ''id'', PInt 7), (u ''method'', PStr (u ''tools/call''))]]"
  by code_simp



theorem refused_payload_answered_witness:
  "\<exists>reply errors. snd (handle_message (\<lambda>call. Inl []) 9 (\<lambda>k. 0)
       \<lparr>te_send_error = None, te_receive = Inl []\<rparr> sample_call_bytes (make_proxy 300 0)) = Inr reply \<and>
     map er_id errors = [PInt 7] \<and> (reply = ErrorBatch errors \<or> reply = ErrorReply (hd errors))"
proof -
  let ?m = "[(u ''jsonrpc'', PStr (u ''2.0'')), (u ''id'', PInt 7),
    (u ''method'', PStr (u ''tools/call''))]"
  have "\<not> allowed_by (\<lambda>call. Inl []) (px_adapter (make_proxy 300 0)) ?m"
    by code_simp
  then have "\<not> (cleared_calls (\<lambda>call. Inl []) (px_adapter (make_proxy 300 0)) [?m] \<and>
      all_admitted (\<lambda>k. 0) 0 (tool_calls_in [?m]) (px_limiter (make_proxy 300 0)))"
    by (simp add: cleared_calls_def is_tools_call_def)
  from refused_payload_answered [OF sample_call_messages this,
      of "\<lparr>te_send_error = None, te_receive = Inl []\<rparr>"]
  obtain reply errors where r:
    "snd (handle_message (\<lambda>call. Inl []) 9 (\<lambda>k. 0)
       \<lparr>te_send_error = None, te_receive = Inl []\<rparr> sample_call_bytes (make_proxy 300 0)) = Inr reply"
    "map er_id errors = map (\<lambda>m. dget_or m (u ''id'') PNone)
      (filter (\<lambda>m. has_key m (u ''id'')) [?m])"
    "if errors = [] then reply = NoReply
     else reply = ErrorBatch errors \<or> length [?m] = 1 \<and> reply = ErrorReply (hd errors)"
    by blast
  have "map er_id errors = [PInt 7]" using r(2) by (simp add: has_key_def)
  with r(1,3) show ?thesis by (metis list.simps(8) list.distinct(1))
qed


section \<open>A whole run\<close>

lemma handle_message_frame:
  "px_adapter (fst (handle_message det rl clk tr raw px)) = px_adapter px \<and>
   px_running (fst (handle_message det rl clk tr raw px)) = px_running px"
proof (cases "payload_messages rl raw")
  case None
  with handle_not_messages [OF None, of det clk tr px] show ?thesis
    by (auto simp: count_blocked_def)
next
  case (Some ms)
  then show ?thesis
    using handle_clear [OF Some, of det px clk tr] handle_refused [OF Some, of det px clk tr]
    by (cases "cleared_calls det (px_adapter px) ms \<and>
        all_admitted clk 0 (tool_calls_in ms) (px_limiter px)") (auto simp: forward_effect)
qed

lemma handle_message_sends:
  assumes "handle_message det rl clk tr raw px = (px', r)"
  shows "px_adapter px' = px_adapter px \<and>
    (px_sent px' = px_sent px \<or>
     px_sent px' = px_sent px @ [raw @ [10]] \<and> cleared_payload det rl (px_adapter px) raw)"
  using handle_message_sent [of det rl clk tr raw px]
    handle_message_frame [of det rl clk tr raw px] assms
  by (auto simp: cleared_payload_def split: if_splits)

definition sent_during :: "proxy \<Rightarrow> proxy \<Rightarrow> pybytes list" where
  "sent_during px px' = drop (length (px_sent px)) (px_sent px')"

lemma run_loop_sends:
  "run_loop det rl clk tr i lines px = (px', out, e) \<Longrightarrow>
    \<exists>raws. px_sent px' = px_sent px @ map (\<lambda>raw. raw @ [10]) raws \<and>
      subseq raws (map bytes_strip lines) \<and>
      list_all (cleared_payload det rl (px_adapter px)) raws"
proof (induction lines arbitrary: i px px' out e)
  case Nil
  then show ?case by (auto intro: exI [of _ "[]"])
next
  case (Cons line lines)
  show ?case
  proof (cases "bytes_strip line = []")
    case True
    with Cons.prems have "run_loop det rl clk tr (Suc i) lines px = (px', out, e)" by simp
    from Cons.IH [OF this] show ?thesis by auto
  next
    case False
    let ?raw = "bytes_strip line"
    obtain px1 r where h: "handle_message det rl (clk i) (tr i) ?raw px = (px1, r)" by fastforce
    obtain raws1 where one: "px_sent px1 = px_sent px @ map (\<lambda>raw. raw @ [10]) raws1"
      "raws1 = [] \<or> raws1 = [?raw]" "list_all (cleared_payload det rl (px_adapter px)) raws1"
      using handle_message_sends [OF h]
      by (elim conjE disjE) (auto intro: that [of "[]"] that [of "[?raw]"])
    obtain raws2 where two: "px_sent px' = px_sent px1 @ map (\<lambda>raw. raw @ [10]) raws2"
      "subseq raws2 (map bytes_strip lines)"
      "list_all (cleared_payload det rl (px_adapter px1)) raws2"
    proof (cases r)
      case (Inl exc)
      then have "px' = px1" using Cons.prems False h by simp
      then show ?thesis by (auto intro: that [of "[]"])
    next
      case (Inr response)
      then obtain out' where "run_loop det rl clk tr (Suc i) lines px1 = (px', out', e)"
        using Cons.prems False h by (auto split: prod.splits)
      from Cons.IH [OF this] show ?thesis by (auto intro: that)
    qed
    have "subseq (raws1 @ raws2) (map bytes_strip (line # lines))"
      using one(2) two(2) by auto
    moreover have "px_adapter px1 = px_adapter px" using handle_message_sends [OF h] by simp
    ultimately show ?thesis
      using one two by (intro exI [of _ "raws1 @ raws2"]) auto
  qed
qed

lemma proxy_run_sends:
  "let px' = fst (proxy_run det rl clk tr lines px) in
    (\<exists>raws. px_sent px' = px_sent px @ map (\<lambda>raw. raw @ [10]) raws \<and>
      subseq raws (map bytes_strip lines) \<and>
      list_all (cleared_payload det rl (px_adapter px)) raws) \<and>
    \<not> px_running px'"
proof -
  obtain px' out e where r: "run_loop det rl clk tr 0 lines (proxy_start px) = (px', out, e)"
    using prod_cases3 by blast
  with run_loop_sends [OF r] show ?thesis
    by (simp add: proxy_run_def proxy_start_def proxy_stop_def)
qed

text \<open>
  C2: The proxy as a gate, over a whole session. However the client's lines, the clock, the
  detector and the transport behave, what \<open>run\<close> writes downstream is a subsequence, in order
  and unaltered, of the client's (stripped) lines, each of them a well-formed payload whose
  every \<open>tools/call\<close> the inspector let through; and the proxy is stopped at the end, after an
  exception too.
\<close>

theorem proxy_run_sends_cleared:
  "let px' = fst (proxy_run det rl clk tr lines px) in
    (\<exists>raws. px_sent px' = px_sent px @ map (\<lambda>raw. raw @ [10]) raws \<and>
      subseq raws (map bytes_strip lines) \<and>
      list_all (cleared_payload det rl (px_adapter px)) raws) \<and>
    \<not> px_running px'"
  by (rule proxy_run_sends)

section \<open>The line reader\<close>

text \<open>The reference: the non-blank lines, stripped, that a byte stream completes.\<close>

definition wire_lines :: "pybytes \<Rightarrow> pybytes list" where
  "wire_lines stream = filter (\<lambda>l. l \<noteq> []) (map bytes_strip (butlast (split_on 10 stream)))"

text \<open>What can still be read: the buffer and the chunks up to end of file.\<close>

definition pending_stream :: "pybytes \<Rightarrow> pybytes list \<Rightarrow> pybytes" where
  "pending_stream buf chunks = buf @ concat (takeWhile (\<lambda>c. c \<noteq> []) chunks)"

lemma py_find_single:
  "case py_find s [c] of None \<Rightarrow> c \<notin> set s
   | Some i \<Rightarrow> s = take i s @ c # drop (Suc i) s \<and> c \<notin> set (take i s)"
  by (induction s) (auto split: option.splits)

lemma wire_lines_append:
  "10 \<notin> set a \<Longrightarrow> wire_lines (a @ 10 # b) =
     (if bytes_strip a = [] then wire_lines b else bytes_strip a # wire_lines b)"
  by (simp add: wire_lines_def split_on_app split_on_fresh)

text \<open>
  C14: The transport's reader is independent of how the pipe cuts the stream into chunks.
  \<open>receive\<close> returns the first non-blank line of everything that can still be read and leaves
  exactly the rest pending, partial lines included; it fails only when no complete non-blank
  line is left before end of file. No line is lost, repeated, merged or split.
\<close>

theorem receive_line_correct:
  "case receive_line buf chunks of
     None \<Rightarrow> wire_lines (pending_stream buf chunks) = []
   | Some (line, buf', chunks') \<Rightarrow>
       wire_lines (pending_stream buf chunks) = line # wire_lines (pending_stream buf' chunks')"
proof (induction buf chunks rule: receive_line.induct)
  case (1 buf chunks)
  show ?case
  proof (cases "py_find buf [10]")
    case None
    with py_find_single [where s = buf and c = 10] have fresh: "10 \<notin> set buf" by simp
    show ?thesis
    proof (cases chunks)
      case Nil
      with None fresh show ?thesis
        by (simp add: receive_line.simps pending_stream_def wire_lines_def split_on_fresh)
    next
      case (Cons chunk chunks')
      show ?thesis
      proof (cases "chunk = []")
        case True
        with None fresh Cons show ?thesis
          by (simp add: receive_line.simps pending_stream_def wire_lines_def split_on_fresh)
      next
        case False
        then have "pending_stream buf chunks = pending_stream (buf @ chunk) chunks'"
          using Cons by (simp add: pending_stream_def)
        moreover have "receive_line buf chunks = receive_line (buf @ chunk) chunks'"
          using None False by (simp add: Cons receive_line.simps [of buf "chunk # chunks'"])
        ultimately show ?thesis using "1.IH"(1) [OF None Cons False] by presburger
      qed
    qed
  next
    case (Some i)
    with py_find_single [where s = buf and c = 10]
    have sp: "buf = take i buf @ 10 # drop (i + 1) buf" "10 \<notin> set (take i buf)" by simp_all
    have "pending_stream buf chunks = take i buf @ 10 # pending_stream (drop (i + 1) buf) chunks"
      by (subst sp(1)) (simp add: pending_stream_def)
    then have w: "wire_lines (pending_stream buf chunks) =
        (if bytes_strip (take i buf) = [] then wire_lines (pending_stream (drop (i + 1) buf) chunks)
         else bytes_strip (take i buf) # wire_lines (pending_stream (drop (i + 1) buf) chunks))"
      using wire_lines_append [OF sp(2)] by simp
    show ?thesis
    proof (cases "bytes_strip (take i buf) = []")
      case True
      have "\<not> bytes_strip (take i buf) \<noteq> []" using True by simp
      note IH = "1.IH"(2) [OF Some refl refl this]
      have "receive_line buf chunks = receive_line (drop (i + 1) buf) chunks"
        using Some True by (simp add: receive_line.simps [of buf chunks])
      moreover have "wire_lines (pending_stream buf chunks) =
          wire_lines (pending_stream (drop (i + 1) buf) chunks)" using w True by simp
      ultimately show ?thesis using IH by presburger
    next
      case False
      with w Some show ?thesis by (simp add: receive_line.simps [of buf chunks])
    qed
  qed
qed

end
