(* ===== verification/CircuitBreaker.thy ===== *)
theory CircuitBreaker
  imports Prelude
begin

text \<open>
  \<open>production/circuit_breaker.py\<close>: the circuit breaker around a defence layer. Each critical
  section under the lock is one operation on the record; \<open>now\<close> is the reading of
  \<open>time.monotonic()\<close> in it. \<open>call\<close> is several critical sections with the protected function in
  between, so two views are given: \<open>cb_call\<close> runs one call to its end, and \<open>cb_step\<close> interleaves
  the critical sections of any number of threads.
\<close>

section \<open>State and operations\<close>

datatype circuit_state = CLOSED | OPEN | HALF_OPEN

record circuit_breaker =
  cb_name :: pystr
  cb_failure_threshold :: int
  cb_recovery_timeout :: rat
  cb_state :: circuit_state
  cb_failure_count :: int
  cb_last_failure_time :: rat

definition make_circuit_breaker :: "pystr \<Rightarrow> int \<Rightarrow> rat \<Rightarrow> circuit_breaker" where
  "make_circuit_breaker name failure_threshold recovery_timeout =
    \<lparr>cb_name = name, cb_failure_threshold = failure_threshold,
     cb_recovery_timeout = recovery_timeout, cb_state = CLOSED, cb_failure_count = 0,
     cb_last_failure_time = 0\<rparr>"

text \<open>The property \<open>state\<close> moves an open circuit to half-open when the timeout has passed.\<close>

definition cb_read_state :: "rat \<Rightarrow> circuit_breaker \<Rightarrow> circuit_state \<times> circuit_breaker" where
  "cb_read_state now cb =
    (if cb_state cb = OPEN \<and> now - cb_last_failure_time cb \<ge> cb_recovery_timeout cb
     then (HALF_OPEN, cb\<lparr>cb_state := HALF_OPEN\<rparr>)
     else (cb_state cb, cb))"

definition cb_on_success :: "circuit_breaker \<Rightarrow> circuit_breaker" where
  "cb_on_success cb = cb\<lparr>cb_failure_count := 0, cb_state := CLOSED\<rparr>"

definition cb_on_failure :: "rat \<Rightarrow> circuit_breaker \<Rightarrow> circuit_breaker" where
  "cb_on_failure now cb =
    (let cb1 = cb\<lparr>cb_failure_count := cb_failure_count cb + 1, cb_last_failure_time := now\<rparr>
     in if cb_failure_count cb1 \<ge> cb_failure_threshold cb1 then cb1\<lparr>cb_state := OPEN\<rparr> else cb1)"

definition cb_reset :: "circuit_breaker \<Rightarrow> circuit_breaker" where
  "cb_reset cb = cb\<lparr>cb_state := CLOSED, cb_failure_count := 0, cb_last_failure_time := 0\<rparr>"

text \<open>The protected function and the fallback act on a world \<open>'w\<close> and raise or return. The three
  clock readings are those of the first look at the state, of \<open>_on_failure\<close> and of the second
  look.\<close>

datatype 'e call_exn = CircuitOpenError pystr | FuncError 'e

type_synonym ('w, 'e, 'a) action = "'w \<Rightarrow> ('e + 'a) \<times> 'w"

definition raises_as :: "('e + 'a) \<times> 'w \<Rightarrow> ('e call_exn + 'a) \<times> 'w" where
  "raises_as r = (case r of (Inl e, w) \<Rightarrow> (Inl (FuncError e), w) | (Inr x, w) \<Rightarrow> (Inr x, w))"

definition cb_call :: "rat \<Rightarrow> rat \<Rightarrow> rat \<Rightarrow> ('w, 'e, 'a) action \<Rightarrow> ('w, 'e, 'a) action option \<Rightarrow>
    circuit_breaker \<Rightarrow> 'w \<Rightarrow> (('e call_exn + 'a) \<times> 'w) \<times> circuit_breaker" where
  "cb_call now1 now2 now3 func fallback cb w =
    (let (current_state, cb1) = cb_read_state now1 cb
     in if current_state = OPEN then
          (case fallback of
             Some f \<Rightarrow> (raises_as (f w), cb1)
           | None \<Rightarrow> ((Inl (CircuitOpenError (cb_name cb)), w), cb1))
        else (case func w of
            (Inr result, w') \<Rightarrow> ((Inr result, w'), cb_on_success cb1)
          | (Inl e, w') \<Rightarrow>
              (let cb2 = cb_on_failure now2 cb1
               in case fallback of
                    None \<Rightarrow> ((Inl (FuncError e), w'), cb2)
                  | Some f \<Rightarrow>
                      (let (st, cb3) = cb_read_state now3 cb2
                       in if st = OPEN then (raises_as (f w'), cb3)
                          else ((Inl (FuncError e), w'), cb3)))))"

section \<open>Interleaved critical sections\<close>

datatype cb_event = ReadState rat | Success | Failure rat | Reset

fun cb_apply :: "cb_event \<Rightarrow> circuit_breaker \<Rightarrow> circuit_breaker" where
  "cb_apply (ReadState now) cb = snd (cb_read_state now cb)"
| "cb_apply Success cb = cb_on_success cb"
| "cb_apply (Failure now) cb = cb_on_failure now cb"
| "cb_apply Reset cb = cb_reset cb"

text \<open>Threads as what they still owe: \<open>running\<close> calls have looked at the state and will end in a
  success or a failure.\<close>

inductive cb_step :: "circuit_breaker \<times> nat \<Rightarrow> cb_event \<Rightarrow> circuit_breaker \<times> nat \<Rightarrow> bool" where
  enter: "fst (cb_read_state now cb) \<noteq> OPEN \<Longrightarrow>
    cb_step (cb, n) (ReadState now) (snd (cb_read_state now cb), Suc n)"
| look: "cb_step (cb, n) (ReadState now) (snd (cb_read_state now cb), n)"
| succeed: "cb_step (cb, Suc n) Success (cb_on_success cb, n)"
| fail: "cb_step (cb, Suc n) (Failure now) (cb_on_failure now cb, n)"
| reset: "cb_step (cb, n) Reset (cb_reset cb, n)"

inductive cb_exec :: "circuit_breaker \<times> nat \<Rightarrow> cb_event list \<Rightarrow> circuit_breaker \<times> nat \<Rightarrow> bool" where
  none: "cb_exec s [] s"
| more: "cb_exec s es s' \<Longrightarrow> cb_step s' e s'' \<Longrightarrow> cb_exec s (es @ [e]) s''"

inductive_cases cb_stepE: "cb_step s e s'"

section \<open>The breaker is its history\<close>

text \<open>The reference: what the events alone say. The failures counted are those since the last
  success or reset; the last one's time decides whether a later look found the timeout over.\<close>

fun trailing_failures :: "cb_event list \<Rightarrow> int" where
  "trailing_failures [] = 0"
| "trailing_failures (Failure t # es) = trailing_failures es + 1"
| "trailing_failures (ReadState t # es) = trailing_failures es"
| "trailing_failures (_ # es) = 0"

fun latest_failure :: "cb_event list \<Rightarrow> rat" where
  "latest_failure [] = 0"
| "latest_failure (Failure t # es) = t"
| "latest_failure (Reset # es) = 0"
| "latest_failure (_ # es) = latest_failure es"

fun probed :: "rat \<Rightarrow> cb_event list \<Rightarrow> bool" where
  "probed timeout [] = False"
| "probed timeout (ReadState t # es) =
     (t - latest_failure es \<ge> timeout \<and> trailing_failures es > 0 \<or> probed timeout es)"
| "probed timeout (_ # es) = False"

definition history_state :: "int \<Rightarrow> rat \<Rightarrow> cb_event list \<Rightarrow> circuit_state" where
  "history_state threshold timeout es =
    (if trailing_failures es < threshold then CLOSED
     else if probed timeout es then HALF_OPEN else OPEN)"

lemma trailing_nonneg: "0 \<le> trailing_failures es"
  by (induction es rule: trailing_failures.induct) auto

text \<open>The histories are kept latest event first.\<close>

definition tracks :: "int \<Rightarrow> rat \<Rightarrow> cb_event list \<Rightarrow> circuit_breaker \<Rightarrow> bool" where
  "tracks threshold timeout es cb \<longleftrightarrow>
     cb_failure_threshold cb = threshold \<and> cb_recovery_timeout cb = timeout \<and>
     cb_failure_count cb = trailing_failures es \<and> cb_last_failure_time cb = latest_failure es \<and>
     cb_state cb = history_state threshold timeout es"

lemma tracks_apply:
  assumes "0 < threshold" "tracks threshold timeout es cb"
  shows "tracks threshold timeout (e # es) (cb_apply e cb)"
  using assms trailing_nonneg [of es]
  by (cases e) (auto simp: tracks_def history_state_def cb_read_state_def cb_on_success_def
      cb_on_failure_def cb_reset_def Let_def)

lemma cb_step_apply: "cb_step s e s' \<Longrightarrow> fst s' = cb_apply e (fst s)"
  by (auto elim: cb_stepE)

lemma cb_exec_tracks:
  assumes "cb_exec s es s'" "0 < threshold" "tracks threshold timeout [] (fst s)"
  shows "tracks threshold timeout (rev es) (fst s')"
  using assms
proof (induction rule: cb_exec.induct)
  case (none s)
  then show ?case by simp
next
  case (more s es s' e s'')
  then show ?case by (auto simp: cb_step_apply intro: tracks_apply)
qed

text \<open>
  C24: Under every interleaving of the critical sections of any number of threads, the
  breaker's state is what its event history says: closed while fewer than
  \<open>failure_threshold\<close> failures have occurred since the last success or reset, and from then
  on open, until a look at the state at least \<open>recovery_timeout\<close> after the latest failure
  makes it half-open. The failure counter never drifts from that history.
\<close>

theorem breaker_follows_history:
  assumes "cb_exec (make_circuit_breaker name threshold timeout, 0) es (cb, n)" "0 < threshold"
  shows "cb_state cb = history_state threshold timeout (rev es) \<and>
    cb_failure_count cb = trailing_failures (rev es)"
proof -
  have "tracks threshold timeout [] (make_circuit_breaker name threshold timeout)"
    using assms(2) by (simp add: tracks_def make_circuit_breaker_def history_state_def)
  with cb_exec_tracks [OF assms(1,2)] show ?thesis by (simp add: tracks_def)
qed

theorem breaker_follows_history_witness:
  "\<exists>cb. cb_exec (make_circuit_breaker [] 1 30, 0) [ReadState 1, Failure 2] (cb, 0) \<and>
     cb_state cb = history_state 1 30 (rev [ReadState 1, Failure 2])"
proof -
  let ?b = "make_circuit_breaker [] 1 30"
  have "cb_step (?b, 0) (ReadState 1) (snd (cb_read_state 1 ?b), Suc 0)"
    by (rule cb_step.enter) (simp add: cb_read_state_def make_circuit_breaker_def)
  then have "cb_exec (?b, 0) ([] @ [ReadState 1]) (snd (cb_read_state 1 ?b), Suc 0)"
    by (rule cb_exec.more [OF cb_exec.none])
  from cb_exec.more [OF this cb_step.fail [of _ 0 2]]
  have e: "cb_exec (?b, 0) [ReadState 1, Failure 2]
      (cb_on_failure 2 (snd (cb_read_state 1 ?b)), 0)" by simp
  from breaker_follows_history [OF e] e show ?thesis by auto
qed

text \<open>
  Fail fast. While the circuit is open and the timeout has not passed, a call does not
  run the protected function: without a fallback it raises \<open>CircuitOpenError\<close> and leaves the
  world alone, with one the fallback alone runs; the breaker is unchanged.
\<close>

theorem open_circuit_fails_fast:
  assumes "cb_state cb = OPEN" "now1 - cb_last_failure_time cb < cb_recovery_timeout cb"
  shows "cb_call now1 now2 now3 func fallback cb w =
    ((case fallback of None \<Rightarrow> (Inl (CircuitOpenError (cb_name cb)), w)
      | Some f \<Rightarrow> raises_as (f w)), cb)"
  using assms by (auto simp: cb_call_def cb_read_state_def split: option.splits)

theorem open_circuit_fails_fast_witness:
  "cb_call 5 5 5 (\<lambda>w. (Inr (1::nat), Suc w)) (None :: (nat, unit, nat) action option)
     (cb_on_failure 2 (make_circuit_breaker (u ''egress'') 1 30)) 0 =
   ((Inl (CircuitOpenError (u ''egress'')), 0),
     cb_on_failure 2 (make_circuit_breaker (u ''egress'') 1 30))"
proof -
  let ?b = "cb_on_failure 2 (make_circuit_breaker (u ''egress'') 1 30)"
  have "cb_state ?b = OPEN" "5 - cb_last_failure_time ?b < cb_recovery_timeout ?b"
    "cb_name ?b = u ''egress''"
    by (simp_all add: cb_on_failure_def make_circuit_breaker_def)
  then show ?thesis by (simp only: open_circuit_fails_fast option.case)
qed

text \<open>
  C25: Recovery. Once the timeout has passed, the next call runs the protected function
  whatever happened before; if it returns, its value is the result, the circuit is closed and
  the failure count is zero.
\<close>

theorem recovered_call_closes:
  assumes "cb_recovery_timeout cb \<le> now1 - cb_last_failure_time cb" "func w = (Inr x, w')"
  shows "\<exists>cb'. cb_call now1 now2 now3 func fallback cb w = ((Inr x, w'), cb') \<and>
    cb_state cb' = CLOSED \<and> cb_failure_count cb' = 0"
  using assms by (auto simp: cb_call_def cb_read_state_def cb_on_success_def Let_def)

theorem recovered_call_closes_witness:
  "\<exists>cb'. cb_call 40 41 42 (\<lambda>w. (Inr (7::nat), Suc w)) (None :: (nat, unit, nat) action option)
     (cb_on_failure 2 (make_circuit_breaker [] 1 30)) 0 = ((Inr 7, Suc 0), cb') \<and>
   cb_state cb' = CLOSED \<and> cb_failure_count cb' = 0"
  by (rule recovered_call_closes) (simp_all add: cb_on_failure_def make_circuit_breaker_def)

end
