(* ===== verification/PyNet.thy ===== *)
theory PyNet
  imports Prelude
begin

text \<open>
  What the components use of Python's \<open>ipaddress\<close> and \<open>urllib.parse\<close>: the strict parsers of IPv4
  and IPv6 literals, the loopback, link-local and private ranges, and the host that
  \<open>urlparse(url).hostname\<close> finds. Addresses are numbers below \<open>2 ^ 32\<close> and \<open>2 ^ 128\<close>; a parser
  that raises \<open>ValueError\<close> returns \<open>None\<close>. Unicode normalisation (\<open>NFKC\<close>) is the parameter
  \<open>nfkc\<close>.
\<close>

section \<open>IPv4 literals\<close>

definition parse_octet :: "pystr \<Rightarrow> nat option" where
  "parse_octet s =
    (if s = [] \<or> \<not> list_all is_digit s \<or> length s > 3 \<or> (s \<noteq> [48] \<and> hd s = 48)
        \<or> digits_val s > 255
     then None else Some (digits_val s))"

fun parse_octets :: "pystr list \<Rightarrow> nat \<Rightarrow> nat option" where
  "parse_octets [] n = Some n"
| "parse_octets (s # ss) n =
     (case parse_octet s of None \<Rightarrow> None | Some k \<Rightarrow> parse_octets ss (256 * n + k))"

definition ipv4_parse :: "pystr \<Rightarrow> nat option" where
  "ipv4_parse s =
    (if 47 \<in> set s \<or> length (split_on 46 s) \<noteq> 4 then None else parse_octets (split_on 46 s) 0)"

section \<open>IPv6 literals\<close>

fun hex_value :: "pystr \<Rightarrow> nat \<Rightarrow> nat option" where
  "hex_value [] n = Some n"
| "hex_value (c # s) n =
     (case hex_val c of None \<Rightarrow> None | Some d \<Rightarrow> hex_value s (16 * n + d))"

text \<open>\<open>int('', 16)\<close> raises too, so an empty hextet is refused.\<close>

definition parse_hextet :: "pystr \<Rightarrow> nat option" where
  "parse_hextet s = (if s = [] \<or> length s > 4 then None else hex_value s 0)"

fun parse_hextets :: "pystr list \<Rightarrow> nat \<Rightarrow> nat option" where
  "parse_hextets [] n = Some n"
| "parse_hextets (s # ss) n =
     (case parse_hextet s of None \<Rightarrow> None | Some k \<Rightarrow> parse_hextets ss (65536 * n + k))"

text \<open>A dotted suffix becomes two hextets; they are kept as the numbers they denote.\<close>

datatype ip6_part = Hextets pystr | Value16 nat

definition part_empty :: "ip6_part \<Rightarrow> bool" where
  "part_empty p = (p = Hextets [])"

definition part_value :: "ip6_part \<Rightarrow> nat option" where
  "part_value p = (case p of Hextets s \<Rightarrow> parse_hextet s | Value16 n \<Rightarrow> Some n)"

fun parts_value :: "ip6_part list \<Rightarrow> nat \<Rightarrow> nat option" where
  "parts_value [] n = Some n"
| "parts_value (p # ps) n =
     (case part_value p of None \<Rightarrow> None | Some k \<Rightarrow> parts_value ps (65536 * n + k))"

definition ip6_parts :: "pystr \<Rightarrow> ip6_part list option" where
  "ip6_parts s =
    (let parts = split_on 58 s
     in if length parts < 3 then None
        else if 46 \<in> set (last parts) then
          (case ipv4_parse (last parts) of
             None \<Rightarrow> None
           | Some v \<Rightarrow> Some (map Hextets (butlast parts) @
               [Value16 (v div 65536 mod 65536), Value16 (v mod 65536)]))
        else Some (map Hextets parts))"

definition inner_empties :: "ip6_part list \<Rightarrow> nat list" where
  "inner_empties ps = filter (\<lambda>i. part_empty (ps ! i)) [1..<length ps - 1]"

definition ip6_value :: "ip6_part list \<Rightarrow> nat option" where
  "ip6_value ps =
    (if length ps > 9 then None
     else (case inner_empties ps of
        [] \<Rightarrow>
          (if length ps \<noteq> 8 \<or> part_empty (hd ps) \<or> part_empty (last ps) then None
           else parts_value ps 0)
      | [skip_index] \<Rightarrow>
          (let hi = (if part_empty (hd ps) then skip_index - 1 else skip_index);
               lo = (if part_empty (last ps) then length ps - skip_index - 2
                     else length ps - skip_index - 1)
           in if (part_empty (hd ps) \<and> hi \<noteq> 0) \<or> (part_empty (last ps) \<and> lo \<noteq> 0)
                 \<or> hi + lo > 7 then None
              else (case parts_value (take hi ps) 0 of
                  None \<Rightarrow> None
                | Some n \<Rightarrow> parts_value (drop (length ps - lo) ps)
                    (n * 65536 ^ (8 - (hi + lo)))))
      | _ \<Rightarrow> None))"

text \<open>The scope id: what follows the first \<open>%\<close>, not empty and without another \<open>%\<close>.\<close>

definition ipv6_parse :: "pystr \<Rightarrow> nat option" where
  "ipv6_parse s =
    (let (addr, scope) = split1 37 s
     in if 47 \<in> set s \<or> (37 \<in> set s \<and> (scope = [] \<or> 37 \<in> set scope)) \<or> addr = [] then None
        else (case ip6_parts addr of None \<Rightarrow> None | Some ps \<Rightarrow> ip6_value ps))"

datatype ip_addr = IPv4 nat | IPv6 nat

definition ip_address :: "pystr \<Rightarrow> ip_addr option" where
  "ip_address s =
    (case ipv4_parse s of
       Some n \<Rightarrow> Some (IPv4 n)
     | None \<Rightarrow> map_option IPv6 (ipv6_parse s))"

section \<open>Ranges\<close>

text \<open>A network is a base address and the number of free low bits.\<close>

definition in_net :: "nat \<Rightarrow> nat \<times> nat \<Rightarrow> bool" where
  "in_net a net \<longleftrightarrow> a div 2 ^ snd net = fst net div 2 ^ snd net"

definition ip4 :: "nat \<Rightarrow> nat \<Rightarrow> nat \<Rightarrow> nat \<Rightarrow> nat" where
  "ip4 a b c d = ((a * 256 + b) * 256 + c) * 256 + d"

definition private_networks4 :: "(nat \<times> nat) list" where
  "private_networks4 = [(ip4 0 0 0 0, 24), (ip4 10 0 0 0, 24), (ip4 127 0 0 0, 24),
     (ip4 169 254 0 0, 16), (ip4 172 16 0 0, 20), (ip4 192 0 0 0, 8), (ip4 192 0 0 170, 1),
     (ip4 192 0 2 0, 8), (ip4 192 168 0 0, 16), (ip4 198 18 0 0, 17), (ip4 198 51 100 0, 8),
     (ip4 203 0 113 0, 8), (ip4 240 0 0 0, 28), (ip4 255 255 255 255, 0)]"

definition private_exceptions4 :: "(nat \<times> nat) list" where
  "private_exceptions4 = [(ip4 192 0 0 9, 0), (ip4 192 0 0 10, 0)]"

definition ip6 :: "nat list \<Rightarrow> nat" where
  "ip6 hextets = foldl (\<lambda>n h. 65536 * n + h) 0 hextets * 65536 ^ (8 - length hextets)"

definition private_networks6 :: "(nat \<times> nat) list" where
  "private_networks6 = [(1, 0), (0, 0), (0xFFFF00000000, 32), (ip6 [0x64, 0xFF9B, 1], 80),
     (ip6 [0x100], 64), (ip6 [0x2001], 105), (ip6 [0x2001, 0xDB8], 96), (ip6 [0x2002], 112),
     (ip6 [0xFC00], 121), (ip6 [0xFE80], 118)]"

definition private_exceptions6 :: "(nat \<times> nat) list" where
  "private_exceptions6 = [(ip6 [0x2001, 1] + 1, 0), (ip6 [0x2001, 1] + 2, 0),
     (ip6 [0x2001, 3], 96), (ip6 [0x2001, 4, 0x112], 80), (ip6 [0x2001, 0x20], 100),
     (ip6 [0x2001, 0x30], 100)]"

definition in_nets :: "nat \<Rightarrow> (nat \<times> nat) list \<Rightarrow> (nat \<times> nat) list \<Rightarrow> bool" where
  "in_nets a nets excepted \<longleftrightarrow> list_ex (in_net a) nets \<and> \<not> list_ex (in_net a) excepted"

definition ipv4_mapped :: "nat \<Rightarrow> nat option" where
  "ipv4_mapped a = (if a div 2 ^ 32 = 65535 then Some (a mod 2 ^ 32) else None)"

definition is_private4 :: "nat \<Rightarrow> bool" where
  "is_private4 a \<longleftrightarrow> in_nets a private_networks4 private_exceptions4"

fun is_private :: "ip_addr \<Rightarrow> bool" where
  "is_private (IPv4 a) = is_private4 a"
| "is_private (IPv6 a) =
     (case ipv4_mapped a of
        Some b \<Rightarrow> is_private4 b
      | None \<Rightarrow> in_nets a private_networks6 private_exceptions6)"

fun is_loopback :: "ip_addr \<Rightarrow> bool" where
  "is_loopback (IPv4 a) = in_net a (ip4 127 0 0 0, 24)"
| "is_loopback (IPv6 a) = (a = 1)"

fun is_link_local :: "ip_addr \<Rightarrow> bool" where
  "is_link_local (IPv4 a) = in_net a (ip4 169 254 0 0, 16)"
| "is_link_local (IPv6 a) = in_net a (ip6 [0xFE80], 118)"

section \<open>The host of a URL\<close>

text \<open>\<open>s.partition(c)\<close> without the separator, and \<open>s.rpartition(c)[2]\<close>.\<close>

definition after_last :: "nat \<Rightarrow> pystr \<Rightarrow> pystr" where
  "after_last c s = last (split_on c s)"

definition is_ascii_alpha :: "nat \<Rightarrow> bool" where
  "is_ascii_alpha c \<longleftrightarrow> (65 \<le> c \<and> c \<le> 90) \<or> (97 \<le> c \<and> c \<le> 122)"

definition scheme_char :: "nat \<Rightarrow> bool" where
  "scheme_char c \<longleftrightarrow> is_ascii_alpha c \<or> is_digit c \<or> c = 43 \<or> c = 45 \<or> c = 46"

definition clean_url :: "pystr \<Rightarrow> pystr" where
  "clean_url url = filter (\<lambda>c. c \<noteq> 9 \<and> c \<noteq> 10 \<and> c \<noteq> 13) (dropWhile (\<lambda>c. c \<le> 32) url)"

text \<open>The scheme (empty when the text before the first colon is none) and what follows it.\<close>

definition split_scheme :: "pystr \<Rightarrow> pystr \<times> pystr" where
  "split_scheme url =
    (let (pre, post) = split1 58 url
     in if 58 \<in> set url \<and> pre \<noteq> [] \<and> is_ascii_alpha (hd pre) \<and> list_all scheme_char pre
        then (py_lower pre, post) else ([], url))"

definition url_netloc :: "pystr \<Rightarrow> pystr" where
  "url_netloc rest =
    (if starts_with rest [47, 47]
     then takeWhile (\<lambda>c. c \<noteq> 47 \<and> c \<noteq> 63 \<and> c \<noteq> 35) (drop 2 rest) else [])"

definition is_hex :: "nat \<Rightarrow> bool" where
  "is_hex c \<longleftrightarrow> hex_val c \<noteq> None"

text \<open>\<open>_check_bracketed_host\<close>: an IPvFuture literal (\<open>v\<close>, hexadecimal digits, a dot and at least one
  more character, none of them a line break) or an IPv6 address.\<close>

definition bracketed_ok :: "pystr \<Rightarrow> bool" where
  "bracketed_ok h =
    (if starts_with h [118] then
       (let (ver, tail) = split1 46 (tl h)
        in 46 \<in> set h \<and> ver \<noteq> [] \<and> list_all is_hex ver \<and> tail \<noteq> [] \<and> 10 \<notin> set tail)
     else (case ip_address h of Some (IPv6 a) \<Rightarrow> True | _ \<Rightarrow> False))"

definition brackets_ok :: "pystr \<Rightarrow> bool" where
  "brackets_ok netloc =
    ((91 \<in> set netloc \<longleftrightarrow> 93 \<in> set netloc) \<and>
     (91 \<in> set netloc \<longrightarrow> bracketed_ok (fst (split1 93 (snd (split1 91 netloc))))))"

text \<open>\<open>_checknetloc\<close>: compatibility characters must not normalise to a delimiter.\<close>

definition netloc_chars_ok :: "(pystr \<Rightarrow> pystr) \<Rightarrow> pystr \<Rightarrow> bool" where
  "netloc_chars_ok nfkc netloc =
    (list_all (\<lambda>c. c < 128) netloc \<or>
     (let n = filter (\<lambda>c. c \<notin> set [64, 58, 35, 63]) netloc; netloc2 = nfkc n
      in n = netloc2 \<or> list_all (\<lambda>c. c \<notin> set [47, 63, 35, 64, 58]) netloc2))"

text \<open>The scheme and the network location, or \<open>None\<close> when \<open>urlparse\<close> raises.\<close>

definition urlparse :: "(pystr \<Rightarrow> pystr) \<Rightarrow> pystr \<Rightarrow> (pystr \<times> pystr) option" where
  "urlparse nfkc url =
    (let (scheme, rest) = split_scheme (clean_url url); netloc = url_netloc rest
     in if brackets_ok netloc \<and> netloc_chars_ok nfkc netloc then Some (scheme, netloc) else None)"

definition hostinfo :: "pystr \<Rightarrow> pystr" where
  "hostinfo netloc =
    (let info = after_last 64 netloc
     in if 91 \<in> set info then fst (split1 93 (snd (split1 91 info))) else fst (split1 58 info))"

text \<open>The property \<open>hostname\<close>: lower case up to a zone id.\<close>

definition hostname :: "pystr \<Rightarrow> pystr option" where
  "hostname netloc =
    (let h = hostinfo netloc
     in if h = [] then None
        else Some (py_lower (takeWhile (\<lambda>c. c \<noteq> 37) h) @ dropWhile (\<lambda>c. c \<noteq> 37) h))"

end
