(* ===== verification/PolicyEngine.thy ===== *)
theory PolicyEngine
  imports PyNet
begin

text \<open>
  \<open>policy/policy_engine.py\<close>: the fail-closed policy decision point. The two exceptions that
  leave \<open>evaluate\<close> are values: \<open>.strip()\<close> on an egress destination that is no string, and
  \<open>urlparse\<close> on a malformed URL.
\<close>

section \<open>Data\<close>

datatype reason_code =
    ALLOWED
  | DENY_DEFAULT
  | DENY_MALFORMED_INPUT
  | DENY_DANGEROUS_TOOL
  | DENY_SERVER_NOT_ALLOWED
  | DENY_EGRESS_NOT_ALLOWED
  | DENY_EGRESS_MALFORMED

definition DEFAULT_DANGEROUS_TOOLS :: "pystr list" where
  "DEFAULT_DANGEROUS_TOOLS = map u [''shell_exec'', ''exec'', ''run_command'', ''delete_file'',
     ''rm'', ''drop_database'', ''write_iam_policy'', ''assume_role'', ''disable_logging'',
     ''modify_firewall'']"

record policy_input =
  pi_tool_name :: pystr
  pi_server_id :: pystr
  pi_arguments :: pydict
  pi_egress_destination :: pyval

text \<open>\<open>PolicyInput.from_tool_call\<close>; \<open>Inl\<close> is the text of its \<open>ValueError\<close>.\<close>

definition from_tool_call :: "pyval \<Rightarrow> pystr + policy_input" where
  "from_tool_call tool_call =
    (case tool_call of
       PDict d \<Rightarrow>
         (case dget_or d (u ''name'') PNone of
            PStr name \<Rightarrow>
              (if name = [] then Inl (u ''tool_call.name must be a non-empty string'')
               else (case dget_or d (u ''server_id'') PNone of
                 PStr server_id \<Rightarrow>
                   (if server_id = []
                    then Inl (u ''tool_call.server_id must be a non-empty string'')
                    else (case dget_or d (u ''arguments'') (PDict []) of
                      PDict arguments \<Rightarrow>
                        Inr \<lparr>pi_tool_name = name, pi_server_id = server_id,
                          pi_arguments = arguments,
                          pi_egress_destination = dget_or d (u ''egress_destination'') PNone\<rparr>
                    | _ \<Rightarrow> Inl (u ''tool_call.arguments must be a dict'')))
               | _ \<Rightarrow> Inl (u ''tool_call.server_id must be a non-empty string'')))
          | _ \<Rightarrow> Inl (u ''tool_call.name must be a non-empty string''))
     | _ \<Rightarrow> Inl (u ''tool_call must be a dict''))"

record policy_decision =
  pd_allowed :: bool
  pd_reason_code :: reason_code
  pd_message :: pystr
  pd_matched_rule :: pystr

definition reason_code_value :: "reason_code \<Rightarrow> pystr" where
  "reason_code_value rc =
    (case rc of
       ALLOWED \<Rightarrow> u ''ALLOWED''
     | DENY_DEFAULT \<Rightarrow> u ''DENY_DEFAULT''
     | DENY_MALFORMED_INPUT \<Rightarrow> u ''DENY_MALFORMED_INPUT''
     | DENY_DANGEROUS_TOOL \<Rightarrow> u ''DENY_DANGEROUS_TOOL''
     | DENY_SERVER_NOT_ALLOWED \<Rightarrow> u ''DENY_SERVER_NOT_ALLOWED''
     | DENY_EGRESS_NOT_ALLOWED \<Rightarrow> u ''DENY_EGRESS_NOT_ALLOWED''
     | DENY_EGRESS_MALFORMED \<Rightarrow> u ''DENY_EGRESS_MALFORMED'')"

definition policy_decision_to_dict :: "policy_decision \<Rightarrow> pydict" where
  "policy_decision_to_dict d =
    [(u ''allowed'', PBool (pd_allowed d)),
     (u ''reason_code'', PStr (reason_code_value (pd_reason_code d))),
     (u ''message'', PStr (pd_message d)), (u ''matched_rule'', PStr (pd_matched_rule d))]"

record policy_engine =
  pe_allowed_servers :: "pystr list"
  pe_allowed_egress_hosts :: "pystr list"
  pe_dangerous_tools :: "pystr list"

definition make_policy_engine ::
    "pystr list \<Rightarrow> pystr list option \<Rightarrow> pystr list option \<Rightarrow> policy_engine" where
  "make_policy_engine allowed_servers allowed_egress_hosts dangerous_tools =
    \<lparr>pe_allowed_servers = allowed_servers,
     pe_allowed_egress_hosts = (case allowed_egress_hosts of None \<Rightarrow> [] | Some hs \<Rightarrow> hs),
     pe_dangerous_tools =
       (case dangerous_tools of None \<Rightarrow> DEFAULT_DANGEROUS_TOOLS | Some ts \<Rightarrow> ts)\<rparr>"

section \<open>Egress\<close>

datatype policy_exn = NotAString | UrlValueError

fun first_destination :: "pydict \<Rightarrow> pystr list \<Rightarrow> pystr option" where
  "first_destination args [] = None"
| "first_destination args (key # keys) =
     (case dget_or args key PNone of
        PStr val \<Rightarrow> if val \<noteq> [] then Some val else first_destination args keys
      | _ \<Rightarrow> first_destination args keys)"

definition DESTINATION_KEYS :: "pystr list" where
  "DESTINATION_KEYS = map u [''url'', ''host'', ''endpoint'', ''target'']"

text \<open>\<open>_extract_destination\<close>: an explicit destination of any truthy value is returned as it is.\<close>

definition extract_destination :: "policy_input \<Rightarrow> pyval option" where
  "extract_destination inp =
    (if truthy (pi_egress_destination inp) then Some (pi_egress_destination inp)
     else map_option PStr (first_destination (pi_arguments inp) DESTINATION_KEYS))"

definition nonempty_host :: "pystr \<Rightarrow> pystr option" where
  "nonempty_host h = (if h = [] then None else Some h)"

definition host_from_destination :: "(pystr \<Rightarrow> pystr) \<Rightarrow> pystr \<Rightarrow> policy_exn + pystr option" where
  "host_from_destination nfkc raw =
    (let dest = py_strip raw
     in if dest = [] then Inr None
        else if contains dest (u ''://'') then
          (case urlparse nfkc dest of
             None \<Rightarrow> Inl UrlValueError
           | Some (scheme, netloc) \<Rightarrow> Inr (hostname netloc))
        else if starts_with dest [91] then
          (case py_find dest [93] of
             Some end_pos \<Rightarrow> Inr (Some (take (end_pos - 1) (drop 1 dest)))
           | None \<Rightarrow> Inr None)
        else if 58 \<in> set dest \<and> length (filter (\<lambda>c. c = 58) dest) = 1
        then Inr (nonempty_host (fst (split1 58 dest)))
        else Inr (Some dest))"

definition is_blocked_ip :: "pystr \<Rightarrow> bool" where
  "is_blocked_ip host =
    (case ip_address host of
       None \<Rightarrow> False
     | Some ip \<Rightarrow> is_loopback ip \<or> is_link_local ip \<or> is_private ip)"

definition quoted :: "pystr \<Rightarrow> pystr" where
  "quoted s = [39] @ s @ [39]"

definition deny :: "reason_code \<Rightarrow> pystr \<Rightarrow> pystr \<Rightarrow> policy_decision" where
  "deny code message rule =
    \<lparr>pd_allowed = False, pd_reason_code = code, pd_message = message, pd_matched_rule = rule\<rparr>"

text \<open>\<open>_evaluate_egress\<close>; the verdict on the parsed host is a definition of its own.\<close>

definition host_verdict :: "policy_engine \<Rightarrow> pystr \<Rightarrow> pystr option \<Rightarrow> policy_decision option" where
  "host_verdict pe dest parsed =
    (case parsed of
       None \<Rightarrow> Some (deny DENY_EGRESS_MALFORMED
         (u ''Could not parse egress destination '' @ quoted dest @
          u '', denied fail-closed'') (u ''egress.malformed''))
     | Some host0 \<Rightarrow>
         (let host = py_lower host0
          in if is_blocked_ip host \<and> host \<notin> set (pe_allowed_egress_hosts pe) then
               Some (deny DENY_EGRESS_NOT_ALLOWED
                 (u ''Egress to internal/loopback address '' @ quoted host @
                  u '' is not allowed'') (u ''egress.blocked_internal''))
             else if host \<notin> set (pe_allowed_egress_hosts pe) then
               Some (deny DENY_EGRESS_NOT_ALLOWED
                 (u ''Egress destination '' @ quoted host @ u '' is not on the allowlist'')
                 (u ''egress.allowlist''))
             else None))"

definition evaluate_egress ::
    "(pystr \<Rightarrow> pystr) \<Rightarrow> policy_engine \<Rightarrow> policy_input \<Rightarrow> policy_exn + policy_decision option" where
  "evaluate_egress nfkc pe inp =
    (case extract_destination inp of
       None \<Rightarrow> Inr None
     | Some (PStr dest) \<Rightarrow>
         rbind (host_from_destination nfkc dest) (\<lambda>parsed. Inr (host_verdict pe dest parsed))
     | Some v \<Rightarrow> Inl NotAString)"

section \<open>Evaluation\<close>

datatype policy_request = RawToolCall pyval | Normalized policy_input

definition normalize :: "policy_request \<Rightarrow> pystr + policy_input" where
  "normalize req = (case req of Normalized inp \<Rightarrow> Inr inp | RawToolCall v \<Rightarrow> from_tool_call v)"

definition deny_malformed :: "pystr \<Rightarrow> policy_decision" where
  "deny_malformed exc = deny DENY_MALFORMED_INPUT
     (u ''Malformed tool call, denied fail-closed: '' @ exc) (u ''input_validation'')"

definition deny_dangerous :: "pystr \<Rightarrow> policy_decision" where
  "deny_dangerous tool_name = deny DENY_DANGEROUS_TOOL
     (u ''Tool '' @ quoted tool_name @ u '' is on the dangerous-tool denylist'')
     (u ''tool_authorization.dangerous_tool'')"

definition deny_server :: "pystr \<Rightarrow> policy_decision" where
  "deny_server server_id = deny DENY_SERVER_NOT_ALLOWED
     (u ''Server '' @ quoted server_id @ u '' is not on the allowlist'')
     (u ''tool_authorization.server_allowlist'')"

definition allow_decision :: policy_decision where
  "allow_decision = \<lparr>pd_allowed = True, pd_reason_code = ALLOWED,
     pd_message = u ''Allowed: tool authorized, server on allowlist, egress permitted'',
     pd_matched_rule = u ''allow''\<rparr>"

definition evaluate ::
    "(pystr \<Rightarrow> pystr) \<Rightarrow> policy_engine \<Rightarrow> policy_request \<Rightarrow> policy_exn + policy_decision" where
  "evaluate nfkc pe req =
    (case normalize req of
       Inl exc \<Rightarrow> Inr (deny_malformed exc)
     | Inr inp \<Rightarrow>
         (if pi_tool_name inp \<in> set (pe_dangerous_tools pe) then
            Inr (deny_dangerous (pi_tool_name inp))
          else if pi_server_id inp \<notin> set (pe_allowed_servers pe) then
            Inr (deny_server (pi_server_id inp))
          else (case evaluate_egress nfkc pe inp of
              Inl exc \<Rightarrow> Inl exc
            | Inr (Some egress_decision) \<Rightarrow> Inr egress_decision
            | Inr None \<Rightarrow> Inr allow_decision)))"

section \<open>What is allowed\<close>

text \<open>The destination is permitted: there is none, or it is a string with a host on the list.\<close>

definition egress_permitted :: "(pystr \<Rightarrow> pystr) \<Rightarrow> policy_engine \<Rightarrow> policy_input \<Rightarrow> bool" where
  "egress_permitted nfkc pe inp \<longleftrightarrow>
     (case extract_destination inp of
        None \<Rightarrow> True
      | Some (PStr dest) \<Rightarrow>
          (\<exists>host. host_from_destination nfkc dest = Inr (Some host) \<and>
             py_lower host \<in> set (pe_allowed_egress_hosts pe))
      | Some v \<Rightarrow> False)"

lemma deny_not_allowed [simp]: "\<not> pd_allowed (deny c m r)" "pd_reason_code (deny c m r) = c"
  by (simp_all add: deny_def)

lemma decision_allowed [simp]:
  "\<not> pd_allowed (deny_malformed e)" "\<not> pd_allowed (deny_dangerous t)"
  "\<not> pd_allowed (deny_server s)" "pd_allowed allow_decision"
  by (simp_all add: deny_malformed_def deny_dangerous_def deny_server_def allow_decision_def)

lemma host_verdict_None:
  "host_verdict pe dest parsed = None \<longleftrightarrow>
     (\<exists>host. parsed = Some host \<and> py_lower host \<in> set (pe_allowed_egress_hosts pe))"
  by (cases parsed) (simp_all add: host_verdict_def Let_def)

lemma host_verdict_Some: "host_verdict pe dest parsed = Some d \<Longrightarrow> \<not> pd_allowed d"
  by (auto simp: host_verdict_def Let_def split: option.splits if_splits)

lemma evaluate_egress_None:
  "evaluate_egress nfkc pe inp = Inr None \<longleftrightarrow> egress_permitted nfkc pe inp"
  by (auto simp: evaluate_egress_def egress_permitted_def host_verdict_None
      split: option.splits pyval.splits)

lemma evaluate_egress_Some: "evaluate_egress nfkc pe inp = Inr (Some d) \<Longrightarrow> \<not> pd_allowed d"
  by (auto simp: evaluate_egress_def dest: host_verdict_Some split: option.splits pyval.splits)

text \<open>
  C26: Default deny, deny wins. A decision allows a tool call exactly when the call normalises,
  its tool is not on the denylist, its server is on the allowlist and its destination, if it
  names one, is a string whose host is on the egress allowlist; no other input yields an
  allow, whatever rule comes first.
\<close>

theorem policy_allows_iff:
  "(\<exists>d. evaluate nfkc pe req = Inr d \<and> pd_allowed d) \<longleftrightarrow>
   (\<exists>inp. normalize req = Inr inp \<and>
      pi_tool_name inp \<notin> set (pe_dangerous_tools pe) \<and>
      pi_server_id inp \<in> set (pe_allowed_servers pe) \<and>
      egress_permitted nfkc pe inp)"
proof (cases "normalize req")
  case (Inl exc)
  then show ?thesis by (simp add: evaluate_def)
next
  case (Inr inp)
  then show ?thesis
    using evaluate_egress_None [of nfkc pe inp] evaluate_egress_Some [of nfkc pe inp]
    by (cases "evaluate_egress nfkc pe inp")
      (auto simp: evaluate_def split: option.splits)
qed

text \<open>
  Fail closed is not exception free. \<open>evaluate\<close> raises instead of deciding exactly when a
  call that passes the tool and server checks names a destination that is truthy but no string
  (\<open>.strip()\<close> fails) or a URL that \<open>urlparse\<close> rejects; every other input gets a decision.
\<close>

theorem policy_raises_iff:
  "(\<exists>e. evaluate nfkc pe req = Inl e) \<longleftrightarrow>
   (\<exists>inp dest. normalize req = Inr inp \<and>
      pi_tool_name inp \<notin> set (pe_dangerous_tools pe) \<and>
      pi_server_id inp \<in> set (pe_allowed_servers pe) \<and>
      extract_destination inp = Some dest \<and>
      (\<not> is_str dest \<or>
       (\<exists>s. dest = PStr s \<and> contains (py_strip s) (u ''://'') \<and>
          urlparse nfkc (py_strip s) = None)))"
proof -
  have h: "(\<exists>e. host_from_destination nfkc s = Inl e) \<longleftrightarrow>
      contains (py_strip s) (u ''://'') \<and> urlparse nfkc (py_strip s) = None" for s
    by (auto simp: host_from_destination_def Let_def contains_def split: option.splits)
  have eg: "(\<exists>e. evaluate_egress nfkc pe inp = Inl e) \<longleftrightarrow>
      (\<exists>dest. extract_destination inp = Some dest \<and>
         (\<not> is_str dest \<or> (\<exists>s e. dest = PStr s \<and> host_from_destination nfkc s = Inl e)))" for inp
  proof (cases "extract_destination inp")
    case None
    then show ?thesis by (simp add: evaluate_egress_def)
  next
    case (Some dest)
    then show ?thesis by (cases dest) (simp_all add: evaluate_egress_def rbind_eq_Inl)
  qed
  have "(\<exists>e. evaluate nfkc pe req = Inl e) \<longleftrightarrow>
      (\<exists>inp. normalize req = Inr inp \<and> pi_tool_name inp \<notin> set (pe_dangerous_tools pe) \<and>
        pi_server_id inp \<in> set (pe_allowed_servers pe) \<and>
        (\<exists>e. evaluate_egress nfkc pe inp = Inl e))"
  proof (cases "normalize req")
    case (Inl exc)
    then show ?thesis by (simp add: evaluate_def)
  next
    case (Inr inp)
    then show ?thesis
      by (cases "evaluate_egress nfkc pe inp")
        (auto simp: evaluate_def split: option.splits)
  qed
  moreover have "(\<exists>s e. dest = PStr s \<and> host_from_destination nfkc s = Inl e) \<longleftrightarrow>
      (\<exists>s. dest = PStr s \<and> contains (py_strip s) (u ''://'') \<and>
         urlparse nfkc (py_strip s) = None)" for dest
    using h by (simp only: ex_simps)
  ultimately show ?thesis unfolding eg by (simp only: ex_simps)
qed

text \<open>An explicit destination that is a number.\<close>

theorem policy_raises_iff_witness:
  "\<exists>e. evaluate id (make_policy_engine [u ''s''] None None)
     (Normalized \<lparr>pi_tool_name = u ''fetch'', pi_server_id = u ''s'', pi_arguments = [],
        pi_egress_destination = PInt 7\<rparr>) = Inl e"
  unfolding policy_raises_iff
  by (intro exI [of _ "\<lparr>pi_tool_name = u ''fetch'', pi_server_id = u ''s'', pi_arguments = [],
        pi_egress_destination = PInt 7\<rparr>"] exI [of _ "PInt 7"])
    (simp add: normalize_def make_policy_engine_def DEFAULT_DANGEROUS_TOOLS_def extract_destination_def)

text \<open>
  Only one destination is ever checked. When a call carries an explicit
  \<open>egress_destination\<close>, replacing every argument (\<open>url\<close>, \<open>host\<close>, \<open>endpoint\<close> and \<open>target\<close> included)
  changes nothing in the decision, so an allowlisted explicit destination clears a call whose
  arguments point anywhere.
\<close>

theorem explicit_destination_masks_arguments:
  assumes "truthy (pi_egress_destination inp)"
  shows "evaluate nfkc pe (Normalized (inp\<lparr>pi_arguments := args\<rparr>)) =
    evaluate nfkc pe (Normalized inp)"
  using assms by (simp add: evaluate_def normalize_def evaluate_egress_def extract_destination_def)

theorem explicit_destination_masks_arguments_witness:
  "evaluate id (make_policy_engine [u ''s''] (Some [u ''good.com'']) None)
     (Normalized \<lparr>pi_tool_name = u ''fetch'', pi_server_id = u ''s'',
        pi_arguments = [(u ''url'', PStr (u ''http://evil.com/''))],
        pi_egress_destination = PStr (u ''good.com'')\<rparr>) =
   evaluate id (make_policy_engine [u ''s''] (Some [u ''good.com'']) None)
     (Normalized \<lparr>pi_tool_name = u ''fetch'', pi_server_id = u ''s'', pi_arguments = [],
        pi_egress_destination = PStr (u ''good.com'')\<rparr>)"
  using explicit_destination_masks_arguments
    [of "\<lparr>pi_tool_name = u ''fetch'', pi_server_id = u ''s'', pi_arguments = [],
        pi_egress_destination = PStr (u ''good.com'')\<rparr>" id _
        "[(u ''url'', PStr (u ''http://evil.com/''))]"]
  by simp


section \<open>The host of a URL with user information\<close>

definition url_text :: "pystr \<Rightarrow> bool" where
  "url_text s \<longleftrightarrow> list_all (\<lambda>c. 33 \<le> c \<and> c \<le> 126) s"

definition avoids :: "pystr \<Rightarrow> nat list \<Rightarrow> bool" where
  "avoids s cs \<longleftrightarrow> list_all (\<lambda>c. c \<notin> set s) cs"

lemma url_text_strip: "url_text s \<Longrightarrow> py_strip s = s"
proof (rule py_strip_id)
  assume t: "url_text s"
  have "\<not> is_space c" if "c \<in> set s" for c
    using t that by (auto simp: url_text_def list_all_iff is_space_def dest!: bspec [of "set s"])
  then show "s = [] \<or> \<not> is_space (hd s) \<and> \<not> is_space (last s)"
    by (cases s) auto
qed

lemma url_text_clean: "url_text s \<Longrightarrow> clean_url s = s"
  by (cases s) (auto simp: url_text_def clean_url_def list_all_iff filter_id_conv)

lemma authority_host:
  assumes "avoids userinfo [91, 93]" "avoids h [64, 58, 91, 93]"
    "avoids port [64, 91, 93]" "port = [] \<or> hd port = 58"
  shows "hostinfo (userinfo @ [64] @ h @ port) = h"
proof -
  have "after_last 64 (userinfo @ 64 # h @ port) = h @ port"
    using assms(2,3) by (simp add: after_last_def split_on_app split_on_fresh avoids_def)
  moreover have "fst (split1 58 (h @ port)) = h"
    using assms(2,4) by (cases port) (auto simp: split1_fresh split1_none avoids_def)
  ultimately show ?thesis
    using assms by (auto simp: hostinfo_def avoids_def)
qed

text \<open>
  User information cannot pass for the host. In a printable ASCII URL
  \<open>scheme://userinfo@host[:port]\<close> followed by a path, a query, a fragment or nothing, the host
  that the egress check compares with the allowlist is the text after the last \<open>@\<close>, in lower
  case, whatever the user information contains (an allowlisted name included).
\<close>

theorem userinfo_is_not_the_host:
  assumes "url_text (scheme @ u ''://'' @ userinfo @ [64] @ h @ port @ path)"
    and "scheme \<noteq> []" "is_ascii_alpha (hd scheme)" "list_all scheme_char scheme"
    and "avoids userinfo [47, 63, 35, 91, 93]" "avoids h [47, 63, 35, 64, 58, 91, 93, 37]"
    and "h \<noteq> []" "avoids port [47, 63, 35, 64, 91, 93]" "port = [] \<or> hd port = 58"
    and "path = [] \<or> hd path \<in> set [47, 63, 35]"
  shows "host_from_destination nfkc (scheme @ u ''://'' @ userinfo @ [64] @ h @ port @ path) =
    Inr (Some (py_lower h))"
proof -
  let ?auth = "userinfo @ [64] @ h @ port"
  let ?dest = "scheme @ u ''://'' @ userinfo @ [64] @ h @ port @ path"
  have lit: "u ''://'' = [58, 47, 47]" by (simp add: u_def)
  have "58 \<notin> set scheme"
    using assms(4) by (auto simp: list_all_iff scheme_char_def is_ascii_alpha_def is_digit_def)
  then have "split_scheme ?dest = (py_lower scheme, [47, 47] @ ?auth @ path)"
    using assms(2-4) by (simp add: split_scheme_def lit split1_fresh)
  moreover have "list_all (\<lambda>c. c \<noteq> 47 \<and> c \<noteq> 63 \<and> c \<noteq> 35) ?auth"
    using assms(5,6,8) by (auto simp: avoids_def list_all_iff)
  then have "takeWhile (\<lambda>c. c \<noteq> 47 \<and> c \<noteq> 63 \<and> c \<noteq> 35) (?auth @ path) = ?auth"
    by (rule takeWhile_stop) (use assms(10) in auto)
  then have "url_netloc ([47, 47] @ ?auth @ path) = ?auth" by (simp add: url_netloc_def)
  moreover have "brackets_ok ?auth"
    using assms(5,6,8) by (auto simp: brackets_ok_def avoids_def)
  moreover have "netloc_chars_ok nfkc ?auth"
  proof -
    have "url_text ?auth" using assms(1) by (simp add: url_text_def)
    then have "list_all (\<lambda>c. c < 128) ?auth"
      unfolding url_text_def by (rule list.pred_mono_strong) simp
    then show ?thesis by (simp add: netloc_chars_ok_def)
  qed
  ultimately have "urlparse nfkc ?dest = Some (py_lower scheme, ?auth)"
    using url_text_clean [OF assms(1)] by (simp add: urlparse_def)
  moreover have "hostname ?auth = Some (py_lower h)"
  proof -
    have "hostinfo ?auth = h"
      using assms(5,6,8,9) by (intro authority_host) (auto simp: avoids_def)
    moreover have "takeWhile (\<lambda>c. c \<noteq> 37) h = h" "dropWhile (\<lambda>c. c \<noteq> 37) h = []"
      using assms(6) by (auto simp: avoids_def takeWhile_eq_all_conv dropWhile_eq_Nil_conv)
    ultimately show ?thesis using assms(7)
      unfolding hostname_def Let_def by (metis append_Nil2)
  qed
  moreover have "contains ?dest (u ''://'')" by (rule contains_infix)
  ultimately show ?thesis
    using url_text_strip [OF assms(1)] by (simp add: host_from_destination_def lit)
qed

theorem userinfo_is_not_the_host_witness:
  "host_from_destination id (u ''http'' @ u ''://'' @ u ''good.com'' @ [64] @ u ''Evil.com'' @
     u '':80'' @ u ''/x'') = Inr (Some (py_lower (u ''Evil.com'')))"
  by (rule userinfo_is_not_the_host)
    (simp_all add: u_def url_text_def avoids_def is_ascii_alpha_def scheme_char_def is_digit_def)

end
