(* ===== verification/JsonDump.thy ===== *)
theory JsonDump
  imports Json "HOL-Library.List_Lexorder"
begin

text \<open>
  \<open>json.dumps\<close> as the gateway uses it: ASCII output, the default separators or the compact ones,
  keys in insertion order or sorted, and the theorem that \<open>json.loads\<close> reads the printed text back.
  \<open>float.__repr__\<close> is the parameter \<open>fr\<close>; \<open>repr_law\<close> says that its text is a number literal for
  the float it prints. (\<open>json.dumps\<close> raises on an integer of more than 4300 digits; the printer
  here is total, and the theorems ask for shorter ones.)
\<close>

section \<open>Printing\<close>

definition hex_char :: "nat \<Rightarrow> nat" where
  "hex_char n = (if n < 10 then 48 + n else 87 + n)"

definition u_escape :: "nat \<Rightarrow> pystr" where
  "u_escape n = [92, 117, hex_char (n div 4096), hex_char (n div 256 mod 16),
     hex_char (n div 16 mod 16), hex_char (n mod 16)]"

definition escape_cp :: "nat \<Rightarrow> pystr" where
  "escape_cp c =
    (if c = 34 then [92, 34] else if c = 92 then [92, 92]
     else if c = 10 then [92, 110] else if c = 13 then [92, 114] else if c = 9 then [92, 116]
     else if c = 12 then [92, 102] else if c = 8 then [92, 98]
     else if 32 \<le> c \<and> c \<le> 126 then [c]
     else if c < 65536 then u_escape c
     else u_escape (55296 + (c - 65536) div 1024) @ u_escape (56320 + (c - 65536) mod 1024))"

definition dump_str :: "pystr \<Rightarrow> pystr" where
  "dump_str s = [34] @ concat (map escape_cp s) @ [34]"

fun show_nat :: "nat \<Rightarrow> pystr" where
  "show_nat n = (if n < 10 then [48 + n] else show_nat (n div 10) @ [48 + n mod 10])"

declare show_nat.simps [simp del]

definition show_int :: "int \<Rightarrow> pystr" where
  "show_int i = (if i < 0 then 45 # show_nat (nat (- i)) else show_nat (nat i))"

record dump_style =
  ds_spaced :: bool
  ds_sorted :: bool

definition default_style :: dump_style where
  "default_style = \<lparr>ds_spaced = True, ds_sorted = False\<rparr>"

definition canonical_style :: dump_style where
  "canonical_style = \<lparr>ds_spaced = False, ds_sorted = True\<rparr>"

definition item_sep :: "dump_style \<Rightarrow> pystr" where
  "item_sep st = (if ds_spaced st then [44, 32] else [44])"

definition key_sep :: "dump_style \<Rightarrow> pystr" where
  "key_sep st = (if ds_spaced st then [58, 32] else [58])"

text \<open>Sorting the keys of every object first is the same as sorting while printing.\<close>

fun sort_keys :: "pyval \<Rightarrow> pyval" where
  "sort_keys (PList vs) = PList (map sort_keys vs)"
| "sort_keys (PDict d) = PDict (sort_key fst (map (\<lambda>(k, v). (k, sort_keys v)) d))"
| "sort_keys v = v"

fun print_val :: "(rat \<Rightarrow> pystr) \<Rightarrow> dump_style \<Rightarrow> pyval \<Rightarrow> pystr" where
  "print_val fr st PNone = u ''null''"
| "print_val fr st (PBool b) = (if b then u ''true'' else u ''false'')"
| "print_val fr st (PInt i) = show_int i"
| "print_val fr st (PFloat f) =
     (case f of Fin q \<Rightarrow> fr q | PosInf \<Rightarrow> u ''Infinity'' | NegInf \<Rightarrow> u ''-Infinity'' | NaN \<Rightarrow> u ''NaN'')"
| "print_val fr st (PStr s) = dump_str s"
| "print_val fr st (PList vs) =
     [91] @ join_with (item_sep st) (map (print_val fr st) vs) @ [93]"
| "print_val fr st (PDict d) =
     [123] @ join_with (item_sep st)
       (map (\<lambda>(k, v). dump_str k @ key_sep st @ print_val fr st v) d) @ [125]"

definition dumps :: "(rat \<Rightarrow> pystr) \<Rightarrow> dump_style \<Rightarrow> pyval \<Rightarrow> pystr" where
  "dumps fr st v = print_val fr st (if ds_sorted st then sort_keys v else v)"

section \<open>Reading strings back\<close>

definition plain_text :: "pystr \<Rightarrow> bool" where
  "plain_text s \<longleftrightarrow> list_all (\<lambda>c. \<not> is_surrogate c \<and> c < 1114112) s"

lemma hex_val_char: "n < 16 \<Longrightarrow> hex_val (hex_char n) = Some n"
  by (simp add: hex_val_def hex_char_def)

lemma hex4_digits:
  "((n div 4096 * 16 + n div 256 mod 16) * 16 + n div 16 mod 16) * 16 + n mod 16 = (n :: nat)"
proof -
  have "n div 256 = n div 16 div 16" "n div 4096 = n div 16 div 16 div 16"
    by (simp_all add: div_mult2_eq [symmetric])
  then show ?thesis by (simp add: div_mult_mod_eq)
qed

lemma hex4_escape:
  "n < 65536 \<Longrightarrow> hex4 (drop 2 (u_escape n) @ r) = Some (n, r)"
  using hex4_digits [of n] by (simp add: u_escape_def hex_val_char div_less_iff_less_mult)

lemma u_escape_parts: "u_escape n @ r = 92 # 117 # (drop 2 (u_escape n) @ r)"
  by (simp add: u_escape_def)

lemma unicode_escape_bmp:
  "n < 65536 \<Longrightarrow> \<not> is_surrogate n \<Longrightarrow>
     unicode_escape (drop 2 (u_escape n) @ r) = Some (n, r)"
  by (auto simp: unicode_escape_def hex4_escape is_surrogate_def)

lemma unicode_escape_pair:
  assumes "65536 \<le> c" "c < 1114112"
  shows "unicode_escape (drop 2 (u_escape (55296 + (c - 65536) div 1024)) @
      u_escape (56320 + (c - 65536) mod 1024) @ r) = Some (c, r)"
proof -
  define h l where hl: "h = 55296 + (c - 65536) div 1024" "l = 56320 + (c - 65536) mod 1024"
  have h: "55296 \<le> h" "h \<le> 56319" using assms by (auto simp: hl div_less_iff_less_mult less_Suc_eq_le [symmetric])
  have l: "56320 \<le> l" "l \<le> 57343"
    using mod_less_divisor [of 1024 "c - 65536"] by (auto simp: hl)
  have "65536 + (h - 55296) * 1024 + (l - 56320) = c"
    using assms(1) div_mult_mod_eq [of "c - 65536" 1024] by (simp add: hl)
  then have "unicode_escape (drop 2 (u_escape h) @ 92 # 117 # (drop 2 (u_escape l) @ r)) =
      Some (c, r)"
    using h l by (simp add: unicode_escape_def hex4_escape)
  then show ?thesis by (simp only: u_escape_parts [symmetric] hl)
qed

lemma jstring_escape:
  assumes "\<not> is_surrogate c" "c < 1114112"
  shows "jstring (escape_cp c @ r) = map_option (\<lambda>(t, r'). (c # t, r')) (jstring r)"
proof (cases "c \<in> {34, 92, 10, 13, 9, 12, 8} \<or> 32 \<le> c \<and> c \<le> 126")
  case True
  then show ?thesis by (auto simp: escape_cp_def escape_char_def)
next
  case False
  show ?thesis
  proof (cases "c < 65536")
    case True
    then have "jstring (u_escape c @ r) = map_option (\<lambda>(t, r'). (c # t, r')) (jstring r)"
      using unicode_escape_bmp [OF True assms(1), of r] by (subst u_escape_parts) simp
    with False True show ?thesis by (simp add: escape_cp_def)
  next
    case big: False
    then have "jstring (u_escape (55296 + (c - 65536) div 1024) @
        u_escape (56320 + (c - 65536) mod 1024) @ r) =
        map_option (\<lambda>(t, r'). (c # t, r')) (jstring r)"
      using unicode_escape_pair [of c r] assms(2) by (subst u_escape_parts) simp
    with False big show ?thesis by (simp add: escape_cp_def)
  qed
qed

lemma jstring_dump:
  "plain_text s \<Longrightarrow> jstring (concat (map escape_cp s) @ 34 # r) = Some (s, r)"
  by (induction s) (auto simp: plain_text_def jstring_escape simp del: jstring.simps
      , simp)


section \<open>Reading numbers back\<close>

text \<open>What may follow a value: the end, a separator or a bracket of a printed text, or a newline.\<close>

definition at_end :: "pystr \<Rightarrow> bool" where
  "at_end r \<longleftrightarrow> r = [] \<or> hd r \<in> {10, 44, 93, 125}"

lemma show_nat_digits: "list_all is_digit (show_nat n) \<and> show_nat n \<noteq> []"
proof (induction n rule: show_nat.induct)
  case (1 n)
  then show ?case by (auto simp: show_nat.simps [of n] is_digit_def)
qed

lemma digits_val_snoc: "digits_val (ds @ [c]) = 10 * digits_val ds + (c - 48)"
  by (simp add: digits_val_def)

lemma digits_val_show: "digits_val (show_nat n) = n"
proof (induction n rule: show_nat.induct)
  case (1 n)
  then show ?case
    by (cases "n < 10") (simp_all add: show_nat.simps [of n] digits_val_snoc, simp add: digits_val_def)
qed

lemma show_nat_head: "0 < n \<Longrightarrow> hd (show_nat n) \<noteq> 48"
proof (induction n rule: show_nat.induct)
  case (1 n)
  then show ?case
    using show_nat_digits [of "n div 10"] by (auto simp: show_nat.simps [of n])
qed

lemma at_end_not_digit: "at_end r \<Longrightarrow> r = [] \<or> \<not> is_digit (hd r)"
  by (auto simp: at_end_def is_digit_def)

lemma int_part_show: "at_end r \<Longrightarrow> int_part (show_nat n @ r) = Some (show_nat n, r)"
proof (cases "n = 0")
  case True
  then show ?thesis by (simp add: int_part_def show_nat.simps [of 0])
next
  case False
  assume r: "at_end r"
  obtain c ds where s: "show_nat n = c # ds" using show_nat_digits [of n] by (cases "show_nat n") auto
  have c: "is_digit c" "c \<noteq> 48" using show_nat_digits [of n] show_nat_head [of n] False s by auto
  have tw: "takeWhile is_digit (show_nat n @ r) = show_nat n"
    using show_nat_digits [of n] at_end_not_digit [OF r] by (intro takeWhile_stop) auto
  then have "dropWhile is_digit (show_nat n @ r) = r"
    using takeWhile_dropWhile_id [of is_digit "show_nat n @ r"] by simp
  with tw c s show ?thesis by (simp add: int_part_def take_digits_def)
qed

lemma at_end_parts: "at_end r \<Longrightarrow> frac_part r = ([], r) \<and> exp_part r = (None, r)"
  by (auto simp: at_end_def frac_part_def exp_part_def split: list.splits)

lemma jnumber_int:
  assumes "at_end r" "length (show_nat (nat \<bar>i\<bar>)) \<le> 4300"
  shows "jnumber (show_int i @ r) = Inr (PInt i, r)"
proof -
  obtain c ds where s: "show_nat (nat \<bar>i\<bar>) = c # ds" "is_digit c"
    using show_nat_digits [of "nat \<bar>i\<bar>"] by (cases "show_nat (nat \<bar>i\<bar>)") auto
  then have ns: "\<not> starts_with (show_nat (nat \<bar>i\<bar>) @ r) [45]" by (auto simp: is_digit_def)
  show ?thesis
    using assms ns int_part_show [OF assms(1), of "nat \<bar>i\<bar>"] at_end_parts [OF assms(1)]
    by (cases "i < 0") (simp_all add: show_int_def jnumber_def digits_val_show Let_def)
qed

definition repr_law :: "(rat \<Rightarrow> pystr) \<Rightarrow> rat set \<Rightarrow> bool" where
  "repr_law fr F \<longleftrightarrow> (\<forall>q \<in> F. \<exists>c ds. fr q = c # ds \<and> (is_digit c \<or> c = 45 \<and> ds \<noteq> [] \<and> is_digit (hd ds)) \<and>
     list_all (\<lambda>b. 33 \<le> b \<and> b \<le> 126) (fr q) \<and>
     (\<forall>r. at_end r \<longrightarrow> jnumber (fr q @ r) = Inr (PFloat (Fin q), r)))"

text \<open>What can be printed and read back: distinct keys, encodable strings, integers below the
  digit limit, floats that the law covers.\<close>

fun printable :: "rat set \<Rightarrow> pyval \<Rightarrow> bool" where
  "printable F (PInt i) = (length (show_nat (nat \<bar>i\<bar>)) \<le> 4300)"
| "printable F (PFloat (Fin q)) = (q \<in> F)"
| "printable F (PStr s) = plain_text s"
| "printable F (PList vs) = list_all (printable F) vs"
| "printable F (PDict d) =
     (distinct (map fst d) \<and> list_all (\<lambda>(k, v). plain_text k \<and> printable F v) d)"
| "printable F v = True"

text \<open>How deep the scanner recurses.\<close>

fun depth :: "pyval \<Rightarrow> nat" where
  "depth (PList vs) = Suc (foldr max (map depth vs) 0)"
| "depth (PDict d) = Suc (foldr max (map (\<lambda>(k, v). depth v) d) 0)"
| "depth _ = 0"

lemma depth_elem: "v \<in> set vs \<Longrightarrow> depth v \<le> foldr max (map depth vs) 0"
  by (induction vs) auto

lemma depth_member: "(k, v) \<in> set d \<Longrightarrow> depth v \<le> foldr max (map (\<lambda>(k, v). depth v) d) 0"
  by (induction d) auto

lemma number_no_literal:
  "is_digit c \<or> c = 45 \<and> ds \<noteq> [] \<and> is_digit (hd ds) \<Longrightarrow> jliteral (c # ds) = None"
  by (cases ds) (auto simp: jliteral_def jliterals_def u_def is_digit_def)


section \<open>Reading values back\<close>

lemma number_scan:
  assumes "is_digit c \<or> c = 45 \<and> ds \<noteq> [] \<and> is_digit (hd ds)"
  shows "jvalue hk (Suc f) rl (c # ds) = jnumber (c # ds)"
  using assms number_no_literal [OF assms] by (auto simp: is_digit_def)

lemma show_int_head:
  "\<exists>c ds. show_int i = c # ds \<and> (is_digit c \<or> c = 45 \<and> ds \<noteq> [] \<and> is_digit (hd ds))"
proof -
  obtain c ds where "show_nat (nat \<bar>i\<bar>) = c # ds" "is_digit c"
    using show_nat_digits [of "nat \<bar>i\<bar>"] by (cases "show_nat (nat \<bar>i\<bar>)") auto
  then show ?thesis by (auto simp: show_int_def)
qed

lemma print_head:
  assumes "repr_law fr F" "printable F v"
  shows "\<exists>c ds. print_val fr st v = c # ds \<and> \<not> json_ws c \<and> c \<noteq> 93 \<and> c \<noteq> 125"
proof (cases v)
  case (PInt i)
  then show ?thesis using show_int_head [of i] by (auto simp: json_ws_def is_digit_def)
next
  case (PFloat f)
  then show ?thesis
  proof (cases f)
    case (Fin q)
    with assms PFloat obtain c ds where "fr q = c # ds" "is_digit c \<or> c = 45"
      unfolding repr_law_def by fastforce
    with PFloat Fin show ?thesis by (auto simp: json_ws_def is_digit_def)
  qed (simp_all add: u_def json_ws_def)
qed (auto simp: u_def json_ws_def dump_str_def)

lemma scalar_scan:
  assumes "repr_law fr F" "printable F v" "scalar v" "at_end r"
  shows "jvalue plain_hook (Suc f) rl (print_val fr st v @ r) = Inr (v, r)"
proof (cases v)
  case (PInt i)
  obtain c ds where s: "show_int i = c # ds" "is_digit c \<or> c = 45 \<and> ds \<noteq> [] \<and> is_digit (hd ds)"
    using show_int_head by blast
  then have "jvalue plain_hook (Suc f) rl (show_int i @ r) = jnumber (show_int i @ r)"
    using number_scan [of c "ds @ r" plain_hook f rl] by (auto simp del: jvalue.simps)
  with PInt assms show ?thesis by (simp add: jnumber_int del: jvalue.simps)
next
  case (PFloat x)
  then show ?thesis
  proof (cases x)
    case (Fin q)
    with assms PFloat obtain c ds where s: "fr q = c # ds"
      "is_digit c \<or> c = 45 \<and> ds \<noteq> [] \<and> is_digit (hd ds)"
      and n: "jnumber (fr q @ r) = Inr (PFloat (Fin q), r)"
      unfolding repr_law_def by fastforce
    then have "jvalue plain_hook (Suc f) rl (fr q @ r) = jnumber (fr q @ r)"
      using number_scan [of c "ds @ r" plain_hook f rl] by (auto simp del: jvalue.simps)
    with PFloat Fin n show ?thesis by (simp del: jvalue.simps)
  qed (simp_all add: u_def jliteral_def jliterals_def)
qed (use assms in \<open>simp_all add: u_def jliteral_def jliterals_def scalar_def dump_str_def jstring_dump\<close>)

lemma skip_ws_head: "\<not> json_ws c \<Longrightarrow> skip_ws (c # s) = c # s"
  by (simp add: skip_ws_def)

lemma skip_item_sep:
  assumes "\<not> json_ws c"
  shows "skip_ws (item_sep st @ c # s) = 44 # tl (item_sep st) @ c # s"
    "skip_ws (tl (item_sep st) @ c # s) = c # s"
    "skip_ws (key_sep st @ c # s) = 58 # tl (key_sep st) @ c # s"
    "skip_ws (tl (key_sep st) @ c # s) = c # s"
  using assms by (auto simp: item_sep_def key_sep_def skip_ws_def json_ws_def)

lemma items_scan:
  assumes law: "repr_law fr F"
    and el: "\<And>v f rl r. v \<in> set vs \<Longrightarrow> printable F v \<Longrightarrow> depth v \<le> rl \<Longrightarrow> at_end r \<Longrightarrow>
      2 * length (print_val fr st v) < f \<Longrightarrow>
      jvalue plain_hook f rl (print_val fr st v @ r) = Inr (v, r)"
  shows "vs \<noteq> [] \<Longrightarrow> list_all (printable F) vs \<Longrightarrow> \<forall>v \<in> set vs. depth v \<le> rl \<Longrightarrow>
    2 * length (join_with (item_sep st) (map (print_val fr st) vs)) + 1 < f \<Longrightarrow>
    jitems plain_hook f rl (join_with (item_sep st) (map (print_val fr st) vs) @ 93 # r) =
      Inr (vs, r)"
  using el
proof (induction vs arbitrary: f)
  case Nil
  then show ?case by simp
next
  case (Cons v vs)
  obtain f' where f: "f = Suc f'" using Cons.prems(4) by (cases f) auto
  show ?case
  proof (cases vs)
    case Nil
    have "jvalue plain_hook f' rl (print_val fr st v @ 93 # r) = Inr (v, 93 # r)"
      using Cons.prems Nil f by (intro Cons.prems(5)) (auto simp: at_end_def)
    with Nil f show ?thesis by (simp add: skip_ws_head json_ws_def)
  next
    case (Cons w ws)
    let ?rest = "join_with (item_sep st) (map (print_val fr st) vs)"
    have j: "join_with (item_sep st) (map (print_val fr st) (v # vs)) =
        print_val fr st v @ item_sep st @ ?rest"
      using Cons by simp
    obtain c ds where c: "?rest @ 93 # r = c # ds" "\<not> json_ws c"
      using print_head [OF law, of w st] Cons.prems(2) Cons
      by (cases ws) (auto simp: list_all_iff)
    have len: "1 \<le> length (item_sep st)" by (simp add: item_sep_def)
    have "jvalue plain_hook f' rl (print_val fr st v @ item_sep st @ ?rest @ 93 # r) =
        Inr (v, item_sep st @ ?rest @ 93 # r)"
      using Cons.prems(2-4) f j by (intro Cons.prems(5)) (auto simp: at_end_def item_sep_def)
    moreover have "jitems plain_hook f' rl (?rest @ 93 # r) = Inr (vs, r)"
      using Cons.prems(2-4) f j len Cons by (intro Cons.IH Cons.prems(5)) auto
    ultimately show ?thesis
      using f c j skip_item_sep [OF c(2), of st ds] by simp
  qed
qed


abbreviation print_member :: "(rat \<Rightarrow> pystr) \<Rightarrow> dump_style \<Rightarrow> pystr \<times> pyval \<Rightarrow> pystr" where
  "print_member fr st \<equiv> (\<lambda>(k, v). dump_str k @ key_sep st @ print_val fr st v)"

lemma member_scan:
  assumes law: "repr_law fr F" and pr: "plain_text k" "printable F v"
    and v: "jvalue plain_hook f rl (print_val fr st v @ r) = Inr (v, r)"
  shows "jmembers plain_hook (Suc f) rl (print_member fr st (k, v) @ r) =
    (case skip_ws r of
       [] \<Rightarrow> Inl JSONDecodeError
     | c # r' \<Rightarrow>
         if c = 125 then Inr ([(k, v)], r')
         else if c = 44 then
           rbind (jmembers plain_hook f rl (skip_ws r')) (\<lambda>(kvs, r''). Inr ((k, v) # kvs, r''))
         else Inl JSONDecodeError)"
proof -
  obtain c ds where c: "print_val fr st v @ r = c # ds" "\<not> json_ws c"
    using print_head [OF law pr(2), of st] by auto
  have s: "print_member fr st (k, v) @ r =
      34 # (concat (map escape_cp k) @ 34 # (key_sep st @ c # ds))"
    by (simp add: dump_str_def c(1) [symmetric])
  show ?thesis
    unfolding s using v c skip_item_sep(3,4) [OF c(2), of st ds]
    by (simp add: jstring_dump [OF pr(1)] del: jvalue.simps)
qed

lemma members_scan:
  assumes law: "repr_law fr F"
    and el: "\<And>k v f rl r. (k, v) \<in> set d \<Longrightarrow> printable F v \<Longrightarrow> depth v \<le> rl \<Longrightarrow> at_end r \<Longrightarrow>
      2 * length (print_val fr st v) < f \<Longrightarrow>
      jvalue plain_hook f rl (print_val fr st v @ r) = Inr (v, r)"
  shows "d \<noteq> [] \<Longrightarrow> list_all (\<lambda>(k, v). plain_text k \<and> printable F v) d \<Longrightarrow>
    \<forall>(k, v) \<in> set d. depth v \<le> rl \<Longrightarrow>
    2 * length (join_with (item_sep st) (map (print_member fr st) d)) + 1 < f \<Longrightarrow>
    jmembers plain_hook f rl (join_with (item_sep st) (map (print_member fr st) d) @ 125 # r) =
      Inr (d, r)"
  using el
proof (induction d arbitrary: f)
  case Nil
  then show ?case by simp
next
  case (Cons kv d)
  obtain k v where kv: "kv = (k, v)" by fastforce
  obtain f' where f: "f = Suc f'" using Cons.prems(4) by (cases f) auto
  have pr: "plain_text k" "printable F v" using Cons.prems(2) kv by simp_all
  have le: "length (print_val fr st v) \<le> length (print_member fr st kv)" using kv by simp
  show ?case
  proof (cases d)
    case Nil
    have "jvalue plain_hook f' rl (print_val fr st v @ 125 # r) = Inr (v, 125 # r)"
      using Cons.prems Nil f kv le pr by (intro Cons.prems(5) [of k]) (auto simp: at_end_def)
    from member_scan [OF law pr this] show ?thesis
      using Nil f kv by (simp add: skip_ws_head json_ws_def del: jmembers.simps)
  next
    case (Cons kw ws)
    let ?rest = "join_with (item_sep st) (map (print_member fr st) d)"
    have j: "join_with (item_sep st) (map (print_member fr st) (kv # d)) =
        print_member fr st kv @ item_sep st @ ?rest"
      using Cons by simp
    obtain ds where c: "?rest @ 125 # r = 34 # ds"
      using Cons by (cases ws; cases kw) (auto simp: dump_str_def)
    have nw: "\<not> json_ws 34" by (simp add: json_ws_def)
    have len: "1 \<le> length (item_sep st)" by (simp add: item_sep_def)
    have "jvalue plain_hook f' rl (print_val fr st v @ item_sep st @ ?rest @ 125 # r) =
        Inr (v, item_sep st @ ?rest @ 125 # r)"
      using Cons.prems(2-4) f j le kv by (intro Cons.prems(5) [of k]) (auto simp: at_end_def item_sep_def)
    from member_scan [OF law pr this]
    have "jmembers plain_hook f rl (print_member fr st (k, v) @ item_sep st @ ?rest @ 125 # r) =
        rbind (jmembers plain_hook f' rl (?rest @ 125 # r)) (\<lambda>(kvs, r''). Inr ((k, v) # kvs, r''))"
      using f c skip_item_sep(1,2) [OF nw, of st ds] by (simp del: jmembers.simps)
    moreover have "jmembers plain_hook f' rl (?rest @ 125 # r) = Inr (d, r)"
      using Cons.prems(2-4) f j len kv Cons by (intro Cons.IH Cons.prems(5)) auto
    ultimately show ?thesis using j kv by (simp del: jmembers.simps)
  qed
qed

lemma scalar_value:
  assumes law: "repr_law fr F"
  shows "scalar v \<Longrightarrow> printable F v \<Longrightarrow> at_end r \<Longrightarrow> n < f \<Longrightarrow>
    jvalue plain_hook f rl (print_val fr st v @ r) = Inr (v, r)"
  using scalar_scan [OF law] by (cases f) (simp_all del: jvalue.simps)

lemma value_scan:
  assumes law: "repr_law fr F"
  shows "printable F v \<Longrightarrow> depth v \<le> rl \<Longrightarrow> at_end r \<Longrightarrow> 2 * length (print_val fr st v) < f \<Longrightarrow>
    jvalue plain_hook f rl (print_val fr st v @ r) = Inr (v, r)"
proof (induction v arbitrary: f rl r)
  case (PList vs)
  show ?case
  proof (cases "vs = []")
    case True
    with PList.prems show ?thesis by (cases f; cases rl) (auto simp: skip_ws_head json_ws_def)
  next
    case False
    obtain f' rl' where fr: "f = Suc f'" "rl = Suc rl'"
      using PList.prems(2,4) by (cases f; cases rl) auto
    let ?body = "join_with (item_sep st) (map (print_val fr st) vs)"
    have "jitems plain_hook f' rl' (?body @ 93 # r) = Inr (vs, r)"
    proof (rule items_scan [OF law])
      show "\<forall>v \<in> set vs. depth v \<le> rl'"
        using PList.prems(2) fr depth_elem [of _ vs] by (auto intro: order_trans)
    qed (use PList.prems False fr in \<open>auto intro!: PList.IH\<close>)
    moreover obtain c ds where c: "?body @ 93 # r = c # ds" "\<not> json_ws c" "c \<noteq> 93"
    proof -
      obtain w ws where "vs = w # ws" using False by (cases vs) auto
      with print_head [OF law, of w st] PList.prems(1) that show ?thesis by (cases ws) auto
    qed
    ultimately show ?thesis using fr by (simp add: skip_ws_head del: jitems.simps)
  qed
next
  case (PDict d)
  show ?case
  proof (cases "d = []")
    case True
    with PDict.prems show ?thesis
      by (cases f; cases rl) (auto simp: skip_ws_head json_ws_def plain_hook_def dict_of_pairs_def)
  next
    case False
    obtain f' rl' where fr: "f = Suc f'" "rl = Suc rl'"
      using PDict.prems(2,4) by (cases f; cases rl) auto
    let ?body = "join_with (item_sep st) (map (print_member fr st) d)"
    have "jmembers plain_hook f' rl' (?body @ 125 # r) = Inr (d, r)"
    proof (rule members_scan [OF law])
      show "\<forall>(k, v) \<in> set d. depth v \<le> rl'"
        using PDict.prems(2) fr depth_member [of _ _ d] by (auto intro: order_trans)
      show "list_all (\<lambda>(k, v). plain_text k \<and> printable F v) d"
        using PDict.prems(1) by simp
      show "2 * length (join_with (item_sep st) (map (print_member fr st) d)) + 1 < f'"
        using PDict.prems(4) fr by simp
      show "jvalue plain_hook f rl (print_val fr st v @ r) = Inr (v, r)"
        if "(k, v) \<in> set d" "printable F v" "depth v \<le> rl" "at_end r"
          "2 * length (print_val fr st v) < f" for k v f rl r
        using that(2-5) by (intro PDict.IH [OF that(1)]) auto
    qed (rule False)
    moreover obtain ds where c: "?body @ 125 # r = 34 # ds"
    proof -
      obtain w ws where "d = w # ws" using False by (cases d) auto
      with that show ?thesis by (cases ws; cases w) (auto simp: dump_str_def)
    qed
    moreover have "plain_hook d = Inr (PDict d)" using PDict.prems(1) by (simp add: plain_hook_distinct)
    ultimately show ?thesis using fr by (simp add: skip_ws_head json_ws_def del: jmembers.simps)
  qed
next
  case PNone
  then show ?case by (intro scalar_value [OF law]) (simp_all add: scalar_def)
next
  case (PBool b)
  then show ?case by (intro scalar_value [OF law]) (simp_all add: scalar_def)
next
  case (PInt i)
  then show ?case by (intro scalar_value [OF law]) (simp_all add: scalar_def)
next
  case (PFloat x)
  then show ?case by (intro scalar_value [OF law]) (simp_all add: scalar_def)
next
  case (PStr t)
  then show ?case by (intro scalar_value [OF law]) (simp_all add: scalar_def)
qed


section \<open>The printed text\<close>

definition ascii_text :: "pystr \<Rightarrow> bool" where
  "ascii_text s \<longleftrightarrow> list_all (\<lambda>c. 32 \<le> c \<and> c \<le> 126) s"

lemma ascii_text_simps [simp]:
  "ascii_text []" "ascii_text (c # s) \<longleftrightarrow> 32 \<le> c \<and> c \<le> 126 \<and> ascii_text s"
  "ascii_text (a @ b) \<longleftrightarrow> ascii_text a \<and> ascii_text b"
  by (auto simp: ascii_text_def)

lemma ascii_join: "ascii_text sep \<Longrightarrow> list_all ascii_text xs \<Longrightarrow> ascii_text (join_with sep xs)"
  by (induction sep xs rule: join_with.induct) auto

lemma ascii_hex: "n < 16 \<Longrightarrow> 32 \<le> hex_char n \<and> hex_char n \<le> 126"
  by (simp add: hex_char_def)

lemma ascii_u_escape: "n < 65536 \<Longrightarrow> ascii_text (u_escape n)"
  by (simp add: u_escape_def ascii_hex div_less_iff_less_mult)

lemma ascii_escape: "c < 1114112 \<Longrightarrow> ascii_text (escape_cp c)"
proof -
  assume "c < 1114112"
  then have "(c - 65536) div 1024 < 1024" by (simp add: div_less_iff_less_mult)
  moreover have "(c - 65536) mod 1024 < 1024" by simp
  ultimately show ?thesis by (auto simp: escape_cp_def intro!: ascii_u_escape)
qed

lemma ascii_dump_str: "plain_text s \<Longrightarrow> ascii_text (dump_str s)"
  by (induction s) (auto simp: dump_str_def plain_text_def ascii_escape)

lemma ascii_show_nat: "ascii_text (show_nat n)"
  using show_nat_digits [of n] by (auto simp: ascii_text_def is_digit_def list_all_iff)

lemma ascii_seps: "ascii_text (item_sep st)" "ascii_text (key_sep st)"
  by (simp_all add: item_sep_def key_sep_def)

lemma ascii_print:
  assumes "repr_law fr F"
  shows "printable F v \<Longrightarrow> ascii_text (print_val fr st v)"
proof (induction v)
  case (PFloat x)
  show ?case
  proof (cases x)
    case (Fin q)
    with assms PFloat have "list_all (\<lambda>b. 33 \<le> b \<and> b \<le> 126) (fr q)"
      unfolding repr_law_def by auto
    then have "ascii_text (fr q)" unfolding ascii_text_def by (rule list.pred_mono_strong) simp
    with Fin show ?thesis by simp
  qed (simp_all add: u_def)
next
  case (PInt i)
  show ?case by (simp add: show_int_def ascii_show_nat)
next
  case (PList vs)
  then have "list_all ascii_text (map (print_val fr st) vs)" by (auto simp: list_all_iff)
  then show ?case by (simp add: ascii_join ascii_seps)
next
  case (PDict d)
  have "list_all ascii_text (map (print_member fr st) d)"
    using PDict by (fastforce simp: list_all_iff ascii_dump_str ascii_seps)
  then show ?case by (simp add: ascii_join ascii_seps)
qed (simp_all add: u_def ascii_dump_str)

lemma loads_print:
  assumes "repr_law fr F" "printable F v" "depth v \<le> rl"
  shows "loads_text plain_hook rl (print_val fr st v) = Inr v"
proof -
  obtain c ds where c: "print_val fr st v = c # ds" "\<not> json_ws c"
    using print_head [OF assms(1,2), of st] by blast
  have "c \<noteq> 65279" using ascii_print [OF assms(1,2), of st] c(1) by simp
  moreover have "jvalue plain_hook (Suc (2 * length (print_val fr st v))) rl
      (print_val fr st v @ []) = Inr (v, [])"
    by (rule value_scan [OF assms]) (simp_all add: at_end_def)
  ultimately show ?thesis
    using c by (simp add: loads_text_Inr skip_ws_head del: jvalue.simps)
       (simp add: skip_ws_def)
qed

text \<open>
  Round trip. Under the law for \<open>float.__repr__\<close>, \<open>json.loads(json.dumps(v))\<close> is \<open>v\<close>, for
  every value whose objects have distinct keys, whose strings hold no lone surrogate, whose
  integers are within the digit limit and whose nesting is within the recursion limit, with
  either separator style.
\<close>

theorem loads_dumps:
  assumes "repr_law fr F" "printable F v" "depth v \<le> rl" "\<not> ds_sorted st"
  shows "loads_text plain_hook rl (dumps fr st v) = Inr v"
  using loads_print [OF assms(1-3)] assms(4) by (simp add: dumps_def)

lemma sort_keys_keeps:
  "(printable F v \<longrightarrow> printable F (sort_keys v)) \<and> depth (sort_keys v) = depth v"
proof (induction v)
  case (PList vs)
  then have m: "map (depth \<circ> sort_keys) vs = map depth vs" by simp
  have "depth (sort_keys (PList vs)) = depth (PList vs)" by (simp add: m)
  with PList show ?case by (auto simp: list_all_iff simp del: depth.simps)
next
  case (PDict d)
  let ?d = "map (\<lambda>(k, v). (k, sort_keys v)) d"
  have k: "map fst ?d = map fst d" by (simp add: case_prod_unfold)
  have mx: "foldr max xs (0::nat) = Max (insert 0 (set xs))" for xs
    by (induction xs) (auto simp: insert_commute)
  have "set (map (\<lambda>(k, v). depth v) (sort_key fst ?d)) = set (map (\<lambda>(k, v). depth v) d)"
    using PDict by (force simp: image_image)
  then have "depth (sort_keys (PDict d)) = depth (PDict d)" by (simp add: mx del: map_map set_map)
  moreover have "distinct (map fst (sort_key fst ?d)) = distinct (map fst d)"
    unfolding k [symmetric] distinct_map [of fst] by (simp only: distinct_sort set_sort)
  ultimately show ?case using PDict by (fastforce simp: list_all_iff)
qed simp_all


text \<open>A law for one float, to evaluate the theorems at.\<close>

definition half_repr :: "rat \<Rightarrow> pystr" where
  "half_repr q = [48, 46, 53]"

lemma half_repr_law: "repr_law half_repr {1 / 2}"
proof -
  have "jnumber ([48, 46, 53] @ r) = Inr (PFloat (Fin (1 / 2)), r)" if "at_end r" for r
  proof -
    have d: "is_digit 53" "\<not> is_digit 46" "is_digit 48" by (simp_all add: is_digit_def)
    have "takeWhile is_digit r = []" "dropWhile is_digit r = r"
      using at_end_not_digit [OF that] by (cases r; simp)+
    with d have "take_digits (53 # r) = ([53], r)" by (simp add: take_digits_def)
    with d show ?thesis
      using at_end_parts [OF that]
      by (simp add: jnumber_def int_part_def frac_part_def digits_val_def scale10_def)
  qed
  then show ?thesis by (simp add: repr_law_def half_repr_def is_digit_def)
qed

theorem loads_dumps_witness:
  "loads_text plain_hook 5 (dumps half_repr default_style
     (PDict [([233], PList [PInt (-3), PFloat (Fin (1 / 2))])])) =
   Inr (PDict [([233], PList [PInt (-3), PFloat (Fin (1 / 2))])])"
proof -
  have "length (show_nat 3) \<le> 4300" by (simp add: show_nat.simps)
  then show ?thesis
    by (intro loads_dumps [OF half_repr_law])
      (simp_all add: plain_text_def is_surrogate_def default_style_def)
qed

text \<open>The canonical text determines the value, up to the order of keys.\<close>

lemma canonical_injective:
  assumes law: "repr_law fr F" and pr: "printable F v" "printable F w"
    and eq: "dumps fr canonical_style v = dumps fr canonical_style w"
  shows "sort_keys v = sort_keys w"
proof -
  let ?rl = "max (depth v) (depth w)"
  have r: "loads_text plain_hook rl (print_val fr canonical_style (sort_keys x)) =
      Inr (sort_keys x)" if "printable F x" "depth x \<le> rl" for x rl
    using sort_keys_keeps [of F x] that by (intro loads_print [OF law]) auto
  have "print_val fr canonical_style (sort_keys v) = print_val fr canonical_style (sort_keys w)"
    using eq by (simp add: dumps_def canonical_style_def)
  then have "Inr (sort_keys v) = (Inr (sort_keys w) :: json_error + pyval)"
    using r [OF pr(1) max.cobounded1] r [OF pr(2) max.cobounded2] by metis
  then show ?thesis by (rule sum.inject(2) [THEN iffD1])
qed

end
