(* ===== verification/AuditLog.thy ===== *)
theory AuditLog
  imports JsonDump
begin

text \<open>
  \<open>audit/log.py\<close>: the hash-chained audit log. An entry's fields are the values the file may
  hold, since \<open>_load\<close> checks no types. SHA-256, HMAC-SHA-256, \<open>float.__repr__\<close> and \<open>str\<close> of a
  container are parameters (\<open>hash_env\<close>); nothing is assumed of the digests. The log file is its
  text; \<open>asdict\<close> keeps the order of the fields.
\<close>

section \<open>Entries and their hash\<close>

record hash_env =
  he_sha256 :: "pybytes \<Rightarrow> pystr"
  he_hmac :: "pybytes \<Rightarrow> pybytes \<Rightarrow> pystr"
  he_repr :: "rat \<Rightarrow> pystr"
  he_str :: "pyval \<Rightarrow> pystr"

datatype audit_exn = TypeErr | EncodeErr | KeyErr | JsonErr json_error | IoErr pystr

definition canonical_json :: "hash_env \<Rightarrow> pyval \<Rightarrow> pystr" where
  "canonical_json env data = dumps (he_repr env) canonical_style data"

record audit_entry =
  ae_entry_id :: pyval
  ae_timestamp :: pyval
  ae_event_type :: pyval
  ae_data :: pyval
  ae_prev_hash :: pyval
  ae_entry_hash :: pyval

text \<open>\<open>str(x)\<close>.\<close>

definition py_str :: "hash_env \<Rightarrow> pyval \<Rightarrow> pystr" where
  "py_str env v =
    (case v of
       PFloat (Fin q) \<Rightarrow> he_repr env q
     | PFloat PosInf \<Rightarrow> u ''inf''
     | PFloat NegInf \<Rightarrow> u ''-inf''
     | PFloat NaN \<Rightarrow> u ''nan''
     | PInt i \<Rightarrow> show_int i
     | PStr s \<Rightarrow> s
     | PBool b \<Rightarrow> (if b then u ''True'' else u ''False'')
     | PNone \<Rightarrow> u ''None''
     | _ \<Rightarrow> he_str env v)"

definition content_of :: "hash_env \<Rightarrow> pyval \<Rightarrow> pyval \<Rightarrow> pyval \<Rightarrow> pyval \<Rightarrow> audit_exn + pybytes" where
  "content_of env prev_hash timestamp event_type data =
    (case (prev_hash, event_type) of
       (PStr p, PStr t) \<Rightarrow>
         (case utf8_encode (p @ py_str env timestamp @ t @ canonical_json env data) of
            None \<Rightarrow> Inl EncodeErr
          | Some msg \<Rightarrow> Inr msg)
     | _ \<Rightarrow> Inl TypeErr)"

definition entry_content :: "hash_env \<Rightarrow> audit_entry \<Rightarrow> audit_exn + pybytes" where
  "entry_content env e =
     content_of env (ae_prev_hash e) (ae_timestamp e) (ae_event_type e) (ae_data e)"

definition digest :: "hash_env \<Rightarrow> pybytes option \<Rightarrow> pybytes \<Rightarrow> pystr" where
  "digest env hmac_key msg =
    (case hmac_key of Some key \<Rightarrow> he_hmac env key msg | None \<Rightarrow> he_sha256 env msg)"

definition compute_hash :: "hash_env \<Rightarrow> pybytes option \<Rightarrow> audit_entry \<Rightarrow> audit_exn + pystr" where
  "compute_hash env hmac_key e =
     rbind (entry_content env e) (\<lambda>msg. Inr (digest env hmac_key msg))"

text \<open>\<open>_resolve_key\<close>: the argument (a \<open>str\<close> is encoded), or the environment variable if it is not
  empty; \<open>None\<close> for a key that cannot be encoded.\<close>

datatype key_arg = NoKey | StrKey pystr | BytesKey pybytes

definition resolve_key :: "pystr option \<Rightarrow> key_arg \<Rightarrow> audit_exn + pybytes option" where
  "resolve_key env_var arg =
    (let encode = (\<lambda>s. case utf8_encode s of None \<Rightarrow> Inl EncodeErr | Some b \<Rightarrow> Inr (Some b))
     in case arg of
          BytesKey b \<Rightarrow> Inr (Some b)
        | StrKey s \<Rightarrow> encode s
        | NoKey \<Rightarrow> (case env_var of
              Some s \<Rightarrow> if s \<noteq> [] then encode s else Inr None
            | None \<Rightarrow> Inr None))"

section \<open>The log\<close>

record audit_log =
  al_entries :: "audit_entry list"
  al_hmac_key :: "pybytes option"
  al_file :: "pystr option"

definition genesis_hash :: pyval where
  "genesis_hash = PStr (replicate 64 48)"

definition entry_dict :: "audit_entry \<Rightarrow> pyval" where
  "entry_dict e = PDict
    [(u ''entry_id'', ae_entry_id e), (u ''timestamp'', ae_timestamp e),
     (u ''event_type'', ae_event_type e), (u ''data'', ae_data e),
     (u ''prev_hash'', ae_prev_hash e), (u ''entry_hash'', ae_entry_hash e)]"

definition entry_line :: "hash_env \<Rightarrow> audit_entry \<Rightarrow> pystr" where
  "entry_line env e = dumps (he_repr env) default_style (entry_dict e) @ [10]"

text \<open>Opening a file for appending creates it.\<close>

definition append_text :: "pystr option \<Rightarrow> pystr \<Rightarrow> pystr" where
  "append_text f t = (case f of None \<Rightarrow> t | Some s \<Rightarrow> s @ t)"

definition al_persist :: "hash_env \<Rightarrow> audit_entry \<Rightarrow> audit_log \<Rightarrow> audit_log" where
  "al_persist env e lg = lg\<lparr>al_file := Some (append_text (al_file lg) (entry_line env e))\<rparr>"

definition last_hash :: "audit_entry list \<Rightarrow> pyval" where
  "last_hash es = (if es = [] then genesis_hash else ae_entry_hash (last es))"

text \<open>\<open>append\<close>: \<open>uid\<close> and \<open>now\<close> are the fresh UUID and the time of the entry, \<open>disk\<close> is an I/O
  error of \<open>_persist\<close>, if any. The entry is in memory before it is written.\<close>

definition al_append :: "hash_env \<Rightarrow> pystr \<Rightarrow> rat \<Rightarrow> pystr option \<Rightarrow> pystr \<Rightarrow> pydict \<Rightarrow>
    audit_log \<Rightarrow> audit_log \<times> (audit_exn + audit_entry)" where
  "al_append env uid now disk event_type data lg =
    (let entry = \<lparr>ae_entry_id = PStr uid, ae_timestamp = PFloat (Fin now),
           ae_event_type = PStr event_type, ae_data = PDict data,
           ae_prev_hash = last_hash (al_entries lg), ae_entry_hash = PStr []\<rparr>
     in case compute_hash env (al_hmac_key lg) entry of
          Inl exc \<Rightarrow> (lg, Inl exc)
        | Inr h \<Rightarrow>
            (let entry' = entry\<lparr>ae_entry_hash := PStr h\<rparr>;
                 log1 = lg\<lparr>al_entries := al_entries lg @ [entry']\<rparr>
             in case disk of
                  Some exc \<Rightarrow> (log1, Inl (IoErr exc))
                | None \<Rightarrow> (al_persist env entry' log1, Inr entry')))"

fun verify_loop :: "hash_env \<Rightarrow> pybytes option \<Rightarrow> nat \<Rightarrow> pyval \<Rightarrow> audit_entry list \<Rightarrow>
    audit_exn + bool \<times> nat option" where
  "verify_loop env key i expected_prev [] = Inr (True, None)"
| "verify_loop env key i expected_prev (entry # entries) =
    (if ae_prev_hash entry \<noteq> expected_prev then Inr (False, Some i)
     else rbind (compute_hash env key entry) (\<lambda>expected_hash.
       if ae_entry_hash entry \<noteq> PStr expected_hash then Inr (False, Some i)
       else verify_loop env key (Suc i) (ae_entry_hash entry) entries))"

definition verify_chain :: "hash_env \<Rightarrow> audit_log \<Rightarrow> audit_exn + bool \<times> nat option" where
  "verify_chain env lg = verify_loop env (al_hmac_key lg) 0 genesis_hash (al_entries lg)"

text \<open>\<open>self._entries[-n:]\<close>; for \<open>n = 0\<close> the slice starts at the front.\<close>

definition al_tail :: "int \<Rightarrow> audit_log \<Rightarrow> audit_entry list" where
  "al_tail n lg =
    (let es = al_entries lg
     in if 0 < n then drop (length es - nat n) es else drop (nat (- n)) es)"

section \<open>Loading\<close>

definition load_entry :: "pyval \<Rightarrow> audit_exn + audit_entry" where
  "load_entry raw =
    (case raw of
       PDict d \<Rightarrow>
         (case (dget d (u ''entry_id''), dget d (u ''timestamp''), dget d (u ''event_type''),
                dget d (u ''data''), dget d (u ''prev_hash''), dget d (u ''entry_hash'')) of
            (Some i, Some t, Some e, Some dt, Some p, Some h) \<Rightarrow>
              Inr \<lparr>ae_entry_id = i, ae_timestamp = t, ae_event_type = e, ae_data = dt,
                ae_prev_hash = p, ae_entry_hash = h\<rparr>
          | _ \<Rightarrow> Inl KeyErr)
     | _ \<Rightarrow> Inl TypeErr)"

fun load_lines :: "nat \<Rightarrow> pystr list \<Rightarrow> audit_exn + audit_entry list" where
  "load_lines rl [] = Inr []"
| "load_lines rl (line # lines) =
    (if py_strip line = [] then load_lines rl lines
     else (case loads_text plain_hook rl (py_strip line) of
         Inl e \<Rightarrow> Inl (JsonErr e)
       | Inr raw \<Rightarrow> rbind (load_entry raw) (\<lambda>entry.
           rbind (load_lines rl lines) (\<lambda>entries. Inr (entry # entries)))))"

definition load_file :: "nat \<Rightarrow> pystr option \<Rightarrow> audit_exn + audit_entry list" where
  "load_file rl f = (case f of None \<Rightarrow> Inr [] | Some s \<Rightarrow> load_lines rl (split_on 10 s))"

text \<open>\<open>AuditLog(log_file, hmac_key)\<close>.\<close>

definition open_log :: "nat \<Rightarrow> pystr option \<Rightarrow> key_arg \<Rightarrow> pystr option \<Rightarrow> audit_exn + audit_log" where
  "open_log rl env_var arg f =
     rbind (resolve_key env_var arg) (\<lambda>key.
       rbind (load_file rl f) (\<lambda>entries.
         Inr \<lparr>al_entries = entries, al_hmac_key = key, al_file = f\<rparr>))"

section \<open>Chains\<close>

text \<open>The reference for \<open>verify_chain\<close>: entry by entry, from the genesis hash.\<close>

definition prev_at :: "audit_entry list \<Rightarrow> nat \<Rightarrow> pyval" where
  "prev_at es i = (if i = 0 then genesis_hash else ae_entry_hash (es ! (i - 1)))"

definition link_ok :: "hash_env \<Rightarrow> pybytes option \<Rightarrow> audit_entry list \<Rightarrow> nat \<Rightarrow> bool" where
  "link_ok env key es i \<longleftrightarrow> ae_prev_hash (es ! i) = prev_at es i \<and>
     (\<exists>h. compute_hash env key (es ! i) = Inr h \<and> ae_entry_hash (es ! i) = PStr h)"

definition chain_ok :: "hash_env \<Rightarrow> pybytes option \<Rightarrow> audit_entry list \<Rightarrow> bool" where
  "chain_ok env key es \<longleftrightarrow> (\<forall>i < length es. link_ok env key es i)"

lemma prev_at_append: "i \<le> length es \<Longrightarrow> prev_at (es @ fs) i = prev_at es i"
  by (auto simp: prev_at_def nth_append)

lemma link_ok_append: "i < length es \<Longrightarrow> link_ok env key (es @ fs) i = link_ok env key es i"
  by (simp add: link_ok_def nth_append prev_at_append)

lemma prev_at_length: "prev_at es (length es) = last_hash es"
  by (auto simp: prev_at_def last_hash_def last_conv_nth)

lemma chain_ok_snoc:
  "chain_ok env key (es @ [e]) \<longleftrightarrow> chain_ok env key es \<and> ae_prev_hash e = last_hash es \<and>
     (\<exists>h. compute_hash env key e = Inr h \<and> ae_entry_hash e = PStr h)"
proof -
  have "link_ok env key (es @ [e]) (length es) \<longleftrightarrow> ae_prev_hash e = last_hash es \<and>
     (\<exists>h. compute_hash env key e = Inr h \<and> ae_entry_hash e = PStr h)"
    by (simp add: link_ok_def prev_at_append prev_at_length)
  then show ?thesis by (auto simp: chain_ok_def less_Suc_eq link_ok_append)
qed

lemma verify_loop_at:
  assumes "i \<le> length es" "\<forall>j < i. link_ok env key es j"
  shows "case verify_loop env key i (prev_at es i) (drop i es) of
      Inr (True, b) \<Rightarrow> b = None \<and> chain_ok env key es
    | Inr (False, b) \<Rightarrow> \<exists>k. b = Some k \<and> k < length es \<and> \<not> link_ok env key es k \<and>
        (\<forall>j < k. link_ok env key es j)
    | Inl x \<Rightarrow> \<exists>k < length es. compute_hash env key (es ! k) = Inl x \<and>
        (\<forall>j < k. link_ok env key es j)"
  using assms
proof (induction "length es - i" arbitrary: i)
  case 0
  then show ?case by (simp add: chain_ok_def)
next
  case (Suc n)
  then have i: "i < length es" by simp
  then have d: "drop i es = es ! i # drop (Suc i) es" by (rule Cons_nth_drop_Suc [symmetric])
  have p: "prev_at es (Suc i) = ae_entry_hash (es ! i)" by (simp add: prev_at_def)
  show ?case
  proof (cases "link_ok env key es i")
    case True
    then have "verify_loop env key i (prev_at es i) (drop i es) =
        verify_loop env key (Suc i) (prev_at es (Suc i)) (drop (Suc i) es)"
      by (auto simp: d p link_ok_def)
    moreover have "\<forall>j < Suc i. link_ok env key es j"
      using Suc.prems(2) True by (auto simp: less_Suc_eq)
    ultimately show ?thesis using Suc.hyps(1) [of "Suc i"] Suc.hyps(2) i by simp
  next
    case False
    then show ?thesis
      using i Suc.prems(2) by (cases "compute_hash env key (es ! i)") (auto simp: d link_ok_def)
  qed
qed

text \<open>
  C19: \<open>verify_chain\<close> is exact. It answers \<open>(True, None)\<close> only for an intact chain; when it
  answers \<open>(False, i)\<close>, entry \<open>i\<close> is broken and every entry before it is intact (the first
  broken index, as documented); and when it raises, the first entry that is not intact cannot
  be hashed at all.
\<close>

theorem verify_chain_exact:
  "case verify_chain env lg of
      Inr (True, b) \<Rightarrow> b = None \<and> chain_ok env (al_hmac_key lg) (al_entries lg)
    | Inr (False, b) \<Rightarrow> \<exists>k. b = Some k \<and> k < length (al_entries lg) \<and>
        \<not> link_ok env (al_hmac_key lg) (al_entries lg) k \<and>
        (\<forall>j < k. link_ok env (al_hmac_key lg) (al_entries lg) j)
    | Inl x \<Rightarrow> \<exists>k < length (al_entries lg).
        compute_hash env (al_hmac_key lg) (al_entries lg ! k) = Inl x \<and>
        (\<forall>j < k. link_ok env (al_hmac_key lg) (al_entries lg) j)"
  using verify_loop_at [of 0 "al_entries lg" env "al_hmac_key lg"]
  by (simp add: verify_chain_def prev_at_def)

lemma verify_loop_chain:
  assumes "chain_ok env key es" "i \<le> length es"
  shows "verify_loop env key i (prev_at es i) (drop i es) = Inr (True, None)"
  using assms(2)
proof (induction "length es - i" arbitrary: i)
  case 0
  then show ?case by simp
next
  case (Suc n)
  then have i: "i < length es" by simp
  then have d: "drop i es = es ! i # drop (Suc i) es" by (rule Cons_nth_drop_Suc [symmetric])
  have "prev_at es (Suc i) = ae_entry_hash (es ! i)" by (simp add: prev_at_def)
  moreover have "link_ok env key es i" using assms(1) i by (simp add: chain_ok_def)
  ultimately show ?case using Suc.hyps(1) [of "Suc i"] Suc.hyps(2) i
    by (auto simp: d link_ok_def)
qed

lemma verify_chain_iff:
  "verify_chain env lg = Inr (True, None) \<longleftrightarrow> chain_ok env (al_hmac_key lg) (al_entries lg)"
  using verify_loop_at [of 0 "al_entries lg" env "al_hmac_key lg"]
    verify_loop_chain [of env "al_hmac_key lg" "al_entries lg" 0]
  by (auto simp: verify_chain_def prev_at_def)


section \<open>Appending\<close>

lemma compute_hash_upd [simp]:
  "compute_hash env key (e\<lparr>ae_entry_hash := h\<rparr>) = compute_hash env key e"
  "compute_hash env key (e\<lparr>ae_entry_id := i\<rparr>) = compute_hash env key e"
  by (simp_all add: compute_hash_def entry_content_def)

lemma al_append_cases:
  assumes "al_append env uid now disk ev data lg = (lg', r)"
  shows "(\<exists>exc. r = Inl exc \<and> lg' = lg) \<or>
    (\<exists>e h. al_entries lg' = al_entries lg @ [e] \<and> al_hmac_key lg' = al_hmac_key lg \<and>
      ae_prev_hash e = last_hash (al_entries lg) \<and>
      compute_hash env (al_hmac_key lg) e = Inr h \<and> ae_entry_hash e = PStr h \<and>
      ae_event_type e = PStr ev \<and> ae_data e = PDict data \<and> ae_timestamp e = PFloat (Fin now) \<and>
      (case disk of Some exc \<Rightarrow> r = Inl (IoErr exc) \<and> al_file lg' = al_file lg
       | None \<Rightarrow> r = Inr e \<and> al_file lg' = Some (append_text (al_file lg) (entry_line env e))))"
proof -
  define entry where "entry = \<lparr>ae_entry_id = PStr uid, ae_timestamp = PFloat (Fin now),
    ae_event_type = PStr ev, ae_data = PDict data,
    ae_prev_hash = last_hash (al_entries lg), ae_entry_hash = PStr []\<rparr>"
  show ?thesis
  proof (cases "compute_hash env (al_hmac_key lg) entry")
    case (Inl exc)
    with assms have "r = Inl exc" "lg' = lg" by (simp_all add: al_append_def entry_def)
    then show ?thesis by blast
  next
    case (Inr h)
    let ?e = "entry\<lparr>ae_entry_hash := PStr h\<rparr>"
    have "compute_hash env (al_hmac_key lg) ?e = Inr h" using Inr by simp
    with Inr assms show ?thesis
      by (intro disjI2 exI [of _ ?e] exI [of _ h])
        (auto simp: al_append_def entry_def al_persist_def Let_def simp del: compute_hash_upd
          split: option.splits)
  qed
qed

text \<open>
  Appending keeps the log verifiable and append-only. From a log that verifies, whatever
  the event, the clock and the disk do, the log after \<open>append\<close> verifies, its old entries are
  unchanged in front, and at most one entry is new: the one returned, recording the event.
\<close>

theorem append_keeps_chain:
  assumes "verify_chain env lg = Inr (True, None)"
    and "al_append env uid now disk ev data lg = (lg', r)"
  shows "verify_chain env lg' = Inr (True, None) \<and>
    (\<exists>new. al_entries lg' = al_entries lg @ new \<and> length new \<le> 1 \<and>
       (\<forall>e. r = Inr e \<longrightarrow> new = [e] \<and> ae_event_type e = PStr ev \<and> ae_data e = PDict data))"
  using al_append_cases [OF assms(2)] assms(1)
  by (auto simp: verify_chain_iff chain_ok_snoc split: option.splits)

definition toy_env :: hash_env where
  "toy_env = \<lparr>he_sha256 = (\<lambda>m. show_nat (sum_list m)), he_hmac = (\<lambda>k m. show_nat (sum_list k + sum_list m)),
     he_repr = half_repr, he_str = (\<lambda>v. [])\<rparr>"

definition empty_log :: audit_log where
  "empty_log = \<lparr>al_entries = [], al_hmac_key = None, al_file = None\<rparr>"

lemma toy_append:
  "\<exists>lg' e. al_append toy_env (u ''id'') (1 / 2) None (u ''ev'') [] empty_log = (lg', Inr e) \<and>
     entry_dict e = PDict [(u ''entry_id'', PStr (u ''id'')), (u ''timestamp'', PFloat (Fin (1 / 2))),
       (u ''event_type'', PStr (u ''ev'')), (u ''data'', PDict []),
       (u ''prev_hash'', genesis_hash), (u ''entry_hash'', ae_entry_hash e)] \<and>
     (\<exists>h. ae_entry_hash e = PStr h \<and> plain_text h)"
proof -
  let ?e = "\<lparr>ae_entry_id = PStr (u ''id''), ae_timestamp = PFloat (Fin (1 / 2)),
    ae_event_type = PStr (u ''ev''), ae_data = PDict [], ae_prev_hash = genesis_hash,
    ae_entry_hash = PStr []\<rparr>"
  have "entry_content toy_env ?e \<noteq> Inl x" for x by (cases x) code_simp+
  then obtain msg where m: "entry_content toy_env ?e = Inr msg"
    by (cases "entry_content toy_env ?e") auto
  have "plain_text (show_nat n)" for n
    using show_nat_digits [of n]
    by (auto simp: plain_text_def is_surrogate_def is_digit_def list_all_iff)
  moreover from m have "compute_hash toy_env None ?e = Inr (show_nat (sum_list msg))"
    by (simp add: compute_hash_def digest_def toy_env_def)
  ultimately show ?thesis
    by (auto simp: al_append_def empty_log_def last_hash_def entry_dict_def Let_def)
qed

theorem append_keeps_chain_witness:
  "\<exists>lg' e. verify_chain toy_env lg' = Inr (True, None) \<and> al_entries lg' = [e] \<and>
     ae_event_type e = PStr (u ''ev'')"
proof -
  obtain lg' e where a: "al_append toy_env (u ''id'') (1 / 2) None (u ''ev'') [] empty_log =
      (lg', Inr e)" using toy_append by blast
  have "verify_chain toy_env empty_log = Inr (True, None)"
    by (simp add: verify_chain_def empty_log_def)
  from append_keeps_chain [OF this a] show ?thesis by (auto simp: empty_log_def)
qed

section \<open>What tampering shows\<close>

lemma compute_hash_Inr:
  "compute_hash env key e = Inr h \<longleftrightarrow> (\<exists>m. entry_content env e = Inr m \<and> h = digest env key m)"
  by (auto simp: compute_hash_def)

text \<open>The previous hash is the front of the hashed text; a digest of fixed length makes it
  readable from there.\<close>

lemma utf8_encode_inj_front:
  "utf8_encode (p @ s) = Some b \<Longrightarrow> utf8_encode (q @ t) = Some b \<Longrightarrow> length p = length q \<Longrightarrow>
     list_all (\<lambda>c. c < 128) p \<Longrightarrow> list_all (\<lambda>c. c < 128) q \<Longrightarrow> p = q"
proof (induction p arbitrary: q b)
  case (Cons c p)
  then obtain d q' where q: "q = d # q'" by (cases q) auto
  with Cons.prems obtain b' where "b = c # b'" "utf8_encode (p @ s) = Some b'"
    "utf8_encode (q' @ t) = Some b'" "c = d"
    by (auto simp: utf8_cp_def is_surrogate_def)
  with Cons q show ?case by auto
qed simp

lemma three_digits:
  fixes c d :: nat
  assumes "c div 4096 = d div 4096" "c div 64 mod 64 = d div 64 mod 64" "c mod 64 = d mod 64"
  shows "c = d"
proof -
  have "c div 64 = d div 64"
    using assms(1,2) div_mult_mod_eq [of "c div 64" 64] div_mult_mod_eq [of "d div 64" 64]
    by (simp add: div_mult2_eq [symmetric])
  with assms(3) show ?thesis by (metis div_mult_mod_eq)
qed

lemma four_digits:
  fixes c d :: nat
  assumes "c div 262144 = d div 262144" "c div 4096 mod 64 = d div 4096 mod 64"
    "c div 64 mod 64 = d div 64 mod 64" "c mod 64 = d mod 64"
  shows "c = d"
proof (rule three_digits [OF _ assms(3,4)])
  show "c div 4096 = d div 4096"
    using assms(1,2) div_mult_mod_eq [of "c div 4096" 64] div_mult_mod_eq [of "d div 4096" 64]
    by (simp add: div_mult2_eq [symmetric])
qed

lemma lead_byte:
  "c < 128 \<Longrightarrow> hd (utf8_cp c) < 128"
  "128 \<le> c \<Longrightarrow> c < 2048 \<Longrightarrow> 192 \<le> hd (utf8_cp c) \<and> hd (utf8_cp c) < 224"
  "2048 \<le> c \<Longrightarrow> c < 65536 \<Longrightarrow> 224 \<le> hd (utf8_cp c) \<and> hd (utf8_cp c) < 240"
  "65536 \<le> c \<Longrightarrow> 240 \<le> hd (utf8_cp c)"
  by (simp_all add: utf8_cp_def less_mult_imp_div_less)

lemma lead_iff:
  "hd (utf8_cp c) < 128 \<longleftrightarrow> c < 128" "hd (utf8_cp c) < 224 \<longleftrightarrow> c < 2048" "hd (utf8_cp c) < 240 \<longleftrightarrow> c < 65536"
proof -
  consider "c < 128" | "128 \<le> c" "c < 2048" | "2048 \<le> c" "c < 65536" | "65536 \<le> c" by linarith
  then show "hd (utf8_cp c) < 128 \<longleftrightarrow> c < 128" "hd (utf8_cp c) < 224 \<longleftrightarrow> c < 2048" "hd (utf8_cp c) < 240 \<longleftrightarrow> c < 65536"
    by (cases; use lead_byte [of c] in simp)+
qed

lemma utf8_cp_inj:
  assumes e: "utf8_cp c @ x = utf8_cp d @ y"
  shows "c = d \<and> x = y"
proof -
  have ne: "utf8_cp k \<noteq> []" for k by (simp add: utf8_cp_def)
  from arg_cong [OF e, of hd] ne have lead: "hd (utf8_cp c) = hd (utf8_cp d)" by simp
  have r: "c < 128 \<longleftrightarrow> d < 128" "c < 2048 \<longleftrightarrow> d < 2048" "c < 65536 \<longleftrightarrow> d < 65536"
    using lead lead_iff [of c] lead_iff [of d] by simp_all
  have two: "c = d" if "c div 64 = d div 64" "c mod 64 = d mod 64" using that by (metis div_mult_mod_eq)
  consider "c < 128" | "128 \<le> c" "c < 2048" | "2048 \<le> c" "c < 65536" | "65536 \<le> c" by linarith
  then show ?thesis
  proof cases
    case 1
    with r have "d < 128" by linarith
    with 1 e show ?thesis by (simp add: utf8_cp_def)
  next
    case 2
    with r have "128 \<le> d" "d < 2048" by linarith+
    with 2 e two show ?thesis by (simp add: utf8_cp_def)
  next
    case 3
    with r have "2048 \<le> d" "d < 65536" by linarith+
    with 3 e three_digits [of c d] show ?thesis by (simp add: utf8_cp_def)
  next
    case 4
    with r have "65536 \<le> d" by linarith
    with 4 e four_digits [of c d] show ?thesis by (simp add: utf8_cp_def)
  qed
qed

lemma utf8_encode_inj: "utf8_encode s = Some b \<Longrightarrow> utf8_encode t = Some b \<Longrightarrow> s = t"
proof (induction s arbitrary: t b)
  case Nil
  then show ?case by (cases t) (auto simp: utf8_cp_def split: if_splits)
next
  case (Cons c s)
  obtain x where x: "utf8_encode s = Some x" "b = utf8_cp c @ x" using Cons.prems(1) by (auto split: if_splits)
  have "utf8_cp c \<noteq> []" by (simp add: utf8_cp_def)
  with x(2) have "t \<noteq> []" using Cons.prems(2) by auto
  then obtain d t' where t: "t = d # t'" by (cases t) auto
  then obtain y where y: "utf8_encode t' = Some y" "b = utf8_cp d @ y" using Cons.prems(2) by (auto split: if_splits)
  have "c = d \<and> x = y" by (rule utf8_cp_inj) (use x(2) y(2) in simp)
  with Cons.IH [OF x(1), of t'] t y(1) show ?case by simp
qed

definition hex_digests :: "hash_env \<Rightarrow> pybytes option \<Rightarrow> bool" where
  "hex_digests env key \<longleftrightarrow>
     (\<forall>m. length (digest env key m) = 64 \<and> list_all (\<lambda>c. c < 128) (digest env key m))"

lemma last_hash_text:
  assumes "hex_digests env key" "chain_ok env key es"
  shows "\<exists>h. last_hash es = PStr h \<and> length h = 64 \<and> list_all (\<lambda>c. c < 128) h"
proof (cases es rule: rev_cases)
  case Nil
  then show ?thesis by (simp add: last_hash_def genesis_hash_def list_all_iff)
next
  case (snoc es' e)
  then show ?thesis
    using assms by (auto simp: last_hash_def chain_ok_snoc compute_hash_Inr hex_digests_def)
qed

text \<open>Two entries that say the same: the same hashes, and the same time, type and data, read as one text.
  And two that show a collision: their own hashed texts differ and have the same digest.\<close>

definition record_text :: "hash_env \<Rightarrow> audit_entry \<Rightarrow> pystr \<Rightarrow> pystr" where
  "record_text env e ev = py_str env (ae_timestamp e) @ ev @ canonical_json env (ae_data e)"

definition same_record :: "hash_env \<Rightarrow> audit_entry \<Rightarrow> audit_entry \<Rightarrow> bool" where
  "same_record env e f \<longleftrightarrow> ae_prev_hash e = ae_prev_hash f \<and> ae_entry_hash e = ae_entry_hash f \<and>
     (\<exists>t t'. ae_event_type e = PStr t \<and> ae_event_type f = PStr t' \<and> record_text env e t = record_text env f t')"

definition collides :: "hash_env \<Rightarrow> pybytes option \<Rightarrow> audit_entry \<Rightarrow> audit_entry \<Rightarrow> bool" where
  "collides env key e f \<longleftrightarrow> (\<exists>m m'. entry_content env e = Inr m \<and> entry_content env f = Inr m' \<and>
     m \<noteq> m' \<and> digest env key m = digest env key m')"

lemma content_parts:
  "content_of env prev ts ev d = Inr m \<longleftrightarrow> (\<exists>p t. prev = PStr p \<and> ev = PStr t \<and>
     utf8_encode (p @ py_str env ts @ t @ canonical_json env d) = Some m)"
  by (auto simp: content_of_def split: pyval.splits option.splits)

lemma last_entries:
  assumes "hex_digests env key" "chain_ok env key (es @ [e])" "chain_ok env key (fs @ [f])"
    and "ae_entry_hash e = ae_entry_hash f" "\<not> collides env key e f"
  shows "same_record env e f \<and> last_hash es = last_hash fs"
proof -
  obtain m where m: "entry_content env e = Inr m" "ae_entry_hash e = PStr (digest env key m)"
    using assms(2) by (auto simp: chain_ok_snoc compute_hash_Inr)
  obtain m' where m': "entry_content env f = Inr m'" "ae_entry_hash f = PStr (digest env key m')"
    using assms(3) by (auto simp: chain_ok_snoc compute_hash_Inr)
  from assms(4,5) m m' have same: "m = m'" by (auto simp: collides_def)
  obtain p where p: "ae_prev_hash e = PStr p" "last_hash es = PStr p" "length p = 64" "list_all (\<lambda>c. c < 128) p"
    using last_hash_text [OF assms(1), of es] assms(2) by (auto simp: chain_ok_snoc)
  obtain q where q: "ae_prev_hash f = PStr q" "last_hash fs = PStr q" "length q = 64" "list_all (\<lambda>c. c < 128) q"
    using last_hash_text [OF assms(1), of fs] assms(3) by (auto simp: chain_ok_snoc)
  obtain t where t: "ae_event_type e = PStr t" "utf8_encode (p @ record_text env e t) = Some m"
    using m(1) p(1) by (auto simp: entry_content_def content_parts record_text_def)
  obtain t' where t': "ae_event_type f = PStr t'" "utf8_encode (q @ record_text env f t') = Some m"
    using m'(1) q(1) same by (auto simp: entry_content_def content_parts record_text_def)
  have pq: "p = q" by (rule utf8_encode_inj_front [OF t(2) t'(2)]) (simp_all add: p q)
  from utf8_encode_inj [OF t(2) t'(2)] pq have "record_text env e t = record_text env f t'" by simp
  with t(1) t'(1) p q pq assms(4) show ?thesis by (simp add: same_record_def)
qed

lemma chains_agree:
  assumes "hex_digests env key"
  shows "chain_ok env key es \<Longrightarrow> chain_ok env key fs \<Longrightarrow> length es = length fs \<Longrightarrow> last_hash es = last_hash fs \<Longrightarrow>
    list_all2 (same_record env) es fs \<or> (\<exists>i < length es. collides env key (es ! i) (fs ! i))"
proof (induction es arbitrary: fs rule: rev_induct)
  case (snoc e es)
  then obtain f fs' where fs: "fs = fs' @ [f]" by (cases fs rule: rev_cases) auto
  with snoc.prems have len: "length es = length fs'" and hash: "ae_entry_hash e = ae_entry_hash f"
    and ok: "chain_ok env key es" "chain_ok env key fs'"
    by (simp_all add: last_hash_def chain_ok_snoc)
  show ?case
  proof (cases "collides env key e f")
    case True
    with fs len show ?thesis by (intro disjI2 exI [of _ "length es"]) (simp add: nth_append)
  next
    case False
    from last_entries [OF assms snoc.prems(1) snoc.prems(2) [unfolded fs] hash False]
    have same: "same_record env e f" "last_hash es = last_hash fs'" by simp_all
    from snoc.IH [OF ok len same(2)] show ?thesis
    proof
      assume "list_all2 (same_record env) es fs'"
      with same(1) fs show ?thesis by (simp add: list_all2_appendI)
    next
      assume "\<exists>i < length es. collides env key (es ! i) (fs' ! i)"
      then obtain i where "i < length es" "collides env key (es ! i) (fs' ! i)" by blast
      with fs len show ?thesis by (intro disjI2 exI [of _ i]) (simp add: nth_append)
    qed
  qed
qed simp

text \<open>
  C20: Tamper evidence, by reduction. Suppose \<open>verify_chain\<close> passes the genuine log and a forged one under the
  same key (or none), and both have the same length and the same last hash. Then either every forged entry has
  the hashes of the genuine one at its place and the same time, type and data (read as one text), or at some
  place the two entries' own hashed texts differ and have the same digest: the forged log itself holds a second
  preimage, under SHA-256 or under HMAC with the key, of a text of the genuine log. Of the digests it is
  assumed only that they are 64 ASCII characters.
\<close>

theorem tampering_needs_collision:
  assumes "hex_digests env (al_hmac_key lg)"
    and "verify_chain env lg = Inr (True, None)" "verify_chain env forged = Inr (True, None)"
    and "al_hmac_key forged = al_hmac_key lg" "length (al_entries forged) = length (al_entries lg)"
    and "last_hash (al_entries forged) = last_hash (al_entries lg)"
  shows "list_all2 (same_record env) (al_entries lg) (al_entries forged) \<or>
    (\<exists>i < length (al_entries lg). collides env (al_hmac_key lg) (al_entries lg ! i) (al_entries forged ! i))"
  using chains_agree [OF assms(1), of "al_entries lg" "al_entries forged"] assms(2-6)
  by (simp add: verify_chain_iff)

definition hex_env :: hash_env where
  "hex_env = toy_env\<lparr>he_sha256 := (\<lambda>m. replicate 64 48)\<rparr>"

definition sample_entry :: audit_entry where
  "sample_entry = \<lparr>ae_entry_id = PStr (u ''a''), ae_timestamp = PInt 1,
     ae_event_type = PStr (u ''login''), ae_data = PDict [], ae_prev_hash = genesis_hash,
     ae_entry_hash = PStr (replicate 64 48)\<rparr>"

theorem tampering_needs_collision_witness:
  "let lg = \<lparr>al_entries = [sample_entry], al_hmac_key = None, al_file = None\<rparr>;
       forged = lg\<lparr>al_entries := [sample_entry\<lparr>ae_entry_id := PStr (u ''b'')\<rparr>]\<rparr> in
     list_all2 (same_record hex_env) (al_entries lg) (al_entries forged) \<or>
     (\<exists>i < length (al_entries lg). collides hex_env (al_hmac_key lg) (al_entries lg ! i) (al_entries forged ! i))"
proof -
  let ?lg = "\<lparr>al_entries = [sample_entry], al_hmac_key = None, al_file = None\<rparr>"
  let ?forged = "?lg\<lparr>al_entries := [sample_entry\<lparr>ae_entry_id := PStr (u ''b'')\<rparr>]\<rparr>"
  have h: "hex_digests hex_env (al_hmac_key ?lg)"
    by (simp add: hex_digests_def hex_env_def toy_env_def digest_def list_all_iff)
  have v: "verify_chain hex_env ?lg = Inr (True, None)" "verify_chain hex_env ?forged = Inr (True, None)"
    by code_simp+
  have l: "last_hash (al_entries ?forged) = last_hash (al_entries ?lg)" by (simp add: last_hash_def)
  from tampering_needs_collision [OF h v _ _ l] show ?thesis by (simp only: Let_def) simp
qed

text \<open>
  What the chain does not cover, under any digest and any key. A verifying log still
  verifies after every \<open>entry_id\<close> is replaced, and after its last entries are cut off: neither
  change to the history is reported by \<open>verify_chain\<close>.
\<close>

theorem chain_misses_ids_and_truncation:
  "(verify_chain env (lg\<lparr>al_entries := map (\<lambda>e. e\<lparr>ae_entry_id := new_id e\<rparr>) (al_entries lg)\<rparr>) =
      Inr (True, None) \<longleftrightarrow> verify_chain env lg = Inr (True, None)) \<and>
   (verify_chain env lg = Inr (True, None) \<longrightarrow>
      verify_chain env (lg\<lparr>al_entries := take n (al_entries lg)\<rparr>) = Inr (True, None))"
proof -
  let ?f = "\<lambda>e. e\<lparr>ae_entry_id := new_id e\<rparr>"
  have l: "link_ok env key (map ?f es) i \<longleftrightarrow> link_ok env key es i" if "i < length es" for key es i
    using that by (auto simp: link_ok_def prev_at_def)
  then have "chain_ok env key (map ?f es) \<longleftrightarrow> chain_ok env key es" for key es
    by (auto simp: chain_ok_def)
  moreover have "chain_ok env key (take n es)" if "chain_ok env key es" for key es
    using that link_ok_append [of _ "take n es" env key "drop n es"] by (auto simp: chain_ok_def)
  ultimately show ?thesis by (simp add: verify_chain_iff)
qed

text \<open>
  The hashed text has no field separators. When the text of one timestamp followed by some
  characters is the text of another timestamp, those characters can move from the event type
  into the timestamp without changing the hash, with or without a key: time and type of a
  recorded event are not bound.
\<close>

theorem timestamp_boundary_unbound:
  assumes "py_str env ts @ moved = py_str env ts'"
  shows "compute_hash env key (e\<lparr>ae_timestamp := ts, ae_event_type := PStr (moved @ rest)\<rparr>) =
    compute_hash env key (e\<lparr>ae_timestamp := ts', ae_event_type := PStr rest\<rparr>)"
proof -
  show ?thesis
    by (cases "ae_prev_hash e")
      (simp_all add: compute_hash_def entry_content_def content_of_def assms [symmetric])
qed

theorem timestamp_boundary_unbound_witness:
  "compute_hash toy_env (Some [1])
     (sample_entry\<lparr>ae_timestamp := PInt 1, ae_event_type := PStr (u ''2'' @ u ''nd call'')\<rparr>) =
   compute_hash toy_env (Some [1])
     (sample_entry\<lparr>ae_timestamp := PInt 12, ae_event_type := PStr (u ''nd call'')\<rparr>)"
  by (rule timestamp_boundary_unbound) (simp add: py_str_def show_int_def show_nat.simps u_def)

section \<open>Reopening the log\<close>

text \<open>An entry that \<open>json.dumps\<close> and \<open>json.loads\<close> carry through the file.\<close>

definition storable :: "rat set \<Rightarrow> nat \<Rightarrow> audit_entry \<Rightarrow> bool" where
  "storable F rl e \<longleftrightarrow> printable F (entry_dict e) \<and> depth (entry_dict e) \<le> rl"

definition file_of :: "hash_env \<Rightarrow> audit_entry list \<Rightarrow> pystr option" where
  "file_of env es = (if es = [] then None else Some (concat (map (entry_line env) es)))"

lemma load_entry_dict: "load_entry (entry_dict e) = Inr e"
  by (simp add: load_entry_def entry_dict_def)

lemma entry_text:
  assumes "repr_law (he_repr env) F" "storable F rl e"
  shows "entry_line env e = dumps (he_repr env) default_style (entry_dict e) @ [10]"
    "10 \<notin> set (dumps (he_repr env) default_style (entry_dict e))"
    "py_strip (dumps (he_repr env) default_style (entry_dict e)) =
       dumps (he_repr env) default_style (entry_dict e)"
    "dumps (he_repr env) default_style (entry_dict e) \<noteq> []"
    "loads_text plain_hook rl (dumps (he_repr env) default_style (entry_dict e)) = Inr (entry_dict e)"
proof -
  let ?t = "dumps (he_repr env) default_style (entry_dict e)"
  have d: "?t = print_val (he_repr env) default_style (entry_dict e)"
    by (simp add: dumps_def default_style_def)
  have pr: "printable F (entry_dict e)" "depth (entry_dict e) \<le> rl"
    using assms(2) by (simp_all add: storable_def)
  show "entry_line env e = ?t @ [10]" by (simp add: entry_line_def)
  have "\<forall>c \<in> set ?t. 32 \<le> c"
    using ascii_print [OF assms(1) pr(1), of default_style] unfolding d
    by (auto simp: ascii_text_def list_all_iff)
  then show "10 \<notin> set ?t" by (auto dest: bspec [of _ _ 10])
  show "?t \<noteq> []" unfolding d by (simp add: entry_dict_def)
  have "hd ?t = 123" "last ?t = 125" unfolding d by (simp_all add: entry_dict_def)
  then show "py_strip ?t = ?t" by (intro py_strip_id) (simp add: is_space_def)
  show "loads_text plain_hook rl ?t = Inr (entry_dict e)"
    unfolding d by (rule loads_print [OF assms(1) pr])
qed

lemma load_file_lines:
  assumes "repr_law (he_repr env) F"
  shows "list_all (storable F rl) es \<Longrightarrow>
    load_lines rl (split_on 10 (concat (map (entry_line env) es))) = Inr es"
proof (induction es)
  case Nil
  show ?case by (simp add: py_strip_def py_lstrip_def py_rstrip_def)
next
  case (Cons e es)
  then have st: "storable F rl e" by simp
  note t = entry_text [OF assms st]
  have "split_on 10 (entry_line env e @ concat (map (entry_line env) es)) =
      dumps (he_repr env) default_style (entry_dict e) # split_on 10 (concat (map (entry_line env) es))"
    by (simp add: t(1) split_on_app split_on_fresh [OF t(2)])
  with Cons t(3-5) show ?case by (simp add: load_entry_dict)
qed

text \<open>
  C21: Durability across restarts. When the file holds the entries of the log, a successful
  \<open>append\<close> leaves a file from which a new \<open>AuditLog\<close> with the same key loads exactly the
  entries in memory, the new one included, in order.
\<close>

theorem reopened_log_is_the_log:
  assumes "repr_law (he_repr env) F" "al_file lg = file_of env (al_entries lg)"
    and "list_all (storable F rl) (al_entries lg)"
    and "al_append env uid now None ev data lg = (lg', Inr e)" "storable F rl e"
  shows "open_log rl env_var (BytesKey k) (al_file lg') =
    Inr \<lparr>al_entries = al_entries lg', al_hmac_key = Some k, al_file = al_file lg'\<rparr>"
proof -
  from al_append_cases [OF assms(4)] have new: "al_entries lg' = al_entries lg @ [e]"
    "al_file lg' = Some (append_text (al_file lg) (entry_line env e))" by auto
  have "al_file lg' = Some (concat (map (entry_line env) (al_entries lg')))"
    using assms(2) by (simp add: new file_of_def append_text_def)
  moreover have "list_all (storable F rl) (al_entries lg')"
    using assms(3,5) by (simp add: new)
  ultimately show ?thesis
    using load_file_lines [OF assms(1)]
    by (simp add: open_log_def resolve_key_def load_file_def)
qed

theorem reopened_log_is_the_log_witness:
  "\<exists>lg' e. al_append toy_env (u ''id'') (1 / 2) None (u ''ev'') [] empty_log = (lg', Inr e) \<and>
     open_log 3 None (BytesKey [1]) (al_file lg') =
       Inr \<lparr>al_entries = al_entries lg', al_hmac_key = Some [1], al_file = al_file lg'\<rparr>"
proof -
  obtain lg' e h where a: "al_append toy_env (u ''id'') (1 / 2) None (u ''ev'') [] empty_log = (lg', Inr e)"
    "entry_dict e = PDict [(u ''entry_id'', PStr (u ''id'')), (u ''timestamp'', PFloat (Fin (1 / 2))),
       (u ''event_type'', PStr (u ''ev'')), (u ''data'', PDict []),
       (u ''prev_hash'', genesis_hash), (u ''entry_hash'', ae_entry_hash e)]"
    "ae_entry_hash e = PStr h" "plain_text h"
    using toy_append by blast
  have "repr_law (he_repr toy_env) {1 / 2}" using half_repr_law by (simp add: toy_env_def)
  moreover have "plain_text (u s) \<longleftrightarrow> list_all (\<lambda>c. \<not> is_surrogate c \<and> c < 1114112) (map of_char s)" for s
    by (simp add: plain_text_def u_def)
  then have "storable {1 / 2} 3 e"
    by (simp add: storable_def a(2) a(3) a(4) genesis_hash_def is_surrogate_def)
       (simp add: plain_text_def is_surrogate_def list_all_iff)
  ultimately show ?thesis
    using reopened_log_is_the_log [of toy_env "{1 / 2}" empty_log 3, OF _ _ _ a(1)] a(1)
    by (auto simp: empty_log_def file_of_def)
qed

section \<open>Instances\<close>

definition sample_log :: "audit_entry list \<Rightarrow> audit_log" where
  "sample_log es = \<lparr>al_entries = es, al_hmac_key = None, al_file = None\<rparr>"

lemma sample_log_verifies: "verify_chain hex_env (sample_log [sample_entry]) = Inr (True, None)"
  by code_simp

theorem chain_misses_ids_and_truncation_witness:
  "verify_chain hex_env ((sample_log [sample_entry])\<lparr>al_entries := take 0 [sample_entry]\<rparr>) =
     Inr (True, None)"
  using chain_misses_ids_and_truncation [where env = hex_env and lg = "sample_log [sample_entry]"
      and n = 0] sample_log_verifies
  by (simp add: sample_log_def)

definition forged_entry :: audit_entry where
  "forged_entry = sample_entry\<lparr>ae_prev_hash := PStr []\<rparr>"

theorem verify_chain_exact_witness:
  "verify_chain hex_env (sample_log [sample_entry, forged_entry]) = Inr (False, Some 1) \<and>
   \<not> link_ok hex_env None [sample_entry, forged_entry] 1 \<and>
   link_ok hex_env None [sample_entry, forged_entry] 0"
proof -
  have v: "verify_chain hex_env (sample_log [sample_entry, forged_entry]) = Inr (False, Some 1)"
    by code_simp
  with verify_chain_exact [where env = hex_env and lg = "sample_log [sample_entry, forged_entry]"]
  show ?thesis by (auto simp: sample_log_def)
qed

end
