(* ===== verification/WriteAheadLog.thy ===== *)
theory WriteAheadLog
  imports AuditLog
begin

text \<open>
  \<open>audit/wal.py\<close>: the write-ahead log. Its file is the text of the lines; the temporary file of
  \<open>write\<close> only carries the same text into the append, so a crash is described by how much of the
  line the append got to disk (\<open>torn_write\<close>). The committed position lives in the object only.
\<close>

section \<open>State and operations\<close>

record wal =
  wal_file :: "pystr option"
  wal_committed_count :: nat
  wal_entries_written :: nat

definition count_existing :: "pystr option \<Rightarrow> nat" where
  "count_existing f = (case f of None \<Rightarrow> 0
     | Some s \<Rightarrow> length (filter (\<lambda>line. py_strip line \<noteq> []) (split_on 10 s)))"

text \<open>\<open>WriteAheadLog(path)\<close> on the file as it is.\<close>

definition wal_open :: "pystr option \<Rightarrow> wal" where
  "wal_open f = \<lparr>wal_file = f, wal_committed_count = 0, wal_entries_written = count_existing f\<rparr>"

definition wal_write :: "hash_env \<Rightarrow> audit_entry \<Rightarrow> wal \<Rightarrow> wal" where
  "wal_write env entry w =
     w\<lparr>wal_file := Some (append_text (wal_file w) (entry_line env entry)),
       wal_entries_written := Suc (wal_entries_written w)\<rparr>"

text \<open>The process dies while appending: only the first \<open>n\<close> characters of the line reach the
  file.\<close>

definition torn_write :: "hash_env \<Rightarrow> audit_entry \<Rightarrow> nat \<Rightarrow> wal \<Rightarrow> wal" where
  "torn_write env entry n w =
     w\<lparr>wal_file := Some (append_text (wal_file w) (take n (entry_line env entry)))\<rparr>"

definition wal_recover :: "nat \<Rightarrow> wal \<Rightarrow> audit_exn + audit_entry list" where
  "wal_recover rl w =
     rbind (load_file rl (wal_file w)) (\<lambda>all_entries.
       Inr (drop (wal_committed_count w) all_entries))"

definition wal_checkpoint :: "wal \<Rightarrow> wal" where
  "wal_checkpoint w = w\<lparr>wal_committed_count := wal_entries_written w\<rparr>"

definition wal_truncate :: "wal \<Rightarrow> wal" where
  "wal_truncate w = w\<lparr>wal_file := None, wal_committed_count := 0, wal_entries_written := 0\<rparr>"

section \<open>The contract\<close>

text \<open>The abstract log: the entries already committed and those to replay. A restart forgets what
  was committed.\<close>

datatype wal_op = Write audit_entry | Checkpoint | Truncate | Restart

fun spec_step :: "wal_op \<Rightarrow> audit_entry list \<times> audit_entry list \<Rightarrow>
    audit_entry list \<times> audit_entry list" where
  "spec_step (Write e) (committed, pending) = (committed, pending @ [e])"
| "spec_step Checkpoint (committed, pending) = (committed @ pending, [])"
| "spec_step Truncate (committed, pending) = ([], [])"
| "spec_step Restart (committed, pending) = ([], committed @ pending)"

fun wal_step :: "hash_env \<Rightarrow> wal_op \<Rightarrow> wal \<Rightarrow> wal" where
  "wal_step env (Write e) w = wal_write env e w"
| "wal_step env Checkpoint w = wal_checkpoint w"
| "wal_step env Truncate w = wal_truncate w"
| "wal_step env Restart w = wal_open (wal_file w)"

fun written :: "wal_op \<Rightarrow> audit_entry list" where
  "written (Write e) = [e]"
| "written _ = []"

definition wal_rel :: "hash_env \<Rightarrow> wal \<Rightarrow> audit_entry list \<times> audit_entry list \<Rightarrow> bool" where
  "wal_rel env w s \<longleftrightarrow> wal_file w = file_of env (fst s @ snd s) \<and>
     wal_committed_count w = length (fst s) \<and>
     wal_entries_written w = length (fst s) + length (snd s)"

lemma append_file_of: "append_text (file_of env es) (entry_line env e) =
    concat (map (entry_line env) (es @ [e]))"
  by (simp add: file_of_def append_text_def)

lemma count_lines:
  assumes "repr_law (he_repr env) F" "list_all (storable F rl) es"
  shows "count_existing (file_of env es) = length es"
proof -
  have "length (filter (\<lambda>line. py_strip line \<noteq> []) (split_on 10 (concat (map (entry_line env) es)))) =
      length es" using assms(2)
  proof (induction es)
    case Nil
    show ?case by (simp add: py_strip_def py_lstrip_def py_rstrip_def)
  next
    case (Cons e es)
    then have st: "storable F rl e" by simp
    note t = entry_text [OF assms(1) st]
    have "split_on 10 (entry_line env e @ concat (map (entry_line env) es)) =
        dumps (he_repr env) default_style (entry_dict e) #
        split_on 10 (concat (map (entry_line env) es))"
      by (simp add: t(1) split_on_app split_on_fresh [OF t(2)])
    with Cons t(3,4) show ?case by simp
  qed
  then show ?thesis by (simp add: count_existing_def file_of_def)
qed

lemma wal_rel_step:
  assumes "repr_law (he_repr env) F" "list_all (storable F rl) (fst s @ snd s)" "wal_rel env w s"
  shows "wal_rel env (wal_step env opr w) (spec_step opr s)"
proof (cases opr)
  case (Write e)
  with assms(3) append_file_of [of env "fst s @ snd s" e] show ?thesis
    by (cases s) (simp add: wal_rel_def wal_write_def file_of_def)
next
  case Restart
  with assms(3) count_lines [OF assms(1,2)] show ?thesis
    by (cases s) (simp add: wal_rel_def wal_open_def)
qed (use assms(3) in \<open>cases s; simp add: wal_rel_def wal_checkpoint_def wal_truncate_def file_of_def\<close>)+

lemma spec_step_entries:
  "list_all P (fst s @ snd s) \<Longrightarrow> list_all P (written opr) \<Longrightarrow>
     list_all P (fst (spec_step opr s) @ snd (spec_step opr s))"
  by (cases opr; cases s) auto

lemma wal_run_rel:
  assumes "repr_law (he_repr env) F"
  shows "list_all (\<lambda>opr. list_all (storable F rl) (written opr)) ops \<Longrightarrow>
    list_all (storable F rl) (fst s @ snd s) \<Longrightarrow> wal_rel env w s \<Longrightarrow>
    wal_rel env (fold (wal_step env) ops w) (fold spec_step ops s) \<and>
    list_all (storable F rl) (fst (fold spec_step ops s) @ snd (fold spec_step ops s))"
proof (induction ops arbitrary: s w)
  case (Cons opr ops)
  have "list_all (storable F rl) (fst (spec_step opr s) @ snd (spec_step opr s))"
    using Cons.prems(1,2) by (intro spec_step_entries) auto
  with Cons.IH [of "spec_step opr s" "wal_step env opr w"] Cons.prems wal_rel_step [OF assms]
  show ?case by simp
qed simp

lemma load_file_of:
  assumes "repr_law (he_repr env) F" "list_all (storable F rl) es"
  shows "load_file rl (file_of env es) = Inr es"
  using load_file_lines [OF assms] by (simp add: load_file_def file_of_def)

text \<open>
  C18: Recovery. After any sequence of writes, checkpoints, truncations and restarts of an
  initially empty log, \<open>recover\<close> returns exactly the entries that the abstract log has pending,
  in the order they were written: nothing written after the last checkpoint is lost, and
  nothing before it is replayed, except that a restart puts the committed entries back.
\<close>

theorem recover_refines:
  assumes "repr_law (he_repr env) F"
    and "list_all (\<lambda>opr. list_all (storable F rl) (written opr)) ops"
  shows "wal_recover rl (fold (wal_step env) ops (wal_open None)) =
    Inr (snd (fold spec_step ops ([], [])))"
proof -
  have "wal_rel env (wal_open None) ([], [])"
    by (simp add: wal_rel_def wal_open_def file_of_def count_existing_def)
  from wal_run_rel [OF assms _ this]
  have r: "wal_rel env (fold (wal_step env) ops (wal_open None)) (fold spec_step ops ([], []))"
    "list_all (storable F rl) (fst (fold spec_step ops ([], [])) @ snd (fold spec_step ops ([], [])))"
    by simp_all
  then show ?thesis
    using load_file_of [OF assms(1) r(2)] by (simp add: wal_recover_def wal_rel_def)
qed

definition wal_sample :: audit_entry where
  "wal_sample = \<lparr>ae_entry_id = PStr [97], ae_timestamp = PFloat (Fin (1 / 2)),
     ae_event_type = PStr [98], ae_data = PDict [], ae_prev_hash = PStr [], ae_entry_hash = PStr []\<rparr>"

lemma wal_sample_storable: "storable {1 / 2} 3 wal_sample"
proof -
  have "plain_text (u s) \<longleftrightarrow> list_all (\<lambda>c. \<not> is_surrogate c \<and> c < 1114112) (map of_char s)" for s
    by (simp add: plain_text_def u_def)
  then show ?thesis
    by (simp add: storable_def entry_dict_def wal_sample_def is_surrogate_def)
      (simp add: plain_text_def is_surrogate_def)
qed

theorem recover_refines_witness:
  "wal_recover 3 (fold (wal_step toy_env) [Write wal_sample, Checkpoint, Write wal_sample]
     (wal_open None)) = Inr [wal_sample] \<and>
   wal_recover 3 (fold (wal_step toy_env) [Write wal_sample, Checkpoint, Restart]
     (wal_open None)) = Inr [wal_sample]"
proof -
  have "repr_law (he_repr toy_env) {1 / 2}" using half_repr_law by (simp add: toy_env_def)
  note r = recover_refines [OF this, of 3]
  show ?thesis
    using r [of "[Write wal_sample, Checkpoint, Write wal_sample]"]
      r [of "[Write wal_sample, Checkpoint, Restart]"] wal_sample_storable by simp
qed

section \<open>A crash in the middle of a write\<close>

lemma load_lines_prefix:
  assumes "repr_law (he_repr env) F"
  shows "list_all (storable F rl) es \<Longrightarrow> 10 \<notin> set t \<Longrightarrow>
    load_lines rl (split_on 10 (concat (map (entry_line env) es) @ t)) =
      rbind (load_lines rl [t]) (\<lambda>fs. Inr (es @ fs))"
proof (induction es)
  case Nil
  then show ?case by (cases "load_lines rl [t]") (simp_all add: split_on_fresh)
next
  case (Cons e es)
  then have st: "storable F rl e" by simp
  note ent = entry_text [OF assms st]
  have "split_on 10 (entry_line env e @ concat (map (entry_line env) es) @ t) =
      dumps (he_repr env) default_style (entry_dict e) #
      split_on 10 (concat (map (entry_line env) es) @ t)"
    by (simp add: ent(1) split_on_app split_on_fresh [OF ent(2)])
  with Cons ent(3-5) show ?case
    by (cases "load_lines rl [t]") (simp_all add: load_entry_dict)
qed

text \<open>
  A torn write is not survived. When a crash leaves a part of a line that is no JSON value
  at the end of the file, \<open>recover\<close> raises on it, in this process and in every later one: none
  of the entries written before, however many and however intact, is returned.
\<close>

theorem torn_write_blocks_recovery:
  assumes "repr_law (he_repr env) F" "wal_file w = file_of env es"
    and "list_all (storable F rl) es" "n < length (entry_line env e)" "storable F rl e"
    and "py_strip (take n (entry_line env e)) \<noteq> []"
    and "loads_text plain_hook rl (py_strip (take n (entry_line env e))) = Inl err"
  shows "wal_recover rl (torn_write env e n w) = Inl (JsonErr err) \<and>
    wal_recover rl (wal_open (wal_file (torn_write env e n w))) = Inl (JsonErr err)"
proof -
  let ?t = "take n (entry_line env e)"
  note ent = entry_text [OF assms(1,5)]
  have "?t = take n (dumps (he_repr env) default_style (entry_dict e))"
    using assms(4) by (simp add: ent(1))
  then have "10 \<notin> set ?t" using ent(2) by (metis in_set_takeD)
  moreover have "load_lines rl [?t] = Inl (JsonErr err)" using assms(6,7) by simp
  ultimately have "load_lines rl (split_on 10 (concat (map (entry_line env) es) @ ?t)) =
      Inl (JsonErr err)"
    by (simp add: load_lines_prefix [OF assms(1,3)])
  moreover have "append_text (wal_file w) ?t = concat (map (entry_line env) es) @ ?t"
    using assms(2) by (simp add: file_of_def append_text_def)
  ultimately show ?thesis
    by (simp add: wal_recover_def torn_write_def load_file_def wal_open_def)
qed

theorem torn_write_blocks_recovery_witness:
  "wal_recover 3 (torn_write toy_env wal_sample 1 (wal_write toy_env wal_sample (wal_open None))) =
     Inl (JsonErr JSONDecodeError)"
proof -
  have law: "repr_law (he_repr toy_env) {1 / 2}" using half_repr_law by (simp add: toy_env_def)
  let ?w = "wal_write toy_env wal_sample (wal_open None)"
  have f: "wal_file ?w = file_of toy_env [wal_sample]"
    by (simp add: wal_write_def wal_open_def file_of_def append_text_def)
  obtain ds where line: "entry_line toy_env wal_sample = 123 # ds" "ds \<noteq> []"
    by (simp add: entry_line_def dumps_def default_style_def entry_dict_def)
  have l: "loads_text plain_hook 3 [123] = Inl JSONDecodeError"
    by code_simp
  have "py_strip [123] = [123]" by (rule py_strip_id) (simp add: is_space_def)
  then show ?thesis
    using torn_write_blocks_recovery [OF law f, of 3 1 wal_sample JSONDecodeError]
      wal_sample_storable line l by simp
qed

end
