(* ===== verification/PyRegex.thy ===== *)
theory PyRegex
  imports Prelude
begin

text \<open>
  The part of Python's \<open>re\<close> that the gateway's patterns use, on \<open>str\<close>: a backtracking matcher
  that lists the ways a pattern can match from a position, in the order Python tries them, and
  the declarative reading it is proved equal to. A position is the character before it (if any)
  and the rest of the text. \<open>\s\<close> and \<open>\d\<close> have their complete Unicode tables; \<open>\w\<close>, which only \<open>\b\<close>
  uses, is a parameter (\<open>rx_word\<close>). Case-insensitive matching follows \<open>sre\<close>: simple lower
  case, and the extra cases of the letters that occur in the patterns.
\<close>

section \<open>Characters\<close>

definition decimal_digit_starts :: "nat list" where
  "decimal_digit_starts = [
     48, 1632, 1776, 1984, 2406, 2534, 2662, 2790, 2918, 3046, 3174, 3302, 3430, 3558,
     3664, 3792, 3872, 4160, 4240, 6112, 6160, 6470, 6608, 6784, 6800, 6992, 7088, 7232,
     7248, 42528, 43216, 43264, 43472, 43504, 43600, 44016, 65296, 66720, 68912, 69734,
     69872, 69942, 70096, 70384, 70736, 70864, 71248, 71360, 71472, 71904, 72016, 72784,
     73040, 73120, 92768, 92864, 93008, 120782, 120792, 120802, 120812, 120822, 123200,
     123632, 125264, 130032]"

definition is_decimal :: "nat \<Rightarrow> bool" where
  "is_decimal c \<longleftrightarrow> is_digit c \<or> 128 \<le> c \<and> list_ex (\<lambda>a. a \<le> c \<and> c \<le> a + 9) decimal_digit_starts"

datatype citem = Rg nat nat | CSpace | CDigit | CWord

record rx_env =
  rx_ic :: bool
  rx_word :: "nat \<Rightarrow> bool"

fun item_has :: "rx_env \<Rightarrow> nat \<Rightarrow> citem \<Rightarrow> bool" where
  "item_has env c (Rg a b) = (a \<le> c \<and> c \<le> b)"
| "item_has env c CSpace = is_space c"
| "item_has env c CDigit = is_decimal c"
| "item_has env c CWord = rx_word env c"

text \<open>Simple lower case as \<open>sre\<close> computes it, and the characters of a pattern that a text
  character matches when case is ignored.\<close>

definition sre_lower :: "nat \<Rightarrow> nat" where
  "sre_lower c = (if c = 304 then 105 else if c = 8491 then 229 else lower_cp c)"

definition upper_cp :: "nat \<Rightarrow> nat" where
  "upper_cp c =
    (if 97 \<le> c \<and> c \<le> 122 then c - 32
     else if 224 \<le> c \<and> c \<le> 254 \<and> c \<noteq> 247 then c - 32
     else if 945 \<le> c \<and> c \<le> 971 \<and> c \<noteq> 962 then c - 32
     else if 1072 \<le> c \<and> c \<le> 1103 then c - 32
     else if 1104 \<le> c \<and> c \<le> 1119 then c - 80
     else c)"

definition extra_case :: "nat \<Rightarrow> nat list" where
  "extra_case c =
    (if c = 305 then [105] else if c = 383 then [115]
     else if c = 7296 then [1074] else if c = 7297 then [1076] else if c = 7298 then [1086]
     else if c = 7299 then [1089] else if c = 7300 \<or> c = 7301 then [1090]
     else if c = 7302 then [1098] else [])"

definition case_variants :: "nat \<Rightarrow> nat list" where
  "case_variants c =
    (let l = sre_lower c; ls = l # extra_case l in ls @ map upper_cp ls)"

definition class_has :: "rx_env \<Rightarrow> bool \<Rightarrow> citem list \<Rightarrow> nat \<Rightarrow> bool" where
  "class_has env neg items c =
    (neg \<noteq> (if rx_ic env then list_ex (\<lambda>v. list_ex (item_has env v) items) (case_variants c)
            else list_ex (item_has env c) items))"

section \<open>Patterns and the matcher\<close>

datatype rx =
    Eps
  | Cls bool "citem list"
  | Seq rx rx
  | Alt rx rx
  | Rep bool nat "nat option" rx
  | WordB
  | AtStart
  | AtEnd

type_synonym rx_pos = "nat option \<times> pystr"

fun times :: "(rx_pos \<Rightarrow> rx_pos list) \<Rightarrow> nat \<Rightarrow> rx_pos \<Rightarrow> rx_pos list" where
  "times f 0 p = [p]"
| "times f (Suc n) p = concat (map (times f n) (f p))"

text \<open>Up to \<open>n\<close> more rounds, each of which must consume something; the longest first when greedy.\<close>

fun rounds :: "bool \<Rightarrow> (rx_pos \<Rightarrow> rx_pos list) \<Rightarrow> nat \<Rightarrow> rx_pos \<Rightarrow> rx_pos list" where
  "rounds greedy f 0 p = [p]"
| "rounds greedy f (Suc n) p =
    (let more = concat (map (rounds greedy f n)
           (filter (\<lambda>q. length (snd q) < length (snd p)) (f p)))
     in if greedy then more @ [p] else p # more)"

definition word_before :: "rx_env \<Rightarrow> rx_pos \<Rightarrow> bool" where
  "word_before env p = (case fst p of None \<Rightarrow> False | Some c \<Rightarrow> rx_word env c)"

definition word_after :: "rx_env \<Rightarrow> rx_pos \<Rightarrow> bool" where
  "word_after env p = (case snd p of [] \<Rightarrow> False | c # s \<Rightarrow> rx_word env c)"

fun ends :: "rx_env \<Rightarrow> rx \<Rightarrow> rx_pos \<Rightarrow> rx_pos list" where
  "ends env Eps p = [p]"
| "ends env (Cls neg items) p =
    (case snd p of [] \<Rightarrow> [] | c # s \<Rightarrow> if class_has env neg items c then [(Some c, s)] else [])"
| "ends env (Seq a b) p = concat (map (ends env b) (ends env a p))"
| "ends env (Alt a b) p = ends env a p @ ends env b p"
| "ends env (Rep greedy mn mx r) p =
    concat (map (\<lambda>q. rounds greedy (ends env r)
        (case mx of None \<Rightarrow> length (snd q) | Some m \<Rightarrow> m - mn) q)
      (times (ends env r) mn p))"
| "ends env WordB p = (if word_before env p \<noteq> word_after env p then [p] else [])"
| "ends env AtStart p = (if fst p = None then [p] else [])"
| "ends env AtEnd p = (if snd p = [] \<or> snd p = [10] then [p] else [])"

text \<open>\<open>pattern.search\<close> and \<open>pattern.match\<close> as truth values.\<close>

fun search_from :: "rx_env \<Rightarrow> rx \<Rightarrow> nat option \<Rightarrow> pystr \<Rightarrow> bool" where
  "search_from env r prev [] = (ends env r (prev, []) \<noteq> [])"
| "search_from env r prev (c # s) =
     (ends env r (prev, c # s) \<noteq> [] \<or> search_from env r (Some c) s)"

definition rx_search :: "rx_env \<Rightarrow> rx \<Rightarrow> pystr \<Rightarrow> bool" where
  "rx_search env r s = search_from env r None s"

definition rx_match :: "rx_env \<Rightarrow> rx \<Rightarrow> pystr \<Rightarrow> bool" where
  "rx_match env r s = (ends env r (None, s) \<noteq> [])"

text \<open>\<open>pattern.findall\<close> for a pattern without groups that never matches the empty string: the
  first way to match at the leftmost position, then on from its end.\<close>

function find_from :: "rx_env \<Rightarrow> rx \<Rightarrow> nat option \<Rightarrow> pystr \<Rightarrow> pystr list" where
  "find_from env r prev s =
    (case s of
       [] \<Rightarrow> []
     | c # s' \<Rightarrow>
         (case ends env r (prev, s) of
            [] \<Rightarrow> find_from env r (Some c) s'
          | q # _ \<Rightarrow>
              if length (snd q) < length s
              then take (length s - length (snd q)) s # find_from env r (fst q) (snd q)
              else find_from env r (Some c) s'))"
  by pat_completeness auto
termination
  by (relation "measure (\<lambda>(env, r, prev, s). length s)") auto

declare find_from.simps [simp del]

definition rx_findall :: "rx_env \<Rightarrow> rx \<Rightarrow> pystr \<Rightarrow> pystr list" where
  "rx_findall env r s = find_from env r None s"

text \<open>\<open>pattern.sub\<close> with a replacement that has no backslash, for the same patterns.\<close>

function sub_from :: "rx_env \<Rightarrow> rx \<Rightarrow> pystr \<Rightarrow> nat option \<Rightarrow> pystr \<Rightarrow> pystr" where
  "sub_from env r repl prev s =
    (case s of
       [] \<Rightarrow> []
     | c # s' \<Rightarrow>
         (case ends env r (prev, s) of
            [] \<Rightarrow> c # sub_from env r repl (Some c) s'
          | q # _ \<Rightarrow>
              if length (snd q) < length s
              then repl @ sub_from env r repl (fst q) (snd q)
              else c # sub_from env r repl (Some c) s'))"
  by pat_completeness auto
termination
  by (relation "measure (\<lambda>(env, r, repl, prev, s). length s)") auto

declare sub_from.simps [simp del]

definition rx_sub :: "rx_env \<Rightarrow> rx \<Rightarrow> pystr \<Rightarrow> pystr \<Rightarrow> pystr" where
  "rx_sub env r repl s = sub_from env r repl None s"

section \<open>Notation for patterns\<close>

definition chr :: "nat \<Rightarrow> rx" where
  "chr c = Cls False [Rg c c]"

fun cps :: "nat list \<Rightarrow> rx" where
  "cps [] = Eps"
| "cps [c] = chr c"
| "cps (c # cs) = Seq (chr c) (cps cs)"

definition lit :: "string \<Rightarrow> rx" where
  "lit s = cps (u s)"

fun seqs :: "rx list \<Rightarrow> rx" where
  "seqs [] = Eps"
| "seqs [r] = r"
| "seqs (r # rs) = Seq r (seqs rs)"

fun alts :: "rx list \<Rightarrow> rx" where
  "alts [] = Cls False []"
| "alts [r] = r"
| "alts (r # rs) = Alt r (alts rs)"

definition dot :: rx where
  "dot = Cls True [Rg 10 10]"

definition sp :: rx where
  "sp = Cls False [CSpace]"

definition digit_cls :: rx where
  "digit_cls = Cls False [CDigit]"

abbreviation opt :: "rx \<Rightarrow> rx" where "opt r \<equiv> Rep True 0 (Some 1) r"
abbreviation star :: "rx \<Rightarrow> rx" where "star r \<equiv> Rep True 0 None r"
abbreviation plus1 :: "rx \<Rightarrow> rx" where "plus1 r \<equiv> Rep True 1 None r"
abbreviation lazy :: "rx \<Rightarrow> rx" where "lazy r \<equiv> Rep False 0 None r"
abbreviation upto :: "nat \<Rightarrow> nat \<Rightarrow> rx \<Rightarrow> rx" where "upto m n r \<equiv> Rep True m (Some n) r"
abbreviation least :: "nat \<Rightarrow> rx \<Rightarrow> rx" where "least m r \<equiv> Rep True m None r"
abbreviation gap :: "nat \<Rightarrow> rx" where "gap n \<equiv> Rep True 0 (Some n) dot"

section \<open>The declarative reading\<close>

text \<open>\<open>rx_rel env r p q\<close>: the pattern matches the text between positions \<open>p\<close> and \<open>q\<close>.\<close>

definition char_rel :: "(nat \<Rightarrow> bool) \<Rightarrow> rx_pos \<Rightarrow> rx_pos \<Rightarrow> bool" where
  "char_rel P p q \<longleftrightarrow> (\<exists>c s. snd p = c # s \<and> P c \<and> q = (Some c, s))"

primrec rx_rel :: "rx_env \<Rightarrow> rx \<Rightarrow> rx_pos \<Rightarrow> rx_pos \<Rightarrow> bool" where
  "rx_rel env Eps = (\<lambda>p q. q = p)"
| "rx_rel env (Cls neg items) = char_rel (class_has env neg items)"
| "rx_rel env (Seq a b) = rx_rel env a OO rx_rel env b"
| "rx_rel env (Alt a b) = (\<lambda>p q. rx_rel env a p q \<or> rx_rel env b p q)"
| "rx_rel env (Rep greedy mn mx r) =
     (\<lambda>p q. \<exists>n. mn \<le> n \<and> (\<forall>m. mx = Some m \<longrightarrow> n \<le> max mn m) \<and> (rx_rel env r ^^ n) p q)"
| "rx_rel env WordB = (\<lambda>p q. q = p \<and> word_before env p \<noteq> word_after env p)"
| "rx_rel env AtStart = (\<lambda>p q. q = p \<and> fst p = None)"
| "rx_rel env AtEnd = (\<lambda>p q. q = p \<and> (snd p = [] \<or> snd p = [10]))"

lemma times_relpow: "(\<And>p. set (f p) = {q. R p q}) \<Longrightarrow> q \<in> set (times f n p) \<longleftrightarrow> (R ^^ n) p q"
proof (induction n arbitrary: p)
  case (Suc n)
  then show ?case by (auto simp: relpowp_Suc_left simp del: relpowp.simps(2) intro: relpowp_Suc_I2
        dest: relpowp_Suc_D2)
qed auto

lemma moves_or_stays:
  "rx_rel env r p q \<Longrightarrow> q = p \<or> length (snd q) < length (snd p)"
proof (induction r arbitrary: p q)
  case (Seq a b)
  then obtain x where x: "rx_rel env a p x" "rx_rel env b x q" by auto
  from Seq.IH(1) [OF x(1)] Seq.IH(2) [OF x(2)] show ?case by auto
next
  case (Alt a b)
  then have "rx_rel env a p q \<or> rx_rel env b p q" by simp
  with Alt.IH show ?case by blast
next
  case (Rep greedy mn mx r)
  then obtain n where "(rx_rel env r ^^ n) p q" by auto
  then show ?case
  proof (induction n arbitrary: q)
    case (Suc n)
    then obtain x where x: "(rx_rel env r ^^ n) p x" "rx_rel env r x q" by auto
    from Suc.IH [OF x(1)] Rep.IH [OF x(2)] show ?case by auto
  qed simp
qed (auto simp: char_rel_def)

lemma rounds_rel:
  assumes f: "\<And>p. set (f p) = {q. R p q}"
    and move: "\<And>p q. R p q \<Longrightarrow> q = p \<or> length (snd q) < length (snd p)"
  shows "q \<in> set (rounds greedy f n p) \<longleftrightarrow> (\<exists>k \<le> n. (R ^^ k) p q)"
proof (induction n arbitrary: p)
  case 0
  show ?case by auto
next
  case (Suc n)
  have "q \<in> set (rounds greedy f (Suc n) p) \<longleftrightarrow>
      q = p \<or> (\<exists>p' \<in> set (f p). length (snd p') < length (snd p) \<and>
        q \<in> set (rounds greedy f n p'))"
    by (auto simp: Let_def)
  also have "\<dots> \<longleftrightarrow>
      q = p \<or> (\<exists>p'. R p p' \<and> length (snd p') < length (snd p) \<and> (\<exists>k \<le> n. (R ^^ k) p' q))"
    unfolding Suc.IH f mem_Collect_eq Bex_def by (rule refl)
  also have "\<dots> \<longleftrightarrow> (\<exists>k \<le> Suc n. (R ^^ k) p q)"
  proof
    assume "q = p \<or> (\<exists>p'. R p p' \<and> length (snd p') < length (snd p) \<and> (\<exists>k \<le> n. (R ^^ k) p' q))"
    then show "\<exists>k \<le> Suc n. (R ^^ k) p q"
      by (auto intro: relpowp_Suc_I2 exI [of _ "Suc _"] exI [of _ 0])
  next
    assume "\<exists>k \<le> Suc n. (R ^^ k) p q"
    then obtain k where "k \<le> Suc n" "(R ^^ k) p q" by blast
    then show "q = p \<or> (\<exists>p'. R p p' \<and> length (snd p') < length (snd p) \<and> (\<exists>k \<le> n. (R ^^ k) p' q))"
    proof (induction k)
      case (Suc k)
      then obtain p' where p': "R p p'" "(R ^^ k) p' q" by (blast dest: relpowp_Suc_D2)
      show ?case
      proof (cases "p' = p")
        case True
        with p'(2) Suc show ?thesis by auto
      next
        case False
        then have "length (snd p') < length (snd p)" using move [OF p'(1)] by blast
        moreover have "k \<le> n" using Suc.prems(1) by simp
        ultimately show ?thesis using p' by blast
      qed
    qed simp
  qed
  finally show ?case .
qed

lemma relpow_shorter:
  assumes move: "\<And>p q. R p q \<Longrightarrow> q = p \<or> length (snd q) < length (snd p)"
  shows "(R ^^ n) p q \<Longrightarrow> \<exists>k \<le> length (snd p). (R ^^ k) p q"
proof (induction n arbitrary: p)
  case 0
  then show ?case by (auto intro: exI [of _ 0])
next
  case (Suc n)
  then obtain p' where p': "R p p'" "(R ^^ n) p' q" by (blast dest: relpowp_Suc_D2)
  obtain k where k: "k \<le> length (snd p')" "(R ^^ k) p' q" using Suc.IH [OF p'(2)] by blast
  show ?case
  proof (cases "p' = p")
    case True
    with k show ?thesis by auto
  next
    case False
    with move [OF p'(1)] k p'(1) show ?thesis
      by (intro exI [of _ "Suc k"] conjI relpowp_Suc_I2 [OF p'(1) k(2)]) auto
  qed
qed

lemma ends_rel: "set (ends env r p) = {q. rx_rel env r p q}"
proof (induction r arbitrary: p)
  case (Cls neg items)
  show ?case by (auto simp: char_rel_def split: list.splits if_splits)
next
  case (Seq a b)
  then show ?case by (auto simp: relcompp_apply)
next
  case (Rep greedy mn mx r)
  let ?R = "rx_rel env r"
  have t: "q \<in> set (times (ends env r) mn p) \<longleftrightarrow> (?R ^^ mn) p q" for p q
    by (rule times_relpow) (rule Rep.IH)
  have s: "q \<in> set (rounds greedy (ends env r) n p) \<longleftrightarrow> (\<exists>k \<le> n. (?R ^^ k) p q)" for n p q
    by (rule rounds_rel [OF Rep.IH moves_or_stays])
  have add: "(?R ^^ (m + k)) p q \<longleftrightarrow> (\<exists>x. (?R ^^ m) p x \<and> (?R ^^ k) x q)" for m k p q
    by (auto simp: relpowp_add)
  have m: "q \<in> set (ends env (Rep greedy mn mx r) p) \<longleftrightarrow> (\<exists>x. (?R ^^ mn) p x \<and>
      (\<exists>k \<le> (case mx of None \<Rightarrow> length (snd x) | Some m \<Rightarrow> m - mn). (?R ^^ k) x q))" for q
    by (simp add: Bex_def t s del: split_paired_Ex)
  show ?case
  proof (cases mx)
    case None
    have "(\<exists>x. (?R ^^ mn) p x \<and> (\<exists>k \<le> length (snd x). (?R ^^ k) x q)) \<longleftrightarrow>
        (\<exists>n. mn \<le> n \<and> (?R ^^ n) p q)" for q
    proof
      assume "\<exists>x. (?R ^^ mn) p x \<and> (\<exists>k \<le> length (snd x). (?R ^^ k) x q)"
      then obtain x k where "(?R ^^ mn) p x" "(?R ^^ k) x q" by blast
      then show "\<exists>n. mn \<le> n \<and> (?R ^^ n) p q"
        by (intro exI [of _ "mn + k"] conjI le_add1 add [THEN iffD2] exI [of _ x])
    next
      assume "\<exists>n. mn \<le> n \<and> (?R ^^ n) p q"
      then obtain n where "mn \<le> n" "(?R ^^ n) p q" by blast
      then have "(?R ^^ (mn + (n - mn))) p q" by simp
      then obtain x where x: "(?R ^^ mn) p x" "(?R ^^ (n - mn)) x q" unfolding add by blast
      have "\<exists>k \<le> length (snd x). (?R ^^ k) x q"
        by (rule relpow_shorter [OF _ x(2)]) (rule moves_or_stays)
      with x(1) show "\<exists>x. (?R ^^ mn) p x \<and> (\<exists>k \<le> length (snd x). (?R ^^ k) x q)" by blast
    qed
    with m None show ?thesis by (intro set_eqI) simp
  next
    case (Some m)
    have "(\<exists>x. (?R ^^ mn) p x \<and> (\<exists>k \<le> m - mn. (?R ^^ k) x q)) \<longleftrightarrow>
        (\<exists>n. mn \<le> n \<and> n \<le> max mn m \<and> (?R ^^ n) p q)" for q
    proof
      assume "\<exists>x. (?R ^^ mn) p x \<and> (\<exists>k \<le> m - mn. (?R ^^ k) x q)"
      then obtain x k where "(?R ^^ mn) p x" "k \<le> m - mn" "(?R ^^ k) x q" by blast
      then show "\<exists>n. mn \<le> n \<and> n \<le> max mn m \<and> (?R ^^ n) p q"
        by (intro exI [of _ "mn + k"] conjI le_add1 add [THEN iffD2] exI [of _ x]) auto
    next
      assume "\<exists>n. mn \<le> n \<and> n \<le> max mn m \<and> (?R ^^ n) p q"
      then obtain n where n: "mn \<le> n" "n \<le> max mn m" "(?R ^^ n) p q" by blast
      then have "(?R ^^ (mn + (n - mn))) p q" by simp
      then obtain x where "(?R ^^ mn) p x" "(?R ^^ (n - mn)) x q" unfolding add by blast
      moreover have "n - mn \<le> m - mn" using n by auto
      ultimately show "\<exists>x. (?R ^^ mn) p x \<and> (\<exists>k \<le> m - mn. (?R ^^ k) x q)" by blast
    qed
    with m Some show ?thesis by (intro set_eqI) simp
  qed
qed auto

lemma search_from_iff:
  "search_from env r prev s \<longleftrightarrow>
     (\<exists>a b q. s = a @ b \<and> rx_rel env r ((if a = [] then prev else Some (last a)), b) q)"
proof (induction s arbitrary: prev)
  case Nil
  have "ends env r (prev, []) \<noteq> [] \<longleftrightarrow> (\<exists>q. rx_rel env r (prev, []) q)"
    using ends_rel [of env r "(prev, [])"] by (cases "ends env r (prev, [])") auto
  then show ?case by auto
next
  case (Cons c s)
  have e: "ends env r (prev, c # s) \<noteq> [] \<longleftrightarrow> (\<exists>q. rx_rel env r (prev, c # s) q)"
    using ends_rel [of env r "(prev, c # s)"] by (cases "ends env r (prev, c # s)") auto
  have "(\<exists>a b q. c # s = a @ b \<and> rx_rel env r ((if a = [] then prev else Some (last a)), b) q) \<longleftrightarrow>
      (\<exists>q. rx_rel env r (prev, c # s) q) \<or>
      (\<exists>a b q. s = a @ b \<and> rx_rel env r (Some (last (c # a)), b) q)"
    (is "?L \<longleftrightarrow> _ \<or> ?S")
  proof
    assume ?L
    then obtain a b q where ab: "c # s = a @ b"
      "rx_rel env r ((if a = [] then prev else Some (last a)), b) q" by blast
    show "(\<exists>q. rx_rel env r (prev, c # s) q) \<or> ?S"
    proof (cases a)
      case Nil
      with ab show ?thesis by (metis append_Nil)
    next
      case (Cons d a')
      with ab have "s = a' @ b" "rx_rel env r (Some (last (c # a')), b) q" by simp_all
      then show ?thesis by blast
    qed
  next
    assume "(\<exists>q. rx_rel env r (prev, c # s) q) \<or> ?S"
    then show ?L
    proof
      assume "\<exists>q. rx_rel env r (prev, c # s) q"
      then show ?L by (intro exI [of _ "[]"] exI [of _ "c # s"]) auto
    next
      assume ?S
      then obtain a b q where "s = a @ b" "rx_rel env r (Some (last (c # a)), b) q" by blast
      then show ?L by (intro exI [of _ "c # a"] exI [of _ b] exI [of _ q]) simp
    qed
  qed
  moreover have "Some (last (c # a)) = (if a = [] then Some c else Some (last a))" for a
    by simp
  ultimately show ?case unfolding search_from.simps e Cons.IH by simp
qed

text \<open>
  The matcher is the meaning of the pattern. \<open>search\<close> succeeds exactly when the text splits
  at some position from which the pattern, read as a relation between positions (sequence as
  composition, alternatives as union, repetition as bounded iteration), matches: the bounded
  backtracking neither misses a match nor invents one.
\<close>

theorem rx_search_iff:
  "rx_search env r s \<longleftrightarrow>
     (\<exists>a b q. s = a @ b \<and> rx_rel env r ((if a = [] then None else Some (last a)), b) q)"
  unfolding rx_search_def by (rule search_from_iff)

section \<open>What a match consumes\<close>

lemma rx_rel_suffix: "rx_rel env r p q \<Longrightarrow> \<exists>w. snd p = w @ snd q"
proof (induction r arbitrary: p q)
  case (Seq a b)
  then obtain x where x: "rx_rel env a p x" "rx_rel env b x q" by auto
  from Seq.IH(1) [OF x(1)] Seq.IH(2) [OF x(2)] show ?case by auto
next
  case (Alt a b)
  then have "rx_rel env a p q \<or> rx_rel env b p q" by simp
  with Alt.IH show ?case by blast
next
  case (Rep greedy mn mx r)
  then obtain n where "(rx_rel env r ^^ n) p q" by auto
  then show ?case
  proof (induction n arbitrary: q)
    case (Suc n)
    then obtain x where x: "(rx_rel env r ^^ n) p x" "rx_rel env r x q" by auto
    from Suc.IH [OF x(1)] Rep.IH [OF x(2)] show ?case by auto
  qed simp
qed (auto simp: char_rel_def)

text \<open>Every match of the pattern consumes a character that one of the literals \<open>K\<close> accepts.\<close>

fun needs :: "nat list \<Rightarrow> rx \<Rightarrow> bool" where
  "needs K (Cls neg items) =
     (\<not> neg \<and> list_ex (\<lambda>a. items = [Rg a a]) K)"
| "needs K (Seq a b) = (needs K a \<or> needs K b)"
| "needs K (Alt a b) = (needs K a \<and> needs K b)"
| "needs K (Rep greedy mn mx r) = (0 < mn \<and> needs K r)"
| "needs K _ = False"

lemma needs_consumes:
  assumes "\<And>k c. k \<in> set K \<Longrightarrow> class_has env False [Rg k k] c \<Longrightarrow> P c"
  shows "rx_rel env r p q \<Longrightarrow> needs K r \<Longrightarrow> \<exists>c \<in> set (snd p). P c"
proof (induction r arbitrary: p q)
  case (Cls neg items)
  then obtain a where "\<not> neg" "items = [Rg a a]" "a \<in> set K"
    by (auto simp: list_ex_iff)
  with Cls(1) obtain c s where "snd p = c # s" "class_has env False [Rg a a] c"
    by (auto simp: char_rel_def)
  with assms [OF \<open>a \<in> set K\<close>] show ?case by auto
next
  case (Seq a b)
  then obtain x where x: "rx_rel env a p x" "rx_rel env b x q" by auto
  from rx_rel_suffix [OF x(1)] have sub: "set (snd x) \<subseteq> set (snd p)" by auto
  from Seq.prems(2) consider "needs K a" | "needs K b" by auto
  then show ?case
  proof cases
    case 1
    with Seq.IH(1) [OF x(1)] show ?thesis .
  next
    case 2
    with Seq.IH(2) [OF x(2)] sub show ?thesis by blast
  qed
next
  case (Alt a b)
  then have "rx_rel env a p q \<or> rx_rel env b p q" by simp
  moreover from Alt.prems(2) have "needs K a" "needs K b" by simp_all
  ultimately show ?case using Alt.IH by blast
next
  case (Rep greedy mn mx r)
  then obtain n where n: "(rx_rel env r ^^ n) p q" "mn \<le> n" by auto
  with Rep.prems(2) obtain m where "n = Suc m" by (cases n) auto
  with n obtain x where "rx_rel env r p x" by (blast dest: relpowp_Suc_D2)
  moreover from Rep.prems(2) have "needs K r" by simp
  ultimately show ?case by (rule Rep.IH)
qed auto

lemma needs_search:
  assumes "\<And>k c. k \<in> set K \<Longrightarrow> class_has env False [Rg k k] c \<Longrightarrow> P c"
    and "needs K r" "\<forall>c \<in> set s. \<not> P c"
  shows "\<not> rx_search env r s"
proof
  assume "rx_search env r s"
  then obtain a b q p0 where "s = a @ b" "rx_rel env r (p0, b) q"
    unfolding rx_search_def search_from_iff by blast
  then have "\<exists>c \<in> set (snd (p0, b)). P c"
    by (intro needs_consumes [OF assms(1) _ assms(2)])
  with assms(3) \<open>s = a @ b\<close> show False by auto
qed

section \<open>Matching known words\<close>

text \<open>\<open>consumes env r w\<close>: the pattern can match exactly \<open>w\<close>, whatever surrounds it.\<close>

definition consumes :: "rx_env \<Rightarrow> rx \<Rightarrow> pystr \<Rightarrow> bool" where
  "consumes env r w \<longleftrightarrow> (\<forall>prev rest. \<exists>prev'. rx_rel env r (prev, w @ rest) (prev', rest))"

lemma consumes_Eps: "consumes env Eps []"
  by (auto simp: consumes_def)

lemma consumes_Cls: "class_has env neg items c \<Longrightarrow> consumes env (Cls neg items) [c]"
  by (auto simp: consumes_def char_rel_def)

lemma consumes_Seq: "consumes env a v \<Longrightarrow> consumes env b w \<Longrightarrow> consumes env (Seq a b) (v @ w)"
  unfolding consumes_def by (simp add: relcompp_apply) meson

lemma consumes_Alt:
  "consumes env a w \<Longrightarrow> consumes env (Alt a b) w"
  "consumes env b w \<Longrightarrow> consumes env (Alt a b) w"
  unfolding consumes_def by (auto; meson)+

lemma consumes_relpow:
  "list_all (\<lambda>c. consumes env r [c]) w \<Longrightarrow>
     \<exists>prev'. (rx_rel env r ^^ length w) (prev, w @ rest) (prev', rest)"
proof (induction w arbitrary: prev)
  case (Cons c w)
  then have "consumes env r [c]" by simp
  then obtain pv where pv: "rx_rel env r (prev, c # w @ rest) (pv, w @ rest)"
    unfolding consumes_def by (metis append_Cons append_Nil)
  from Cons obtain pv' where "(rx_rel env r ^^ length w) (pv, w @ rest) (pv', rest)" by auto
  with pv show ?case
    by (intro exI [of _ pv']) (simp del: relpowp.simps(2) add: relpowp_Suc_I2)
qed auto

lemma consumes_Rep:
  assumes "list_all (\<lambda>c. consumes env r [c]) w" "mn \<le> length w"
    and "\<And>m. mx = Some m \<Longrightarrow> length w \<le> m"
  shows "consumes env (Rep greedy mn mx r) w"
  unfolding consumes_def
proof (intro allI)
  fix prev rest
  from consumes_relpow [OF assms(1)] obtain pv
    where pv: "(rx_rel env r ^^ length w) (prev, w @ rest) (pv, rest)" by blast
  have "rx_rel env (Rep greedy mn mx r) (prev, w @ rest) (pv, rest)"
    unfolding rx_rel.simps using assms(2,3) pv by (intro exI [of _ "length w"]) auto
  then show "\<exists>prev'. rx_rel env (Rep greedy mn mx r) (prev, w @ rest) (prev', rest)" by blast
qed

lemma consumes_opt_none: "consumes env (opt r) []"
  by (rule consumes_Rep) auto

lemma consumes_gap: "length w \<le> n \<Longrightarrow>
    list_all (\<lambda>c. class_has env True [Rg 10 10] c) w \<Longrightarrow> consumes env (gap n) w"
  by (rule consumes_Rep) (auto simp: dot_def list_all_iff intro: consumes_Cls)

lemma consumes_search: "consumes env r w \<Longrightarrow> rx_search env r (a @ w @ b)"
  unfolding consumes_def rx_search_def search_from_iff by blast

text \<open>When case is ignored, an ASCII word matches any spelling of it in upper and lower case, and
  \<open>.\<close> still matches everything but a newline.\<close>

lemma consumes_chr:
  assumes "rx_ic env" "lower_cp c = k" "k < 128"
  shows "consumes env (chr k) [c]"
proof -
  have "c \<noteq> 304" "c \<noteq> 8491" using assms(2,3) by (auto simp: lower_cp_def)
  then have "sre_lower c = k" using assms(2) by (simp add: sre_lower_def)
  then have "k \<in> set (case_variants c)" by (simp add: case_variants_def Let_def)
  with assms(1) have "class_has env False [Rg k k] c"
    by (auto simp: class_has_def list_ex_iff)
  then show ?thesis unfolding chr_def by (rule consumes_Cls)
qed

lemma consumes_word:
  "rx_ic env \<Longrightarrow> py_lower w = ks \<Longrightarrow> list_all (\<lambda>k. k < 128) ks \<Longrightarrow> consumes env (cps ks) w"
proof (induction ks arbitrary: w rule: cps.induct)
  case 1
  then show ?case by (auto simp: py_lower_def consumes_Eps)
next
  case (2 c)
  then show ?case by (auto simp: py_lower_def consumes_chr)
next
  case (3 c d ds)
  then obtain x xs where w: "w = x # xs" "lower_cp x = c" "py_lower xs = d # ds"
    by (auto simp: py_lower_def)
  with 3 have "consumes env (chr c) [x]" "consumes env (cps (d # ds)) xs"
    by (auto intro: consumes_chr)
  from consumes_Seq [OF this] w show ?case by simp
qed

lemma sre_lower_newline: "sre_lower c = 10 \<longleftrightarrow> c = 10"
  by (auto simp: sre_lower_def lower_cp_def split: if_splits)

lemma upper_newline: "upper_cp c = 10 \<Longrightarrow> c = 10"
  by (simp add: upper_cp_def split: if_splits)

lemma extra_newline: "list_all (\<lambda>k. k \<noteq> 10) (extra_case c)"
  by (simp add: extra_case_def)

lemma dot_has:
  assumes "c \<noteq> 10"
  shows "class_has env True [Rg 10 10] c"
proof -
  have "10 \<notin> set (case_variants c)"
    using assms sre_lower_newline [of c] upper_newline extra_newline [of "sre_lower c"]
    by (auto simp: case_variants_def Let_def list_all_iff)
  with assms show ?thesis by (auto simp: class_has_def list_ex_iff)
qed

lemma consumes_short: "length w \<le> n \<Longrightarrow> 10 \<notin> set w \<Longrightarrow> consumes env (gap n) w"
  by (rule consumes_gap) (auto simp: list_all_iff intro: dot_has)

section \<open>Findall and sub\<close>

text \<open>Patterns that never match the empty string.\<close>

fun consuming :: "rx \<Rightarrow> bool" where
  "consuming (Cls neg items) = True"
| "consuming (Seq a b) = (consuming a \<or> consuming b)"
| "consuming (Alt a b) = (consuming a \<and> consuming b)"
| "consuming (Rep greedy mn mx r) = (0 < mn \<and> consuming r)"
| "consuming _ = False"

lemma consuming_shorter: "rx_rel env r p q \<Longrightarrow> consuming r \<Longrightarrow> length (snd q) < length (snd p)"
proof (induction r arbitrary: p q)
  case (Seq a b)
  then obtain x where x: "rx_rel env a p x" "rx_rel env b x q" by auto
  from Seq.prems(2) consider "consuming a" | "consuming b" by auto
  then show ?case
  proof cases
    case 1
    with Seq.IH(1) [OF x(1)] moves_or_stays [OF x(2)] show ?thesis by auto
  next
    case 2
    with Seq.IH(2) [OF x(2)] moves_or_stays [OF x(1)] show ?thesis by auto
  qed
next
  case (Alt a b)
  then have "rx_rel env a p q \<or> rx_rel env b p q" by simp
  moreover from Alt.prems(2) have "consuming a" "consuming b" by simp_all
  ultimately show ?case using Alt.IH by blast
next
  case (Rep greedy mn mx r)
  then obtain n where n: "(rx_rel env r ^^ n) p q" "mn \<le> n" by auto
  with Rep.prems(2) obtain m where "n = Suc m" by (cases n) auto
  with n obtain x where x: "rx_rel env r p x" "(rx_rel env r ^^ m) x q" by (blast dest: relpowp_Suc_D2)
  have "rx_rel env (Rep False m (Some m) r) x q" using x(2) by auto
  from moves_or_stays [OF this] have "length (snd q) \<le> length (snd x)" by auto
  moreover have "length (snd x) < length (snd p)" using Rep.IH [OF x(1)] Rep.prems(2) by simp
  ultimately show ?case by simp
qed (auto simp: char_rel_def)

lemma ends_shorter: "consuming r \<Longrightarrow> q \<in> set (ends env r p) \<Longrightarrow> length (snd q) < length (snd p)"
  using ends_rel consuming_shorter by fastforce

lemma find_from_empty_iff:
  "consuming r \<Longrightarrow> find_from env r prev s = [] \<longleftrightarrow> \<not> search_from env r prev s"
proof (induction env r prev s rule: find_from.induct)
  case (1 env r prev s)
  show ?case
  proof (cases s)
    case Nil
    have "ends env r (prev, []) = []"
      using ends_shorter [OF "1.prems", of _ env "(prev, [])"] by (cases "ends env r (prev, [])") auto
    with Nil show ?thesis by (simp add: find_from.simps)
  next
    case (Cons c s')
    show ?thesis
    proof (cases "ends env r (prev, s)")
      case Nil
      with Cons "1.IH"(1) [OF Cons Nil "1.prems"] show ?thesis by (simp add: find_from.simps [of env r prev "c # s'"])
    next
      case (Cons q qs)
      with ends_shorter [OF "1.prems", of q env "(prev, s)"] have "length (snd q) < length s" by simp
      with Cons \<open>s = c # s'\<close> show ?thesis by (simp add: find_from.simps [of env r prev "c # s'"])
    qed
  qed
qed

lemma rx_findall_empty_iff: "consuming r \<Longrightarrow> rx_findall env r s = [] \<longleftrightarrow> \<not> rx_search env r s"
  unfolding rx_findall_def rx_search_def by (rule find_from_empty_iff)

lemma sub_from_id: "\<not> search_from env r prev s \<Longrightarrow> sub_from env r repl prev s = s"
proof (induction s arbitrary: prev)
  case (Cons c s)
  then show ?case by (auto simp: sub_from.simps [of _ _ _ _ "c # s"])
qed (simp add: sub_from.simps)

lemma rx_sub_id: "\<not> rx_search env r s \<Longrightarrow> rx_sub env r repl s = s"
  unfolding rx_search_def rx_sub_def by (rule sub_from_id)

end
