(* ===== verification/InjectionSignatures.thy ===== *)
theory InjectionSignatures
  imports PyRegex
begin

text \<open>
  The tables of \<open>detectors/prompt_injection.py\<close>: the invisible characters, the homoglyph map and
  the signatures, one definition for each group of the source. A signature is its name, whether
  it ignores case, and its pattern.
\<close>

section \<open>Characters\<close>

definition ZERO_WIDTH_CHARS :: "nat list" where
  "ZERO_WIDTH_CHARS = [8203, 8204, 8205, 65279, 8288, 6158, 8206, 8207]"

definition BIDI_CHARS :: "nat list" where
  "BIDI_CHARS = [8234, 8235, 8236, 8237, 8238, 8294, 8295, 8296, 8297]"

definition HOMOGLYPH_MAP :: "(nat \<times> nat) list" where
  "HOMOGLYPH_MAP = [
     (1072, 97), (1077, 101), (1086, 111), (1088, 112), (1089, 99), (1091, 121), (1093, 120),
     (1110, 105), (1112, 106), (1211, 104), (1040, 65), (1042, 66), (1045, 69), (1050, 75),
     (1052, 77), (1053, 72), (1054, 79), (1056, 80), (1057, 67), (1058, 84), (1061, 88), (945,
     97), (959, 111), (961, 112), (913, 65), (914, 66), (917, 69), (919, 72), (921, 73), (922,
     75), (924, 77), (925, 78), (927, 79), (929, 80), (932, 84), (933, 89), (935, 88), (949,
     101), (65345, 97), (65346, 98), (65347, 99), (65348, 100), (65349, 101), (65350, 102),
     (65351, 103), (65352, 104), (65353, 105), (65354, 106), (65355, 107), (65356, 108),
     (65357, 109), (65358, 110), (65359, 111), (65360, 112), (65361, 113), (65362, 114),
     (65363, 115), (65364, 116), (65365, 117), (65366, 118), (65367, 119), (65368, 120),
     (65369, 121), (65370, 122), (8208, 45), (8209, 45), (8210, 45), (8211, 45), (8212, 45)]"

definition BASE64_BLOCK_RE :: rx where
  "BASE64_BLOCK_RE = seqs [least 20 (Cls False [Rg 65 90, Rg 97 122, Rg 48 57, Rg 43 43, Rg 47 47]), upto 0 2 (lit ''='')]"

definition ROT13_MARKERS :: rx where
  "ROT13_MARKERS = alts [lit ''vtaber'', lit ''sbetrg'', lit ''flfgrz'', lit ''bireevqr'', lit ''olcnff'',
     lit ''qvfertneq'', lit ''eriyrny'', lit ''cebzcg'', lit ''vafgehpgvbaf'']"

definition ZERO_WIDTH_RE :: rx where
  "ZERO_WIDTH_RE = Cls False [Rg 8203 8203, Rg 8204 8204, Rg 8205 8205, Rg 65279 65279, Rg 8288 8288, Rg 6158 6158]"

definition BIDI_RE :: rx where
  "BIDI_RE = Cls False [Rg 8234 8238, Rg 8294 8297]"

section \<open>Signatures\<close>

type_synonym signature = "string \<times> bool \<times> rx"

definition sigs_classic_instruction_override :: "signature list" where
  "sigs_classic_instruction_override = [
     (''ignore_previous_instructions'', True, seqs [lit ''ignore'', gap 20, alts [lit ''previous'',
       lit ''prior'', lit ''above'', lit ''all'', lit ''earlier''], gap 20, lit ''instruction'',
       opt (lit ''s'')]),
     (''system_override'', True, seqs [alts [lit ''system'', lit ''admin''], plus1 sp, lit
       ''override'']),
     (''forget_everything'', True, seqs [lit ''forget'', plus1 sp, alts [lit ''everything'', lit
       ''all'', lit ''your'']]),
     (''jailbreak_identity'', True, seqs [lit ''you'', plus1 sp, lit ''are'', plus1 sp, lit
       ''now'', plus1 sp, alts [lit ''dan'', lit ''jailbreak'', lit ''unrestricted'', lit ''evil'',
       lit ''dude'', lit ''god'']]),
     (''tag_injection'', True, seqs [lit ''<'', star sp, opt (lit ''/''), lit ''system'', star sp,
       lit ''>'']),
     (''do_anything_now'', True, seqs [lit ''do'', plus1 sp, lit ''anything'', plus1 sp, lit
       ''now'']),
     (''disregard_guidelines'', True, seqs [lit ''disregard'', gap 20, alts [lit ''guidelines'',
       lit ''rules'', lit ''policies'', lit ''restrictions'', lit ''directives'', lit ''safety'']]),
     (''reveal_prompt'', True, seqs [alts [lit ''reveal'', lit ''show'', lit ''print'', lit
       ''output'', lit ''display'', lit ''repeat'', lit ''echo''], gap 20, alts [seqs [lit
       ''system'', plus1 sp, lit ''prompt''], seqs [lit ''hidden'', plus1 sp, lit
       ''instructions''], seqs [lit ''initial'', plus1 sp, lit ''prompt''], seqs [lit ''original'',
       plus1 sp, lit ''prompt'']]]),
     (''act_as_unrestricted'', True, seqs [lit ''act'', plus1 sp, lit ''as'', plus1 sp, opt (seqs
       [lit ''a'', opt (lit ''n''), plus1 sp]), alts [lit ''unrestricted'', lit ''unfiltered'', lit
       ''uncensored'', lit ''evil'', lit ''unlimited'']]),
     (''new_instructions'', True, seqs [alts [lit ''new'', lit ''updated'', lit ''real'', lit
       ''actual'', lit ''true''], plus1 sp, lit ''instruction'', opt (lit ''s''), star sp, alts
       [lit '':'', lit ''are'', lit ''supersede'', lit ''follow'']]),
     (''bypass_safety'', True, seqs [lit ''bypass'', gap 15, alts [lit ''safety'', lit ''content'',
       lit ''filter'', lit ''moderation'', lit ''guardrail'', lit ''restriction'']]),
     (''roleplay_evil'', True, seqs [alts [lit ''pretend'', lit ''imagine'', lit ''suppose''],
       plus1 sp, opt (seqs [lit ''you'', gap 10]), alts [seqs [lit ''have'', plus1 sp, lit ''no''],
       lit ''without'', lit ''lack''], gap 15, alts [lit ''restrictions'', lit ''limits'', lit
       ''rules'', lit ''guidelines'', lit ''filters'']])]"

definition sigs_prompt_leaking :: "signature list" where
  "sigs_prompt_leaking = [
     (''prompt_leak_what_is'', True, seqs [lit ''what'', plus1 sp, alts [lit ''is'', lit ''are''],
       plus1 sp, alts [lit ''your'', lit ''the''], plus1 sp, alts [seqs [lit ''system'', plus1 sp,
       lit ''prompt''], lit ''instructions'', lit ''rules'', lit ''directives'']]),
     (''prompt_leak_repeat'', True, seqs [alts [lit ''repeat'', lit ''recite'', lit ''copy'', lit
       ''paste'', seqs [lit ''type'', plus1 sp, lit ''out'']], gap 20, alts [lit ''everything'',
       lit ''all'', seqs [lit ''the'', plus1 sp, lit ''text''], seqs [lit ''your'', plus1 sp, lit
       ''instructions''], seqs [lit ''the'', plus1 sp, lit ''above''], seqs [lit ''system'', plus1
       sp, lit ''message'']]]),
     (''prompt_leak_verbatim'', True, alts [lit ''verbatim'', seqs [lit ''word'', plus1 sp, lit
       ''for'', plus1 sp, lit ''word''], seqs [lit ''exactly'', plus1 sp, lit ''as'', plus1 sp, lit
       ''written'']])]"

definition sigs_delimiter_injection :: "signature list" where
  "sigs_delimiter_injection = [
     (''delimiter_json_escape'', True, seqs [cps [92, 110], star sp, cps [92, 110], star sp, opt
       (lit ''{''), star sp, cps [34], alts [lit ''role'', lit ''system'', lit ''instruction'']]),
     (''delimiter_triple_backtick'', True, seqs [cps [96, 96, 96], star sp, alts [lit ''system'',
       lit ''instruction'', lit ''prompt'', lit ''override'']]),
     (''delimiter_separator'', True, seqs [least 5 (Cls False [Rg 45 45, Rg 61 61]), gap 20, alts
       [lit ''system'', lit ''instruction'', seqs [lit ''new'', plus1 sp, lit ''role''], lit
       ''override'', lit ''prompt'']]),
     (''delimiter_xml_tag'', True, seqs [lit ''<'', star sp, opt (lit ''/''), alts [lit
       ''instruction'', lit ''prompt'', lit ''context'', lit ''role'', lit ''task'', lit
       ''message''], star sp, lit ''>''])]"

definition sigs_markdown_html_injection :: "signature list" where
  "sigs_markdown_html_injection = [
     (''html_script_injection'', True, seqs [lit ''<'', star sp, lit ''script'', Cls False [CSpace,
       Rg 62 62]]),
     (''html_event_handler'', True, seqs [lit ''on'', alts [lit ''error'', lit ''load'', lit
       ''click'', lit ''mouseover''], star sp, lit ''='']),
     (''markdown_link_injection'', True, seqs [cps [91], lazy dot, cps [93, 40], star sp, alts [lit
       ''javascript:'', lit ''data:'', lit ''vbscript:'']]),
     (''html_iframe_injection'', True, seqs [lit ''<'', star sp, lit ''iframe'', Cls False [CSpace,
       Rg 62 62]]),
     (''markdown_image_exfil'', True, seqs [cps [33, 91], lazy dot, cps [93, 40], star sp, lit
       ''http'', opt (lit ''s''), lit ''://'', star (Cls True [Rg 41 41]), lit ''{'', lazy dot, lit
       ''}''])]"

definition sigs_encoding_tricks :: "signature list" where
  "sigs_encoding_tricks = [
     (''base64_instruction'', True, seqs [alts [lit ''decode'', lit ''base64'', lit ''b64'', lit
       ''eval''], star sp, opt (Cls False [Rg 40 40, Rg 58 58]), star sp, least 16 (Cls False [Rg
       65 90, Rg 97 122, Rg 48 57, Rg 43 43, Rg 47 47]), upto 0 2 (lit ''='')]),
     (''hex_encoded_payload'', True, least 4 (seqs [cps [92, 120], upto 2 2 (Cls False [Rg 48 57,
       Rg 97 102])])),
     (''unicode_escape_payload'', True, least 3 (seqs [cps [92, 117], upto 4 4 (Cls False [Rg 48
       57, Rg 97 102])])),
     (''rot13_instruction'', True, seqs [alts [lit ''rot13'', lit ''rot-13'', lit ''caesar''], star
       sp, alts [lit ''decode'', lit ''cipher'', lit ''transform'', lit ''apply'']]),
     (''encoded_ignore_instruction'', True, alts [lit ''aWdub3Jl'', lit ''Zm9yZ2V0'', lit
       ''c3lzdGVt'', lit ''b3ZlcnJpZGU''])]"

definition sigs_multi_language_injection :: "signature list" where
  "sigs_multi_language_injection = [
     (''injection_spanish'', True, seqs [alts [lit ''ignora'', lit ''olvida'', lit ''desactiva''],
       gap 20, alts [lit ''instrucciones'', lit ''reglas'', lit ''anteriores'', lit ''sistema'']]),
     (''injection_french'', True, seqs [alts [seqs [lit ''ignore'', opt (Cls False [Rg 114 114, Rg
       122 122])], seqs [lit ''oublie'', opt (Cls False [Rg 114 114, Rg 122 122])]], gap 20, alts
       [lit ''instructions'', seqs [lit ''r'', Cls False [Rg 101 101, Rg 232 232], lit ''gles''],
       seqs [lit ''pr'', Cls False [Rg 101 101, Rg 233 233], lit ''c'', Cls False [Rg 101 101, Rg
       233 233], lit ''dentes''], seqs [lit ''syst'', Cls False [Rg 101 101, Rg 232 232], lit
       ''me'']]]),
     (''injection_german'', True, seqs [alts [lit ''ignorier'', lit ''vergiss''], gap 20, alts [lit
       ''anweisungen'', lit ''regeln'', lit ''vorherige'', lit ''system'']]),
     (''injection_chinese'', False, seqs [alts [cps [24573, 30053], cps [26080, 35270], cps [36339,
       36807]], gap 10, alts [cps [25351, 20196], cps [35268, 21017], cps [20043, 21069], cps
       [31995, 32479], cps [25552, 31034]]]),
     (''injection_japanese'', False, seqs [alts [cps [28961, 35222], cps [24536, 12428], cps
       [12471, 12473, 12486, 12512]], gap 10, alts [cps [25351, 31034], cps [12523, 12540, 12523],
       cps [12503, 12525, 12531, 12503, 12488], cps [21629, 20196]]]),
     (''injection_russian'', True, seqs [alts [cps [1080, 1075, 1085, 1086, 1088, 1080, 1088, 1091,
       1081], cps [1079, 1072, 1073, 1091, 1076, 1100], cps [1086, 1090, 1084, 1077, 1085, 1080]],
       gap 20, alts [cps [1080, 1085, 1089, 1090, 1088, 1091, 1082, 1094, 1080, 1080], cps [1087,
       1088, 1072, 1074, 1080, 1083, 1072], cps [1089, 1080, 1089, 1090, 1077, 1084]]]),
     (''injection_arabic'', False, seqs [alts [cps [1578, 1580, 1575, 1607, 1604], cps [1575, 1606,
       1587, 1609], cps [1578, 1582, 1591, 1609]], gap 20, alts [cps [1575, 1604, 1578, 1593, 1604,
       1610, 1605, 1575, 1578], cps [1575, 1604, 1602, 1608, 1575, 1593, 1583], cps [1575, 1604,
       1606, 1592, 1575, 1605]]]),
     (''injection_portuguese'', True, seqs [alts [seqs [lit ''ignor'', Cls False [Rg 101 101, Rg 97
       97]], seqs [lit ''esque'', Cls False [Rg 99 99, Rg 231 231], lit ''a'']], gap 20, alts [seqs
       [lit ''instru'', Cls False [Rg 99 99, Rg 231 231], Cls False [Rg 111 111, Rg 245 245], lit
       ''es''], lit ''regras'', lit ''anteriores'', lit ''sistema'']]),
     (''injection_korean'', False, seqs [alts [cps [47924, 49884], cps [51082, 50612], cps [49884,
       49828, 53596]], gap 10, alts [cps [51648, 49884], cps [44508, 52825], cps [54532, 47212,
       54532, 53944], cps [47749, 47161]]])]"

definition sigs_indirect_injection :: "signature list" where
  "sigs_indirect_injection = [
     (''indirect_hidden_instruction'', True, alts [lit ''IMPORTANT'', lit ''URGENT'', seqs [lit
       ''NOTE'', plus1 sp, lit ''TO'', plus1 sp, lit ''AI''], seqs [lit ''ATTENTION'', plus1 sp,
       lit ''AI''], seqs [lit ''INSTRUCTION'', plus1 sp, lit ''FOR'', plus1 sp, opt (seqs [lit
       ''THE'', plus1 sp]), lit ''AI'']]),
     (''indirect_assistant_note'', True, seqs [alts [lit ''dear'', lit ''hey'', lit ''hi'', lit
       ''hello''], plus1 sp, alts [lit ''assistant'', lit ''ai'', lit ''chatbot'', lit ''model'',
       lit ''gpt'', lit ''claude'', lit ''llm'']]),
     (''indirect_hidden_text'', True, seqs [alts [lit ''hidden'', lit ''invisible'', lit
       ''secret''], plus1 sp, alts [lit ''instruction'', lit ''command'', lit ''message'', lit
       ''text''], star sp, alts [lit '':'', lit ''for'']]),
     (''indirect_email_injection'', True, seqs [alts [seqs [lit ''when'', plus1 sp, lit ''you'',
       plus1 sp, lit ''read''], seqs [lit ''upon'', plus1 sp, lit ''reading''], seqs [lit ''if'',
       plus1 sp, lit ''you'', gap 10, alts [lit ''see'', lit ''process''], plus1 sp, lit
       ''this'']], gap 30, alts [lit ''ignore'', lit ''override'', lit ''forget'', lit ''execute'',
       seqs [lit ''follow'', plus1 sp, lit ''these'']]]),
     (''indirect_document_payload'', True, seqs [alts [lit ''begin'', lit ''start''], plus1 sp,
       alts [lit ''secret'', lit ''hidden'', lit ''special''], plus1 sp, alts [lit ''section'', lit
       ''instructions'', lit ''protocol'']])]"

definition sigs_unicode_based_attacks :: "signature list" where
  "sigs_unicode_based_attacks = [
     (''unicode_bidi_override'', False, Cls False [Rg 8234 8238, Rg 8294 8297]),
     (''unicode_tag_chars'', False, Cls False [Rg 917505 917631]),
     (''unicode_confusables'', True, seqs [Cls False [Rg 1072 1072, Rg 1077 1077, Rg 1086 1086, Rg
       1088 1088, Rg 1089 1089, Rg 1091 1091, Rg 1093 1093], gap 5, alts [lit ''ignore'', lit
       ''system'', lit ''override'', lit ''bypass'', lit ''forget'']])]"

definition sigs_advanced_evasion :: "signature list" where
  "sigs_advanced_evasion = [
     (''char_splitting'', True, seqs [alts [lit ''i'', lit ''I''], star sp, lit ''g'', star sp, lit
       ''n'', star sp, lit ''o'', star sp, lit ''r'', star sp, lit ''e'', gap 5, alts [lit ''i'',
       lit ''p''], star sp, lit ''n'', star sp, lit ''s'', star sp, lit ''t'', star sp, lit ''r'',
       star sp, lit ''u'', star sp, lit ''c'']),
     (''payload_concatenation'', True, seqs [alts [lit ''combine'', lit ''concatenate'', lit
       ''join'', lit ''merge''], gap 30, alts [lit ''instruction'', lit ''command'', lit
       ''payload'', lit ''string'']]),
     (''token_smuggling'', True, seqs [alts [lit ''split'', lit ''chunk'', lit ''fragment'', lit
       ''piece''], gap 20, alts [lit ''token'', lit ''word'', lit ''instruction'', lit
       ''command'']]),
     (''context_switch'', True, seqs [alts [seqs [lit ''end'', plus1 sp, lit ''of''], lit ''exit'',
       lit ''leave'', lit ''stop''], gap 15, alts [lit ''context'', lit ''conversation'', lit
       ''chat'', lit ''session'', lit ''mode''], gap 15, alts [lit ''new'', lit ''begin'', lit
       ''start'', lit ''enter'']]),
     (''developer_mode'', True, seqs [alts [lit ''developer'', lit ''debug'', lit ''maintenance'',
       lit ''god'', lit ''sudo''], star sp, alts [lit ''mode'', lit ''access'', seqs [lit
       ''privilege'', opt (lit ''s'')]]]),
     (''hypothetical_frame'', True, seqs [alts [lit ''hypothetically'', lit ''theoretically'', seqs
       [lit ''in'', plus1 sp, lit ''a'', plus1 sp, lit ''fictional''], seqs [lit ''for'', plus1 sp,
       lit ''a'', plus1 sp, lit ''story'']], gap 30, alts [seqs [lit ''how'', plus1 sp, alts [lit
       ''would'', lit ''to'', lit ''can'']], lit ''ignore'', lit ''bypass'', lit ''override'']]),
     (''completion_manipulation'', True, seqs [alts [lit ''continue'', lit ''complete'', lit
       ''finish''], plus1 sp, opt (seqs [lit ''the'', plus1 sp]), alts [lit ''following'', lit
       ''this'', lit ''sentence'', lit ''pattern''], star sp, lit '':'', gap 30, alts [lit
       ''ignore'', lit ''system'', lit ''override'']]),
     (''few_shot_injection'', True, seqs [alts [lit ''example'', lit ''sample''], star sp, star
       digit_cls, star sp, opt (lit '':''), star sp, alts [lit ''user'', lit ''human'', lit
       ''input''], star sp, lit '':'', gap 50, alts [lit ''assistant'', lit ''ai'', lit ''output'',
       lit ''response''], star sp, lit '':'']),
     (''instruction_boundary'', True, seqs [alts [lit ''###'', lit ''==='', lit ''***'', lit
       ''---''], star sp, alts [lit ''end'', lit ''begin'', lit ''start''], gap 10, alts [lit
       ''instruction'', lit ''system'', lit ''prompt'']])]"

definition sigs_authority_spoofing :: "signature list" where
  "sigs_authority_spoofing = [
     (''obsolete_prior_text'', True, seqs [alts [lit ''text'', seqs [lit ''instruction'', opt (lit
       ''s'')], lit ''guidance''], lit '' '', alts [lit ''above'', lit ''earlier'', lit
       ''before''], lit '' '', alts [lit ''is'', lit ''are''], lit '' obsolete'']),
     (''override_safety'', True, seqs [alts [lit ''ignore'', lit ''disable'', lit ''suspend'', lit
       ''override''], lit '' '', opt (alts [lit ''any '', lit ''all '', lit ''the '']), opt (alts
       [lit ''previous '', lit ''prior '']), alts [lit ''safety'', lit ''security''], lit '' '',
       alts [lit ''controls'', lit ''checks'', lit ''rules'', lit ''filters'']]),
     (''privileged_tool_output'', True, seqs [alts [lit ''tool'', lit ''retrieved'', lit
       ''document'', lit ''file''], lit '' '', alts [lit ''response'', lit ''output'', lit
       ''content'', lit ''page''], lit '' '', alts [lit ''has'', lit ''holds'', lit ''claims''],
       lit '' '', alts [lit ''administrator'', lit ''admin'', lit ''system'', lit ''developer''],
       lit '' priority'']),
     (''revoke_guardrails'', True, seqs [alts [lit ''previous'', lit ''earlier'', lit
       ''existing''], lit '' '', alts [lit ''guardrails'', lit ''controls'', lit ''restrictions''],
       lit '' '', alts [lit ''revoked'', lit ''are revoked'', lit ''have been revoked'']]),
     (''approval_spoofing'', True, seqs [alts [lit ''pretend'', lit ''assume'', lit ''claim''], lit
       '' '', opt (lit ''the ''), alts [lit ''user'', lit ''administrator'', lit ''owner''], lit
       '' '', opt (lit ''has ''), alts [lit ''approved'', lit ''authorized'', lit ''granted''], lit
       '' '', alts [lit ''unrestricted'', lit ''full'', lit ''unlimited'']]),
     (''sandbox_escape_authority'', True, seqs [alts [lit ''document'', lit ''file'', lit
       ''page''], lit '' grants '', opt (lit ''you ''), lit ''permission to '', alts [lit ''use'',
       lit ''access'', lit ''read'', lit ''write''], lit '' '', gap 50, alts [lit
       ''outside the sandbox'', lit ''restricted directory'', lit ''private files'']]),
     (''exfiltrate_confidential'', True, seqs [alts [lit ''forward'', lit ''send'', lit ''upload'',
       lit ''exfiltrate''], lit '' '', alts [lit ''confidential'', lit ''private'', lit ''secret'',
       lit ''internal''], lit '' '', gap 80, alts [lit ''remote'', lit ''external'', lit ''url'',
       lit ''endpoint'', lit ''server'']]),
     (''secret_environment_exfil'', True, seqs [alts [lit ''token'', lit ''secret'', seqs [lit
       ''credential'', opt (lit ''s'')], lit ''api key''], lit '' in '', opt (lit ''the ''), lit
       ''environment variable'', opt (lit ''s''), lit '' '', gap 80, alts [lit ''paste'', lit
       ''send'', lit ''upload'', lit ''share'']]),
     (''rule_override_above'', True, seqs [lit ''override '', alts [lit ''every'', lit ''all'', lit
       ''the''], lit '' '', alts [seqs [lit ''rule'', opt (lit ''s'')], seqs [lit ''instruction'',
       opt (lit ''s'')]], lit '' '', opt (alts [lit ''written '', lit ''listed '', lit
       ''stated '']), lit ''above'']),
     (''set_aside_prior'', True, seqs [lit ''set aside '', opt (alts [lit ''any '', lit ''all '']),
       alts [lit ''prior'', lit ''earlier'', lit ''previous''], lit '' '', alts [lit ''guidance'',
       lit ''instructions'', lit ''directions'']]),
     (''revoke_developer'', True, seqs [alts [lit ''system'', lit ''developer''], lit '' '', alts
       [seqs [lit ''message'', opt (lit ''s'')], lit ''rules'', lit ''instructions''], lit '' '',
       alts [lit ''no longer apply'', lit ''are obsolete'', lit ''have been revoked'']]),
     (''authority_promotion'', True, seqs [alts [lit ''adopt'', lit ''treat''], lit '' '', gap 75,
       lit '' '', opt (lit ''as the ''), alts [lit ''new developer message'', lit
       ''highest authority'', lit ''higher priority than system'']]),
     (''guardrails_expired'', True, seqs [alts [lit ''previous'', lit ''earlier''], lit '' '', alts
       [lit ''guardrails'', lit ''rules'', lit ''controls''], lit '' '', alts [lit
       ''have been revoked'', lit ''are obsolete'']]),
     (''override_previous_directions'', True, seqs [alts [lit ''disregard'', lit ''override''], lit
       '' '', alts [lit ''earlier'', lit ''previous'', lit ''every''], lit '' '', alts [lit
       ''directions'', lit ''rules'', lit ''controls'']])]"

text \<open>\<open>INJECTION_PATTERNS\<close> after its two extensions.\<close>

definition INJECTION_PATTERNS :: "signature list" where
  "INJECTION_PATTERNS = concat [sigs_classic_instruction_override,
     sigs_prompt_leaking,
     sigs_delimiter_injection,
     sigs_markdown_html_injection,
     sigs_encoding_tricks,
     sigs_multi_language_injection,
     sigs_indirect_injection,
     sigs_unicode_based_attacks,
     sigs_advanced_evasion,
     sigs_authority_spoofing]"

end
