(* ===== verification/Utf8.thy ===== *)
theory Utf8
  imports Json
begin

text \<open>Strict UTF-8, as \<open>bytes.decode('utf-8')\<close> reads it, and text that both directions leave as it is.\<close>

definition utf8_strict :: "pybytes \<Rightarrow> pystr option" where
  "utf8_strict b =
    (case utf8_decode b of
       None \<Rightarrow> None
     | Some s \<Rightarrow> if list_ex is_surrogate s then None else Some s)"

lemma utf8_encode_ascii: "list_all (\<lambda>c. c < 128) s \<Longrightarrow> utf8_encode s = Some s"
  by (induction s) (simp_all add: is_surrogate_def utf8_cp_def)

lemma utf8_strict_ascii: "list_all (\<lambda>c. c < 128) s \<Longrightarrow> utf8_strict s = Some s"
proof -
  assume a: "list_all (\<lambda>c. c < 128) s"
  then have "utf8_decode s = Some s" by (induction s) simp_all
  moreover have "\<not> list_ex is_surrogate s"
    using a by (auto simp: list_ex_iff list_all_iff is_surrogate_def dest: bspec)
  ultimately show ?thesis by (simp add: utf8_strict_def)
qed

end
