(* ===== verification/SlidingWindow.thy ===== *)
theory SlidingWindow
  imports Prelude
begin

text \<open>
  \<open>defense10/rate_limiter.py\<close>: the sliding-window limiter per (server, action) and the recipient
  allowlist. A server id is any value that can be a key (\<open>'s\<close>). Times are rationals (the source reads \<open>time.time()\<close>) and come in as arguments. A
  \<open>defaultdict\<close> reads a missing key as the empty queue or set. The text of reasons is a
  constructor each.
\<close>

section \<open>State and operations\<close>

type_synonym 's event_key = "'s \<times> pystr"

record 's sliding_limiter =
  sw_events :: "('s event_key \<times> rat list) list"
  sw_limits :: "('s event_key \<times> (int \<times> rat)) list"

datatype limit_reason =
    NoLimitConfigured | WithinLimit | RateLimitExceeded
  | UnapprovedRecipients "pystr list" | AllRecipientsApproved

record limit_decision =
  ld_allowed :: bool
  ld_reason :: limit_reason
  ld_count :: int
  ld_limit :: int
  ld_window :: rat

definition make_sliding :: "'s sliding_limiter" where
  "make_sliding = \<lparr>sw_events = [], sw_limits = []\<rparr>"

definition sw_set_limit :: "'s \<Rightarrow> pystr \<Rightarrow> int \<Rightarrow> rat \<Rightarrow> 's sliding_limiter \<Rightarrow> 's sliding_limiter" where
  "sw_set_limit server_id action max_count window_seconds l =
     l\<lparr>sw_limits := dset (server_id, action) (max_count, window_seconds) (sw_limits l)\<rparr>"

definition evict_old :: "rat \<Rightarrow> rat \<Rightarrow> rat list \<Rightarrow> rat list" where
  "evict_old now window q = dropWhile (\<lambda>t. now - t > window) q"

definition sw_check :: "'s \<Rightarrow> pystr \<Rightarrow> rat \<Rightarrow> 's sliding_limiter \<Rightarrow> limit_decision \<times> 's sliding_limiter" where
  "sw_check server_id action now l =
    (let key = (server_id, action)
     in case dget (sw_limits l) key of
          None \<Rightarrow>
            (\<lparr>ld_allowed = True, ld_reason = NoLimitConfigured, ld_count = 0, ld_limit = 0,
              ld_window = 0\<rparr>, l)
        | Some (max_count, window) \<Rightarrow>
            (let q = evict_old now window (dget_or (sw_events l) key [] @ [now]);
                 count = int (length q);
                 l' = l\<lparr>sw_events := dset key q (sw_events l)\<rparr>
             in if count > max_count
                then (\<lparr>ld_allowed = False, ld_reason = RateLimitExceeded, ld_count = count,
                       ld_limit = max_count, ld_window = window\<rparr>, l')
                else (\<lparr>ld_allowed = True, ld_reason = WithinLimit, ld_count = count,
                       ld_limit = max_count, ld_window = window\<rparr>, l')))"

text \<open>\<open>check_rate_limit\<close> raises the decision instead of returning it.\<close>

definition check_rate_limit :: "pystr \<Rightarrow> rat \<Rightarrow> pystr sliding_limiter \<Rightarrow>
    (limit_decision + unit) \<times> pystr sliding_limiter" where
  "check_rate_limit key now l =
    (let (server_id, action) = (if 58 \<in> set key then split1 58 key else (key, []));
         (decision, l') = sw_check server_id action now l
     in (if ld_allowed decision then Inr () else Inl decision, l'))"

text \<open>The allowlist: approvals per server, and the held deliveries.\<close>

record 's allowlist =
  wl_approved :: "('s \<times> pystr list) list"
  wl_pending :: "('s \<times> pystr list \<times> rat) list"
  wl_auto_learn :: bool

definition make_allowlist :: "bool \<Rightarrow> 's allowlist" where
  "make_allowlist auto_learn = \<lparr>wl_approved = [], wl_pending = [], wl_auto_learn = auto_learn\<rparr>"

definition add_approved :: "'s \<Rightarrow> pystr list \<Rightarrow> 's allowlist \<Rightarrow> 's allowlist" where
  "add_approved server_id rs w =
     w\<lparr>wl_approved := dset server_id (dget_or (wl_approved w) server_id [] @ rs) (wl_approved w)\<rparr>"

definition wl_approve :: "'s \<Rightarrow> pystr \<Rightarrow> 's allowlist \<Rightarrow> 's allowlist" where
  "wl_approve server_id recipient w = add_approved server_id [py_lower recipient] w"

definition approve_domain :: "'s \<Rightarrow> pystr \<Rightarrow> 's allowlist \<Rightarrow> 's allowlist" where
  "approve_domain server_id domain w =
     add_approved server_id [64 # dropWhile (\<lambda>c. c = 64) (py_lower domain)] w"

definition domain_of :: "pystr \<Rightarrow> pystr" where
  "domain_of rl = (if 64 \<in> set rl then 64 # last (split_on 64 rl) else [])"

definition recipient_ok :: "pystr list \<Rightarrow> pystr \<Rightarrow> bool" where
  "recipient_ok approved r =
    (let rl = py_lower r; domain = domain_of rl
     in rl \<in> set approved \<or> (domain \<noteq> [] \<and> domain \<in> set approved))"

definition wl_check :: "'s \<Rightarrow> pystr list \<Rightarrow> rat \<Rightarrow> 's allowlist \<Rightarrow> limit_decision \<times> 's allowlist" where
  "wl_check server_id recipients now w =
    (let approved = dget_or (wl_approved w) server_id [];
         unknown = filter (\<lambda>r. \<not> recipient_ok approved r) recipients
     in if unknown \<noteq> []
        then (\<lparr>ld_allowed = False, ld_reason = UnapprovedRecipients unknown, ld_count = 0,
               ld_limit = 0, ld_window = 0\<rparr>,
              (let held = w\<lparr>wl_pending := wl_pending w @ [(server_id, unknown, now)]\<rparr>
               in if wl_auto_learn w then add_approved server_id (map py_lower unknown) held
                  else add_approved server_id [] held))
        else (\<lparr>ld_allowed = True, ld_reason = AllRecipientsApproved, ld_count = 0,
               ld_limit = 0, ld_window = 0\<rparr>, add_approved server_id [] w))"

definition pending_approvals :: "'s allowlist \<Rightarrow> ('s \<times> pystr list \<times> rat) list" where
  "pending_approvals w = wl_pending w"

section \<open>The window\<close>

text \<open>A run of checks: \<open>(server, action, time)\<close> each.\<close>

fun sw_run :: "('s event_key \<times> rat) list \<Rightarrow> 's sliding_limiter \<Rightarrow> bool list \<times> 's sliding_limiter" where
  "sw_run [] l = ([], l)"
| "sw_run ((key, now) # es) l =
    (let (decision, l') = sw_check (fst key) (snd key) now l; (bs, l'') = sw_run es l'
     in (ld_allowed decision # bs, l''))"

text \<open>The reference: an event is admitted when, counting itself and refused ones, at most
  \<open>max_count\<close> of the key's events so far are at most \<open>window\<close> old.\<close>

definition recent :: "'s event_key \<Rightarrow> rat \<Rightarrow> rat \<Rightarrow> ('s event_key \<times> rat) list \<Rightarrow> rat list" where
  "recent key window now past =
     filter (\<lambda>t. now - t \<le> window) (map snd (filter (\<lambda>(k, t). k = key) past))"

definition admits :: "('s event_key \<times> (int \<times> rat)) list \<Rightarrow> ('s event_key \<times> rat) list \<Rightarrow> ('s event_key \<times> rat) \<Rightarrow> bool" where
  "admits limits past e =
    (case dget limits (fst e) of
       None \<Rightarrow> True
     | Some (max_count, window) \<Rightarrow>
         int (length (recent (fst e) window (snd e) (past @ [e]))) \<le> max_count)"

definition events_for :: "'s event_key \<Rightarrow> ('s event_key \<times> rat) list \<Rightarrow> rat list" where
  "events_for key es = map snd (filter (\<lambda>(k, t). k = key) es)"

lemma recent_events: "recent key w now past = filter (\<lambda>t. now - t \<le> w) (events_for key past)"
  by (simp add: recent_def events_for_def)

lemma events_for_append: "events_for key (a @ b) = events_for key a @ events_for key b"
  by (simp add: events_for_def)

text \<open>On times that do not decrease, dropping old events from the front drops all of them.\<close>

lemma evict_sorted:
  "sorted q \<Longrightarrow> evict_old now w q = filter (\<lambda>t. now - t \<le> w) q"
proof (induction q)
  case (Cons t q)
  show ?case
  proof (cases "now - t > w")
    case True
    with Cons show ?thesis by (simp add: evict_old_def)
  next
    case False
    with Cons.prems have "\<forall>x \<in> set q. now - x \<le> w" by fastforce
    with False show ?thesis by (simp add: evict_old_def)
  qed
qed (simp add: evict_old_def)

text \<open>What the queue of a limited key holds after \<open>past\<close>: at least the events in the window of
  any later time, in order, and nothing else.\<close>

definition window_inv :: "('s event_key \<times> rat) list \<Rightarrow> 's sliding_limiter \<Rightarrow> bool" where
  "window_inv past l \<longleftrightarrow>
     (\<forall>key n w. dget (sw_limits l) key = Some (n, w) \<longrightarrow>
        (\<exists>dropped. events_for key past = dropped @ dget_or (sw_events l) key [] \<and>
           (\<forall>t \<in> set dropped. \<exists>now. now - t > w \<and> (\<exists>k. (k, now) \<in> set past))))"

lemma window_inv_start: "sw_events l = [] \<Longrightarrow> window_inv [] l"
  by (simp add: window_inv_def events_for_def dget_or_def)

lemma sorted_events: "sorted (map snd es) \<Longrightarrow> sorted (events_for key es)"
  unfolding events_for_def using sorted_filter [of snd es "\<lambda>(k, t). k = key"] by simp

lemma sw_check_step:
  assumes inv: "window_inv past l" and srt: "sorted (map snd (past @ [(key, now)]))"
  shows "ld_allowed (fst (sw_check (fst key) (snd key) now l)) = admits (sw_limits l) past (key, now)"
    and "window_inv (past @ [(key, now)]) (snd (sw_check (fst key) (snd key) now l))"
    and "sw_limits (snd (sw_check (fst key) (snd key) now l)) = sw_limits l"
proof -
  let ?l' = "snd (sw_check (fst key) (snd key) now l)"
  have old: "\<exists>dropped. events_for k past = dropped @ dget_or (sw_events l) k [] \<and>
      (\<forall>t \<in> set dropped. \<exists>now. now - t > w \<and> (\<exists>k. (k, now) \<in> set past))"
    if "dget (sw_limits l) k = Some (n, w)" for k n w
    using inv that unfolding window_inv_def by blast
  show "sw_limits ?l' = sw_limits l"
    by (auto simp: sw_check_def Let_def split: option.splits)
  have "ld_allowed (fst (sw_check (fst key) (snd key) now l)) = admits (sw_limits l) past (key, now) \<and>
    window_inv (past @ [(key, now)]) ?l'"
  proof (cases "dget (sw_limits l) key")
    case None
    then have l': "?l' = l" by (simp add: sw_check_def)
    have "events_for k (past @ [(key, now)]) = events_for k past"
      if "dget (sw_limits l) k = Some (n, w)" for k n w
      using None that by (auto simp: events_for_def)
    then have "window_inv (past @ [(key, now)]) l"
      using old unfolding window_inv_def by (metis UnCI set_append)
    with l' None show ?thesis by (simp add: sw_check_def admits_def)
  next
    case (Some lim)
    obtain n w where lim: "lim = (n, w)" by (cases lim)
    obtain dropped where d: "events_for key past = dropped @ dget_or (sw_events l) key []"
      and dr: "\<forall>t \<in> set dropped. \<exists>x. x - t > w \<and> (\<exists>k. (k, x) \<in> set past)"
      using old Some lim by blast
    let ?queue = "dget_or (sw_events l) key [] @ [now]"
    have ev: "events_for key (past @ [(key, now)]) = dropped @ ?queue"
      by (simp add: events_for_append d) (simp add: events_for_def)
    have srt_q: "sorted ?queue"
      using sorted_events [OF srt, of key] ev by (simp add: sorted_append)
    have dropped_old: "filter (\<lambda>t. now - t \<le> w) dropped = []"
    proof -
      have "now - t > w" if "t \<in> set dropped" for t
      proof -
        from dr that obtain x k where x: "x - t > w" "(k, x) \<in> set past" by blast
        with srt have "x \<le> now" by (auto simp: sorted_append)
        with x show ?thesis by linarith
      qed
      then show ?thesis by (fastforce simp: filter_empty_conv)
    qed
    let ?kept = "evict_old now w ?queue"
    have q: "?kept = recent key w now (past @ [(key, now)])"
      unfolding recent_events ev evict_sorted [OF srt_q] by (simp add: dropped_old)
    have l': "sw_events ?l' = dset key ?kept (sw_events l)" and lims: "sw_limits ?l' = sw_limits l"
      using Some lim by (simp_all add: sw_check_def Let_def)
    have "window_inv (past @ [(key, now)]) ?l'"
      unfolding window_inv_def
    proof (intro allI impI)
      fix k n' w'
      assume k: "dget (sw_limits ?l') k = Some (n', w')"
      show "\<exists>dropped. events_for k (past @ [(key, now)]) = dropped @ dget_or (sw_events ?l') k [] \<and>
          (\<forall>t \<in> set dropped. \<exists>x. x - t > w' \<and> (\<exists>k'. (k', x) \<in> set (past @ [(key, now)])))"
      proof (cases "k = key")
        case True
        with k lims Some lim have w': "w' = w" by simp
        let ?p = "takeWhile (\<lambda>t. now - t > w) ?queue"
        have "?queue = ?p @ ?kept"          by (simp only: evict_old_def takeWhile_dropWhile_id)
        then have "events_for k (past @ [(key, now)]) = (dropped @ ?p) @ dget_or (sw_events ?l') k []"
          using True ev by (simp add: l' dget_or_def)
        moreover have "\<exists>x. x - t > w' \<and> (\<exists>k'. (k', x) \<in> set (past @ [(key, now)]))"
          if t: "t \<in> set (dropped @ ?p)" for t
        proof (cases "t \<in> set dropped")
          case True
          with dr w' obtain x k' where "x - t > w'" "(k', x) \<in> set past" by blast
          then show ?thesis by (intro exI [of _ x] conjI exI [of _ k']) auto
        next
          case False
          with t have "now - t > w" using set_takeWhileD [of t "\<lambda>t. now - t > w" ?queue] by auto
          with w' show ?thesis by (intro exI [of _ now] conjI exI [of _ key]) auto
        qed
        ultimately show ?thesis by blast
      next
        case False
        with k lims old obtain dr' where "events_for k past = dr' @ dget_or (sw_events l) k []"
          and dr': "\<forall>t \<in> set dr'. \<exists>x. x - t > w' \<and> (\<exists>k'. (k', x) \<in> set past)" by metis
        moreover have "\<forall>t \<in> set dr'. \<exists>x. x - t > w' \<and> (\<exists>k'. (k', x) \<in> set (past @ [(key, now)]))"
          using dr' by (metis UnCI set_append)
        moreover have "dget_or (sw_events ?l') k [] = dget_or (sw_events l) k []"
          using False by (simp add: l' dget_or_def)
        moreover have "events_for k (past @ [(key, now)]) = events_for k past"
          using False by (simp add: events_for_def)
        ultimately show ?thesis by (intro exI [of _ dr']) simp
      qed
    qed
    moreover have "ld_allowed (fst (sw_check (fst key) (snd key) now l)) = admits (sw_limits l) past (key, now)"
      using Some lim q by (simp add: sw_check_def Let_def admits_def not_less)
    ultimately show ?thesis by simp
  qed
  then show "ld_allowed (fst (sw_check (fst key) (snd key) now l)) = admits (sw_limits l) past (key, now)"
    and "window_inv (past @ [(key, now)]) ?l'" by simp_all
qed

lemma sw_run_Cons:
  "fst (sw_run (e # es) l) =
     ld_allowed (fst (sw_check (fst (fst e)) (snd (fst e)) (snd e) l)) #
       fst (sw_run es (snd (sw_check (fst (fst e)) (snd (fst e)) (snd e) l)))"
  by (cases e) (simp add: case_prod_unfold Let_def)

lemma sw_run_admits:
  "window_inv past l \<Longrightarrow> sorted (map snd (past @ es)) \<Longrightarrow> i < length es \<Longrightarrow>
     fst (sw_run es l) ! i = admits (sw_limits l) (past @ take i es) (es ! i)"
proof (induction es arbitrary: past l i)
  case (Cons e es)
  have e: "e = (fst e, snd e)" by simp
  from Cons.prems(2) have srt: "sorted (map snd (past @ [(fst e, snd e)]))"
    by (auto simp: sorted_append)
  note step = sw_check_step [OF Cons.prems(1) srt]
  show ?case
  proof (cases i)
    case 0
    with step(1) show ?thesis unfolding sw_run_Cons by simp
  next
    case (Suc j)
    have "sorted (map snd ((past @ [(fst e, snd e)]) @ es))" using Cons.prems(2) by simp
    from Cons.IH [OF step(2) this, of j] Suc Cons.prems(3) step(3) show ?thesis
      unfolding sw_run_Cons by simp
  qed
qed simp

lemma length_sw_run: "length (fst (sw_run es l)) = length es"
  by (induction es arbitrary: l) (simp_all add: sw_run_Cons)

lemma length_recent:
  "length (recent key w now past) = card {j. j < length past \<and> fst (past ! j) = key \<and> now - snd (past ! j) \<le> w}"
proof -
  have "recent key w now past = map snd (filter (\<lambda>e. fst e = key \<and> now - snd e \<le> w) past)"
    by (induction past) (auto simp: recent_def)
  then show ?thesis by (simp add: length_filter_conv_card)
qed

text \<open>
  C31: The limiter decides every call exactly as the sliding window says. From an empty limiter
  and on times that do not go back, the \<open>i\<close>-th call is admitted exactly when its key has no
  limit, or at most \<open>max_count\<close> calls of the key, itself and refused ones included, are at most
  \<open>window\<close> old. The queue that is pruned only when its own key is called never changes a decision.
\<close>

theorem sliding_window_exact:
  assumes "sw_events l = []" "sorted (map snd es)" "i < length es"
  shows "fst (sw_run es l) ! i = admits (sw_limits l) (take i es) (es ! i)"
  using sw_run_admits [OF window_inv_start [OF assms(1)], of es i] assms(2,3) by simp

lemma sliding_window_exact_witness:
  "fst (sw_run [((u ''s'', u ''send''), 0), ((u ''s'', u ''send''), 1), ((u ''s'', u ''send''), 5)]
      (sw_set_limit (u ''s'') (u ''send'') 1 3 make_sliding)) ! 2 =
    admits (sw_limits (sw_set_limit (u ''s'') (u ''send'') 1 3 make_sliding))
      (take 2 [((u ''s'', u ''send''), 0), ((u ''s'', u ''send''), 1), ((u ''s'', u ''send''), 5)])
      ([((u ''s'', u ''send''), 0), ((u ''s'', u ''send''), 1), ((u ''s'', u ''send''), 5)] ! 2)"
  by (rule sliding_window_exact) (simp_all add: sw_set_limit_def make_sliding_def)

lemma window_bound:
  assumes "sw_events l = []" "sorted (map snd es)" "dget (sw_limits l) key = Some (n, w)"
  shows "int (card {i. i < length es \<and> fst (es ! i) = key \<and> t0 \<le> snd (es ! i) \<and>
      snd (es ! i) \<le> t0 + w \<and> fst (sw_run es l) ! i}) \<le> max 0 n"
proof -
  let ?S = "{i. i < length es \<and> fst (es ! i) = key \<and> t0 \<le> snd (es ! i) \<and>
      snd (es ! i) \<le> t0 + w \<and> fst (sw_run es l) ! i}"
  have fin: "finite ?S" by simp
  show ?thesis
  proof (cases "?S = {}")
    case True
    then have "card ?S = 0" by (simp only: card.empty)
    then show ?thesis by linarith
  next
    case False
    define m where "m = Max ?S"
    have m: "m \<in> ?S" using Max_in [OF fin False] m_def by simp
    have le: "j \<le> m" if "j \<in> ?S" for j using Max_ge [OF fin that] m_def by simp
    from m have mlen: "m < length es" by simp
    let ?past = "take m es @ [es ! m]"
    have past: "?past = take (Suc m) es" using mlen by (simp add: take_Suc_conv_app_nth)
    have "admits (sw_limits l) (take m es) (es ! m)"
      using sw_run_admits [OF window_inv_start [OF assms(1)], of es m] assms(2) m by simp
    then have cnt: "int (length (recent key w (snd (es ! m)) ?past)) \<le> n"
      using assms(3) m by (simp add: admits_def)
    have "?S \<subseteq> {j. j < length ?past \<and> fst (?past ! j) = key \<and> snd (es ! m) - snd (?past ! j) \<le> w}"
    proof
      fix j assume j: "j \<in> ?S"
      with le have "j \<le> m" by blast
      then have "?past ! j = es ! j" "j < length ?past"
        using mlen unfolding past by simp_all
      with j m show "j \<in> {j. j < length ?past \<and> fst (?past ! j) = key \<and> snd (es ! m) - snd (?past ! j) \<le> w}"
        by auto
    qed
    then have "card ?S \<le> length (recent key w (snd (es ! m)) ?past)"
      unfolding length_recent by (rule card_mono [rotated]) simp
    with cnt show ?thesis by linarith
  qed
qed

text \<open>
  The blast radius is bounded: in any period no longer than the window, at most \<open>max_count\<close>
  calls of a limited key are admitted, whatever else is called in between.
\<close>

theorem sliding_window_bound:
  assumes "sw_events l = []" "sorted (map snd es)" "dget (sw_limits l) key = Some (n, w)"
  shows "int (card {i. i < length es \<and> fst (es ! i) = key \<and> t0 \<le> snd (es ! i) \<and>
      snd (es ! i) \<le> t0 + w \<and> fst (sw_run es l) ! i}) \<le> max 0 n"
  using assms by (rule window_bound)

lemma sliding_window_bound_witness:
  "int (card {i. i < length [((u ''s'', u ''send''), 0 :: rat), ((u ''s'', u ''send''), 1)] \<and>
      fst ([((u ''s'', u ''send''), 0 :: rat), ((u ''s'', u ''send''), 1)] ! i) = (u ''s'', u ''send'') \<and>
      0 \<le> snd ([((u ''s'', u ''send''), 0 :: rat), ((u ''s'', u ''send''), 1)] ! i) \<and>
      snd ([((u ''s'', u ''send''), 0 :: rat), ((u ''s'', u ''send''), 1)] ! i) \<le> 0 + 3 \<and>
      fst (sw_run [((u ''s'', u ''send''), 0 :: rat), ((u ''s'', u ''send''), 1)]
        (sw_set_limit (u ''s'') (u ''send'') 1 3 make_sliding)) ! i}) \<le> max 0 1"
  by (rule sliding_window_bound) (simp_all add: sw_set_limit_def make_sliding_def)

text \<open>The admitted events of a run, as a list.\<close>

definition admitted :: "('s event_key \<times> rat) list \<Rightarrow> 's sliding_limiter \<Rightarrow> ('s event_key \<times> rat) list" where
  "admitted es l = map fst (filter snd (zip es (fst (sw_run es l))))"

lemma admitted_Nil [simp]: "admitted [] l = []"
  by (simp add: admitted_def)

lemma admitted_Cons:
  "admitted (((s, a), t) # es) l =
     (if ld_allowed (fst (sw_check s a t l)) then [((s, a), t)] else []) @
     admitted es (snd (sw_check s a t l))"
  unfolding admitted_def sw_run_Cons by simp

lemma admitted_bound:
  assumes "sw_events l = []" "sorted (map snd es)" "dget (sw_limits l) key = Some (n, w)"
  shows "int (length (filter (\<lambda>(k, t). k = key \<and> t0 \<le> t \<and> t \<le> t0 + w) (admitted es l))) \<le> max 0 n"
proof -
  let ?bs = "fst (sw_run es l)"
  let ?P = "\<lambda>e. fst e = key \<and> t0 \<le> snd e \<and> snd e \<le> t0 + w"
  have len: "length ?bs = length es" by (rule length_sw_run)
  have "filter ?P (admitted es l) = map fst (filter (\<lambda>z. ?P (fst z) \<and> snd z) (zip es ?bs))"
    by (simp add: admitted_def filter_map comp_def conj_commute)
  then have "length (filter ?P (admitted es l)) =
      card {i. i < length (zip es ?bs) \<and> ?P (fst (zip es ?bs ! i)) \<and> snd (zip es ?bs ! i)}"
    by (simp only: length_map length_filter_conv_card)
  also have "{i. i < length (zip es ?bs) \<and> ?P (fst (zip es ?bs ! i)) \<and> snd (zip es ?bs ! i)} =
      {i. i < length es \<and> fst (es ! i) = key \<and> t0 \<le> snd (es ! i) \<and> snd (es ! i) \<le> t0 + w \<and> ?bs ! i}"
    using len by (intro Collect_cong) auto
  finally show ?thesis
    using window_bound [OF assms, of t0] by (simp add: case_prod_unfold)
qed

section \<open>The allowlist\<close>

text \<open>The reference: the addresses and domains a history of approvals grants a server.\<close>

datatype 's approval = Address 's pystr | Domain 's pystr

fun apply_approval :: "'s approval \<Rightarrow> 's allowlist \<Rightarrow> 's allowlist" where
  "apply_approval (Address s r) w = wl_approve s r w"
| "apply_approval (Domain s d) w = approve_domain s d w"

definition granted :: "'s approval list \<Rightarrow> 's \<Rightarrow> pystr \<Rightarrow> bool" where
  "granted hist s r \<longleftrightarrow>
     (\<exists>a. Address s a \<in> set hist \<and> (py_lower a = py_lower r \<or>
        64 \<in> set (py_lower r) \<and> py_lower a = domain_of (py_lower r))) \<or>
     (\<exists>d. Domain s d \<in> set hist \<and> (64 # dropWhile (\<lambda>c. c = 64) (py_lower d) = py_lower r \<or>
        64 \<in> set (py_lower r) \<and> 64 # dropWhile (\<lambda>c. c = 64) (py_lower d) = domain_of (py_lower r)))"

definition approved_set :: "'s allowlist \<Rightarrow> 's \<Rightarrow> pystr set" where
  "approved_set w s = set (dget_or (wl_approved w) s [])"

lemma approved_add:
  "approved_set (add_approved s rs w) s' = approved_set w s' \<union> (if s' = s then set rs else {})"
  by (auto simp: approved_set_def add_approved_def dget_or_def)

lemma approved_history:
  "approved_set (fold apply_approval hist w) s = approved_set w s \<union>
     {py_lower a | a. Address s a \<in> set hist} \<union>
     {64 # dropWhile (\<lambda>c. c = 64) (py_lower d) | d. Domain s d \<in> set hist}"
proof (induction hist arbitrary: w)
  case (Cons a hist)
  show ?case
    by (cases a) (auto simp: Cons.IH wl_approve_def approve_domain_def approved_add)
qed auto

lemma recipient_ok_iff:
  "recipient_ok approved r \<longleftrightarrow> py_lower r \<in> set approved \<or>
     (64 \<in> set (py_lower r) \<and> domain_of (py_lower r) \<in> set approved)"
  by (simp add: recipient_ok_def domain_of_def Let_def)

lemma wl_check_allowed:
  "ld_allowed (fst (wl_check s rs now w)) \<longleftrightarrow>
     (\<forall>r \<in> set rs. recipient_ok (dget_or (wl_approved w) s []) r)"
  by (auto simp: wl_check_def Let_def filter_empty_conv)

text \<open>Checking changes no server's approvals unless the list learns.\<close>

lemma wl_check_approved:
  "\<not> wl_auto_learn w \<Longrightarrow> approved_set (snd (wl_check s rs now w)) s' = approved_set w s'"
  by (auto simp: wl_check_def Let_def approved_add) (auto simp: approved_set_def)

text \<open>
  Only approved recipients pass. After any history of approvals, a delivery is allowed exactly
  when every recipient was granted to that server, by address or by the part after its last \<open>@\<close>,
  whatever the case; otherwise all the recipients that were not, and only they, are held under
  that server.
\<close>

theorem whitelist_allows_iff:
  "let w = fold apply_approval hist (make_allowlist auto_learn);
       (decision, w') = wl_check s rs now w
   in (ld_allowed decision = (\<forall>r \<in> set rs. granted hist s r)) \<and>
      pending_approvals w' = pending_approvals w @
        (if ld_allowed decision then [] else [(s, filter (\<lambda>r. \<not> granted hist s r) rs, now)])"
proof -
  let ?w = "fold apply_approval hist (make_allowlist auto_learn)"
  have "approved_set ?w s = {py_lower a | a. Address s a \<in> set hist} \<union>
     {64 # dropWhile (\<lambda>c. c = 64) (py_lower d) | d. Domain s d \<in> set hist}"
    by (simp add: approved_history) (simp add: approved_set_def make_allowlist_def dget_or_def)
  then have ok: "recipient_ok (dget_or (wl_approved ?w) s []) r = granted hist s r" for r
    unfolding recipient_ok_iff granted_def approved_set_def by auto
  have "ld_allowed (fst (wl_check s rs now ?w)) = (\<forall>r \<in> set rs. granted hist s r)"
    unfolding wl_check_allowed ok ..
  moreover have "wl_pending (snd (wl_check s rs now ?w)) = wl_pending ?w @
      (if ld_allowed (fst (wl_check s rs now ?w)) then [] else [(s, filter (\<lambda>r. \<not> granted hist s r) rs, now)])"
    by (simp add: wl_check_def Let_def ok add_approved_def)
  ultimately show ?thesis by (simp add: case_prod_unfold Let_def pending_approvals_def)
qed

lemma whitelist_allows_iff_witness:
  "let w = fold apply_approval [Domain (u ''postmark'') (u ''Company.com'')] (make_allowlist False);
       (decision, w') = wl_check (u ''postmark'') [u ''a@company.com'', u ''phan@giftshop.club''] 0 w
   in (ld_allowed decision = (\<forall>r \<in> set [u ''a@company.com'', u ''phan@giftshop.club''].
         granted [Domain (u ''postmark'') (u ''Company.com'')] (u ''postmark'') r)) \<and>
      pending_approvals w' = pending_approvals w @
        (if ld_allowed decision then [] else [(u ''postmark'',
          filter (\<lambda>r. \<not> granted [Domain (u ''postmark'') (u ''Company.com'')] (u ''postmark'') r)
            [u ''a@company.com'', u ''phan@giftshop.club''], 0)])"
  by (rule whitelist_allows_iff)

end
