(* ===== verification/EgressInspector.thy ===== *)
theory EgressInspector
  imports PyRegex JsonDump
begin

text \<open>
  \<open>defense10/egress_proxy.py\<close>: the registry of what each tool call authorised, and the comparison
  of an outbound payload with it. Payloads are strings or JSON values, which the source prints
  with \<open>json.dumps\<close>; \<open>float.__repr__\<close> is the parameter \<open>fr\<close> of the printer. A set of addresses is
  a HOL set; \<open>sorted\<close> of it is \<open>sorted_list_of_set\<close>, on code points. The mitmproxy add-on is not
  modelled: it only calls \<open>inspect\<close>.
\<close>

section \<open>Addresses\<close>

definition EMAIL_RE :: rx where
  "EMAIL_RE = seqs [
     plus1 (Cls False [Rg 97 122, Rg 65 90, Rg 48 57, Rg 46 46, Rg 95 95, Rg 37 37, Rg 43 43, Rg 45 45]),
     lit ''@'',
     plus1 (Cls False [Rg 97 122, Rg 65 90, Rg 48 57, Rg 46 46, Rg 45 45]),
     lit ''.'',
     least 2 (Cls False [Rg 97 122, Rg 65 90])]"

definition find_emails :: "pystr \<Rightarrow> pystr list" where
  "find_emails text = rx_findall \<lparr>rx_ic = False, rx_word = (\<lambda>c. False)\<rparr> EMAIL_RE text"

definition emails_in :: "pystr \<Rightarrow> pystr set" where
  "emails_in text = py_lower ` set (find_emails text)"

section \<open>Intents\<close>

record intent =
  in_recipients :: "pystr set"
  in_tool :: pyval
  in_ts :: rat

record registry =
  ir_intents :: "(pystr \<times> intent) list"
  ir_max_age :: rat
  ir_max_entries :: int

definition make_registry :: "rat \<Rightarrow> int \<Rightarrow> registry" where
  "make_registry max_age max_entries =
     \<lparr>ir_intents = [], ir_max_age = max_age, ir_max_entries = max_entries\<rparr>"

definition AUTHORITY_KEYS :: "pystr list" where
  "AUTHORITY_KEYS = [u ''to'', u ''recipient'', u ''recipients'', u ''cc'']"

fun authorized_in :: "pyval option \<Rightarrow> pystr set" where
  "authorized_in (Some (PStr val)) = emails_in val"
| "authorized_in (Some (PList items)) =
     (\<Union>item \<in> set items. case item of PStr s \<Rightarrow> emails_in s | _ \<Rightarrow> {})"
| "authorized_in _ = {}"

definition extract_authorized_recipients :: "pydict \<Rightarrow> pystr set" where
  "extract_authorized_recipients args = (\<Union>key \<in> set AUTHORITY_KEYS. authorized_in (dget args key))"

definition without_keys :: "pystr list \<Rightarrow> (pystr \<times> 'v) list \<Rightarrow> (pystr \<times> 'v) list" where
  "without_keys ks d = filter (\<lambda>(k, v). k \<notin> set ks) d"

definition oldest_keys :: "(pystr \<times> intent) list \<Rightarrow> pystr list" where
  "oldest_keys d = map fst (sort_key (\<lambda>(k, v). in_ts v) d)"

definition evict_overflow :: "int \<Rightarrow> (pystr \<times> intent) list \<Rightarrow> (pystr \<times> intent) list" where
  "evict_overflow max_entries d =
    (if int (length d) > max_entries
     then without_keys (take (length d div 2) (oldest_keys d)) d else d)"

definition drop_expired :: "rat \<Rightarrow> rat \<Rightarrow> (pystr \<times> intent) list \<Rightarrow> (pystr \<times> intent) list" where
  "drop_expired now max_age d =
     without_keys (map fst (filter (\<lambda>(k, v). now - in_ts v > max_age) d)) d"

definition evict_stale :: "rat \<Rightarrow> registry \<Rightarrow> registry" where
  "evict_stale now r =
     r\<lparr>ir_intents := drop_expired now (ir_max_age r) (evict_overflow (ir_max_entries r) (ir_intents r))\<rparr>"

text \<open>\<open>args.get\<close> on arguments that are not an object raises \<open>AttributeError\<close> (\<open>False\<close>), after the
  eviction. The clock is read once in the eviction and once for the record.\<close>

definition record_intent :: "pystr \<Rightarrow> pydict \<Rightarrow> rat \<Rightarrow> rat \<Rightarrow> registry \<Rightarrow> bool \<times> registry" where
  "record_intent cid tool_call now ts r =
    (let r1 = evict_stale now r
     in case dget_or tool_call (u ''arguments'') (PDict []) of
          PDict args \<Rightarrow>
            (True, r1\<lparr>ir_intents := dset cid
               \<lparr>in_recipients = extract_authorized_recipients args,
                in_tool = dget_or tool_call (u ''name'') (PStr []), in_ts = ts\<rparr> (ir_intents r1)\<rparr>)
        | _ \<Rightarrow> (False, r1))"

definition get_intent :: "pystr \<Rightarrow> rat \<Rightarrow> registry \<Rightarrow> intent option \<times> registry" where
  "get_intent cid now r =
    (case dget (ir_intents r) cid of
       None \<Rightarrow> (None, r)
     | Some rec \<Rightarrow>
         if now - in_ts rec > ir_max_age r
         then (None, r\<lparr>ir_intents := dpop cid (ir_intents r)\<rparr>) else (Some rec, r))"

section \<open>Inspection\<close>

record egress_verdict =
  ev_allowed :: bool
  ev_authorized :: "pystr list"
  ev_actual :: "pystr list"
  ev_unauthorized :: "pystr list"
  ev_severity :: int

record inspector =
  ei_registry :: registry
  ei_verdicts :: "egress_verdict list"

definition payload_text :: "(rat \<Rightarrow> pystr) \<Rightarrow> pyval \<Rightarrow> pystr" where
  "payload_text fr payload =
    (case payload of PStr s \<Rightarrow> s | _ \<Rightarrow> dumps fr default_style payload)"

definition extract_all_emails :: "(rat \<Rightarrow> pystr) \<Rightarrow> pyval \<Rightarrow> pystr set" where
  "extract_all_emails fr payload = emails_in (payload_text fr payload)"

definition inspect_egress_payload :: "(rat \<Rightarrow> pystr) \<Rightarrow> pystr \<Rightarrow> pyval \<Rightarrow> rat \<Rightarrow> inspector \<Rightarrow>
    egress_verdict \<times> inspector" where
  "inspect_egress_payload fr cid actual_payload now ei =
    (let (found, r) = get_intent cid now (ei_registry ei);
         authorized = (case found of None \<Rightarrow> {} | Some it \<Rightarrow> in_recipients it);
         actual = extract_all_emails fr actual_payload;
         unauthorized = sorted_list_of_set (actual - authorized);
         verdict = \<lparr>ev_allowed = (unauthorized = []),
            ev_authorized = sorted_list_of_set authorized,
            ev_actual = sorted_list_of_set actual, ev_unauthorized = unauthorized,
            ev_severity = (if unauthorized = [] then 0 else 98)\<rparr>
     in (verdict, ei\<lparr>ei_registry := r, ei_verdicts := ei_verdicts ei @ [verdict]\<rparr>))"

section \<open>What the registry holds\<close>

lemma dget_without_keys: "dget (without_keys ks d) k = (if k \<in> set ks then None else dget d k)"
proof (induction d)
  case (Cons e d)
  then show ?case by (cases e) (auto simp: without_keys_def)
qed (simp add: without_keys_def)

lemma keys_without: "fst ` set (without_keys ks d) \<subseteq> fst ` set d"
  by (auto simp: without_keys_def)

lemma distinct_without: "distinct (map fst d) \<Longrightarrow> distinct (map fst (without_keys ks d))"
  by (induction d) (auto simp: without_keys_def)

lemma length_without_le: "length (without_keys ks d) \<le> length d"
  by (simp add: without_keys_def)

lemma length_without:
  assumes "distinct (map fst d)" "set ks \<subseteq> fst ` set d" "distinct ks"
  shows "length (without_keys ks d) = length d - length ks"
proof -
  have "length (without_keys ks d) = card (set (map fst (without_keys ks d)))"
    using distinct_card [OF distinct_without [OF assms(1)], of ks] by simp
  also have "set (map fst (without_keys ks d)) = fst ` set d - set ks"
    by (force simp: without_keys_def)
  also have "card \<dots> = card (fst ` set d) - card (set ks)"
    using assms(2) by (simp add: card_Diff_subset)
  also have "\<dots> = length d - length ks"
    using distinct_card [OF assms(1)] distinct_card [OF assms(3)] by simp
  finally show ?thesis .
qed

lemma oldest_keys_perm: "set (oldest_keys d) = fst ` set d"
  "distinct (map fst d) \<Longrightarrow> distinct (oldest_keys d)" "length (oldest_keys d) = length d"
proof -
  show "set (oldest_keys d) = fst ` set d" by (simp add: oldest_keys_def)
  show "length (oldest_keys d) = length d" by (simp add: oldest_keys_def)
  assume d: "distinct (map fst d)"
  then have "distinct (sort_key (\<lambda>(k, v). in_ts v) d)" "inj_on fst (set d)"
    by (simp_all add: distinct_map)
  then show "distinct (oldest_keys d)" by (simp add: oldest_keys_def distinct_map)
qed

definition registry_ok :: "registry \<Rightarrow> bool" where
  "registry_ok r \<longleftrightarrow> distinct (map fst (ir_intents r)) \<and>
     int (length (ir_intents r)) \<le> ir_max_entries r + 1"

lemma evict_stale_params [simp]:
  "ir_max_age (evict_stale now r) = ir_max_age r"
  "ir_max_entries (evict_stale now r) = ir_max_entries r"
  by (simp_all add: evict_stale_def)

lemma evict_stale_dget:
  "dget (ir_intents (evict_stale now r)) cid = Some it \<Longrightarrow> dget (ir_intents r) cid = Some it"
  by (auto simp: evict_stale_def drop_expired_def evict_overflow_def dget_without_keys
      split: if_splits)

lemma evict_stale_distinct:
  "distinct (map fst (ir_intents r)) \<Longrightarrow> distinct (map fst (ir_intents (evict_stale now r)))"
  by (simp add: evict_stale_def drop_expired_def evict_overflow_def distinct_without)

lemma evict_overflow_length:
  assumes "distinct (map fst d)" "int (length d) \<le> n + 1" "1 \<le> n"
  shows "int (length (evict_overflow n d)) \<le> n"
proof (cases "int (length d) > n")
  case True
  let ?ks = "take (length d div 2) (oldest_keys d)"
  have "set ?ks \<subseteq> fst ` set d" by (metis oldest_keys_perm(1) set_take_subset)
  then have "length (without_keys ?ks d) = length d - length d div 2"
    using length_without [OF assms(1), of ?ks] oldest_keys_perm(2) [OF assms(1)]
    by (simp add: oldest_keys_perm(3))
  moreover have "1 \<le> length d div 2" using True assms(3) by linarith
  ultimately have "int (length (without_keys ?ks d)) \<le> int (length d) - 1" by linarith
  with True assms(2) show ?thesis by (simp add: evict_overflow_def)
qed (simp add: evict_overflow_def)

lemma evict_stale_length:
  assumes "registry_ok r" "1 \<le> ir_max_entries r"
  shows "int (length (ir_intents (evict_stale now r))) \<le> ir_max_entries r"
proof -
  have "int (length (evict_overflow (ir_max_entries r) (ir_intents r))) \<le> ir_max_entries r"
    using assms by (intro evict_overflow_length) (simp_all add: registry_ok_def)
  then show ?thesis
    unfolding evict_stale_def drop_expired_def
    by (simp add: order_trans [OF of_nat_mono [OF length_without_le]])
qed

lemma length_dset_le: "length (dset k v d) \<le> Suc (length d)"
  by (induction k v d rule: dset.induct) auto

lemma record_intent_ok:
  assumes "registry_ok r" "1 \<le> ir_max_entries r"
  shows "registry_ok (snd (record_intent cid call now ts r))"
proof -
  have e: "distinct (map fst (ir_intents (evict_stale now r)))"
    "int (length (ir_intents (evict_stale now r))) \<le> ir_max_entries r"
    using assms evict_stale_distinct evict_stale_length by (auto simp: registry_ok_def)
  have "int (length (dset cid v (ir_intents (evict_stale now r)))) \<le> ir_max_entries r + 1" for v
    using length_dset_le [of cid v "ir_intents (evict_stale now r)"] e(2) by linarith
  with e show ?thesis
    by (auto simp: record_intent_def registry_ok_def Let_def distinct_dset split: pyval.splits)
qed

lemma get_intent_ok: "registry_ok r \<Longrightarrow> registry_ok (snd (get_intent cid now r))"
proof -
  have "length (dpop cid (ir_intents r)) \<le> length (ir_intents r)" by (simp add: dpop_def)
  then show "registry_ok r \<Longrightarrow> ?thesis"
    by (auto simp: get_intent_def registry_ok_def distinct_dpop split: option.splits)
qed

lemma params_stable [simp]:
  "ir_max_age (snd (record_intent cid call now ts r)) = ir_max_age r"
  "ir_max_entries (snd (record_intent cid call now ts r)) = ir_max_entries r"
  "ir_max_age (snd (get_intent cid now r)) = ir_max_age r"
  "ir_max_entries (snd (get_intent cid now r)) = ir_max_entries r"
  by (auto simp: record_intent_def get_intent_def Let_def split: pyval.splits option.splits)

section \<open>Histories\<close>

datatype egress_op = Record pystr pydict rat rat | Inspect pystr pyval rat

fun apply_egress :: "(rat \<Rightarrow> pystr) \<Rightarrow> egress_op \<Rightarrow> inspector \<Rightarrow> inspector" where
  "apply_egress fr (Record cid call now ts) ei =
     ei\<lparr>ei_registry := snd (record_intent cid call now ts (ei_registry ei))\<rparr>"
| "apply_egress fr (Inspect cid payload now) ei = snd (inspect_egress_payload fr cid payload now ei)"

definition make_inspector :: "registry \<Rightarrow> inspector" where
  "make_inspector r = \<lparr>ei_registry = r, ei_verdicts = []\<rparr>"

text \<open>The reference: the last intent that a history recorded under an id.\<close>

fun intent_of :: "egress_op \<Rightarrow> (pystr \<times> intent) option" where
  "intent_of (Record cid call now ts) =
     (case dget_or call (u ''arguments'') (PDict []) of
        PDict args \<Rightarrow> Some (cid, \<lparr>in_recipients = extract_authorized_recipients args,
          in_tool = dget_or call (u ''name'') (PStr []), in_ts = ts\<rparr>)
      | _ \<Rightarrow> None)"
| "intent_of (Inspect cid payload now) = None"

definition last_intent :: "egress_op list \<Rightarrow> pystr \<Rightarrow> intent option" where
  "last_intent hist cid = map_of (rev (List.map_filter intent_of hist)) cid"

fun op_time :: "egress_op \<Rightarrow> rat" where
  "op_time (Record cid call now ts) = max now ts"
| "op_time (Inspect cid payload now) = now"

lemma last_intent_snoc:
  "last_intent (hist @ [e]) cid =
     (case intent_of e of None \<Rightarrow> last_intent hist cid
      | Some (k, it) \<Rightarrow> if k = cid then Some it else last_intent hist cid)"
  by (auto simp: last_intent_def map_filter_simps map_filter_def split: option.splits)

lemma record_intent_dget:
  "dget (ir_intents (snd (record_intent cid call now ts r))) k =
     (case intent_of (Record cid call now ts) of
        None \<Rightarrow> dget (ir_intents (evict_stale now r)) k
      | Some (c, it) \<Rightarrow> if k = c then Some it else dget (ir_intents (evict_stale now r)) k)"
  by (auto simp: record_intent_def Let_def split: pyval.splits)

lemma get_intent_dget:
  "dget (ir_intents (snd (get_intent cid now r))) k = Some it \<Longrightarrow> dget (ir_intents r) k = Some it"
  by (auto simp: get_intent_def split: option.splits if_splits)

lemma inspect_registry:
  "ei_registry (snd (inspect_egress_payload fr cid payload now ei)) =
     snd (get_intent cid now (ei_registry ei))"
  by (simp add: inspect_egress_payload_def case_prod_unfold Let_def)

definition egress_inv :: "egress_op list \<Rightarrow> registry \<Rightarrow> bool" where
  "egress_inv hist r \<longleftrightarrow>
     (\<forall>cid it. dget (ir_intents r) cid = Some it \<longrightarrow> last_intent hist cid = Some it)"

lemma egress_inv_step:
  assumes "egress_inv hist (ei_registry ei)"
  shows "egress_inv (hist @ [e]) (ei_registry (apply_egress fr e ei))"
proof (cases e)
  case (Record cid call now ts)
  show ?thesis
    using assms evict_stale_dget [of now "ei_registry ei"]
    by (auto simp: egress_inv_def last_intent_snoc Record record_intent_dget
        split: option.splits if_splits)
next
  case (Inspect cid payload now)
  then show ?thesis
    using assms get_intent_dget [of cid now "ei_registry ei"]
    by (auto simp: egress_inv_def last_intent_snoc inspect_registry)
qed

lemma egress_inv_run:
  assumes "ir_intents r = []"
  shows "egress_inv hist (ei_registry (fold (apply_egress fr) hist (make_inspector r)))"
proof (induction hist rule: rev_induct)
  case Nil
  show ?case using assms by (simp add: egress_inv_def make_inspector_def)
next
  case (snoc e hist)
  from egress_inv_step [OF this] show ?case by simp
qed

lemma apply_egress_params:
  "ir_max_age (ei_registry (apply_egress fr e ei)) = ir_max_age (ei_registry ei) \<and>
   ir_max_entries (ei_registry (apply_egress fr e ei)) = ir_max_entries (ei_registry ei)"
  by (cases e) (simp_all add: inspect_registry)

lemma run_egress_params:
  "ir_max_age (ei_registry (fold (apply_egress fr) hist ei)) = ir_max_age (ei_registry ei) \<and>
   ir_max_entries (ei_registry (fold (apply_egress fr) hist ei)) = ir_max_entries (ei_registry ei)"
  by (induction hist arbitrary: ei) (simp_all add: apply_egress_params)

lemma finite_emails: "finite (emails_in s)"
  by (simp add: emails_in_def)

lemma finite_actual: "finite (extract_all_emails fr payload)"
  by (simp add: extract_all_emails_def finite_emails)

lemma inspect_allowed_iff:
  "ev_allowed (fst (inspect_egress_payload fr cid payload now ei)) \<longleftrightarrow>
     extract_all_emails fr payload \<subseteq>
       (case fst (get_intent cid now (ei_registry ei)) of None \<Rightarrow> {} | Some it \<Rightarrow> in_recipients it)"
  using finite_actual
  by (auto simp: inspect_egress_payload_def case_prod_unfold Let_def sorted_list_of_set_eq_Nil_iff)

text \<open>
  C10: The outbound check is safe over every history. Whatever was recorded and inspected before,
  and whatever was evicted, an outbound payload is let through only when every address in it was
  named in the to, recipient, recipients or cc argument of the last call recorded under its
  correlation id, and that record is no older than the maximum age. With no such record, no
  payload with an address passes.
\<close>

theorem egress_allows_only_authorized:
  assumes "ir_intents r = []"
    and "ev_allowed (fst (inspect_egress_payload fr cid payload now
      (fold (apply_egress fr) hist (make_inspector r))))"
    and "m \<in> extract_all_emails fr payload"
  shows "\<exists>it. last_intent hist cid = Some it \<and> m \<in> in_recipients it \<and> now - in_ts it \<le> ir_max_age r"
proof -
  let ?ei = "fold (apply_egress fr) hist (make_inspector r)"
  from assms(2,3) obtain it where it: "fst (get_intent cid now (ei_registry ?ei)) = Some it"
    "m \<in> in_recipients it"
    unfolding inspect_allowed_iff by (auto split: option.splits)
  have "dget (ir_intents (ei_registry ?ei)) cid = Some it"
    "now - in_ts it \<le> ir_max_age (ei_registry ?ei)"
    using it(1) by (auto simp: get_intent_def split: option.splits if_splits)
  moreover have "ir_max_age (ei_registry ?ei) = ir_max_age r"
    using run_egress_params [of fr hist] by (simp add: make_inspector_def)
  ultimately show ?thesis
    using egress_inv_run [OF assms(1), of hist fr] it(2) by (auto simp: egress_inv_def)
qed

lemma egress_allows_only_authorized_witness:
  "\<exists>it. last_intent [Record (u ''c'') [(u ''arguments'', PDict [(u ''to'', PStr (u ''a@b.co''))])] 0 0]
      (u ''c'') = Some it \<and> u ''a@b.co'' \<in> in_recipients it \<and> 1 - in_ts it \<le> ir_max_age (make_registry 300 10)"
  by (rule egress_allows_only_authorized [where fr = "\<lambda>q. []" and payload = "PStr (u ''a@b.co'')"])
    (simp add: make_registry_def, code_simp, code_simp)

definition kept :: "rat \<Rightarrow> egress_op list \<Rightarrow> registry \<Rightarrow> bool" where
  "kept now hist r \<longleftrightarrow> length (ir_intents r) \<le> length hist \<and>
     (\<forall>cid it. last_intent hist cid = Some it \<longrightarrow> now - in_ts it \<le> ir_max_age r \<longrightarrow>
        dget (ir_intents r) cid = Some it)"

lemma dget_in: "dget d k = Some v \<Longrightarrow> (k, v) \<in> set d"
  by (simp add: dget_def map_of_SomeD)

lemma evict_stale_keeps:
  assumes "distinct (map fst (ir_intents r))" "int (length (ir_intents r)) \<le> ir_max_entries r"
    and "dget (ir_intents r) cid = Some it" "t - in_ts it \<le> ir_max_age r"
  shows "dget (ir_intents (evict_stale t r)) cid = Some it"
proof -
  have "cid \<notin> set (map fst (filter (\<lambda>(k, v). t - in_ts v > ir_max_age r) (ir_intents r)))"
  proof
    assume "cid \<in> set (map fst (filter (\<lambda>(k, v). t - in_ts v > ir_max_age r) (ir_intents r)))"
    then obtain v where "(cid, v) \<in> set (ir_intents r)" "t - in_ts v > ir_max_age r" by auto
    moreover from this assms(1) have "dget (ir_intents r) cid = Some v" by (simp add: dget_def)
    ultimately show False using assms(3,4) by simp
  qed
  with assms(2,3) show ?thesis
    by (simp add: evict_stale_def drop_expired_def evict_overflow_def dget_without_keys)
qed

lemma evict_stale_length_le: "length (ir_intents (evict_stale t r)) \<le> length (ir_intents r)"
  unfolding evict_stale_def drop_expired_def evict_overflow_def
  using length_without_le by (auto intro: order_trans)

lemma registry_ok_run:
  assumes "ir_intents r = []" "1 \<le> ir_max_entries r"
  shows "registry_ok (ei_registry (fold (apply_egress fr) hist (make_inspector r)))"
proof (induction hist rule: rev_induct)
  case Nil
  show ?case using assms by (simp add: registry_ok_def make_inspector_def)
next
  case (snoc e hist)
  have "1 \<le> ir_max_entries (ei_registry (fold (apply_egress fr) hist (make_inspector r)))"
    using run_egress_params [of fr hist] assms(2) by (simp add: make_inspector_def)
  with snoc show ?case
    by (cases e) (simp_all add: record_intent_ok get_intent_ok inspect_registry)
qed

lemma kept_step:
  assumes kept: "kept now hist (ei_registry ei)" and ok: "registry_ok (ei_registry ei)"
    and room: "int (length hist) \<le> ir_max_entries (ei_registry ei)" and before: "op_time e \<le> now"
  shows "kept now (hist @ [e]) (ei_registry (apply_egress fr e ei))"
proof (cases e)
  case (Record cid call t ts)
  let ?r = "ei_registry ei"
  have len: "length (ir_intents (evict_stale t ?r)) \<le> length hist"
    using kept evict_stale_length_le [of t ?r] by (auto simp: kept_def)
  have stays: "dget (ir_intents (evict_stale t ?r)) k = Some it"
    if "last_intent hist k = Some it" "now - in_ts it \<le> ir_max_age ?r" for k it
    using that kept ok room before Record
    by (intro evict_stale_keeps) (auto simp: kept_def registry_ok_def)
  have "length (ir_intents (snd (record_intent cid call t ts ?r))) \<le> Suc (length hist)"
    using len length_dset_le [of cid _ "ir_intents (evict_stale t ?r)"]
    by (auto simp: record_intent_def Let_def intro: order_trans split: pyval.splits)
  then show ?thesis
    using stays unfolding Record kept_def
    by (auto simp: last_intent_snoc record_intent_dget split: option.splits if_splits
        simp del: intent_of.simps)
next
  case (Inspect cid payload t)
  let ?r = "ei_registry ei"
  have "length (ir_intents (snd (get_intent cid t ?r))) \<le> length (ir_intents ?r)"
    by (auto simp: get_intent_def dpop_def split: option.splits)
  moreover have "dget (ir_intents (snd (get_intent cid t ?r))) k = Some it"
    if "dget (ir_intents ?r) k = Some it" "now - in_ts it \<le> ir_max_age ?r" for k it
    using that before Inspect by (auto simp: get_intent_def split: option.splits)
  ultimately show ?thesis
    using kept unfolding Inspect kept_def
    by (auto simp: last_intent_snoc inspect_registry)
qed

lemma kept_run:
  assumes "ir_intents r = []" "1 \<le> ir_max_entries r" "int (length hist) \<le> ir_max_entries r"
    "\<forall>e \<in> set hist. op_time e \<le> now"
  shows "kept now hist (ei_registry (fold (apply_egress fr) hist (make_inspector r)))"
  using assms(3,4)
proof (induction hist rule: rev_induct)
  case Nil
  show ?case using assms by (simp add: kept_def make_inspector_def last_intent_def map_filter_simps)
next
  case (snoc e hist)
  let ?ei = "fold (apply_egress fr) hist (make_inspector r)"
  have "ir_max_entries (ei_registry ?ei) = ir_max_entries r"
    using run_egress_params [of fr hist] by (simp add: make_inspector_def)
  with snoc show ?case
    using kept_step [of now hist ?ei e fr] registry_ok_run [OF assms(1,2), of fr hist] by simp
qed

text \<open>
  Within the registry's capacity the check is exact: while no more than \<open>max_entries\<close>
  operations have happened and no clock reading was later than now, a payload is let through
  exactly when each of its addresses was named by the last call recorded under its id, provided
  that record is no older than the maximum age (with no live record: exactly when the payload
  has no address). A legitimate delivery is never refused.
\<close>

theorem egress_exact:
  assumes "ir_intents r = []" "1 \<le> ir_max_entries r" "int (length hist) \<le> ir_max_entries r"
    and "\<forall>e \<in> set hist. op_time e \<le> now"
  shows "ev_allowed (fst (inspect_egress_payload fr cid payload now
      (fold (apply_egress fr) hist (make_inspector r)))) \<longleftrightarrow>
    extract_all_emails fr payload \<subseteq>
      (case last_intent hist cid of
         None \<Rightarrow> {}
       | Some it \<Rightarrow> if now - in_ts it \<le> ir_max_age r then in_recipients it else {})"
proof -
  let ?R = "ei_registry (fold (apply_egress fr) hist (make_inspector r))"
  have age: "ir_max_age ?R = ir_max_age r"
    using run_egress_params [of fr hist] by (simp add: make_inspector_def)
  have "(case fst (get_intent cid now ?R) of None \<Rightarrow> {} | Some it \<Rightarrow> in_recipients it) =
      (case last_intent hist cid of None \<Rightarrow> {}
       | Some it \<Rightarrow> if now - in_ts it \<le> ir_max_age r then in_recipients it else {})"
  proof (cases "dget (ir_intents ?R) cid")
    case None
    then have "\<not> (\<exists>it. last_intent hist cid = Some it \<and> now - in_ts it \<le> ir_max_age r)"
      using kept_run [OF assms, of fr] age by (auto simp: kept_def)
    with None show ?thesis by (auto simp: get_intent_def split: option.splits)
  next
    case (Some it)
    then have "last_intent hist cid = Some it"
      using egress_inv_run [OF assms(1), of hist fr] by (simp add: egress_inv_def)
    with Some age show ?thesis by (auto simp: get_intent_def)
  qed
  then show ?thesis unfolding inspect_allowed_iff by simp
qed

lemma egress_exact_witness:
  "ev_allowed (fst (inspect_egress_payload (\<lambda>q. []) (u ''c'') (PStr (u ''To=a@b.co Bcc=p@g.club'')) 1
      (fold (apply_egress (\<lambda>q. []))
        [Record (u ''c'') [(u ''arguments'', PDict [(u ''to'', PStr (u ''a@b.co''))])] 0 0]
        (make_inspector (make_registry 300 10))))) \<longleftrightarrow>
    extract_all_emails (\<lambda>q. []) (PStr (u ''To=a@b.co Bcc=p@g.club'')) \<subseteq>
      (case last_intent [Record (u ''c'') [(u ''arguments'', PDict [(u ''to'', PStr (u ''a@b.co''))])] 0 0]
          (u ''c'') of
         None \<Rightarrow> {}
       | Some it \<Rightarrow> if 1 - in_ts it \<le> ir_max_age (make_registry 300 10) then in_recipients it else {})"
  by (rule egress_exact) (simp_all add: make_registry_def)

text \<open>
  The registry stays small: after any history it holds at most one entry more than its
  configured maximum, each id once.
\<close>

theorem registry_bounded:
  assumes "ir_intents r = []" "1 \<le> ir_max_entries r"
  shows "int (length (ir_intents (ei_registry (fold (apply_egress fr) hist (make_inspector r))))) \<le>
      ir_max_entries r + 1 \<and>
    distinct (map fst (ir_intents (ei_registry (fold (apply_egress fr) hist (make_inspector r)))))"
  using registry_ok_run [OF assms, of fr hist] run_egress_params [of fr hist]
  by (simp add: registry_ok_def make_inspector_def)

lemma registry_bounded_witness:
  "int (length (ir_intents (ei_registry (fold (apply_egress (\<lambda>q. [])) [Record [] [] 0 0]
      (make_inspector (make_registry 300 1)))))) \<le> ir_max_entries (make_registry 300 1) + 1 \<and>
    distinct (map fst (ir_intents (ei_registry (fold (apply_egress (\<lambda>q. [])) [Record [] [] 0 0]
      (make_inspector (make_registry 300 1))))))"
  by (rule registry_bounded) (simp_all add: make_registry_def)

text \<open>
  Printing a payload as JSON can rename its addresses: an address that follows a line break
  in a string value is read with the \<open>n\<close> of the escape in front, so the address itself is not
  among the actual recipients that are compared.
\<close>

theorem escaped_newline_renames_address:
  "extract_all_emails fr (PDict [(u ''body'', PStr (u ''Bcc:'' @ [10] @ u ''phan@giftshop.club''))]) =
     {u ''nphan@giftshop.club''}"
  by code_simp

end
