(* ===== verification/PyNumbers.thy ===== *)
theory PyNumbers
  imports PyRegex
begin

text \<open>
  Reading numbers: Python's \<open>int(s, base)\<close> (white space, sign, \<open>0x\<close>, underscores, Unicode digits),
  \<open>float(s)\<close> on the exact rational (a literal beyond the range of a double is not turned into
  infinity), and \<open>str.split()\<close>.
\<close>

section \<open>Python's int and split\<close>

definition decimal_value :: "nat \<Rightarrow> nat option" where
  "decimal_value c =
    (if is_digit c then Some (c - 48)
     else map_option (\<lambda>a. c - a) (List.find (\<lambda>a. a \<le> c \<and> c \<le> a + 9) decimal_digit_starts))"

definition base_digit :: "nat \<Rightarrow> nat \<Rightarrow> nat option" where
  "base_digit base c =
    (case decimal_value c of
       Some d \<Rightarrow> Some d
     | None \<Rightarrow> (case hex_val c of None \<Rightarrow> None | Some d \<Rightarrow> if d < base then Some d else None))"

fun us_digits :: "(nat \<Rightarrow> nat option) \<Rightarrow> pystr \<Rightarrow> nat list option" where
  "us_digits dv [] = None"
| "us_digits dv [c] = map_option (\<lambda>d. [d]) (dv c)"
| "us_digits dv (c # d # s) =
     (case dv c of
        None \<Rightarrow> None
      | Some x \<Rightarrow> if d = 95 then map_option ((#) x) (us_digits dv s)
          else map_option ((#) x) (us_digits dv (d # s)))"

definition strip_prefix16 :: "nat \<Rightarrow> pystr \<Rightarrow> pystr" where
  "strip_prefix16 base s =
    (if base = 16 \<and> (starts_with s (u ''0x'') \<or> starts_with s (u ''0X''))
     then (let t = drop 2 s in if starts_with t [95] then drop 1 t else t) else s)"

definition py_int :: "nat \<Rightarrow> pystr \<Rightarrow> int option" where
  "py_int base s =
    (let t = py_strip s;
         neg = starts_with t [45];
         body = (if neg \<or> starts_with t [43] then drop 1 t else t)
     in case us_digits (base_digit base) (strip_prefix16 base body) of
          None \<Rightarrow> None
        | Some ds \<Rightarrow>
            if base = 10 \<and> length ds > 4300 then None
            else (let n = int (foldl (\<lambda>n d. base * n + d) 0 ds) in Some (if neg then - n else n)))"

function py_words :: "pystr \<Rightarrow> pystr list" where
  "py_words s =
    (case dropWhile is_space s of
       [] \<Rightarrow> []
     | c # t \<Rightarrow> (c # takeWhile (\<lambda>x. \<not> is_space x) t) # py_words (dropWhile (\<lambda>x. \<not> is_space x) t))"
  by pat_completeness auto
termination
proof (relation "measure length")
  fix s c t
  assume "dropWhile is_space s = c # t"
  then have "length (c # t) \<le> length s" by (metis length_dropWhile_le)
  moreover have "length (dropWhile (\<lambda>x. \<not> is_space x) t) \<le> length t" by (rule length_dropWhile_le)
  ultimately show "(dropWhile (\<lambda>x. \<not> is_space x) t, s) \<in> measure length" by simp
qed simp

declare py_words.simps [simp del]

section \<open>Python's float\<close>

definition opt_digits :: "pystr \<Rightarrow> nat list option" where
  "opt_digits s = (if s = [] then Some [] else us_digits decimal_value s)"

definition digits_number :: "nat list \<Rightarrow> nat" where
  "digits_number ds = foldl (\<lambda>n d. 10 * n + d) 0 ds"

definition mantissa :: "pystr \<Rightarrow> (nat \<times> nat) option" where
  "mantissa s =
    (let ip = takeWhile (\<lambda>c. c \<noteq> 46) s; fp = drop (Suc (length ip)) s
     in case (opt_digits ip, opt_digits fp) of
          (Some ds, Some es) \<Rightarrow>
            if ds = [] \<and> es = [] then None else Some (digits_number (ds @ es), length es)
        | _ \<Rightarrow> None)"

definition signed :: "pystr \<Rightarrow> bool \<times> pystr" where
  "signed s = (starts_with s [45], if starts_with s [45] \<or> starts_with s [43] then drop 1 s else s)"

definition exponent :: "pystr \<Rightarrow> int option" where
  "exponent s =
    (case s of
       [] \<Rightarrow> Some 0
     | c # t \<Rightarrow> (let (neg, ds) = signed t in case us_digits decimal_value ds of
         None \<Rightarrow> None
       | Some xs \<Rightarrow> Some (if neg then - int (digits_number xs) else int (digits_number xs))))"

definition power10 :: "int \<Rightarrow> rat" where
  "power10 e = (if 0 \<le> e then 10 ^ nat e else 1 / 10 ^ nat (- e))"

definition py_float :: "pystr \<Rightarrow> pyfloat option" where
  "py_float s =
    (let (neg, body) = signed (py_strip s); word = py_lower body
     in if word = u ''inf'' \<or> word = u ''infinity'' then Some (if neg then NegInf else PosInf)
        else if word = u ''nan'' then Some NaN
        else (let m = takeWhile (\<lambda>c. c \<noteq> 101 \<and> c \<noteq> 69) body; ex = drop (length m) body
              in case (mantissa m, exponent ex) of
                   (Some (n, k), Some e) \<Rightarrow>
                     (let q = of_nat n * power10 (e - int k) in Some (Fin (if neg then - q else q)))
                 | _ \<Rightarrow> None))"

lemma py_float_samples:
  "py_float (u '' 100 '') = Some (Fin 100)" "py_float (u ''-1_0.5e1'') = Some (Fin (- 105))"
  "py_float (u ''.5'') = Some (Fin (1 / 2))" "py_float (u ''nan'') = Some NaN"
  "py_float (u ''+Infinity'') = Some PosInf" "py_float (u ''1e'') = None" "py_float (u ''.'') = None"
  by code_simp+

end
