(* ===== verification/NetworkMonitor.thy ===== *)
theory NetworkMonitor
  imports PyNumbers JsonDump
begin

text \<open>
  \<open>defense10/network_monitor.py\<close>: the reader of the kernel's connection table and the scan of it
  against the policy. The two files come in as their lines, or \<open>None\<close> when they cannot be opened.
  The eBPF program at the end of the source is text that nothing loads.
\<close>

section \<open>Connections\<close>

record connection =
  cn_local_addr :: pystr
  cn_local_port :: int
  cn_remote_addr :: pystr
  cn_remote_port :: int
  cn_state :: pystr
  cn_inode :: int

definition TCP_STATES :: "(pystr \<times> pystr) list" where
  "TCP_STATES = [
     (u ''01'', u ''ESTABLISHED''), (u ''02'', u ''SYN_SENT''), (u ''03'', u ''SYN_RECV''),
     (u ''04'', u ''FIN_WAIT1''), (u ''05'', u ''FIN_WAIT2''), (u ''06'', u ''TIME_WAIT''),
     (u ''07'', u ''CLOSE''), (u ''08'', u ''CLOSE_WAIT''), (u ''09'', u ''LAST_ACK''),
     (u ''0A'', u ''LISTEN''), (u ''0B'', u ''CLOSING'')]"

definition SMTP_PORTS :: "int set" where
  "SMTP_PORTS = {25, 465, 587, 2525}"

text \<open>\<open>inet_ntoa(struct.pack("<I", n))\<close>; \<open>pack\<close> fails outside 32 bits.\<close>

definition ntoa :: "int \<Rightarrow> pystr option" where
  "ntoa n =
    (if 0 \<le> n \<and> n < 2 ^ 32
     then Some (join_with [46] (map (\<lambda>k. show_nat (nat n div 256 ^ k mod 256)) [0, 1, 2, 3]))
     else None)"

definition parse_addr :: "pystr \<Rightarrow> (pystr \<times> int) option" where
  "parse_addr hexaddr =
    (case split_on 58 hexaddr of
       [addr_part, port_part] \<Rightarrow>
         (case py_int 16 port_part of
            None \<Rightarrow> None
          | Some port \<Rightarrow>
              if length addr_part = 8
              then (case py_int 16 addr_part of
                  None \<Rightarrow> None
                | Some n \<Rightarrow> map_option (\<lambda>addr. (addr, port)) (ntoa n))
              else Some (u ''ipv6:'' @ py_lower addr_part, port))
     | _ \<Rightarrow> None)"

definition read_line :: "pystr \<Rightarrow> connection option" where
  "read_line line =
    (let parts = py_words line
     in if length parts < 10 then None
        else (case (parse_addr (parts ! 1), parse_addr (parts ! 2)) of
            (Some (la, lp), Some (ra, rp)) \<Rightarrow>
              Some \<lparr>cn_local_addr = la, cn_local_port = lp, cn_remote_addr = ra,
                cn_remote_port = rp, cn_state = dget_or TCP_STATES (parts ! 3) (parts ! 3),
                cn_inode = (case py_int 10 (parts ! 9) of None \<Rightarrow> 0 | Some i \<Rightarrow> i)\<rparr>
          | _ \<Rightarrow> None))"

definition read_connections :: "pystr list option list \<Rightarrow> connection list" where
  "read_connections files =
     concat (map (\<lambda>f. case f of None \<Rightarrow> [] | Some lines \<Rightarrow> List.map_filter read_line (drop 1 lines)) files)"

section \<open>Policy and scan\<close>

datatype alert_reason = BlockedHost | HiddenSmtp int | UnapprovedDestination

record network_alert =
  na_remote_addr :: pystr
  na_remote_port :: int
  na_reason :: alert_reason
  na_severity :: int

record monitor =
  nm_allowed_remotes :: "pystr set"
  nm_allowed_ports :: "int set"
  nm_blocked_remotes :: "pystr set"
  nm_alerts :: "network_alert list"

definition make_monitor :: monitor where
  "make_monitor = \<lparr>nm_allowed_remotes = {}, nm_allowed_ports = {}, nm_blocked_remotes = {},
     nm_alerts = []\<rparr>"

definition nm_allow :: "pystr \<Rightarrow> int option \<Rightarrow> monitor \<Rightarrow> monitor" where
  "nm_allow addr port m =
    (let m1 = m\<lparr>nm_allowed_remotes := insert addr (nm_allowed_remotes m)\<rparr>
     in case port of None \<Rightarrow> m1 | Some p \<Rightarrow> m1\<lparr>nm_allowed_ports := insert p (nm_allowed_ports m1)\<rparr>)"

definition nm_block :: "pystr \<Rightarrow> monitor \<Rightarrow> monitor" where
  "nm_block addr m = m\<lparr>nm_blocked_remotes := insert addr (nm_blocked_remotes m)\<rparr>"

definition is_local :: "pystr \<Rightarrow> bool" where
  "is_local addr =
    (if starts_with addr (u ''127.'') \<or> starts_with addr (u ''10.'') then True
     else if starts_with addr (u ''192.168.'') then True
     else if starts_with addr (u ''172.'') \<and>
       (let parts = split_on 46 addr
        in length parts \<ge> 2 \<and>
           (case py_int 10 (parts ! 1) of None \<Rightarrow> False | Some second \<Rightarrow> 16 \<le> second \<and> second \<le> 31))
     then True
     else addr = u ''0.0.0.0'' \<or> addr = u ''::'' \<or> starts_with addr (u ''ipv6:''))"

definition alert_for :: "monitor \<Rightarrow> connection \<Rightarrow> network_alert option" where
  "alert_for m c =
    (let alert = (\<lambda>reason severity. Some \<lparr>na_remote_addr = cn_remote_addr c,
           na_remote_port = cn_remote_port c, na_reason = reason, na_severity = severity\<rparr>)
     in if cn_remote_port c = 0 \<or> cn_remote_addr c = u ''0.0.0.0'' \<or> cn_remote_addr c = u ''::'' then None
        else if cn_remote_addr c \<in> nm_blocked_remotes m then alert BlockedHost 95
        else if cn_remote_port c \<in> SMTP_PORTS \<and> cn_remote_port c \<notin> nm_allowed_ports m
        then alert (HiddenSmtp (cn_remote_port c)) 95
        else if nm_allowed_remotes m \<noteq> {} \<and> cn_remote_addr c \<notin> nm_allowed_remotes m \<and>
          \<not> is_local (cn_remote_addr c)
        then alert UnapprovedDestination 80 else None)"

definition nm_scan :: "pystr list option list \<Rightarrow> monitor \<Rightarrow> network_alert list \<times> monitor" where
  "nm_scan files m =
    (let alerts = List.map_filter (alert_for m) (read_connections files)
     in (alerts, m\<lparr>nm_alerts := nm_alerts m @ alerts\<rparr>))"

section \<open>Reading what the kernel writes\<close>

lemma decimal_value_ascii:
  "c < 128 \<Longrightarrow> decimal_value c = (if is_digit c then Some (c - 48) else None)"
  by (simp add: decimal_value_def decimal_digit_starts_def is_digit_def)

lemma base_digit_ascii:
  "c < 128 \<Longrightarrow> base_digit base c =
     (if is_digit c then Some (c - 48)
      else case hex_val c of None \<Rightarrow> None | Some d \<Rightarrow> if d < base then Some d else None)"
  by (simp add: base_digit_def decimal_value_ascii)

definition hex_upper :: "nat \<Rightarrow> nat" where
  "hex_upper n = (if n < 10 then 48 + n else 55 + n)"

definition hex2 :: "nat \<Rightarrow> pystr" where
  "hex2 n = [hex_upper (n div 16), hex_upper (n mod 16)]"

lemma base_digit_hex: "n < 16 \<Longrightarrow> base_digit 16 (hex_upper n) = Some n"
  by (simp add: base_digit_ascii hex_upper_def is_digit_def hex_val_def)

lemma hex_upper_range: "n < 16 \<Longrightarrow> 48 \<le> hex_upper n \<and> hex_upper n \<le> 57 \<or> 65 \<le> hex_upper n \<and> hex_upper n \<le> 70"
  by (simp add: hex_upper_def)

lemma us_digits_plain:
  "cs \<noteq> [] \<Longrightarrow> list_all (\<lambda>c. c \<noteq> 95 \<and> dv c = Some (f c)) cs \<Longrightarrow> us_digits dv cs = Some (map f cs)"
  by (induction dv cs rule: us_digits.induct) auto

definition plain_digit :: "nat \<Rightarrow> bool" where
  "plain_digit c \<longleftrightarrow> is_digit c \<or> 65 \<le> c \<and> c \<le> 70"

lemma plain_digit_not_space: "plain_digit c \<Longrightarrow> \<not> is_space c \<and> c \<noteq> 95 \<and> c \<noteq> 43 \<and> c \<noteq> 45 \<and> c \<noteq> 58 \<and> c \<noteq> 120 \<and> c \<noteq> 88"
  by (auto simp: plain_digit_def is_digit_def is_space_def)

lemma py_int_plain:
  assumes "cs \<noteq> []" "list_all plain_digit cs" "list_all (\<lambda>c. base_digit base c = Some (f c)) cs"
    and "base = 10 \<Longrightarrow> length cs \<le> 4300"
  shows "py_int base cs = Some (int (foldl (\<lambda>n d. base * n + d) 0 (map f cs)))"
proof -
  obtain c cs' where cs: "cs = c # cs'" using assms(1) by (cases cs) auto
  have "plain_digit (last cs)" using assms(1,2) by (simp add: list_all_iff)
  then have strip: "py_strip cs = cs"
    using assms(2) cs by (intro py_strip_id) (auto dest: plain_digit_not_space)
  have "plain_digit c" using assms(2) cs by simp
  then have sign: "\<not> starts_with cs [45]" "\<not> starts_with cs [43]"
    using cs plain_digit_not_space by fastforce+
  have x: "\<not> starts_with cs (u ''0x'')" "\<not> starts_with cs (u ''0X'')"
    using assms(2) cs plain_digit_not_space by (cases cs'; fastforce simp: u_def)+
  then have pre: "strip_prefix16 base cs = cs" by (simp add: strip_prefix16_def)
  have "list_all (\<lambda>c. c \<noteq> 95 \<and> base_digit base c = Some (f c)) cs"
    using assms(2,3) plain_digit_not_space by (auto simp: list_all_iff)
  then have "us_digits (base_digit base) cs = Some (map f cs)"
    by (intro us_digits_plain assms(1))
  with assms(4) show ?thesis by (auto simp: py_int_def strip sign pre Let_def)
qed

lemma plain_digit_hex: "n < 16 \<Longrightarrow> plain_digit (hex_upper n)"
  using hex_upper_range [of n] by (auto simp: plain_digit_def is_digit_def)

lemma py_int_hex:
  assumes "ns \<noteq> []" "list_all (\<lambda>n. n < 16) ns"
  shows "py_int 16 (map hex_upper ns) = Some (int (foldl (\<lambda>n d. 16 * n + d) 0 ns))"
proof -
  have "map ((\<lambda>c. the (base_digit 16 c)) \<circ> hex_upper) ns = ns"
    using assms(2) by (intro map_idI) (simp add: list_all_iff base_digit_hex)
  then show ?thesis
    using py_int_plain [of "map hex_upper ns" 16 "\<lambda>c. the (base_digit 16 c)"] assms
    by (simp add: list_all_iff plain_digit_hex base_digit_hex)
qed

lemma py_int_hex_octets:
  assumes "ns \<noteq> []" "list_all (\<lambda>n. n < 256) ns"
  shows "py_int 16 (concat (map hex2 ns)) = Some (int (foldl (\<lambda>n d. 256 * n + d) 0 ns))"
proof -
  have m: "concat (map hex2 ns) = map hex_upper (concat (map (\<lambda>n. [n div 16, n mod 16]) ns))"
    by (induction ns) (simp_all add: hex2_def)
  have f: "foldl (\<lambda>n d. 16 * n + d) k (concat (map (\<lambda>n. [n div 16, n mod 16]) ns)) =
      foldl (\<lambda>n d. 256 * n + d) k ns" for k
  proof (induction ns arbitrary: k)
    case (Cons n ns k)
    have "16 * (16 * k + n div 16) + n mod 16 = 256 * k + n"
      by presburger
    with Cons show ?case by (simp add: add.commute)
  qed simp
  show ?thesis
    unfolding m using assms
    by (subst py_int_hex) (auto simp: f list_all_iff less_mult_imp_div_less)
qed

section \<open>Dotted addresses\<close>

type_synonym octets = "nat \<times> nat \<times> nat \<times> nat"

fun octets_ok :: "octets \<Rightarrow> bool" where
  "octets_ok (a, b, c, d) = (a < 256 \<and> b < 256 \<and> c < 256 \<and> d < 256)"

fun dotted :: "octets \<Rightarrow> pystr" where
  "dotted (a, b, c, d) = show_nat a @ 46 # show_nat b @ 46 # show_nat c @ 46 # show_nat d"

text \<open>The kernel prints the address word in host order (little-endian): the last octet first.\<close>

fun kernel_addr :: "octets \<Rightarrow> nat \<Rightarrow> pystr" where
  "kernel_addr (a, b, c, d) port =
     concat (map hex2 [d, c, b, a]) @ 58 # concat (map hex2 [port div 256, port mod 256])"

lemma hex_fresh: "n < 256 \<Longrightarrow> 58 \<notin> set (hex2 n)"
  using plain_digit_hex [of "n div 16"] plain_digit_hex [of "n mod 16"] plain_digit_not_space
  by (auto simp: hex2_def)

lemma byte_split:
  fixes a x :: nat
  assumes "a < 256"
  shows "(256 * x + a) mod 256 = a" "(256 * x + a) div 256 = x"
  using assms by simp_all

lemma little_endian:
  fixes n :: nat
  assumes "a < 256" "b < 256" "c < 256" "d < 256"
    and n: "n = 256 * (256 * (256 * d + c) + b) + a"
  shows "n mod 256 = a" "n div 256 mod 256 = b" "n div 65536 mod 256 = c" "n div 16777216 mod 256 = d"
    "n < 4294967296"
proof -
  have d1: "n div 256 = 256 * (256 * d + c) + b" unfolding n by (rule byte_split(2) [OF assms(1)])
  have "n div 256 div 256 = 256 * d + c" unfolding d1 by (rule byte_split(2) [OF assms(2)])
  moreover have "n div 65536 = n div 256 div 256" by (simp flip: div_mult2_eq)
  ultimately have d2: "n div 65536 = 256 * d + c" by simp
  have "n div 65536 div 256 = d" unfolding d2 by (rule byte_split(2) [OF assms(3)])
  moreover have "n div 16777216 = n div 65536 div 256" by (simp flip: div_mult2_eq)
  ultimately have d3: "n div 16777216 = d" by simp
  show "n mod 256 = a" unfolding n by (rule byte_split(1) [OF assms(1)])
  show "n div 256 mod 256 = b" unfolding d1 by (rule byte_split(1) [OF assms(2)])
  show "n div 65536 mod 256 = c" unfolding d2 by (rule byte_split(1) [OF assms(3)])
  show "n div 16777216 mod 256 = d" using d3 assms(4) by simp
  show "n < 4294967296"   proof -
    have step: "256 * x + y < 256 * m" if "y < 256" "x < m" for x y m :: nat using that by linarith
    have "256 * d + c < 65536" using step [OF assms(3,4)] by simp
    from step [OF assms(2) this] have "256 * (256 * d + c) + b < 16777216" by simp
    from step [OF assms(1) this] show ?thesis unfolding n by simp
  qed
qed

lemma parse_kernel_addr:
  assumes "octets_ok q" "port < 65536"
  shows "parse_addr (kernel_addr q port) = Some (dotted q, int port)"
proof -
  obtain a b c d where q: "q = (a, b, c, d)" by (cases q)
  with assms(1) have o: "a < 256" "b < 256" "c < 256" "d < 256" by auto
  have p: "port div 256 < 256" "port mod 256 < 256" using assms(2) by auto
  let ?A = "concat (map hex2 [d, c, b, a])" and ?P = "concat (map hex2 [port div 256, port mod 256])"
  have fresh: "58 \<notin> set ?A" "58 \<notin> set ?P" using o p hex_fresh by auto
  have "split_on 58 (kernel_addr q port) = [?A, ?P]"
    unfolding q kernel_addr.simps split_on_app split_on_fresh [OF fresh(1)] split_on_fresh [OF fresh(2)]
    by simp
  moreover have "py_int 16 ?P = Some (int port)"
    using py_int_hex_octets [of "[port div 256, port mod 256]"] p by simp
  moreover have "py_int 16 ?A = Some (int (256 * (256 * (256 * d + c) + b) + a))"
    using py_int_hex_octets [of "[d, c, b, a]"] o by simp
  moreover have "length ?A = 8" by (simp add: hex2_def)
  moreover have "ntoa (int (256 * (256 * (256 * d + c) + b) + a)) = Some (dotted q)"
    using little_endian [OF o]
    by (simp add: ntoa_def q nat_mult_distrib nat_add_distrib flip: of_nat_mult of_nat_add del: of_nat_mult of_nat_add)
  ultimately show ?thesis by (simp add: parse_addr_def)
qed

lemma show_nat_inj: "show_nat a = show_nat b \<longleftrightarrow> a = b"
  by (metis digits_val_show)

lemma show_nat_no_dot: "46 \<notin> set (show_nat a)"
  using show_nat_digits [of a] by (auto simp: list_all_iff is_digit_def)

lemma starts_dot:
  "46 \<notin> set x \<Longrightarrow> 46 \<notin> set p \<Longrightarrow>
     starts_with (x @ 46 # r) (p @ 46 # s) \<longleftrightarrow> x = p \<and> starts_with r s"
proof (induction x arbitrary: p)
  case Nil
  then show ?case by (cases p) auto
next
  case (Cons c x)
  then show ?case by (cases p) auto
qed

lemma length_show_nat: "length (show_nat n) \<le> Suc n"
proof (induction n rule: show_nat.induct)
  case (1 n)
  show ?case
  proof (cases "n < 10")
    case False
    with 1 have "length (show_nat (n div 10)) \<le> Suc (n div 10)" by simp
    moreover have "Suc (Suc (n div 10)) \<le> Suc n" using False by simp
    ultimately show ?thesis using False by (simp add: show_nat.simps [of n])
  qed (simp add: show_nat.simps [of n])
qed

lemma py_int_show_nat:
  assumes "n < 4300"
  shows "py_int 10 (show_nat n) = Some (int n)"
proof -
  have "foldl (\<lambda>n d. 10 * n + d) 0 (map (\<lambda>c. c - 48) (show_nat n)) = n"
    using digits_val_show [of n] by (simp add: digits_val_def foldl_map)
  moreover have "list_all (\<lambda>c. base_digit 10 c = Some (c - 48)) (show_nat n)"
    using show_nat_digits [of n] by (auto simp: list_all_iff base_digit_ascii is_digit_def)
  moreover have "list_all plain_digit (show_nat n)"
    using show_nat_digits [of n] by (auto simp: list_all_iff plain_digit_def)
  moreover have "length (show_nat n) \<le> 4300" using assms length_show_nat [of n] by simp
  ultimately show ?thesis
    using py_int_plain [of "show_nat n" 10 "\<lambda>c. c - 48"] show_nat_digits [of n] by simp
qed

fun private_octets :: "octets \<Rightarrow> bool" where
  "private_octets (a, b, c, d) \<longleftrightarrow>
     a = 127 \<or> a = 10 \<or> a = 192 \<and> b = 168 \<or> a = 172 \<and> 16 \<le> b \<and> b \<le> 31 \<or>
     (a, b, c, d) = (0, 0, 0, 0)"

lemma literal_shows:
  "u ''127.'' = show_nat 127 @ [46]" "u ''10.'' = show_nat 10 @ [46]"
  "u ''192.168.'' = show_nat 192 @ 46 # show_nat 168 @ [46]" "u ''172.'' = show_nat 172 @ [46]"
  "u ''0.0.0.0'' = dotted (0, 0, 0, 0)"
  by code_simp+

lemma dotted_split: "split_on 46 (dotted (a, b, c, d)) = [show_nat a, show_nat b, show_nat c, show_nat d]"
  by (simp add: split_on_app split_on_fresh show_nat_no_dot)

lemma dotted_inj: "dotted p = dotted q \<longleftrightarrow> p = q"
proof
  obtain a b c d a' b' c' d' where pq: "p = (a, b, c, d)" "q = (a', b', c', d')"
    by (cases p; cases q)
  assume "dotted p = dotted q"
  then have "split_on 46 (dotted p) = split_on 46 (dotted q)" by simp
  then show "p = q" unfolding pq dotted_split by (simp add: show_nat_inj)
qed simp

lemma dotted_head: "\<exists>c s. dotted q = c # s \<and> is_digit c"
proof -
  obtain a b c d where q: "q = (a, b, c, d)" by (cases q)
  show ?thesis using show_nat_digits [of a] by (cases "show_nat a") (auto simp: q)
qed

lemma dotted_not_other: "dotted q \<noteq> u ''::''" "\<not> starts_with (dotted q) (u ''ipv6:'')"
  using dotted_head [of q] by (auto simp: u_def is_digit_def)

lemma is_local_dotted:
  assumes "octets_ok q"
  shows "is_local (dotted q) \<longleftrightarrow> private_octets q"
proof -
  obtain a b c d where q: "q = (a, b, c, d)" by (cases q)
  have b: "py_int 10 (show_nat b) = Some (int b)" using assms q by (simp add: py_int_show_nat)
  have st: "starts_with (dotted q) (show_nat n @ [46]) \<longleftrightarrow> a = n" for n
    by (simp add: q starts_dot show_nat_no_dot show_nat_inj)
  have st2: "starts_with (dotted q) (show_nat n @ 46 # show_nat m @ [46]) \<longleftrightarrow> a = n \<and> b = m" for n m
    by (simp add: q starts_dot show_nat_no_dot show_nat_inj)
  have parts: "split_on 46 (dotted q) = [show_nat a, show_nat b, show_nat c, show_nat d]"
    unfolding q by (rule dotted_split)
  have zero: "dotted q = dotted (0, 0, 0, 0) \<longleftrightarrow> q = (0, 0, 0, 0)" by (rule dotted_inj)
  have "is_local (dotted q) \<longleftrightarrow> a = 127 \<or> a = 10 \<or> a = 192 \<and> b = 168 \<or>
      a = 172 \<and> 16 \<le> b \<and> b \<le> 31 \<or> q = (0, 0, 0, 0)"
    unfolding is_local_def literal_shows st st2 parts zero
    by (simp add: dotted_not_other b del: dotted.simps) blast
  then show ?thesis by (simp add: q)
qed

section \<open>From the kernel's table to the alerts\<close>

record table_row =
  tr_slot :: pystr
  tr_local :: "octets \<times> nat"
  tr_remote :: "octets \<times> nat"
  tr_rest :: "pystr list"

definition row_ok :: "table_row \<Rightarrow> bool" where
  "row_ok r \<longleftrightarrow> octets_ok (fst (tr_local r)) \<and> snd (tr_local r) < 65536 \<and>
     octets_ok (fst (tr_remote r)) \<and> snd (tr_remote r) < 65536 \<and> 7 \<le> length (tr_rest r)"

definition row_words :: "table_row \<Rightarrow> pystr list" where
  "row_words r = tr_slot r # kernel_addr (fst (tr_local r)) (snd (tr_local r)) #
     kernel_addr (fst (tr_remote r)) (snd (tr_remote r)) # tr_rest r"

text \<open>The policy over numeric addresses.\<close>

definition expected_alert :: "monitor \<Rightarrow> octets \<times> nat \<Rightarrow> (alert_reason \<times> int) option" where
  "expected_alert m remote =
    (let (q, port) = remote
     in if port = 0 \<or> q = (0, 0, 0, 0) then None
        else if dotted q \<in> nm_blocked_remotes m then Some (BlockedHost, 95)
        else if port \<in> {25, 465, 587, 2525} \<and> int port \<notin> nm_allowed_ports m
        then Some (HiddenSmtp (int port), 95)
        else if nm_allowed_remotes m \<noteq> {} \<and> dotted q \<notin> nm_allowed_remotes m \<and> \<not> private_octets q
        then Some (UnapprovedDestination, 80) else None)"

definition policy_alert :: "monitor \<Rightarrow> octets \<times> nat \<Rightarrow> network_alert option" where
  "policy_alert m remote =
     map_option (\<lambda>(reason, severity). \<lparr>na_remote_addr = dotted (fst remote),
       na_remote_port = int (snd remote), na_reason = reason, na_severity = severity\<rparr>)
       (expected_alert m remote)"

lemma read_line_row:
  assumes "row_ok r" "py_words line = row_words r"
  shows "\<exists>c. read_line line = Some c \<and> cn_remote_addr c = dotted (fst (tr_remote r)) \<and>
    cn_remote_port c = int (snd (tr_remote r))"
  using assms parse_kernel_addr
  by (simp add: read_line_def row_words_def row_ok_def Let_def)

lemma alert_for_dotted:
  assumes "octets_ok q" "cn_remote_addr c = dotted q" "cn_remote_port c = int port"
  shows "alert_for m c = policy_alert m (q, port)"
proof -
  have "int port \<in> SMTP_PORTS \<longleftrightarrow> port \<in> {25, 465, 587, 2525}" by (auto simp: SMTP_PORTS_def)
  then show ?thesis
    using assms(2,3) is_local_dotted [OF assms(1)] dotted_not_other [of q] dotted_inj [of q "(0, 0, 0, 0)"]
    by (simp add: alert_for_def policy_alert_def expected_alert_def literal_shows Let_def)
qed

lemma map_filter_Cons: "List.map_filter f (x # xs) = (case f x of None \<Rightarrow> [] | Some y \<Rightarrow> [y]) @ List.map_filter f xs"
  by (simp add: map_filter_def split: option.splits)

lemma scan_rows:
  assumes "list_all row_ok rows" "map py_words lines = map row_words rows"
  shows "List.map_filter (alert_for m) (List.map_filter read_line lines) =
    List.map_filter (\<lambda>r. policy_alert m (tr_remote r)) rows"
  using assms
proof (induction rows arbitrary: lines)
  case Nil
  then show ?case by (simp add: map_filter_def)
next
  case (Cons r rows)
  then obtain l ls where ls: "lines = l # ls" "py_words l = row_words r"
    "map py_words ls = map row_words rows" by auto
  from Cons.prems(1) have ok: "row_ok r" "octets_ok (fst (tr_remote r))"
    by (simp_all add: row_ok_def)
  from read_line_row [OF ok(1) ls(2)] obtain c where c: "read_line l = Some c"
    "cn_remote_addr c = dotted (fst (tr_remote r))" "cn_remote_port c = int (snd (tr_remote r))" by blast
  have a: "alert_for m c = policy_alert m (tr_remote r)"
    using alert_for_dotted [OF ok(2) c(2,3)] by simp
  have "List.map_filter (alert_for m) (List.map_filter read_line ls) =
      List.map_filter (\<lambda>r. policy_alert m (tr_remote r)) rows"
    using Cons.IH [OF _ ls(3)] Cons.prems(1) by simp
  then show ?case
    by (cases "policy_alert m (tr_remote r)") (simp_all add: ls(1) map_filter_Cons c(1) a)
qed

text \<open>
  C32: From the kernel's table to the alerts, for IPv4. When each line of \<open>/proc/net/tcp\<close> has the
  kernel's fields (addresses as the hexadecimal of the little-endian address word and of the
  port), the scan raises, in the order of the table, exactly the alerts the policy names over the
  numeric addresses and ports: blocked host before hidden SMTP before unapproved destination, the
  last only with an allowlist and outside 127/8, 10/8, 192.168/16 and 172.16/12; and it adds them
  to the log.
\<close>

theorem scan_reports_policy:
  assumes "list_all row_ok rows" "map py_words lines = map row_words rows"
  shows "let (alerts, m') = nm_scan [Some (header # lines), None] m in
    alerts = List.map_filter (\<lambda>r. policy_alert m (tr_remote r)) rows \<and>
    nm_alerts m' = nm_alerts m @ alerts"
  using scan_rows [OF assms] by (simp add: nm_scan_def read_connections_def Let_def)

definition sample_rows :: "table_row list" where
  "sample_rows = [\<lparr>tr_slot = u ''0:'', tr_local = ((10, 0, 0, 5), 51000),
     tr_remote = ((93, 184, 216, 34), 587),
     tr_rest = [u ''01'', u ''a'', u ''b'', u ''c'', u ''1000'', u ''0'', u ''4242'']\<rparr>]"

definition sample_lines :: "pystr list" where
  "sample_lines = [u ''   0: 0500000A:C738 22D8B85D:024B 01 a b c 1000 0 4242'']"

lemma scan_reports_policy_witness:
  "let (alerts, m') = nm_scan [Some (u ''sl'' # sample_lines), None] make_monitor in
    alerts = List.map_filter (\<lambda>r. policy_alert make_monitor (tr_remote r)) sample_rows \<and>
    nm_alerts m' = nm_alerts make_monitor @ alerts"
  by (rule scan_reports_policy) code_simp+

lemma split_on_parts: "x \<in> set (split_on c s) \<Longrightarrow> c \<notin> set x"
proof (induction s arbitrary: x)
  case (Cons d s)
  then show ?case by (cases "split_on c s") (auto split: if_splits)
qed simp

text \<open>
  No IPv6 destination is ever reported as unapproved: an address field of any other length
  than eight hexadecimal digits reads as an address with the prefix \<open>ipv6:\<close>, which counts as local.
\<close>

theorem ipv6_never_unapproved:
  assumes "read_line line = Some c" "parse_addr (py_words line ! 2) = Some (addr, port)"
    and "length (takeWhile (\<lambda>ch. ch \<noteq> 58) (py_words line ! 2)) \<noteq> 8"
  shows "map_option na_reason (alert_for m c) \<noteq> Some UnapprovedDestination"
proof -
  let ?w = "py_words line ! 2"
  from assms(2) obtain a b where ab: "split_on 58 ?w = [a, b]"
    by (auto simp: parse_addr_def split: list.splits)
  have "?w = a @ 58 # b" using join_split_on [of 58 ?w] ab by simp
  moreover have "58 \<notin> set a" using split_on_parts [of a 58 ?w] ab by simp
  ultimately have "takeWhile (\<lambda>ch. ch \<noteq> 58) ?w = a" by (simp add: takeWhile_append takeWhile_eq_all_conv) 
  with assms(3) ab assms(2) have "starts_with addr (u ''ipv6:'')"
    by (auto simp: parse_addr_def split: option.splits)
  moreover have "cn_remote_addr c = addr"
    using assms(1,2) by (auto simp: read_line_def Let_def split: if_splits option.splits)
  ultimately have "is_local (cn_remote_addr c)" by (simp add: is_local_def)
  then show ?thesis by (simp add: alert_for_def Let_def)
qed

definition sample_line6 :: pystr where
  "sample_line6 = u ''   0: 00000000000000000000000001000000:C738 B80D0120000000000000000001000000:01BB 01 a b c 1000 0 7''"

lemma ipv6_never_unapproved_witness:
  "map_option na_reason (alert_for (nm_allow (u ''10.0.0.1'') None make_monitor)
     (the (read_line sample_line6))) \<noteq> Some UnapprovedDestination"
  by (rule ipv6_never_unapproved [where line = sample_line6
      and addr = "u ''ipv6:b80d0120000000000000000001000000''" and port = 443]) code_simp+

end
