(* ===== verification/Honeypot.thy ===== *)
theory Honeypot
  imports JsonDump
begin

text \<open>
  \<open>defense10/honeypot.py\<close>: canary tokens and the scan for them. The random parts of a token
  (\<open>secrets.token_hex\<close> and the like), SHA-256 and \<open>float.__repr__\<close> are arguments. \<open>_flatten\<close> joins the
  texts of the values of a payload with blanks; the keys of objects are not part of it.
\<close>

section \<open>State and operations\<close>

datatype token_type = AwsKey | ApiKey | Password | Email | Generic

record token_meta =
  tk_id :: pystr
  tk_type :: token_type
  tk_label :: pystr
  tk_minted_at :: rat

record canary_trip =
  ct_token_id :: pystr
  ct_token_value :: pystr
  ct_context :: pystr
  ct_severity :: int

record vault =
  va_tokens :: "(pystr \<times> token_meta) list"
  va_trips :: "canary_trip list"

definition make_vault :: vault where
  "make_vault = \<lparr>va_tokens = [], va_trips = []\<rparr>"

text \<open>The outcomes of the random source that one \<open>mint\<close> draws.\<close>

record random_draw =
  rd_hex16 :: pystr
  rd_hex8 :: pystr
  rd_hex16_key :: pystr
  rd_urlsafe16 :: pystr
  rd_hex20 :: pystr
  rd_name :: pystr

definition upper_hex :: "pystr \<Rightarrow> pystr" where
  "upper_hex s = map (\<lambda>c. if 97 \<le> c \<and> c \<le> 122 then c - 32 else c) s"

fun token_value :: "token_type \<Rightarrow> random_draw \<Rightarrow> pystr" where
  "token_value AwsKey rd = u ''AKIA'' @ take 16 (upper_hex (rd_hex8 rd))"
| "token_value ApiKey rd = u ''sk_live_'' @ rd_hex16_key rd"
| "token_value Password rd = rd_urlsafe16 rd"
| "token_value Email rd = rd_name rd @ [45] @ take 4 (rd_hex16 rd) @ u ''@internal.company.io''"
| "token_value Generic rd = rd_hex20 rd"

definition mint :: "(pystr \<Rightarrow> pystr) \<Rightarrow> random_draw \<Rightarrow> token_type \<Rightarrow> pystr \<Rightarrow> rat \<Rightarrow> vault \<Rightarrow> pystr \<times> vault" where
  "mint sha256_hex rd token_type label now v =
    (let value = token_value token_type rd
     in (value, v\<lparr>va_tokens := dset value
           \<lparr>tk_id = take 16 (sha256_hex value), tk_type = token_type, tk_label = label,
            tk_minted_at = now\<rparr> (va_tokens v)\<rparr>))"

text \<open>\<open>str(x)\<close> of a scalar.\<close>

fun str_scalar :: "(rat \<Rightarrow> pystr) \<Rightarrow> pyval \<Rightarrow> pystr" where
  "str_scalar fr PNone = u ''None''"
| "str_scalar fr (PBool b) = (if b then u ''True'' else u ''False'')"
| "str_scalar fr (PInt i) = show_int i"
| "str_scalar fr (PFloat (Fin q)) = fr q"
| "str_scalar fr (PFloat PosInf) = u ''inf''"
| "str_scalar fr (PFloat NegInf) = u ''-inf''"
| "str_scalar fr (PFloat NaN) = u ''nan''"
| "str_scalar fr (PStr s) = s"
| "str_scalar fr _ = []"

fun flatten :: "(rat \<Rightarrow> pystr) \<Rightarrow> pyval \<Rightarrow> pystr" where
  "flatten fr (PDict d) = join_with [32] (map (\<lambda>(k, v). flatten fr v) d)"
| "flatten fr (PList vs) = join_with [32] (map (flatten fr) vs)"
| "flatten fr v = str_scalar fr v"

definition canary_scan :: "(rat \<Rightarrow> pystr) \<Rightarrow> pyval \<Rightarrow> pystr \<Rightarrow> vault \<Rightarrow> canary_trip list \<times> vault" where
  "canary_scan fr payload context v =
    (let text = flatten fr payload;
         trips = map (\<lambda>(value, meta). \<lparr>ct_token_id = tk_id meta, ct_token_value = value,
             ct_context = (if context \<noteq> [] then context else u ''outbound_payload''),
             ct_severity = 100\<rparr>)
           (filter (\<lambda>(value, meta). contains text value) (va_tokens v))
     in (trips, v\<lparr>va_trips := va_trips v @ trips\<rparr>))"

text \<open>The name of a call goes into the context through an f-string; \<open>show\<close> is \<open>str\<close> of it.\<close>

definition scan_tool_call :: "(rat \<Rightarrow> pystr) \<Rightarrow> (pyval \<Rightarrow> pystr) \<Rightarrow> pydict \<Rightarrow> vault \<Rightarrow> canary_trip list \<times> vault" where
  "scan_tool_call fr show_val tool_call v =
     canary_scan fr (PDict tool_call)
       (u ''tool_call:'' @ show_val (dget_or tool_call (u ''name'') (PStr []))) v"

definition token_count :: "vault \<Rightarrow> nat" where
  "token_count v = length (va_tokens v)"

section \<open>Where a token can hide\<close>

text \<open>The leaves of a payload, at any depth, as the texts that are compared.\<close>

fun leaves :: "(rat \<Rightarrow> pystr) \<Rightarrow> pyval \<Rightarrow> pystr list" where
  "leaves fr (PDict d) = concat (map (\<lambda>(k, v). leaves fr v) d)"
| "leaves fr (PList vs) = concat (map (leaves fr) vs)"
| "leaves fr v = [str_scalar fr v]"

lemma contains_mono: "contains s p \<Longrightarrow> contains (a @ s @ b) p"
  unfolding contains_iff by (metis append.assoc)

lemma contains_split:
  assumes "contains (x @ c # y) p" "c \<notin> set p"
  shows "contains x p \<or> contains y p"
proof -
  from assms(1) obtain a b where ab: "x @ c # y = a @ p @ b" unfolding contains_iff by blast
  then consider us where "x = a @ us" "us @ c # y = p @ b" | us where "x @ us = a" "c # y = us @ p @ b"
    by (auto simp: append_eq_append_conv2)
  then show ?thesis
  proof cases
    case 1
    then consider vs where "us = p @ vs" | vs where "p = us @ vs" "c # y = vs @ b"
      by (auto simp: append_eq_append_conv2)
    then show ?thesis
    proof cases
      case 1
      with \<open>x = a @ us\<close> show ?thesis unfolding contains_iff by auto
    next
      case 2
      with assms(2) have "vs = []" by (cases vs) auto
      with 2 \<open>x = a @ us\<close> have "x = a @ p @ []" by simp
      then show ?thesis unfolding contains_iff by blast
    qed
  next
    case 2
    show ?thesis
    proof (cases us)
      case Nil
      with 2 assms(2) have "p = []" by (cases p) auto
      then show ?thesis by simp
    next
      case (Cons d us')
      with 2 have "y = us' @ p @ b" by simp
      then show ?thesis unfolding contains_iff by blast
    qed
  qed
qed

lemma contains_join:
  assumes "c \<notin> set p" "p \<noteq> []"
  shows "contains (join_with [c] xs) p \<longleftrightarrow> (\<exists>x \<in> set xs. contains x p)"
proof (induction xs)
  case Nil
  with assms(2) show ?case by (auto simp: contains_iff)
next
  case (Cons x xs)
  show ?case
  proof (cases xs)
    case Nil
    then show ?thesis by simp
  next
    case (Cons y ys)
    then have j: "join_with [c] (x # xs) = x @ c # join_with [c] xs" by simp
    have "contains (x @ c # join_with [c] xs) p \<longleftrightarrow> contains x p \<or> contains (join_with [c] xs) p"
      using contains_split [OF _ assms(1)] contains_mono [of x p "[]" "c # join_with [c] xs"]
        contains_mono [of "join_with [c] xs" p "x @ [c]" "[]"] by auto
    with Cons.IH j show ?thesis by simp
  qed
qed

lemma contains_flatten:
  assumes "32 \<notin> set p" "p \<noteq> []"
  shows "contains (flatten fr v) p \<longleftrightarrow> (\<exists>l \<in> set (leaves fr v). contains l p)"
proof (induction fr v rule: flatten.induct)
  case (1 fr d)
  have "contains (flatten fr (snd e)) p = (\<exists>l \<in> set (leaves fr (snd e)). contains l p)"
    if "e \<in> set d" for e
    using "1.IH" [OF that prod.collapse] .
  then show ?case by (auto simp: contains_join [OF assms] case_prod_unfold)
next
  case (2 fr vs)
  then show ?case by (simp add: contains_join [OF assms])
qed simp_all

definition blank_free_tokens :: "vault \<Rightarrow> bool" where
  "blank_free_tokens v \<longleftrightarrow> list_all (\<lambda>(value, meta). value \<noteq> [] \<and> 32 \<notin> set value) (va_tokens v)"

text \<open>What \<open>secrets\<close> documents: the alphabets and lengths of the tokens it draws.\<close>

definition draw_ok :: "random_draw \<Rightarrow> bool" where
  "draw_ok rd \<longleftrightarrow>
     32 \<notin> set (rd_hex16 rd @ rd_hex8 rd @ rd_hex16_key rd @ rd_urlsafe16 rd @ rd_hex20 rd @ rd_name rd) \<and>
     rd_urlsafe16 rd \<noteq> [] \<and> rd_hex20 rd \<noteq> []"

lemma token_value_ok: "draw_ok rd \<Longrightarrow> token_value t rd \<noteq> [] \<and> 32 \<notin> set (token_value t rd)"
  by (cases t) (auto simp: draw_ok_def u_def upper_hex_def dest!: in_set_takeD split: if_splits)

lemma set_dset_subset: "set (dset k v d) \<subseteq> insert (k, v) (set d)"
  by (induction k v d rule: dset.induct) auto

lemma mint_blank_free:
  assumes "blank_free_tokens v" "draw_ok rd"
  shows "blank_free_tokens (snd (mint sha rd t label now v))"
proof -
  have "e \<in> set (va_tokens v) \<or> fst e = token_value t rd"
    if "e \<in> set (va_tokens (snd (mint sha rd t label now v)))" for e
    using that set_dset_subset by (fastforce simp: mint_def Let_def)
  with assms(1) token_value_ok [OF assms(2), of t] show ?thesis
    unfolding blank_free_tokens_def list_all_iff case_prod_unfold by metis
qed

fun mint_all :: "(pystr \<Rightarrow> pystr) \<Rightarrow> (random_draw \<times> token_type \<times> pystr \<times> rat) list \<Rightarrow> vault \<Rightarrow> vault" where
  "mint_all sha [] v = v"
| "mint_all sha ((rd, t, label, now) # ms) v = mint_all sha ms (snd (mint sha rd t label now v))"

lemma mint_all_blank_free:
  "blank_free_tokens v \<Longrightarrow> list_all (draw_ok \<circ> fst) ms \<Longrightarrow> blank_free_tokens (mint_all sha ms v)"
  by (induction sha ms v rule: mint_all.induct) (simp_all add: mint_blank_free)

text \<open>
  The scan finds exactly the planted tokens. For a vault filled by any minting, a scan of a
  payload trips, in minting order, on exactly the tokens that occur inside one of the payload's
  leaves, at any depth of nesting: a token is neither missed nor made up by the joining of two
  leaves, and the trips are the log's new tail.
\<close>

theorem canary_scan_exact:
  assumes "list_all (draw_ok \<circ> fst) ms"
  shows "let v = mint_all sha ms make_vault; (trips, v') = canary_scan fr payload context v in
    map ct_token_value trips =
      filter (\<lambda>value. \<exists>l \<in> set (leaves fr payload). contains l value) (map fst (va_tokens v)) \<and>
    va_trips v' = va_trips v @ trips \<and> va_tokens v' = va_tokens v"
proof -
  let ?v = "mint_all sha ms make_vault"
  have "blank_free_tokens ?v"
    by (rule mint_all_blank_free [OF _ assms]) (simp add: blank_free_tokens_def make_vault_def)
  then have "contains (flatten fr payload) tok \<longleftrightarrow> (\<exists>l \<in> set (leaves fr payload). contains l tok)"
    if "(tok, meta) \<in> set (va_tokens ?v)" for tok meta
    using that by (intro contains_flatten) (auto simp: blank_free_tokens_def list_all_iff)
  then have "filter (\<lambda>(value, meta). contains (flatten fr payload) value) (va_tokens ?v) =
      filter (\<lambda>(value, meta). \<exists>l \<in> set (leaves fr payload). contains l value) (va_tokens ?v)"
    by (intro filter_cong) auto
  then show ?thesis
    by (simp add: canary_scan_def Let_def filter_map comp_def case_prod_unfold)
qed

definition sample_draw :: random_draw where
  "sample_draw = \<lparr>rd_hex16 = u ''00ff'', rd_hex8 = u ''0a0b0c0d0e0f1a1b'', rd_hex16_key = u ''77'',
     rd_urlsafe16 = u ''x-Y_'', rd_hex20 = u ''deadbeef'', rd_name = u ''ops''\<rparr>"

lemma canary_scan_exact_witness:
  "let v = mint_all id [(sample_draw, AwsKey, [], 0), (sample_draw, Generic, [], 1)] make_vault;
      (trips, v') = canary_scan (\<lambda>q. [])
        (PDict [(u ''a'', PList [PStr (u ''x''), PStr (u ''key=AKIA0A0B0C0D0E0F1A1B;'')])]) [] v in
    map ct_token_value trips =
      filter (\<lambda>value. \<exists>l \<in> set (leaves (\<lambda>q. [])
          (PDict [(u ''a'', PList [PStr (u ''x''), PStr (u ''key=AKIA0A0B0C0D0E0F1A1B;'')])])).
        contains l value) (map fst (va_tokens v)) \<and>
    va_trips v' = va_trips v @ trips \<and> va_tokens v' = va_tokens v"
  by (rule canary_scan_exact) code_simp

end
