(* ===== verification/PyValues.thy ===== *)
theory PyValues
  imports Prelude
begin

text \<open>
  Python operations on arbitrary JSON values that the defence layers share: hashing, membership of
  a value in a set of strings or of numbers, the slice \<open>xs[-n:]\<close> and the rates of the statistics
  (as the exact quotient that the float approximates).
\<close>

text \<open>A list or a dictionary cannot be hashed: using it as a key or testing \<open>x in s\<close> raises.\<close>

fun hashable :: "pyval \<Rightarrow> bool" where
  "hashable (PList vs) = False"
| "hashable (PDict d) = False"
| "hashable v = True"

text \<open>\<open>x in s\<close> for a hashable \<open>x\<close> and a set of strings, or of integers: \<open>1 == 1.0 == True\<close>.\<close>

fun in_strs :: "pyval \<Rightarrow> pystr set \<Rightarrow> bool" where
  "in_strs (PStr s) S = (s \<in> S)"
| "in_strs _ S = False"

fun in_ints :: "pyval \<Rightarrow> int set \<Rightarrow> bool" where
  "in_ints (PInt i) S = (i \<in> S)"
| "in_ints (PBool b) S = (of_bool b \<in> S)"
| "in_ints (PFloat (Fin q)) S = (q = of_int \<lfloor>q\<rfloor> \<and> \<lfloor>q\<rfloor> \<in> S)"
| "in_ints _ S = False"

lemma in_strs_empty [simp]: "\<not> in_strs v {}"
  by (cases v) simp_all

lemma in_ints_empty [simp]: "\<not> in_ints v {}"
  by (induction v "{} :: int set" rule: in_ints.induct) simp_all

lemma in_strs_hashable: "in_strs v S \<Longrightarrow> hashable v"
  by (cases v) simp_all

lemma in_strs_union [simp]: "in_strs v (S \<union> T) \<longleftrightarrow> in_strs v S \<or> in_strs v T"
  by (cases v) simp_all

text \<open>\<open>xs[-n:]\<close>: the last \<open>n\<close> elements, all of them for \<open>n = 0\<close>, all but the first \<open>-n\<close> for a
  negative \<open>n\<close>.\<close>

definition py_last :: "int \<Rightarrow> 'a list \<Rightarrow> 'a list" where
  "py_last n xs = (if 0 < n then drop (length xs - nat n) xs else drop (nat (- n)) xs)"

lemma py_last_zero [simp]: "py_last 0 xs = xs"
  by (simp add: py_last_def)

lemma py_last_pos: "0 < n \<Longrightarrow> py_last n xs = last_n (nat n) xs"
  by (simp add: py_last_def last_n_def)

lemma set_py_last: "set (py_last n xs) \<subseteq> set xs"
  by (auto simp: py_last_def dest: in_set_dropD)

lemma length_py_last: "0 < n \<Longrightarrow> int (length (py_last n xs)) = min n (int (length xs))"
  by (auto simp: py_last_def)

lemma in_map_filter: "y \<in> set (List.map_filter f xs) \<longleftrightarrow> (\<exists>x \<in> set xs. f x = Some y)"
  by (force simp: List.map_filter_def)

lemma last_n_append: "last_n n (last_n n xs @ ys) = last_n n (xs @ ys)"
proof (cases "n \<le> length xs")
  case True
  then have "length xs + length ys - n = (length xs - n) + length ys" by simp
  with True show ?thesis by (cases "length ys \<le> n") (auto simp: last_n_def add.commute)
qed (simp add: last_n_def)

text \<open>\<open>round(x)\<close>: halves go to the even neighbour.\<close>

definition round_even :: "rat \<Rightarrow> int" where
  "round_even q =
    (let f = \<lfloor>q\<rfloor>; d = q - of_int f
     in if d < 1 / 2 \<or> d = 1 / 2 \<and> even f then f else f + 1)"

lemma round_even_near: "\<bar>of_int (round_even q) - q\<bar> \<le> 1 / 2"
proof -
  have "of_int \<lfloor>q\<rfloor> \<le> q" "q < of_int \<lfloor>q\<rfloor> + 1" by linarith+
  then show ?thesis by (simp add: round_even_def Let_def abs_if) linarith
qed

text \<open>\<open>part / max(total, 1) * 100\<close>.\<close>

definition percent :: "nat \<Rightarrow> nat \<Rightarrow> rat" where
  "percent part whole = of_nat part / of_nat (max whole 1) * 100"

lemma percent_bounds: "part \<le> whole \<Longrightarrow> 0 \<le> percent part whole \<and> percent part whole \<le> 100"
  by (simp add: percent_def field_simps max_def)

text \<open>\<open>d[key] += 1\<close> on a \<open>defaultdict(int)\<close>.\<close>

definition bump :: "'k \<Rightarrow> ('k \<times> nat) list \<Rightarrow> ('k \<times> nat) list" where
  "bump k d = dset k (Suc (dget_or d k 0)) d"

text \<open>\<open>for x in xs: d[f(x)] += 1\<close>.\<close>

definition tally :: "('a \<Rightarrow> 'k) \<Rightarrow> 'a list \<Rightarrow> ('k \<times> nat) list" where
  "tally f xs = foldl (\<lambda>d x. bump (f x) d) [] xs"

lemma tally_snoc [simp]: "tally f (xs @ [x]) = bump (f x) (tally f xs)"
  by (simp add: tally_def)

lemma tally_count: "dget_or (tally f xs) k 0 = length (filter (\<lambda>x. f x = k) xs)"
proof (induction xs rule: rev_induct)
  case Nil
  show ?case by (simp add: tally_def)
next
  case (snoc x xs)
  then show ?case by (auto simp: bump_def dget_or_def split: option.splits if_splits)
qed

lemma tally_keys: "has_key (tally f xs) k \<longleftrightarrow> k \<in> f ` set xs"
proof (induction xs rule: rev_induct)
  case Nil
  show ?case by (simp add: tally_def has_key_def)
next
  case (snoc x xs)
  then show ?case by (auto simp: bump_def)
qed

text \<open>\<open>x == y\<close> on JSON values: numbers compare by value whatever their type, objects without regard
  to the order of their keys.\<close>

fun num_of :: "pyval \<Rightarrow> pyfloat option" where
  "num_of (PBool b) = Some (Fin (of_bool b))"
| "num_of (PInt i) = Some (Fin (of_int i))"
| "num_of (PFloat f) = Some f"
| "num_of _ = None"

function (sequential) py_eq :: "pyval \<Rightarrow> pyval \<Rightarrow> bool" where
  "py_eq PNone PNone = True"
| "py_eq (PStr s) (PStr t) = (s = t)"
| "py_eq (PList vs) (PList ws) = (length vs = length ws \<and> list_all (\<lambda>(v, w). py_eq v w) (zip vs ws))"
| "py_eq (PDict d) (PDict e) = (length d = length e \<and>
     list_all (\<lambda>(k, v). case dget e k of None \<Rightarrow> False | Some w \<Rightarrow> py_eq v w) d)"
| "py_eq v w = (case (num_of v, num_of w) of
     (Some x, Some y) \<Rightarrow> x \<noteq> NaN \<and> x = y | _ \<Rightarrow> False)"
  by pat_completeness auto
termination
proof (relation "measure (\<lambda>(v, w). size v)", goal_cases)
  case (2 vs ws x xa y)
  then have "xa \<in> set vs" by (auto dest: set_zip_leftD)
  then have "size xa \<le> size_list size vs" by (rule size_list_estimation') simp
  then show ?case by simp
next
  case (3 d e x xa y a)
  then have "(xa, y) \<in> set d" by auto
  then have "size y \<le> size_list (size_prod (\<lambda>x. 0) size) d"
    by (rule size_list_estimation') simp
  then show ?case by simp
qed auto

text \<open>A path in dot notation: each part must be a key of the dictionary reached so far.\<close>

fun resolve_parts :: "pystr list \<Rightarrow> pyval \<Rightarrow> pyval option" where
  "resolve_parts [] v = Some v"
| "resolve_parts (part # parts) v =
    (case v of
       PDict d \<Rightarrow> (case dget d part of None \<Rightarrow> None | Some w \<Rightarrow> resolve_parts parts w)
     | _ \<Rightarrow> None)"

lemma dget_Some_in: "dget d k = Some v \<Longrightarrow> (k, v) \<in> set d"
  by (auto simp: dget_def dest: map_of_SomeD)

lemma dget_of_in: "distinct (map fst d) \<Longrightarrow> (k, v) \<in> set d \<Longrightarrow> dget d k = Some v"
  by (simp add: dget_def)

lemma py_eq_dict_iff:
  assumes "distinct (map fst d)" "distinct (map fst e)"
  shows "py_eq (PDict d) (PDict e) \<longleftrightarrow> fst ` set d = fst ` set e \<and>
    (\<forall>k v w. dget d k = Some v \<and> dget e k = Some w \<longrightarrow> py_eq v w)"
proof
  assume eq: "py_eq (PDict d) (PDict e)"
  have sub: "fst ` set d \<subseteq> fst ` set e"
  proof
    fix k assume "k \<in> fst ` set d"
    then obtain v where "(k, v) \<in> set d" by auto
    with eq have "dget e k \<noteq> None" by (auto simp: list_all_iff split: option.splits)
    then show "k \<in> fst ` set e" by (auto simp: dget_def map_of_eq_None_iff)
  qed
  have "card (fst ` set d) = length d" "card (fst ` set e) = length e"
    using distinct_card [OF assms(1)] distinct_card [OF assms(2)] by simp_all
  with eq sub have "fst ` set d = fst ` set e" by (simp add: card_subset_eq)
  moreover have "py_eq v w" if "dget d k = Some v" "dget e k = Some w" for k v w
    using eq dget_Some_in [OF that(1)] that(2) by (auto simp: list_all_iff)
  ultimately show "fst ` set d = fst ` set e \<and>
      (\<forall>k v w. dget d k = Some v \<and> dget e k = Some w \<longrightarrow> py_eq v w)" by blast
next
  assume r: "fst ` set d = fst ` set e \<and> (\<forall>k v w. dget d k = Some v \<and> dget e k = Some w \<longrightarrow> py_eq v w)"
  have "length d = length e"
    using distinct_card [OF assms(1)] distinct_card [OF assms(2)] r by simp
  moreover have "case dget e k of None \<Rightarrow> False | Some w \<Rightarrow> py_eq v w" if "(k, v) \<in> set d" for k v
  proof -
    have "k \<in> fst ` set e" using that r by force
    then obtain w where "dget e k = Some w" by (cases "dget e k") (auto simp: dget_def map_of_eq_None_iff)
    with r dget_of_in [OF assms(1) that] show ?thesis by auto
  qed
  ultimately show "py_eq (PDict d) (PDict e)" by (auto simp: list_all_iff)
qed

text \<open>Values without \<open>NaN\<close> and with distinct keys equal themselves.\<close>

fun comparable :: "pyval \<Rightarrow> bool" where
  "comparable (PFloat f) = (f \<noteq> NaN)"
| "comparable (PList vs) = list_all comparable vs"
| "comparable (PDict d) = (distinct (map fst d) \<and> list_all (\<lambda>(k, v). comparable v) d)"
| "comparable v = True"

lemma py_eq_refl: "comparable v \<Longrightarrow> py_eq v v"
proof (induction v rule: comparable.induct)
  case (2 vs)
  then show ?case by (auto simp: list_all_iff zip_same)
next
  case (3 d)
  then show ?case
    by (auto simp: list_all_iff dget_of_in split: option.splits)
qed auto

end
