(* ===== verification/Defense10.thy ===== *)
theory Defense10
  imports InjectionDetector SlidingWindow EgressInspector NetworkMonitor Honeypot PyValues
begin

text \<open>
  \<open>defense10/orchestrator10.py\<close>: the orchestrator over the intent registry, the canary vault, the
  classifier, the recipient allowlist and the sliding-window limiter, and its log of verdicts.
  Call ids (\<open>uuid4\<close>), clock readings, the classifier and the rendering of values in f-strings are
  arguments. A server id of a call is any JSON value; a list or an object raises when it is used
  as a key. The texts of reasons are constructors.
\<close>

section \<open>State\<close>

datatype defense_reason =
    CanaryExfiltrated pystr
  | MlThreat rat pystr
  | LimitReason limit_reason
  | UnauthorizedOutbound "pystr list"
  | ConnectionAlert alert_reason pystr int

record verdict10 =
  v10_call_id :: pystr
  v10_allowed :: bool
  v10_blocked_by :: pystr
  v10_reasons :: "defense_reason list"
  v10_layers_passed :: "pystr list"
  v10_severity :: int

record defense10 =
  d10_rate :: "pyval sliding_limiter"
  d10_whitelist :: "pyval allowlist"
  d10_honeypot :: vault
  d10_egress :: inspector
  d10_network :: monitor
  d10_email_rate :: int
  d10_verdicts :: "verdict10 list"
  d10_max_verdicts :: nat

record defense_env =
  de_repr :: "rat \<Rightarrow> pystr"
  de_str :: "pyval \<Rightarrow> pystr"
  de_ml :: ml_classifier

definition make_defense10 :: "int \<Rightarrow> defense10" where
  "make_defense10 email_rate_per_hour =
     \<lparr>d10_rate = make_sliding, d10_whitelist = make_allowlist False, d10_honeypot = make_vault,
      d10_egress = make_inspector (make_registry 300 10000), d10_network = make_monitor,
      d10_email_rate = email_rate_per_hour, d10_verdicts = [], d10_max_verdicts = 10000\<rparr>"

definition configure_server :: "pystr \<Rightarrow> pystr list \<Rightarrow> defense10 \<Rightarrow> defense10" where
  "configure_server server_id approved_domains d =
     d\<lparr>d10_rate := sw_set_limit (PStr server_id) (u ''send'') (d10_email_rate d) 3600 (d10_rate d),
       d10_whitelist := fold (approve_domain (PStr server_id)) approved_domains (d10_whitelist d)\<rparr>"

section \<open>Verdicts\<close>

definition d10_block :: "pystr \<Rightarrow> pystr \<Rightarrow> defense_reason list \<Rightarrow> int \<Rightarrow> pystr list \<Rightarrow> defense10 \<Rightarrow>
    verdict10 \<times> defense10" where
  "d10_block call_id layer reasons severity passed d =
    (let v = \<lparr>v10_call_id = call_id, v10_allowed = False, v10_blocked_by = layer,
           v10_reasons = reasons, v10_layers_passed = passed, v10_severity = severity\<rparr>
     in (v, d\<lparr>d10_verdicts := d10_verdicts d @ [v]\<rparr>))"

definition d10_allow :: "pystr \<Rightarrow> pystr list \<Rightarrow> defense10 \<Rightarrow> verdict10 \<times> defense10" where
  "d10_allow call_id passed d =
    (let v = \<lparr>v10_call_id = call_id, v10_allowed = True, v10_blocked_by = [], v10_reasons = [],
           v10_layers_passed = passed, v10_severity = 0\<rparr>;
         vs = d10_verdicts d @ [v]
     in (v, d\<lparr>d10_verdicts := (if length vs > d10_max_verdicts d then last_n (d10_max_verdicts d) vs else vs)\<rparr>))"

text \<open>Every address in every string of the arguments, whatever the field.\<close>

fun walk_emails :: "pyval \<Rightarrow> pystr list" where
  "walk_emails (PStr s) = find_emails s"
| "walk_emails (PDict d) = concat (map (\<lambda>(k, v). walk_emails v) d)"
| "walk_emails (PList vs) = concat (map walk_emails vs)"
| "walk_emails _ = []"

datatype defense_exn = AttributeErr | UnhashableKey | ClassifierErr pystr

definition LAYER_HONEYPOT :: pystr where "LAYER_HONEYPOT = u ''L9_honeypot''"
definition LAYER_ML :: pystr where "LAYER_ML = u ''L4_ml_classifier''"
definition LAYER_WHITELIST :: pystr where "LAYER_WHITELIST = u ''L8_recipient_whitelist''"
definition LAYER_RATE :: pystr where "LAYER_RATE = u ''L7_rate_limit''"
definition LAYER_EGRESS :: pystr where "LAYER_EGRESS = u ''L6_dpi_egress''"
definition LAYER_NETWORK :: pystr where "LAYER_NETWORK = u ''L3_network_monitor''"

section \<open>The inbound call\<close>

text \<open>The last two layers, for a call that the canaries and the classifier passed.\<close>

definition inspect_recipients :: "pystr \<Rightarrow> pyval \<Rightarrow> pystr list \<Rightarrow> pystr list \<Rightarrow> rat \<Rightarrow> rat \<Rightarrow> defense10 \<Rightarrow>
    (defense_exn + verdict10) \<times> defense10" where
  "inspect_recipients call_id server_id recipients passed now1 now2 d =
    (if recipients = []
     then map_prod Inr id (d10_allow call_id (passed @ [LAYER_WHITELIST, LAYER_RATE]) d)
     else if \<not> hashable server_id then (Inl UnhashableKey, d)
     else (let (wl, w) = wl_check server_id recipients now1 (d10_whitelist d);
               d1 = d\<lparr>d10_whitelist := w\<rparr>
           in if \<not> ld_allowed wl
              then map_prod Inr id (d10_block call_id LAYER_WHITELIST [LimitReason (ld_reason wl)] 90 passed d1)
              else (let (rl, l) = sw_check server_id (u ''send'') now2 (d10_rate d1);
                        d2 = d1\<lparr>d10_rate := l\<rparr>
                    in if \<not> ld_allowed rl
                       then map_prod Inr id (d10_block call_id LAYER_RATE [LimitReason (ld_reason rl)] 70
                              (passed @ [LAYER_WHITELIST]) d2)
                       else map_prod Inr id (d10_allow call_id (passed @ [LAYER_WHITELIST, LAYER_RATE]) d2))))"

definition record_call :: "pystr \<Rightarrow> pydict \<Rightarrow> rat \<Rightarrow> rat \<Rightarrow> defense10 \<Rightarrow> bool \<times> defense10" where
  "record_call call_id tool_call t0 t1 d =
    (let (ok, r) = record_intent call_id tool_call t0 t1 (ei_registry (d10_egress d))
     in (ok, d\<lparr>d10_egress := (d10_egress d)\<lparr>ei_registry := r\<rparr>\<rparr>))"

definition inspect_call :: "defense_env \<Rightarrow> pystr \<Rightarrow> pydict \<Rightarrow> rat \<Rightarrow> rat \<Rightarrow> rat \<Rightarrow> rat \<Rightarrow> defense10 \<Rightarrow>
    (defense_exn + verdict10) \<times> defense10" where
  "inspect_call env call_id tool_call t0 t1 t2 t3 d =
    (let server_id = dget_or tool_call (u ''server_id'') (PStr []);
         args = dget_or tool_call (u ''arguments'') (PDict []);
         (ok, d1) = record_call call_id tool_call t0 t1 d
     in if \<not> ok then (Inl AttributeErr, d1)
        else (let (trips, hp) = scan_tool_call (de_repr env) (de_str env) tool_call (d10_honeypot d1);
                  d2 = d1\<lparr>d10_honeypot := hp\<rparr>
              in if trips \<noteq> []
                 then map_prod Inr id (d10_block call_id LAYER_HONEYPOT
                        (map (\<lambda>t. CanaryExfiltrated (ct_token_id t)) trips) 100 [] d2)
                 else (let go = inspect_recipients call_id server_id (walk_emails args)
                             [LAYER_HONEYPOT, LAYER_ML] t2 t3 d2
                       in case de_ml env of
                            None \<Rightarrow> go
                          | Some classify \<Rightarrow>
                              (case classify tool_call of
                                 Inl e \<Rightarrow> (Inl (ClassifierErr e), d2)
                               | Inr p \<Rightarrow>
                                   if ml_is_threat p
                                   then map_prod Inr id (d10_block call_id LAYER_ML
                                          [MlThreat (ml_confidence p) (ml_threat_family p)]
                                          (py_trunc (ml_confidence p * 100)) [LAYER_HONEYPOT] d2)
                                   else go))))"

section \<open>The outbound call and the network\<close>

definition inspect_egress :: "defense_env \<Rightarrow> pystr \<Rightarrow> pyval \<Rightarrow> rat \<Rightarrow> defense10 \<Rightarrow> verdict10 \<times> defense10" where
  "inspect_egress env call_id actual_payload now d =
    (let (v, ei) = inspect_egress_payload (de_repr env) call_id actual_payload now (d10_egress d);
         d1 = d\<lparr>d10_egress := ei\<rparr>
     in if \<not> ev_allowed v
        then d10_block call_id LAYER_EGRESS [UnauthorizedOutbound (ev_unauthorized v)] (ev_severity v)
               [LAYER_EGRESS] d1
        else d10_allow call_id [LAYER_EGRESS] d1)"

definition scan_network :: "pystr \<Rightarrow> pystr list option list \<Rightarrow> defense10 \<Rightarrow> verdict10 \<times> defense10" where
  "scan_network call_id files d =
    (let (alerts, nm) = nm_scan files (d10_network d);
         d1 = d\<lparr>d10_network := nm\<rparr>
     in if alerts \<noteq> []
        then d10_block call_id LAYER_NETWORK
               (map (\<lambda>a. ConnectionAlert (na_reason a) (na_remote_addr a) (na_remote_port a)) (take 3 alerts))
               (foldr max (map na_severity alerts) (na_severity (hd alerts))) [] d1
        else d10_allow call_id [LAYER_NETWORK] d1)"

fun count_layers :: "verdict10 list \<Rightarrow> (pystr \<times> nat) list \<Rightarrow> (pystr \<times> nat) list" where
  "count_layers [] by_layer = by_layer"
| "count_layers (v # vs) by_layer =
     count_layers vs (if v10_blocked_by v \<noteq> []
       then dset (v10_blocked_by v) (dget_or by_layer (v10_blocked_by v) 0 + 1) by_layer else by_layer)"

record defense_stats =
  ds_total :: nat
  ds_blocked :: nat
  ds_allowed :: nat
  ds_by_layer :: "(pystr \<times> nat) list"
  ds_tokens :: nat

definition defense_stats_of :: "defense10 \<Rightarrow> defense_stats" where
  "defense_stats_of d =
    (let total = length (d10_verdicts d);
         blocked = length (filter (\<lambda>v. \<not> v10_allowed v) (d10_verdicts d))
     in \<lparr>ds_total = total, ds_blocked = blocked, ds_allowed = total - blocked,
         ds_by_layer = count_layers (d10_verdicts d) [], ds_tokens = token_count (d10_honeypot d)\<rparr>)"

section \<open>The decision on a call\<close>

lemma concat_nested: "concat (map f (concat (map g xs))) = concat (map (\<lambda>x. concat (map f (g x))) xs)"
  by (induction xs) simp_all

lemma walk_emails_strings: "walk_emails v = concat (map find_emails (extract_strings v))"
proof (induction v rule: walk_emails.induct)
  case (2 d)
  have "walk_emails (snd e) = concat (map find_emails (extract_strings (snd e)))" if "e \<in> set d" for e
    using "2.IH" [OF that prod.collapse] .
  then have "map (\<lambda>e. walk_emails (snd e)) d = map (\<lambda>e. concat (map find_emails (extract_strings (snd e)))) d"
    by (intro map_cong) auto
  then show ?case
    by (simp only: walk_emails.simps extract_strings.simps case_prod_unfold concat_nested)
next
  case (3 vs)
  then have "map walk_emails vs = map (\<lambda>v. concat (map find_emails (extract_strings v))) vs"
    by (intro map_cong) auto
  then show ?case by (simp only: walk_emails.simps extract_strings.simps concat_nested)
qed simp_all

definition server_of :: "pydict \<Rightarrow> pyval" where
  "server_of call = dget_or call (u ''server_id'') (PStr [])"

definition addresses_of :: "pydict \<Rightarrow> pystr list" where
  "addresses_of call = walk_emails (dget_or call (u ''arguments'') (PDict []))"

definition canary_in :: "defense_env \<Rightarrow> pydict \<Rightarrow> defense10 \<Rightarrow> bool" where
  "canary_in env call d \<longleftrightarrow>
     (\<exists>token \<in> fst ` set (va_tokens (d10_honeypot d)). contains (flatten (de_repr env) (PDict call)) token)"

definition ml_threat :: "defense_env \<Rightarrow> pydict \<Rightarrow> bool" where
  "ml_threat env call \<longleftrightarrow>
     (\<exists>classify p. de_ml env = Some classify \<and> classify call = Inr p \<and> ml_is_threat p)"

definition recipients_ok :: "pydict \<Rightarrow> defense10 \<Rightarrow> bool" where
  "recipients_ok call d \<longleftrightarrow>
     (\<forall>r \<in> set (addresses_of call). recipient_ok (dget_or (wl_approved (d10_whitelist d)) (server_of call) []) r)"

definition rate_ok :: "pydict \<Rightarrow> rat \<Rightarrow> defense10 \<Rightarrow> bool" where
  "rate_ok call now d \<longleftrightarrow> ld_allowed (fst (sw_check (server_of call) (u ''send'') now (d10_rate d)))"

text \<open>The layer that stops a call, in the order they are asked.\<close>

definition stopped_by :: "defense_env \<Rightarrow> pydict \<Rightarrow> rat \<Rightarrow> defense10 \<Rightarrow> pystr" where
  "stopped_by env call now d =
    (if canary_in env call d then LAYER_HONEYPOT
     else if ml_threat env call then LAYER_ML
     else if \<not> recipients_ok call d then LAYER_WHITELIST
     else if addresses_of call \<noteq> [] \<and> \<not> rate_ok call now d then LAYER_RATE else [])"

lemma layer_names: "LAYER_HONEYPOT \<noteq> []" "LAYER_ML \<noteq> []" "LAYER_WHITELIST \<noteq> []" "LAYER_RATE \<noteq> []"
  by (simp_all add: LAYER_HONEYPOT_def LAYER_ML_def LAYER_WHITELIST_def LAYER_RATE_def)

lemma scan_trips_iff:
  "fst (scan_tool_call (de_repr env) (de_str env) call (d10_honeypot d)) = [] \<longleftrightarrow> \<not> canary_in env call d"
  by (auto simp: scan_tool_call_def canary_scan_def canary_in_def Let_def filter_empty_conv)

lemma record_call_rest:
  "d10_honeypot (snd (record_call cid call t0 t1 d)) = d10_honeypot d"
  "d10_whitelist (snd (record_call cid call t0 t1 d)) = d10_whitelist d"
  "d10_rate (snd (record_call cid call t0 t1 d)) = d10_rate d"
  "d10_verdicts (snd (record_call cid call t0 t1 d)) = d10_verdicts d"
  by (simp_all add: record_call_def case_prod_unfold Let_def)

lemma block_fields:
  "d10_rate (snd (d10_block c l rs sev ps d)) = d10_rate d"
  "d10_whitelist (snd (d10_block c l rs sev ps d)) = d10_whitelist d"
  "fst (d10_block c l rs sev ps d) = \<lparr>v10_call_id = c, v10_allowed = False, v10_blocked_by = l,
           v10_reasons = rs, v10_layers_passed = ps, v10_severity = sev\<rparr>"
  by (simp_all add: d10_block_def Let_def)

lemma allow_fields:
  "d10_rate (snd (d10_allow c ps d)) = d10_rate d"
  "d10_whitelist (snd (d10_allow c ps d)) = d10_whitelist d"
  "v10_allowed (fst (d10_allow c ps d))" "v10_blocked_by (fst (d10_allow c ps d)) = []"
  by (simp_all add: d10_allow_def Let_def)

lemma inspect_recipients_effect:
  assumes "inspect_recipients cid (server_of call) (addresses_of call) passed t2 t3 d = (out, d')"
  shows "(\<forall>v. out = Inr v \<longrightarrow>
      v10_blocked_by v = (if \<not> recipients_ok call d then LAYER_WHITELIST
        else if addresses_of call \<noteq> [] \<and> \<not> rate_ok call t3 d then LAYER_RATE else []) \<and>
      (v10_allowed v \<longleftrightarrow> v10_blocked_by v = [])) \<and>
    d10_rate d' = (if addresses_of call \<noteq> [] \<and> hashable (server_of call) \<and> recipients_ok call d
      then snd (sw_check (server_of call) (u ''send'') t3 (d10_rate d)) else d10_rate d) \<and>
    d10_whitelist d' = (if addresses_of call \<noteq> [] \<and> hashable (server_of call)
      then snd (wl_check (server_of call) (addresses_of call) t2 (d10_whitelist d)) else d10_whitelist d) \<and>
    ((\<exists>v. out = Inr v) \<longleftrightarrow> addresses_of call = [] \<or> hashable (server_of call))"
proof -
  have w: "ld_allowed (fst (wl_check (server_of call) (addresses_of call) t2 (d10_whitelist d))) = recipients_ok call d"
    by (simp add: wl_check_allowed recipients_ok_def)
  show ?thesis
  proof (cases "addresses_of call = []")
    case True
    then have "recipients_ok call d" by (simp add: recipients_ok_def)
    with True assms show ?thesis
      by (auto simp: inspect_recipients_def allow_fields map_prod_def case_prod_unfold)
  next
    case False
    show ?thesis
    proof (cases "hashable (server_of call)")
      case True
      with False assms w show ?thesis
        by (cases "recipients_ok call d"; cases "rate_ok call t3 d")
          (auto simp: inspect_recipients_def case_prod_unfold Let_def map_prod_def block_fields
            allow_fields layer_names rate_ok_def)
    qed (use False assms in \<open>auto simp: inspect_recipients_def\<close>)
  qed
qed


definition go_recipients :: "pystr \<Rightarrow> pydict \<Rightarrow> rat \<Rightarrow> rat \<Rightarrow> defense10 \<Rightarrow> (defense_exn + verdict10) \<times> defense10" where
  "go_recipients cid call t2 t3 d =
     inspect_recipients cid (server_of call) (addresses_of call) [LAYER_HONEYPOT, LAYER_ML] t2 t3 d"

text \<open>The paths through the inbound inspection.\<close>

lemma inspect_call_cases:
  assumes "inspect_call env cid call t0 t1 t2 t3 d = (out, d')"
  obtains (raised) "\<exists>e. out = Inl e" "d10_rate d' = d10_rate d" "d10_whitelist d' = d10_whitelist d"
  | (blocked) v where "out = Inr v" "\<not> v10_allowed v" "v10_blocked_by v = stopped_by env call t3 d"
      "canary_in env call d \<or> ml_threat env call"
      "d10_rate d' = d10_rate d" "d10_whitelist d' = d10_whitelist d"
  | (went_on) d1 where "\<not> canary_in env call d" "\<not> ml_threat env call"
      "d10_rate d1 = d10_rate d" "d10_whitelist d1 = d10_whitelist d"
      "go_recipients cid call t2 t3 d1 = (out, d')"
proof -
  obtain ok d1 where r: "record_call cid call t0 t1 d = (ok, d1)" by (cases "record_call cid call t0 t1 d")
  from r record_call_rest [of cid call t0 t1 d]
  have rest: "d10_honeypot d1 = d10_honeypot d" "d10_whitelist d1 = d10_whitelist d" "d10_rate d1 = d10_rate d"
    by simp_all
  obtain trips hp where s: "scan_tool_call (de_repr env) (de_str env) call (d10_honeypot d1) = (trips, hp)"
    by (cases "scan_tool_call (de_repr env) (de_str env) call (d10_honeypot d1)")
  have trips: "trips = [] \<longleftrightarrow> \<not> canary_in env call d"
    using scan_trips_iff [of env call d] s rest by simp
  define d2 where "d2 = d1\<lparr>d10_honeypot := hp\<rparr>"
  have d2: "d10_rate d2 = d10_rate d" "d10_whitelist d2 = d10_whitelist d"
    using rest by (simp_all add: d2_def)
  note unf = inspect_call_def r s trips Let_def prod.case d2_def [symmetric] server_of_def [symmetric]
    addresses_of_def [symmetric] go_recipients_def [symmetric]
  show thesis
  proof (cases "ok \<and> \<not> canary_in env call d")
    case False
    show thesis
    proof (cases ok)
      case True
      with False have "canary_in env call d" by simp
      with True assms show thesis
        by (intro blocked [of "fst (d10_block cid LAYER_HONEYPOT
              (map (\<lambda>t. CanaryExfiltrated (ct_token_id t)) trips) 100 [] d2)"])
          (auto simp: unf block_fields d2 stopped_by_def map_prod_def case_prod_unfold)
    next
      case False
      with assms rest show thesis by (intro raised) (auto simp: unf)
    qed
  next
    case True
    then have c: "\<not> canary_in env call d" and ok by simp_all
    have eq: "(case de_ml env of None \<Rightarrow> go_recipients cid call t2 t3 d2
        | Some classify \<Rightarrow> (case classify call of Inl e \<Rightarrow> (Inl (ClassifierErr e), d2)
          | Inr p \<Rightarrow> if ml_is_threat p
              then map_prod Inr id (d10_block cid LAYER_ML [MlThreat (ml_confidence p) (ml_threat_family p)]
                (py_trunc (ml_confidence p * 100)) [LAYER_HONEYPOT] d2)
              else go_recipients cid call t2 t3 d2)) = (out, d')"
      using assms c \<open>ok\<close> unfolding go_recipients_def addresses_of_def server_of_def d2_def
      by (simp add: inspect_call_def r s trips Let_def)
    show thesis
    proof (cases "de_ml env")
      case None
      with eq c d2 show thesis by (intro went_on [of d2]) (auto simp: ml_threat_def)
    next
      case (Some classify)
      show thesis
      proof (cases "classify call")
        case (Inl e)
        with eq Some d2 show thesis by (intro raised) auto
      next
        case (Inr p)
        show thesis
        proof (cases "ml_is_threat p")
          case True
          with Inr Some have "ml_threat env call" by (auto simp: ml_threat_def)
          with True eq Inr Some c d2 show thesis
            by (intro blocked [of "fst (d10_block cid LAYER_ML
                [MlThreat (ml_confidence p) (ml_threat_family p)] (py_trunc (ml_confidence p * 100)) [LAYER_HONEYPOT] d2)"])
              (auto simp: block_fields stopped_by_def map_prod_def case_prod_unfold)
        next
          case False
          with eq Inr Some c d2 show thesis by (intro went_on [of d2]) (auto simp: ml_threat_def)
        qed
      qed
    qed
  qed
qed

lemma stopped_later:
  assumes "\<not> canary_in env call d" "\<not> ml_threat env call"
    "d10_rate d1 = d10_rate d" "d10_whitelist d1 = d10_whitelist d"
  shows "stopped_by env call t d = (if \<not> recipients_ok call d1 then LAYER_WHITELIST
        else if addresses_of call \<noteq> [] \<and> \<not> rate_ok call t d1 then LAYER_RATE else [])"
  using assms by (simp add: stopped_by_def recipients_ok_def rate_ok_def)

text \<open>
  C7: The verdict on a call, complete. Whenever the inspection of a call returns, it is blocked by
  the first of the four layers that objects, in the order canary, classifier, allowlist, rate
  limit, and allowed when none does: no planted token occurs in the call's values, the classifier
  is off or sees no threat, every address in every string of the arguments is approved for the
  call's server, and, when there is an address, the send limit of that server admits one more.
\<close>

theorem inspect_call_verdict:
  assumes "inspect_call env cid call t0 t1 t2 t3 d = (Inr v, d')"
  shows "v10_blocked_by v = stopped_by env call t3 d \<and>
    (v10_allowed v \<longleftrightarrow> \<not> canary_in env call d \<and> \<not> ml_threat env call \<and>
       (\<forall>s \<in> set (extract_strings (dget_or call (u ''arguments'') (PDict []))). \<forall>r \<in> set (find_emails s).
          recipient_ok (dget_or (wl_approved (d10_whitelist d)) (server_of call) []) r) \<and>
       (addresses_of call \<noteq> [] \<longrightarrow> rate_ok call t3 d))"
proof -
  have strings: "recipients_ok call d \<longleftrightarrow>
      (\<forall>s \<in> set (extract_strings (dget_or call (u ''arguments'') (PDict []))). \<forall>r \<in> set (find_emails s).
          recipient_ok (dget_or (wl_approved (d10_whitelist d)) (server_of call) []) r)"
    by (simp add: recipients_ok_def addresses_of_def walk_emails_strings)
  have "v10_blocked_by v = stopped_by env call t3 d \<and> (v10_allowed v \<longleftrightarrow> stopped_by env call t3 d = [])"
    using assms
  proof (cases rule: inspect_call_cases)
    case (blocked w)
    then show ?thesis by (auto simp: stopped_by_def layer_names)
  next
    case (went_on d1)
    from inspect_recipients_effect [OF went_on(5) [unfolded go_recipients_def]]
      stopped_later [OF went_on(1-4)]
    show ?thesis by auto
  qed auto
  moreover have "stopped_by env call t3 d = [] \<longleftrightarrow> \<not> canary_in env call d \<and> \<not> ml_threat env call \<and>
      recipients_ok call d \<and> (addresses_of call \<noteq> [] \<longrightarrow> rate_ok call t3 d)"
    by (auto simp: stopped_by_def layer_names)
  ultimately show ?thesis using strings by simp
qed


section \<open>A session of calls\<close>

type_synonym call_event = "pystr \<times> pydict \<times> rat \<times> rat \<times> rat \<times> rat"

fun d10_session :: "defense_env \<Rightarrow> call_event list \<Rightarrow> defense10 \<Rightarrow> (defense_exn + verdict10) list \<times> defense10" where
  "d10_session env [] d = ([], d)"
| "d10_session env ((cid, call, t0, t1, t2, t3) # cs) d =
    (let (out, d') = inspect_call env cid call t0 t1 t2 t3 d; (outs, d'') = d10_session env cs d'
     in (out # outs, d''))"

fun event_call :: "call_event \<Rightarrow> pydict" where
  "event_call (cid, call, t0, t1, t2, t3) = call"

fun event_time :: "call_event \<Rightarrow> rat" where
  "event_time (cid, call, t0, t1, t2, t3) = t3"

text \<open>The calls of a session that carry an address and are allowed.\<close>

definition was_sent :: "call_event \<Rightarrow> defense_exn + verdict10 \<Rightarrow> bool" where
  "was_sent c out \<longleftrightarrow> addresses_of (event_call c) \<noteq> [] \<and>
     (case out of Inl e \<Rightarrow> False | Inr v \<Rightarrow> v10_allowed v)"

definition sent_calls :: "defense_env \<Rightarrow> call_event list \<Rightarrow> defense10 \<Rightarrow> call_event list" where
  "sent_calls env cs d =
     map fst (filter (\<lambda>(c, out). was_sent c out) (zip cs (fst (d10_session env cs d))))"

lemma sent_calls_Nil [simp]: "sent_calls env [] d = []"
  by (simp add: sent_calls_def)

lemma sent_calls_Cons:
  assumes "inspect_call env cid call t0 t1 t2 t3 d = (out, d')"
  shows "sent_calls env ((cid, call, t0, t1, t2, t3) # cs) d =
    (if was_sent (cid, call, t0, t1, t2, t3) out then [(cid, call, t0, t1, t2, t3)] else []) @
    sent_calls env cs d'"
  using assms by (simp add: sent_calls_def case_prod_unfold Let_def)

lemma wl_check_auto: "wl_auto_learn (snd (wl_check s rs now w)) = wl_auto_learn w"
  by (simp add: wl_check_def Let_def add_approved_def)

lemma call_step:
  assumes "inspect_call env cid call t0 t1 t2 t3 d = (out, d')" "\<not> wl_auto_learn (d10_whitelist d)"
  shows "(\<not> was_sent (cid, call, t0, t1, t2, t3) out \<and> d10_rate d' = d10_rate d \<or>
      d10_rate d' = snd (sw_check (server_of call) (u ''send'') t3 (d10_rate d)) \<and>
      was_sent (cid, call, t0, t1, t2, t3) out =
        ld_allowed (fst (sw_check (server_of call) (u ''send'') t3 (d10_rate d)))) \<and>
    (was_sent (cid, call, t0, t1, t2, t3) out \<longrightarrow> recipients_ok call d) \<and>
    \<not> wl_auto_learn (d10_whitelist d') \<and>
    (\<forall>s. approved_set (d10_whitelist d') s = approved_set (d10_whitelist d) s)"
  using assms(1)
proof (cases rule: inspect_call_cases)
  case raised
  with assms(2) show ?thesis by (auto simp: was_sent_def)
next
  case (blocked v)
  with assms(2) show ?thesis by (auto simp: was_sent_def)
next
  case (went_on d1)
  note eff = inspect_recipients_effect [OF went_on(5) [unfolded go_recipients_def]]
  have ok: "recipients_ok call d1 = recipients_ok call d" "rate_ok call t3 d1 = rate_ok call t3 d"
    using went_on(3,4) by (simp_all add: recipients_ok_def rate_ok_def)
  have w: "\<not> wl_auto_learn (d10_whitelist d') \<and>
      (\<forall>s. approved_set (d10_whitelist d') s = approved_set (d10_whitelist d) s)"
    using eff assms(2) went_on(4) by (auto simp: wl_check_auto wl_check_approved)
  have sent: "was_sent (cid, call, t0, t1, t2, t3) out \<longleftrightarrow>
      addresses_of call \<noteq> [] \<and> hashable (server_of call) \<and> recipients_ok call d \<and> rate_ok call t3 d"
  proof (cases out)
    case (Inl e)
    with eff show ?thesis by (auto simp: was_sent_def)
  next
    case (Inr v)
    with eff ok show ?thesis by (auto simp: was_sent_def layer_names)
  qed
  with eff ok went_on(3) w show ?thesis by (auto simp: rate_ok_def)
qed

lemma sent_calls_admitted:
  assumes "sorted (map event_time cs)" "\<not> wl_auto_learn (d10_whitelist d)"
  shows "\<exists>es. sorted (map snd es) \<and> snd ` set es \<subseteq> event_time ` set cs \<and>
    map (\<lambda>c. ((server_of (event_call c), u ''send''), event_time c)) (sent_calls env cs d) =
      admitted es (d10_rate d)"
  using assms
proof (induction cs arbitrary: d)
  case Nil
  show ?case by (intro exI [of _ "[]"]) simp
next
  case (Cons c cs d)
  obtain cid call t0 t1 t2 t3 where c: "c = (cid, call, t0, t1, t2, t3)" by (cases c)
  obtain out d' where o: "inspect_call env cid call t0 t1 t2 t3 d = (out, d')"
    by (cases "inspect_call env cid call t0 t1 t2 t3 d")
  note step = call_step [OF o Cons.prems(2)]
  have "sorted (map event_time cs)" "\<not> wl_auto_learn (d10_whitelist d')"
    using Cons.prems(1) step by simp_all
  from Cons.IH [OF this] obtain es where es: "sorted (map snd es)" "snd ` set es \<subseteq> event_time ` set cs"
    "map (\<lambda>c. ((server_of (event_call c), u ''send''), event_time c)) (sent_calls env cs d') =
      admitted es (d10_rate d')" by blast
  note sent = sent_calls_Cons [OF o, of cs, folded c]
  show ?case
  proof (cases "was_sent c out \<or> d10_rate d' \<noteq> d10_rate d")
    case False
    with sent es show ?thesis by (intro exI [of _ es]) auto
  next
    case True
    with step c have r: "d10_rate d' = snd (sw_check (server_of call) (u ''send'') t3 (d10_rate d))"
      "was_sent c out = ld_allowed (fst (sw_check (server_of call) (u ''send'') t3 (d10_rate d)))"
      by auto
    have "\<forall>e \<in> set es. t3 \<le> snd e" using es(2) Cons.prems(1) c by fastforce
    with es r sent c show ?thesis
      by (intro exI [of _ "((server_of call, u ''send''), t3) # es"]) (auto simp: admitted_Cons)
  qed
qed

lemma sent_calls_approved:
  assumes "\<not> wl_auto_learn (d10_whitelist d)" "c \<in> set (sent_calls env cs d)" "r \<in> set (addresses_of (event_call c))"
  shows "py_lower r \<in> approved_set (d10_whitelist d) (server_of (event_call c)) \<or>
    64 \<in> set (py_lower r) \<and> domain_of (py_lower r) \<in> approved_set (d10_whitelist d) (server_of (event_call c))"
  using assms
proof (induction cs arbitrary: d)
  case (Cons e cs d)
  obtain cid call t0 t1 t2 t3 where e: "e = (cid, call, t0, t1, t2, t3)" by (cases e)
  obtain out d' where o: "inspect_call env cid call t0 t1 t2 t3 d = (out, d')"
    by (cases "inspect_call env cid call t0 t1 t2 t3 d")
  note step = call_step [OF o Cons.prems(1)]
  from Cons.prems(2) sent_calls_Cons [OF o, of cs] e
  consider "c = e" "was_sent e out" | "c \<in> set (sent_calls env cs d')" by (auto split: if_splits)
  then show ?case
  proof cases
    case 1
    with step e have "recipients_ok (event_call c) d" by simp
    with Cons.prems(3) show ?thesis by (auto simp: recipients_ok_def recipient_ok_iff approved_set_def)
  next
    case 2
    with Cons.IH [of d'] Cons.prems(3) step show ?thesis by simp
  qed
qed simp

text \<open>
  C8: The blast radius of a configured server, over any session. However the calls, the canaries
  and the classifier are, on times that do not go back: in any hour at most \<open>email_rate_per_hour\<close>
  calls of the server that carry an address are allowed; and every address of every allowed call,
  in whatever field, belongs to a domain that was configured for the very server of the call.
\<close>

theorem blast_radius:
  assumes "sorted (map event_time cs)"
  shows "let sent = sent_calls env cs (configure_server s domains (make_defense10 n)) in
    int (length (filter (\<lambda>c. server_of (event_call c) = PStr s \<and> t \<le> event_time c \<and>
      event_time c \<le> t + 3600) sent)) \<le> max 0 n \<and>
    (\<forall>c \<in> set sent. \<forall>r \<in> set (addresses_of (event_call c)).
      granted (map (Domain (PStr s)) domains) (server_of (event_call c)) r)"
proof -
  let ?d = "configure_server s domains (make_defense10 n)"
  let ?key = "\<lambda>c. ((server_of (event_call c), u ''send''), event_time c)"
  have w: "d10_whitelist ?d = fold apply_approval (map (Domain (PStr s)) domains) (make_allowlist False)"
  proof -
    have "apply_approval \<circ> Domain (PStr s) = approve_domain (PStr s)"
      by (intro ext) simp
    then show ?thesis by (simp add: configure_server_def make_defense10_def fold_map)
  qed
  have auto_off: "\<not> wl_auto_learn (fold apply_approval hist wl)" if "\<not> wl_auto_learn wl"
    for hist and wl :: "pyval allowlist"
    using that
  proof (induction hist arbitrary: wl)
    case (Cons a hist)
    then show ?case by (cases a) (simp_all add: wl_approve_def approve_domain_def add_approved_def)
  qed simp
  have off: "\<not> wl_auto_learn (d10_whitelist ?d)"
    unfolding w by (rule auto_off) (simp add: make_allowlist_def)
  obtain es where es: "sorted (map snd es)"
    "map ?key (sent_calls env cs ?d) = admitted es (d10_rate ?d)"
    using sent_calls_admitted [OF assms off] by blast
  have "filter (\<lambda>(k, x). k = (PStr s, u ''send'') \<and> t \<le> x \<and> x \<le> t + 3600) (map ?key (sent_calls env cs ?d)) =
      map ?key (filter (\<lambda>c. server_of (event_call c) = PStr s \<and> t \<le> event_time c \<and>
        event_time c \<le> t + 3600) (sent_calls env cs ?d))"
    by (simp add: filter_map comp_def)
  moreover have "int (length (filter (\<lambda>(k, x). k = (PStr s, u ''send'') \<and> t \<le> x \<and> x \<le> t + 3600)
      (admitted es (d10_rate ?d)))) \<le> max 0 n"
    by (rule admitted_bound [OF _ es(1)])
      (simp_all add: configure_server_def make_defense10_def sw_set_limit_def make_sliding_def)
  ultimately have "int (length (filter (\<lambda>c. server_of (event_call c) = PStr s \<and> t \<le> event_time c \<and>
      event_time c \<le> t + 3600) (sent_calls env cs ?d))) \<le> max 0 n"
    unfolding es(2) [symmetric] by (simp only: length_map)
  moreover have "granted (map (Domain (PStr s)) domains) (server_of (event_call c)) r"
    if "c \<in> set (sent_calls env cs ?d)" "r \<in> set (addresses_of (event_call c))" for c r
  proof -
    let ?hist = "map (Domain (PStr s)) domains" and ?srv = "server_of (event_call c)"
    have grants: "\<exists>dm. Domain ?srv dm \<in> set ?hist \<and> x = 64 # dropWhile (\<lambda>ch. ch = 64) (py_lower dm)"
      if "x \<in> approved_set (d10_whitelist ?d) ?srv" for x
    proof -
      have "approved_set (make_allowlist False) ?srv = {}"
        by (simp add: approved_set_def make_allowlist_def dget_or_def)
      with that show ?thesis
        unfolding w approved_history by auto
    qed
    from sent_calls_approved [OF off that] show ?thesis
    proof
      assume "py_lower r \<in> approved_set (d10_whitelist ?d) ?srv"
      from grants [OF this] show ?thesis unfolding granted_def by metis
    next
      assume r: "64 \<in> set (py_lower r) \<and> domain_of (py_lower r) \<in> approved_set (d10_whitelist ?d) ?srv"
      from grants [OF conjunct2 [OF r]] r show ?thesis unfolding granted_def by metis
    qed
  qed
  ultimately show ?thesis by (simp add: Let_def)
qed


definition quiet_env :: defense_env where
  "quiet_env = \<lparr>de_repr = (\<lambda>q. []), de_str = (\<lambda>v. []), de_ml = None\<rparr>"

definition sample_call :: pydict where
  "sample_call = [(u ''server_id'', PStr (u ''postmark'')), (u ''name'', PStr (u ''send'')),
     (u ''arguments'', PDict [(u ''to'', PStr (u ''a@company.com'')),
       (u ''meta'', PList [PStr (u ''b@company.com'')])])]"

lemma blast_radius_witness:
  "let sent = sent_calls quiet_env [(u ''1'', sample_call, 0, 0, 0, 0), (u ''2'', sample_call, 1, 1, 1, 1)]
        (configure_server (u ''postmark'') [u ''company.com''] (make_defense10 1)) in
    int (length (filter (\<lambda>c. server_of (event_call c) = PStr (u ''postmark'') \<and> 0 \<le> event_time c \<and>
      event_time c \<le> 0 + 3600) sent)) \<le> max 0 1 \<and>
    (\<forall>c \<in> set sent. \<forall>r \<in> set (addresses_of (event_call c)).
      granted (map (Domain (PStr (u ''postmark''))) [u ''company.com'']) (server_of (event_call c)) r)"
  by (rule blast_radius) simp

lemma inspect_call_verdict_witness:
  "\<exists>v d'. v10_blocked_by v = stopped_by quiet_env sample_call 0
        (configure_server (u ''postmark'') [u ''company.com''] (make_defense10 1)) \<and>
    (v10_allowed v \<longleftrightarrow>
       \<not> canary_in quiet_env sample_call (configure_server (u ''postmark'') [u ''company.com''] (make_defense10 1)) \<and>
       \<not> ml_threat quiet_env sample_call \<and>
       (\<forall>s \<in> set (extract_strings (dget_or sample_call (u ''arguments'') (PDict []))). \<forall>r \<in> set (find_emails s).
          recipient_ok (dget_or (wl_approved (d10_whitelist
            (configure_server (u ''postmark'') [u ''company.com''] (make_defense10 1)))) (server_of sample_call) []) r) \<and>
       (addresses_of sample_call \<noteq> [] \<longrightarrow>
         rate_ok sample_call 0 (configure_server (u ''postmark'') [u ''company.com''] (make_defense10 1)))) \<and>
    fst (inspect_call quiet_env (u ''1'') sample_call 0 0 0 0
      (configure_server (u ''postmark'') [u ''company.com''] (make_defense10 1))) = Inr v"
proof -
  let ?d = "configure_server (u ''postmark'') [u ''company.com''] (make_defense10 1)"
  have "map_sum id v10_allowed (fst (inspect_call quiet_env (u ''1'') sample_call 0 0 0 0 ?d)) = Inr True"
    by code_simp
  then obtain v d' where "inspect_call quiet_env (u ''1'') sample_call 0 0 0 0 ?d = (Inr v, d')"
    by (cases "inspect_call quiet_env (u ''1'') sample_call 0 0 0 0 ?d";
        cases "fst (inspect_call quiet_env (u ''1'') sample_call 0 0 0 0 ?d)") auto
  with inspect_call_verdict [OF this] show ?thesis by (intro exI [of _ v]) simp
qed

section \<open>The outbound call\<close>

lemma go_recipients_egress: "d10_egress (snd (go_recipients cid call t2 t3 d)) = d10_egress d"
  by (simp add: go_recipients_def inspect_recipients_def case_prod_unfold Let_def d10_block_def d10_allow_def)

lemma inspect_call_egress:
  "d10_egress (snd (inspect_call env cid call t0 t1 t2 t3 d)) = d10_egress (snd (record_call cid call t0 t1 d))"
proof -
  have "d10_egress (snd (inspect_recipients cid sid rs ps t2 t3 d)) = d10_egress d" for sid rs ps and d :: defense10
    by (simp add: inspect_recipients_def case_prod_unfold Let_def d10_block_def d10_allow_def)
  then show ?thesis
    by (simp add: inspect_call_def case_prod_unfold Let_def d10_block_def
        split: option.splits sum.splits)
qed

text \<open>
  C9: The outbound call against its tool call. After a call was inspected, an outbound payload
  under its id passes exactly when each address in it was named in the to, recipient, recipients
  or cc argument of that call, within the maximum age; an added Bcc is stopped. The verdict on
  the call itself plays no part: a call that was blocked authorises its recipients all the same.
\<close>

theorem outbound_matches_call:
  assumes "inspect_call env cid call t0 t1 t2 t3 d = (out, d')"
    and "dget_or call (u ''arguments'') (PDict []) = PDict args"
  shows "v10_allowed (fst (inspect_egress env cid payload now d')) \<longleftrightarrow>
    extract_all_emails (de_repr env) payload \<subseteq>
      (if now - t1 \<le> ir_max_age (ei_registry (d10_egress d)) then extract_authorized_recipients args else {})"
proof -
  let ?it = "\<lparr>in_recipients = extract_authorized_recipients args,
          in_tool = dget_or call (u ''name'') (PStr []), in_ts = t1\<rparr>"
  let ?R = "ei_registry (d10_egress d')"
  have e: "d10_egress d' = d10_egress (snd (record_call cid call t0 t1 d))"
    using inspect_call_egress [of env cid call t0 t1 t2 t3 d] assms(1) by simp
  then have R: "?R = snd (record_intent cid call t0 t1 (ei_registry (d10_egress d)))"
    by (simp add: record_call_def case_prod_unfold Let_def)
  have "dget (ir_intents ?R) cid = Some ?it"
    unfolding R record_intent_dget using assms(2) by simp
  moreover have "ir_max_age ?R = ir_max_age (ei_registry (d10_egress d))"
    unfolding R by simp
  ultimately have "(case fst (get_intent cid now ?R) of None \<Rightarrow> {} | Some it \<Rightarrow> in_recipients it) =
      (if now - t1 \<le> ir_max_age (ei_registry (d10_egress d)) then extract_authorized_recipients args else {})"
    by (simp add: get_intent_def)
  moreover have "v10_allowed (fst (inspect_egress env cid payload now d')) =
      ev_allowed (fst (inspect_egress_payload (de_repr env) cid payload now (d10_egress d')))"
    by (simp add: inspect_egress_def case_prod_unfold Let_def block_fields allow_fields)
  ultimately show ?thesis unfolding inspect_allowed_iff by simp
qed

lemma outbound_matches_call_witness:
  "\<exists>d'. v10_allowed (fst (inspect_egress quiet_env (u ''1'')
        (PStr (u ''To=a@company.com&Bcc=phan@giftshop.club'')) 5 d')) \<longleftrightarrow>
    extract_all_emails (de_repr quiet_env) (PStr (u ''To=a@company.com&Bcc=phan@giftshop.club'')) \<subseteq>
      (if 5 - 0 \<le> ir_max_age (ei_registry (d10_egress (make_defense10 1)))
       then extract_authorized_recipients [(u ''to'', PStr (u ''a@company.com'')),
         (u ''meta'', PList [PStr (u ''b@company.com'')])] else {})"
proof -
  obtain out d' where "inspect_call quiet_env (u ''1'') sample_call 0 0 0 0 (make_defense10 1) = (out, d')"
    by (cases "inspect_call quiet_env (u ''1'') sample_call 0 0 0 0 (make_defense10 1)")
  from outbound_matches_call [OF this, of _ "PStr (u ''To=a@company.com&Bcc=phan@giftshop.club'')" 5]
  show ?thesis by (intro exI [of _ d']) (simp add: sample_call_def dget_or_def)
qed

text \<open>The log of verdicts: allowing keeps it within its bound, blocking does not.\<close>

lemma verdict_log_growth:
  "0 < d10_max_verdicts d \<Longrightarrow> length (d10_verdicts (snd (d10_allow c ps d))) \<le> max (length (d10_verdicts d)) (d10_max_verdicts d)"
  "length (d10_verdicts (((\<lambda>d. snd (d10_block c l rs sev ps d)) ^^ k) d)) = length (d10_verdicts d) + k"
proof -
  show "0 < d10_max_verdicts d \<Longrightarrow>
      length (d10_verdicts (snd (d10_allow c ps d))) \<le> max (length (d10_verdicts d)) (d10_max_verdicts d)"
    by (simp add: d10_allow_def Let_def)
  show "length (d10_verdicts (((\<lambda>d. snd (d10_block c l rs sev ps d)) ^^ k) d)) = length (d10_verdicts d) + k"
    by (induction k) (simp_all add: d10_block_def Let_def)
qed

end
