(* ===== verification/Sandbox.thy ===== *)
theory Sandbox
  imports Prelude "HOL-Library.Sublist"
begin

text \<open>
  \<open>defense10/sandbox.py\<close>: the container command line and what is concluded from running it.
  \<open>shutil.which\<close> and \<open>subprocess.run\<close> are arguments: the outcome of a command is its exit code and
  output, a timeout, or another exception.
\<close>

section \<open>Configuration and command line\<close>

record sandbox_config =
  sc_image :: pystr
  sc_network :: pystr
  sc_read_only :: bool
  sc_memory :: pystr
  sc_cpus :: pystr
  sc_drop_all_caps :: bool
  sc_no_new_privileges :: bool
  sc_extra_args :: "pystr list"

definition default_config :: sandbox_config where
  "default_config = \<lparr>sc_image = u ''python:3.12-alpine'', sc_network = u ''none'', sc_read_only = True,
     sc_memory = u ''256m'', sc_cpus = u ''0.5'', sc_drop_all_caps = True,
     sc_no_new_privileges = True, sc_extra_args = []\<rparr>"

record sandbox_result =
  sr_exit_code :: int
  sr_stdout :: pystr
  sr_stderr :: pystr
  sr_network_blocked :: bool
  sr_command :: "pystr option list"

record sandbox =
  sb_config :: sandbox_config
  sb_runtime :: "pystr option"

definition detect_runtime :: "(pystr \<Rightarrow> bool) \<Rightarrow> pystr option" where
  "detect_runtime which = List.find which [u ''docker'', u ''podman'']"

definition make_sandbox :: "(pystr \<Rightarrow> bool) \<Rightarrow> sandbox_config option \<Rightarrow> sandbox" where
  "make_sandbox which config =
     \<lparr>sb_config = (case config of None \<Rightarrow> default_config | Some c \<Rightarrow> c),
      sb_runtime = detect_runtime which\<rparr>"

definition sandbox_available :: "sandbox \<Rightarrow> bool" where
  "sandbox_available sb \<longleftrightarrow> sb_runtime sb \<noteq> None"

definition BLOCKED_PATTERNS :: "pystr list" where
  "BLOCKED_PATTERNS = [u ''--privileged'', u ''--network=host'', u ''--network host'',
     u ''--pid=host'', u ''--pid host'', u ''--volume'', u ''-v '', u ''--cap-add'', u ''--device'']"

definition blocked_arg :: "pystr \<Rightarrow> bool" where
  "blocked_arg ea \<longleftrightarrow> list_ex (\<lambda>bp. contains (py_lower ea) bp) BLOCKED_PATTERNS"

definition hardening_args :: "sandbox_config \<Rightarrow> pystr list" where
  "hardening_args c =
     [u ''run'', u ''--rm''] @ [u ''--network'', sc_network c] @
     (if sc_read_only c then [u ''--read-only''] else []) @
     (if sc_drop_all_caps c then [u ''--cap-drop'', u ''ALL''] else []) @
     (if sc_no_new_privileges c then [u ''--security-opt'', u ''no-new-privileges''] else []) @
     [u ''--memory'', sc_memory c, u ''--cpus'', sc_cpus c]"

fun add_extra_args :: "pystr list \<Rightarrow> pystr list \<Rightarrow> pystr list" where
  "add_extra_args args [] = args"
| "add_extra_args args (ea # eas) =
     (if blocked_arg ea then add_extra_args args eas else add_extra_args (args @ [ea]) eas)"

text \<open>The first word is the runtime, \<open>None\<close> when there is none.\<close>

definition build_command :: "sandbox \<Rightarrow> pystr list \<Rightarrow> pystr option list" where
  "build_command sb cmd =
    (let c = sb_config sb
     in sb_runtime sb #
        map Some (add_extra_args (hardening_args c) (sc_extra_args c) @ [sc_image c] @ cmd))"

section \<open>Running\<close>

datatype exec_outcome = Completed int pystr pystr | TimedOut | ExecError pystr

definition sandbox_run :: "(pystr option list \<Rightarrow> int \<Rightarrow> exec_outcome) \<Rightarrow> sandbox \<Rightarrow> pystr list \<Rightarrow> int \<Rightarrow>
    pystr + sandbox_result" where
  "sandbox_run exec sb cmd timeout =
    (if \<not> sandbox_available sb
     then Inr \<lparr>sr_exit_code = - 1, sr_stdout = [], sr_stderr = u ''no container runtime available'',
            sr_network_blocked = False, sr_command = []\<rparr>
     else (let full = build_command sb cmd; isolated = (sc_network (sb_config sb) = u ''none'')
           in case exec full timeout of
                Completed code out err \<Rightarrow>
                  Inr \<lparr>sr_exit_code = code, sr_stdout = out, sr_stderr = err,
                    sr_network_blocked = isolated, sr_command = full\<rparr>
              | TimedOut \<Rightarrow>
                  Inr \<lparr>sr_exit_code = - 2, sr_stdout = [], sr_stderr = u ''timeout'',
                    sr_network_blocked = isolated, sr_command = full\<rparr>
              | ExecError e \<Rightarrow> Inl e))"

record isolation_report =
  is_available :: bool
  is_runtime :: "pystr option"
  is_network_mode :: "pystr option"
  is_isolated :: "bool option"
  is_raw_output :: pystr

definition ISOLATION_CMD :: "pystr list" where
  "ISOLATION_CMD = [u ''sh'', u ''-c'',
     u ''wget -T 2 -q -O- http://1.1.1.1 2>&1 && echo REACHED || echo BLOCKED'']"

definition verify_network_isolation :: "(pystr option list \<Rightarrow> int \<Rightarrow> exec_outcome) \<Rightarrow> sandbox \<Rightarrow>
    pystr + isolation_report" where
  "verify_network_isolation exec sb =
    (if \<not> sandbox_available sb
     then Inr \<lparr>is_available = False, is_runtime = None, is_network_mode = None, is_isolated = None,
            is_raw_output = []\<rparr>
     else (case sandbox_run exec sb ISOLATION_CMD 15 of
          Inl e \<Rightarrow> Inl e
        | Inr result \<Rightarrow>
            (let isolated = contains (sr_stdout result) (u ''BLOCKED'') \<or>
                 \<not> contains (sr_stdout result) (u ''REACHED'')
             in Inr \<lparr>is_available = True, is_runtime = sb_runtime sb,
                  is_network_mode = Some (sc_network (sb_config sb)), is_isolated = Some isolated,
                  is_raw_output = take 200 (py_strip (sr_stdout result))\<rparr>)))"

section \<open>What the command line guarantees\<close>

lemma add_extra_args_filter: "add_extra_args args eas = args @ filter (\<lambda>ea. \<not> blocked_arg ea) eas"
  by (induction args eas rule: add_extra_args.induct) simp_all

text \<open>
  Between the hardening options and the image stand exactly the extra arguments that contain
  no blocked pattern in any case, in their order, and the command comes last; in the default
  configuration the options switch the network off, make the root file system read-only, drop
  all capabilities and forbid new privileges.
\<close>

theorem build_command_hardened:
  "build_command sb cmd = sb_runtime sb # map Some (hardening_args (sb_config sb) @
      filter (\<lambda>ea. \<not> blocked_arg ea) (sc_extra_args (sb_config sb)) @ sc_image (sb_config sb) # cmd) \<and>
   (\<forall>w. Some w \<in> set (build_command (sb\<lparr>sb_config := default_config\<lparr>sc_extra_args := eas\<rparr>\<rparr>) cmd) \<longrightarrow>
      blocked_arg w \<longrightarrow> w \<in> set cmd \<or> sb_runtime sb = Some w) \<and>
   sublist (map Some [u ''--network'', u ''none'', u ''--read-only'', u ''--cap-drop'', u ''ALL'',
      u ''--security-opt'', u ''no-new-privileges''])
     (build_command (sb\<lparr>sb_config := default_config\<lparr>sc_extra_args := eas\<rparr>\<rparr>) cmd)"
proof (intro conjI)
  show "build_command sb cmd = sb_runtime sb # map Some (hardening_args (sb_config sb) @
      filter (\<lambda>ea. \<not> blocked_arg ea) (sc_extra_args (sb_config sb)) @ sc_image (sb_config sb) # cmd)"
    by (simp add: build_command_def add_extra_args_filter Let_def)
  have "list_all (\<lambda>w. \<not> blocked_arg w) (sc_image default_config # hardening_args default_config)"
    by code_simp
  then show "\<forall>w. Some w \<in> set (build_command (sb\<lparr>sb_config := default_config\<lparr>sc_extra_args := eas\<rparr>\<rparr>) cmd) \<longrightarrow>
      blocked_arg w \<longrightarrow> w \<in> set cmd \<or> sb_runtime sb = Some w"
    by (auto simp: build_command_def add_extra_args_filter Let_def list_all_iff hardening_args_def
        default_config_def)
  have "hardening_args default_config = [u ''run'', u ''--rm''] @
      [u ''--network'', u ''none'', u ''--read-only'', u ''--cap-drop'', u ''ALL'',
      u ''--security-opt'', u ''no-new-privileges''] @ [u ''--memory'', u ''256m'', u ''--cpus'', u ''0.5'']"
    by (simp add: hardening_args_def default_config_def)
  then show "sublist (map Some [u ''--network'', u ''none'', u ''--read-only'', u ''--cap-drop'', u ''ALL'',
      u ''--security-opt'', u ''no-new-privileges''])
     (build_command (sb\<lparr>sb_config := default_config\<lparr>sc_extra_args := eas\<rparr>\<rparr>) cmd)"
    unfolding sublist_def
    by (intro exI [of _ "sb_runtime sb # map Some [u ''run'', u ''--rm'']"]
        exI [of _ "map Some ([u ''--memory'', u ''256m'', u ''--cpus'', u ''0.5''] @
          filter (\<lambda>ea. \<not> blocked_arg ea) eas @ sc_image default_config # cmd)"])
      (simp add: build_command_def add_extra_args_filter Let_def hardening_args_def default_config_def)
qed

lemma build_command_hardened_witness:
  "let sb = make_sandbox (\<lambda>rt. True) None; cmd = [u ''id'']; eas = [u ''--privileged'', u ''--env''] in
   build_command sb cmd = sb_runtime sb # map Some (hardening_args (sb_config sb) @
      filter (\<lambda>ea. \<not> blocked_arg ea) (sc_extra_args (sb_config sb)) @ sc_image (sb_config sb) # cmd) \<and>
   (\<forall>w. Some w \<in> set (build_command (sb\<lparr>sb_config := default_config\<lparr>sc_extra_args := eas\<rparr>\<rparr>) cmd) \<longrightarrow>
      blocked_arg w \<longrightarrow> w \<in> set cmd \<or> sb_runtime sb = Some w) \<and>
   sublist (map Some [u ''--network'', u ''none'', u ''--read-only'', u ''--cap-drop'', u ''ALL'',
      u ''--security-opt'', u ''no-new-privileges''])
     (build_command (sb\<lparr>sb_config := default_config\<lparr>sc_extra_args := eas\<rparr>\<rparr>) cmd)"
  unfolding Let_def by (rule build_command_hardened)

text \<open>The filter looks at one argument at a time, so an option given as two words passes.\<close>

lemma two_word_option_passes:
  "filter (\<lambda>ea. \<not> blocked_arg ea) [u ''--network'', u ''host'', u ''-v'', u ''/:/host'', u ''--pid'', u ''host''] =
     [u ''--network'', u ''host'', u ''-v'', u ''/:/host'', u ''--pid'', u ''host'']"
  by code_simp

text \<open>
  The isolation check confirms isolation without evidence: it answers that the sandbox is
  isolated unless the probe printed \<open>REACHED\<close> and not \<open>BLOCKED\<close>, so also when the container never
  started or timed out.
\<close>

theorem isolation_reported_without_evidence:
  assumes "sandbox_available sb"
    and "exec (build_command sb ISOLATION_CMD) 15 = TimedOut \<or>
      exec (build_command sb ISOLATION_CMD) 15 = Completed 125 [] err"
  shows "map_sum id is_isolated (verify_network_isolation exec sb) = Inr (Some True)"
proof -
  have "\<not> contains [] (u ''REACHED'')" by (simp add: contains_def)
  with assms show ?thesis
    by (auto simp: verify_network_isolation_def sandbox_run_def Let_def)
qed

lemma isolation_reported_without_evidence_witness:
  "map_sum id is_isolated (verify_network_isolation (\<lambda>c t. TimedOut) (make_sandbox (\<lambda>rt. True) None)) =
     Inr (Some True)"
  by (rule isolation_reported_without_evidence)
    (simp_all add: sandbox_available_def make_sandbox_def detect_runtime_def)

end
