(* ===== verification/ShadowServer.thy ===== *)
theory ShadowServer
  imports Prelude
begin

text \<open>
  \<open>detectors/shadow_server.py\<close>: the registry of approved servers, the check of a call's server and
  the trust score. The text of reasons is a constructor each. A server id that is a list or an
  object raises \<open>TypeError\<close> when it is looked up; a tool name that is no string raises when it is
  searched for a dot (or, for a container that holds one, when it is split).
\<close>

section \<open>State and operations\<close>

record server_info =
  si_capabilities :: "pystr list"
  si_registered_at :: rat
  si_call_count :: int

record shadow_state =
  sh_allowed :: "pystr set"
  sh_registry :: "(pystr \<times> server_info) list"
  sh_unregistered :: "(pystr \<times> int) list"

definition make_shadow :: "pystr set \<Rightarrow> shadow_state" where
  "make_shadow allowed_servers =
     \<lparr>sh_allowed = allowed_servers, sh_registry = [], sh_unregistered = []\<rparr>"

definition register_server :: "pystr \<Rightarrow> pystr list \<Rightarrow> rat \<Rightarrow> shadow_state \<Rightarrow> shadow_state" where
  "register_server server_id capabilities now st =
     st\<lparr>sh_allowed := insert server_id (sh_allowed st),
        sh_registry := dset server_id \<lparr>si_capabilities = capabilities, si_registered_at = now,
          si_call_count = 0\<rparr> (sh_registry st)\<rparr>"

datatype shadow_reason = MissingServerId | NotRegistered pyval | NotForCapability pystr pystr | NoReason

datatype shadow_exn = ShadowTypeErr | ShadowAttributeErr

definition count_call :: "pystr \<Rightarrow> shadow_state \<Rightarrow> shadow_state" where
  "count_call server_id st =
    (case dget (sh_registry st) server_id of
       Some info \<Rightarrow> st\<lparr>sh_registry := dset server_id
           (info\<lparr>si_call_count := si_call_count info + 1\<rparr>) (sh_registry st)\<rparr>
     | None \<Rightarrow> st\<lparr>sh_unregistered := dset server_id (dget_or (sh_unregistered st) server_id 0 + 1)
           (sh_unregistered st)\<rparr>)"

text \<open>\<open>tool_name.split(".")[0] if "." in tool_name else ""\<close>, with the name itself when it is a string.\<close>

fun capability_prefix :: "pyval \<Rightarrow> shadow_exn + pystr" where
  "capability_prefix (PStr s) = Inr (if 46 \<in> set s then fst (split1 46 s) else [])"
| "capability_prefix (PList vs) = (if PStr [46] \<in> set vs then Inl ShadowAttributeErr else Inr [])"
| "capability_prefix (PDict d) = (if has_key d [46] then Inl ShadowAttributeErr else Inr [])"
| "capability_prefix _ = Inl ShadowTypeErr"

definition capability_mismatch :: "pystr \<Rightarrow> pystr \<Rightarrow> pyval \<Rightarrow> shadow_state \<Rightarrow> bool" where
  "capability_mismatch server_id prefix tool_name st \<longleftrightarrow>
     prefix \<noteq> [] \<and>
     (case dget (sh_registry st) server_id of
        None \<Rightarrow> False
      | Some info \<Rightarrow> si_capabilities info \<noteq> [] \<and> prefix \<notin> set (si_capabilities info) \<and>
          \<not> list_ex (\<lambda>cap. tool_name = PStr cap) (si_capabilities info))"

definition shadow_detect :: "pydict \<Rightarrow> shadow_state \<Rightarrow> (shadow_exn + bool \<times> shadow_reason) \<times> shadow_state" where
  "shadow_detect tool_call st =
    (case dget_or tool_call (u ''server_id'') PNone of
       PNone \<Rightarrow> (Inr (True, MissingServerId), st)
     | PStr server_id \<Rightarrow>
         if server_id \<notin> sh_allowed st then (Inr (True, NotRegistered (PStr server_id)), st)
         else (let st' = count_call server_id st;
                   tool_name = dget_or tool_call (u ''name'') (PStr [])
               in case capability_prefix tool_name of
                    Inl e \<Rightarrow> (Inl e, st')
                  | Inr prefix \<Rightarrow>
                      if capability_mismatch server_id prefix tool_name st'
                      then (Inr (True, NotForCapability server_id prefix), st')
                      else (Inr (False, NoReason), st'))
     | PList vs \<Rightarrow> (Inl ShadowTypeErr, st)
     | PDict d \<Rightarrow> (Inl ShadowTypeErr, st)
     | other \<Rightarrow> (Inr (True, NotRegistered other), st))"

definition score_server_trust :: "pystr \<Rightarrow> shadow_state \<Rightarrow> int" where
  "score_server_trust server_id st =
    (if server_id \<notin> sh_allowed st then 0
     else (case dget (sh_registry st) server_id of
        None \<Rightarrow>
          (let call_count = dget_or (sh_unregistered st) server_id 0; penalty = min (call_count * 5) 20
           in max (30 - penalty) 10)
      | Some info \<Rightarrow>
          (let volume_penalty = min (max (si_call_count info - 20) 0) 20
           in max (min (90 - volume_penalty) 100) 70)))"

section \<open>Volume never buys trust\<close>

definition counts_ok :: "shadow_state \<Rightarrow> bool" where
  "counts_ok st \<longleftrightarrow> (\<forall>s info. dget (sh_registry st) s = Some info \<longrightarrow> 0 \<le> si_call_count info) \<and>
     (\<forall>s n. dget (sh_unregistered st) s = Some n \<longrightarrow> 0 \<le> n)"

lemma count_call_trust:
  "score_server_trust s (count_call s' st) \<le> score_server_trust s st"
  "sh_allowed (count_call s' st) = sh_allowed st"
  by (auto simp: count_call_def score_server_trust_def Let_def dget_or_def split: option.splits)

lemma shadow_detect_state:
  "snd (shadow_detect call st) = st \<or> (\<exists>s. snd (shadow_detect call st) = count_call s st)"
  by (auto simp: shadow_detect_def Let_def split: pyval.splits sum.splits if_splits)

fun shadow_run :: "pydict list \<Rightarrow> shadow_state \<Rightarrow> shadow_state" where
  "shadow_run [] st = st"
| "shadow_run (call # calls) st = shadow_run calls (snd (shadow_detect call st))"

lemma shadow_run_trust:
  "score_server_trust s (shadow_run calls st) \<le> score_server_trust s st \<and>
     sh_allowed (shadow_run calls st) = sh_allowed st"
proof (induction calls arbitrary: st)
  case (Cons call calls)
  from shadow_detect_state [of call st] count_call_trust(1) [of s _ st] count_call_trust(2) [of _ st]
  have "score_server_trust s (snd (shadow_detect call st)) \<le> score_server_trust s st"
    "sh_allowed (snd (shadow_detect call st)) = sh_allowed st" by (metis order_refl)+
  with Cons.IH [of "snd (shadow_detect call st)"] show ?case by (simp add: order_trans)
qed simp

lemma make_counts_ok: "counts_ok (make_shadow A)"
  by (simp add: counts_ok_def make_shadow_def)

lemma score_bands:
  "score_server_trust s st = 0 \<or> 10 \<le> score_server_trust s st"
  "s \<notin> sh_allowed st \<Longrightarrow> score_server_trust s st = 0"
  "dget (sh_registry st) s = Some info \<Longrightarrow> s \<in> sh_allowed st \<Longrightarrow> 70 \<le> score_server_trust s st"
  by (auto simp: score_server_trust_def Let_def split: option.splits)

lemma counts_ok_unregistered: "counts_ok st \<Longrightarrow> 0 \<le> dget_or (sh_unregistered st) s 0"
  by (auto simp: counts_ok_def dget_or_def split: option.splits)

lemma score_upper: "counts_ok st \<Longrightarrow> score_server_trust s st \<le> 90"
  using counts_ok_unregistered [of st s]
  by (auto simp: score_server_trust_def Let_def min_def max_def split: option.splits)

lemma counts_ok_count: "counts_ok st \<Longrightarrow> counts_ok (count_call s st)"
proof (cases "dget (sh_registry st) s")
  case None
  assume ok: "counts_ok st"
  then have "0 \<le> dget_or (sh_unregistered st) s 0" by (rule counts_ok_unregistered)
  with None ok show ?thesis by (simp add: counts_ok_def count_call_def)
next
  case (Some info)
  assume ok: "counts_ok st"
  with Some have "0 \<le> si_call_count info" by (auto simp: counts_ok_def)
  with Some ok show ?thesis by (simp add: counts_ok_def count_call_def)
qed

lemma counts_ok_run: "counts_ok st \<Longrightarrow> counts_ok (shadow_run calls st)"
proof (induction calls arbitrary: st)
  case (Cons call calls)
  with shadow_detect_state [of call st] counts_ok_count show ?case by (metis shadow_run.simps(2))
qed simp

text \<open>
  Volume never buys trust. However many calls are observed, of whatever shape, no server's
  trust score rises, an unapproved server's stays 0, and no server becomes approved; the score of
  a server that registered stays at least 70, and no score exceeds 90.
\<close>

theorem trust_never_rises:
  assumes "counts_ok st"
  shows "let st' = shadow_run calls st in
    score_server_trust s st' \<le> score_server_trust s st \<and> sh_allowed st' = sh_allowed st \<and>
    (s \<notin> sh_allowed st \<longrightarrow> score_server_trust s st' = 0) \<and>
    (has_key (sh_registry st') s \<longrightarrow> s \<in> sh_allowed st \<longrightarrow> 70 \<le> score_server_trust s st') \<and>
    score_server_trust s st' \<le> 90"
proof -
  have "score_server_trust s (shadow_run calls st) \<le> score_server_trust s st"
    and a: "sh_allowed (shadow_run calls st) = sh_allowed st"
    using shadow_run_trust by blast+
  moreover have "score_server_trust s (shadow_run calls st) \<le> 90"
    by (rule score_upper [OF counts_ok_run [OF assms]])
  ultimately show ?thesis
    using score_bands(2) [of s "shadow_run calls st"] score_bands(3) [of "shadow_run calls st" s]
    unfolding Let_def has_key_def by auto
qed

lemma trust_never_rises_witness:
  "let st = make_shadow {u ''a''}; st' = shadow_run [[(u ''server_id'', PStr (u ''a''))], []] st in
    score_server_trust (u ''a'') st' \<le> score_server_trust (u ''a'') st \<and> sh_allowed st' = sh_allowed st \<and>
    (u ''a'' \<notin> sh_allowed st \<longrightarrow> score_server_trust (u ''a'') st' = 0) \<and>
    (has_key (sh_registry st') (u ''a'') \<longrightarrow> u ''a'' \<in> sh_allowed st \<longrightarrow> 70 \<le> score_server_trust (u ''a'') st') \<and>
    score_server_trust (u ''a'') st' \<le> 90"
  using trust_never_rises [OF make_counts_ok, where s = "u ''a''"
      and calls = "[[(u ''server_id'', PStr (u ''a''))], []]"]
  unfolding Let_def by blast

text \<open>A call is cleared exactly when it names an approved server and claims no capability beyond the
  server's declared ones.\<close>

lemma shadow_clears_iff:
  "fst (shadow_detect call st) = Inr (False, r) \<longleftrightarrow>
     (\<exists>s prefix. dget call (u ''server_id'') = Some (PStr s) \<and> s \<in> sh_allowed st \<and> r = NoReason \<and>
        capability_prefix (dget_or call (u ''name'') (PStr [])) = Inr prefix \<and>
        \<not> capability_mismatch s prefix (dget_or call (u ''name'') (PStr [])) (count_call s st))"
  by (cases "dget call (u ''server_id'')")
    (auto simp: shadow_detect_def Let_def dget_or_def split: pyval.splits sum.splits)

end
