(* ===== verification/Exfiltration.thy ===== *)
theory Exfiltration
  imports InjectionDetector
begin

text \<open>
  \<open>detectors/exfiltration.py\<close>. \<open>str(output)\<close> is the parameter \<open>show_val\<close>. Base64 decoding is that of
  \<open>binascii.a2b_base64\<close> without strict mode: characters outside the alphabet are skipped, decoding
  stops at a completed padding. A match consists of ASCII, so the decoder's own character check
  never fails. The text of findings is a constructor each.
\<close>

section \<open>Patterns\<close>

definition SUSPICIOUS_URL_PATTERNS :: "(bool \<times> rx) list" where
  "SUSPICIOUS_URL_PATTERNS = [
    (False, seqs [lit ''http'', opt (lit ''s''), lit ''://'', upto 1 3 digit_cls, lit ''.'',
      upto 1 3 digit_cls, lit ''.'', upto 1 3 digit_cls, lit ''.'', upto 1 3 digit_cls]),
    (True, seqs [lit ''http'', opt (lit ''s''), lit ''://'', star (Cls True [Rg 47 47]), lit ''.'',
      alts [lit ''tk'', lit ''ml'', lit ''ga'', lit ''cf'', lit ''gq'', lit ''xyz'', lit ''top'',
        lit ''buzz'', lit ''club''], lit ''/'']),
    (True, seqs [lit ''http'', opt (lit ''s''), lit ''://'', star (Cls True [Rg 47 47]), lit ''ngrok.io'']),
    (True, seqs [lit ''http'', opt (lit ''s''), lit ''://'', star (Cls True [Rg 47 47]), lit ''requestbin.'']),
    (True, seqs [lit ''http'', opt (lit ''s''), lit ''://'', star (Cls True [Rg 47 47]), lit ''webhook.site'']),
    (True, seqs [lit ''http'', opt (lit ''s''), lit ''://'', star (Cls True [Rg 47 47]), lit ''burpcollaborator.''])]"

definition BASE64_BLOB :: rx where
  "BASE64_BLOB = least 100 (Cls False [Rg 65 90, Rg 97 122, Rg 48 57, Rg 43 43, Rg 47 47, Rg 61 61])"

text \<open>The number of bytes that decode, or an error: position in the group of four, padding seen in
  a row, bytes so far.\<close>

fun a2b_length :: "nat \<Rightarrow> nat \<Rightarrow> nat \<Rightarrow> pystr \<Rightarrow> nat option" where
  "a2b_length quad pads n [] = (if quad = 0 then Some n else None)"
| "a2b_length quad pads n (c # s) =
    (if c = 61
     then (if 2 \<le> quad
           then (if 4 \<le> quad + pads + 1 then Some n else a2b_length quad (pads + 1) n s)
           else a2b_length quad pads n s)
     else (case b64_value c of
         None \<Rightarrow> a2b_length quad pads n s
       | Some v \<Rightarrow> a2b_length ((quad + 1) mod 4) 0 (if quad = 0 then n else n + 1) s))"

section \<open>The detector\<close>

datatype exfil_finding = HiddenBcc | PayloadSize nat | LargeBase64 nat | SuspiciousUrl nat

datatype exfil_exn = ExfilAttributeErr | ExfilEncodeErr

definition EMAIL_KEYWORDS :: "pystr list" where
  "EMAIL_KEYWORDS = [u ''email'', u ''mail'', u ''send_message'', u ''postmark'', u ''smtp'', u ''sendgrid'']"

definition is_email_tool :: "pystr \<Rightarrow> bool" where
  "is_email_tool tool_name \<longleftrightarrow> list_ex (\<lambda>kw. contains (py_lower tool_name) kw) EMAIL_KEYWORDS"

fun direct_bcc :: "pyval option \<Rightarrow> bool" where
  "direct_bcc (Some (PStr s)) = (py_strip s \<noteq> [])"
| "direct_bcc (Some (PList vs)) = (vs \<noteq> [])"
| "direct_bcc _ = False"

fun header_bcc :: "pyval \<Rightarrow> bool" where
  "header_bcc (PDict headers) =
     list_ex (\<lambda>(key, v). py_lower key \<in> {u ''bcc'', u ''x-bcc'', u ''blind-copy''} \<and> truthy v) headers"
| "header_bcc _ = False"

fun nested_bcc :: "pyval option \<Rightarrow> bool" where
  "nested_bcc (Some (PDict d)) = truthy (dget_or d (u ''bcc'') PNone)"
| "nested_bcc _ = False"

definition detect_bcc_injection :: "pydict \<Rightarrow> bool" where
  "detect_bcc_injection email_payload \<longleftrightarrow>
     direct_bcc (dget email_payload (u ''bcc'')) \<or>
     header_bcc (dget_or email_payload (u ''headers'') (PDict [])) \<or>
     list_ex (\<lambda>key. nested_bcc (dget email_payload key)) [u ''message'', u ''email'', u ''mail'']"

text \<open>The first match that decodes to more than a kilobyte.\<close>

fun first_large_blob :: "pystr list \<Rightarrow> exfil_finding list" where
  "first_large_blob [] = []"
| "first_large_blob (m # ms) =
    (case a2b_length 0 0 0 m of
       None \<Rightarrow> first_large_blob ms
     | Some n \<Rightarrow> if n > 1024 then [LargeBase64 n] else first_large_blob ms)"

fun first_url :: "ucd \<Rightarrow> pystr \<Rightarrow> nat \<Rightarrow> (bool \<times> rx) list \<Rightarrow> exfil_finding list" where
  "first_url uc text i [] = []"
| "first_url uc text i ((ic, pattern) # ps) =
    (if rx_search (env_of uc ic) pattern text then [SuspiciousUrl i] else first_url uc text (Suc i) ps)"

definition exfil_detect :: "ucd \<Rightarrow> (pyval \<Rightarrow> pystr) \<Rightarrow> rat \<Rightarrow> pyval \<Rightarrow> pyval \<Rightarrow>
    exfil_exn + bool \<times> exfil_finding list" where
  "exfil_detect uc show_val max_payload_kb tool_name output =
    (case tool_name of
       PStr name \<Rightarrow>
         rbind (if is_email_tool name
                then (case output of
                    PDict d \<Rightarrow> Inr (if detect_bcc_injection d then [HiddenBcc] else [])
                  | _ \<Rightarrow> Inl ExfilAttributeErr)
                else Inr [])
           (\<lambda>f1. let payload_str = show_val output
             in case utf8_encode payload_str of
                  None \<Rightarrow> Inl ExfilEncodeErr
                | Some bytes \<Rightarrow>
                    (let f2 = (if Fract (int (length bytes)) 1024 > max_payload_kb
                               then [PayloadSize (length bytes)] else []);
                         f3 = first_large_blob (rx_findall (env_of uc False) BASE64_BLOB payload_str);
                         f4 = concat (map (\<lambda>text. first_url uc text 0 SUSPICIOUS_URL_PATTERNS)
                                (extract_strings output));
                         findings = f1 @ f2 @ f3 @ f4
                     in Inr (findings \<noteq> [], findings)))
     | _ \<Rightarrow> Inl ExfilAttributeErr)"

section \<open>What is flagged\<close>

definition suspicious_url :: "ucd \<Rightarrow> pystr \<Rightarrow> bool" where
  "suspicious_url uc text \<longleftrightarrow> (\<exists>(ic, pattern) \<in> set SUSPICIOUS_URL_PATTERNS. rx_search (env_of uc ic) pattern text)"

definition large_blob :: "ucd \<Rightarrow> pystr \<Rightarrow> bool" where
  "large_blob uc text \<longleftrightarrow> (\<exists>m \<in> set (rx_findall (env_of uc False) BASE64_BLOB text).
     \<exists>n > 1024. a2b_length 0 0 0 m = Some n)"

lemma exfil_flag:
  "exfil_detect uc show_val kb tool_name output = Inr (flag, reasons) \<Longrightarrow> flag \<longleftrightarrow> reasons \<noteq> []"
  by (cases tool_name; cases "utf8_encode (show_val output)")
    (auto simp: exfil_detect_def Let_def simp del: concat_eq_Nil_conv append_is_Nil_conv extract_strings.simps)

lemma first_url_iff: "first_url uc t i ps = [] \<longleftrightarrow> \<not> (\<exists>(ic, p) \<in> set ps. rx_search (env_of uc ic) p t)"
  by (induction uc t i ps rule: first_url.induct) auto

lemma first_large_blob_iff:
  "first_large_blob ms = [] \<longleftrightarrow> \<not> (\<exists>m \<in> set ms. \<exists>n > 1024. a2b_length 0 0 0 m = Some n)"
  by (induction ms rule: first_large_blob.induct) (auto split: option.splits)

text \<open>
  An output passes the exfiltration check exactly when the tool name is a string, an e-mail
  tool's output is an object without a blind copy in the places looked at, the printed output
  encodes and is within the limit, no base64 run in it decodes to more than a kilobyte, and no
  string of it, at any depth, holds a suspicious URL; any other outcome is a finding or an error.
\<close>

theorem exfil_passes_iff:
  "exfil_detect uc show_val max_kb tool_name output = Inr (False, fs) \<longleftrightarrow>
    fs = [] \<and> (\<exists>name bytes. tool_name = PStr name \<and>
      (is_email_tool name \<longrightarrow> (\<exists>d. output = PDict d \<and> \<not> detect_bcc_injection d)) \<and>
      utf8_encode (show_val output) = Some bytes \<and> Fract (int (length bytes)) 1024 \<le> max_kb \<and>
      \<not> large_blob uc (show_val output) \<and>
      (\<forall>t \<in> set (extract_strings output). \<not> suspicious_url uc t))"
proof (cases tool_name)
  case (PStr name)
  let ?f1 = "if is_email_tool name
      then (case output of PDict d \<Rightarrow> Inr (if detect_bcc_injection d then [HiddenBcc] else [])
        | _ \<Rightarrow> Inl ExfilAttributeErr) else Inr []"
  have f1: "?f1 = Inr [] \<longleftrightarrow> (is_email_tool name \<longrightarrow> (\<exists>d. output = PDict d \<and> \<not> detect_bcc_injection d))"
    by (cases "output") auto
  have f4: "concat (map (\<lambda>text. first_url uc text 0 SUSPICIOUS_URL_PATTERNS) (extract_strings output)) = [] \<longleftrightarrow>
      (\<forall>t \<in> set (extract_strings output). \<not> suspicious_url uc t)"
    by (simp add: first_url_iff suspicious_url_def)
  show ?thesis
  proof (cases "utf8_encode (show_val output)")
    case None
    with PStr show ?thesis by (auto simp: exfil_detect_def Let_def)
  next
    case (Some bytes)
    have "exfil_detect uc show_val max_kb tool_name output = Inr (False, fs) \<longleftrightarrow>
        fs = [] \<and> ?f1 = Inr [] \<and> \<not> Fract (int (length bytes)) 1024 > max_kb \<and>
        first_large_blob (rx_findall (env_of uc False) BASE64_BLOB (show_val output)) = [] \<and>
        concat (map (\<lambda>text. first_url uc text 0 SUSPICIOUS_URL_PATTERNS) (extract_strings output)) = []"
      by (cases ?f1) (auto simp: exfil_detect_def PStr Some Let_def simp del: concat_eq_Nil_conv split: if_splits)
    then show ?thesis
      unfolding f1 f4 first_large_blob_iff large_blob_def [symmetric] using PStr Some
      by (auto simp: not_less)
  qed
qed (simp_all add: exfil_detect_def)

lemma exfil_passes_iff_witness:
  "exfil_detect \<lparr>ucd_nfkc = id, ucd_printable = (\<lambda>c. True), ucd_word = (\<lambda>c. False)\<rparr> (\<lambda>v. u ''{}'') 100
      (PStr (u ''send_email'')) (PDict []) = Inr (False, []) \<longleftrightarrow>
    ([] :: exfil_finding list) = [] \<and> (\<exists>name bytes. PStr (u ''send_email'') = PStr name \<and>
      (is_email_tool name \<longrightarrow> (\<exists>d. PDict [] = PDict d \<and> \<not> detect_bcc_injection d)) \<and>
      utf8_encode (u ''{}'') = Some bytes \<and> Fract (int (length bytes)) 1024 \<le> 100 \<and>
      \<not> large_blob \<lparr>ucd_nfkc = id, ucd_printable = (\<lambda>c. True), ucd_word = (\<lambda>c. False)\<rparr> (u ''{}'') \<and>
      (\<forall>t \<in> set (extract_strings (PDict [])).
        \<not> suspicious_url \<lparr>ucd_nfkc = id, ucd_printable = (\<lambda>c. True), ucd_word = (\<lambda>c. False)\<rparr> t))"
  by (rule exfil_passes_iff)

text \<open>The header's usual spelling is not recognised at the top level.\<close>

lemma capital_bcc_missed:
  "\<not> detect_bcc_injection [(u ''to'', PStr (u ''a@b.co'')), (u ''Bcc'', PStr (u ''phan@giftshop.club''))]"
  by code_simp

end
