(* ===== verification/SecurityMonitor.thy ===== *)
theory SecurityMonitor
  imports PiiDetector ShadowServer Exfiltration AuditLog
begin

text \<open>
  \<open>monitor.py\<close>: the orchestrator of the four detectors, its fail-closed decision and the audit
  entry of every inspection. A detector's exception becomes a detector error. Findings and errors
  are constructors; their texts, which only go into the audit entry, are the parameter
  \<open>me_render\<close>, as are call ids, entry ids, the clock and the disk.
\<close>

section \<open>State and results\<close>

datatype monitor_finding =
    InjectionFinding pystr
  | PiiFinding pystr nat
  | ShadowFinding shadow_reason
  | ExfilFinding exfil_finding
  | PiiOutputFinding pystr nat

datatype detector_error =
    InjectionFailed pystr
  | ShadowFailed shadow_exn
  | ExfilFailed exfil_exn

datatype monitor_decision = DecisionAllow | DecisionBlock | Indeterminate

fun decision_value :: "monitor_decision \<Rightarrow> pystr" where
  "decision_value DecisionAllow = u ''allow''"
| "decision_value DecisionBlock = u ''block''"
| "decision_value Indeterminate = u ''indeterminate''"

record monitor_env =
  me_ucd :: ucd
  me_ml :: ml_classifier
  me_show :: "pyval \<Rightarrow> pystr"
  me_render :: "monitor_finding + detector_error \<Rightarrow> pystr"
  me_hash :: hash_env

record security_monitor =
  sm_audit_log :: audit_log
  sm_shadow_mode :: bool
  sm_shadow_detector :: shadow_state
  sm_max_payload_kb :: rat

definition make_security_monitor :: "pystr set \<Rightarrow> audit_log \<Rightarrow> rat \<Rightarrow> bool \<Rightarrow> security_monitor" where
  "make_security_monitor allowed_servers lg max_payload_kb shadow_mode =
     \<lparr>sm_audit_log = lg, sm_shadow_mode = shadow_mode, sm_shadow_detector = make_shadow allowed_servers,
      sm_max_payload_kb = max_payload_kb\<rparr>"

record monitor_result =
  mr_decision :: monitor_decision
  mr_allowed :: bool
  mr_risk_score :: int
  mr_findings :: "monitor_finding list"
  mr_call_id :: pystr
  mr_detector_errors :: "detector_error list"

text \<open>What one detector adds: findings, risk scores, errors.\<close>

type_synonym contribution = "monitor_finding list \<times> int list \<times> detector_error list"

definition injection_part :: "monitor_env \<Rightarrow> pydict \<Rightarrow> bool \<times> contribution" where
  "injection_part env tool_call =
    (case detect (me_ucd env) (me_ml env) tool_call of
       Inl exc \<Rightarrow> (False, [], [], [InjectionFailed exc])
     | Inr (injected, patterns) \<Rightarrow>
         if injected
         then (case injection_risk_score (me_ucd env) (me_ml env) tool_call of
             Inl exc \<Rightarrow> (True, map InjectionFinding patterns, [], [InjectionFailed exc])
           | Inr n \<Rightarrow> (True, map InjectionFinding patterns, [n], []))
         else (False, [], [], []))"

definition pii_part :: "monitor_env \<Rightarrow> pydict \<Rightarrow> contribution" where
  "pii_part env tool_call =
    (let (has_pii, pii_findings) = pii_scan_tool_call (me_ucd env) tool_call
     in if has_pii
        then (map (\<lambda>(pii_type, values). PiiFinding pii_type (length values)) pii_findings,
              [40 + 10 * int (length pii_findings)], [])
        else ([], [], []))"

definition shadow_part :: "pydict \<Rightarrow> shadow_state \<Rightarrow> (bool \<times> contribution) \<times> shadow_state" where
  "shadow_part tool_call st =
    (let (r, st') = shadow_detect tool_call st
     in (case r of
           Inl exc \<Rightarrow> (False, [], [], [ShadowFailed exc])
         | Inr (is_shadow, reason) \<Rightarrow>
             if is_shadow then (True, [ShadowFinding reason], [80], []) else (False, [], [], []), st'))"

definition exfil_part :: "monitor_env \<Rightarrow> rat \<Rightarrow> pyval \<Rightarrow> pyval \<Rightarrow> contribution" where
  "exfil_part env max_kb tool_name output =
    (case exfil_detect (me_ucd env) (me_show env) max_kb tool_name output of
       Inl exc \<Rightarrow> ([], [], [ExfilFailed exc])
     | Inr (exfil, reasons) \<Rightarrow>
         if exfil then (map ExfilFinding reasons, [70 + 5 * int (length reasons)], []) else ([], [], []))"

fun py_max :: "int list \<Rightarrow> int" where
  "py_max [] = 0"
| "py_max [r] = r"
| "py_max (r # rs) = max r (py_max rs)"

definition final_risk :: "int list \<Rightarrow> int" where
  "final_risk risk_scores = min (py_max risk_scores) 100"

text \<open>The decision from the collected errors, a definite threat and the mode.\<close>

definition final_decision :: "bool \<Rightarrow> detector_error list \<Rightarrow> bool \<Rightarrow> monitor_decision \<times> bool" where
  "final_decision shadow_mode errors threat =
    (if errors = []
     then (if threat then (DecisionBlock, False) else (DecisionAllow, True))
     else (if shadow_mode then (DecisionAllow, True) else (DecisionBlock, False)))"

definition audit_data :: "monitor_env \<Rightarrow> pystr \<Rightarrow> pyval \<Rightarrow> bool \<Rightarrow> monitor_result \<Rightarrow> pydict" where
  "audit_data env call_id tool_name shadow_mode res =
     [(u ''call_id'', PStr call_id), (u ''tool_name'', tool_name),
      (u ''decision'', PStr (decision_value (mr_decision res))), (u ''allowed'', PBool (mr_allowed res)),
      (u ''risk_score'', PInt (mr_risk_score res)),
      (u ''findings'', PList (map (\<lambda>f. PStr (me_render env (Inl f))) (mr_findings res))),
      (u ''detector_errors'', PList (map (\<lambda>e. PStr (me_render env (Inr e))) (mr_detector_errors res))),
      (u ''shadow_mode'', PBool shadow_mode)]"

text \<open>The entry id, the time and the disk of the audit log's append.\<close>

type_synonym append_io = "pystr \<times> rat \<times> pystr option"

definition log_result :: "monitor_env \<Rightarrow> append_io \<Rightarrow> pystr \<Rightarrow> pyval \<Rightarrow> monitor_result \<Rightarrow> security_monitor \<Rightarrow>
    (audit_exn + monitor_result) \<times> security_monitor" where
  "log_result env io event_type tool_name res sm =
    (let (uid, now, disk) = io;
         (lg, r) = al_append (me_hash env) uid now disk event_type
           (audit_data env (mr_call_id res) tool_name (sm_shadow_mode sm) res) (sm_audit_log sm);
         sm' = sm\<lparr>sm_audit_log := lg\<rparr>
     in (case r of Inl e \<Rightarrow> Inl e | Inr entry \<Rightarrow> Inr res, sm'))"

section \<open>Inspections\<close>

definition monitor_inspect_call :: "monitor_env \<Rightarrow> append_io \<Rightarrow> pystr \<Rightarrow> pydict \<Rightarrow> security_monitor \<Rightarrow>
    (audit_exn + monitor_result) \<times> security_monitor" where
  "monitor_inspect_call env io call_id tool_call sm =
    (let (injected, f1, r1, e1) = injection_part env tool_call;
         (f2, r2, e2) = pii_part env tool_call;
         ((is_shadow, f3, r3, e3), sh) = shadow_part tool_call (sm_shadow_detector sm);
         tool_name = dget_or tool_call (u ''name'') (PStr []);
         arguments = dget_or tool_call (u ''arguments'') (PDict []);
         (f4, r4, e4) = exfil_part env (sm_max_payload_kb sm) tool_name arguments;
         errors = e1 @ e2 @ e3 @ e4;
         risk_score = final_risk (r1 @ r2 @ r3 @ r4);
         (decision, allowed) = final_decision (sm_shadow_mode sm) errors
           (injected \<or> risk_score \<ge> 50 \<or> is_shadow);
         res = \<lparr>mr_decision = decision, mr_allowed = allowed, mr_risk_score = risk_score,
           mr_findings = f1 @ f2 @ f3 @ f4, mr_call_id = call_id, mr_detector_errors = errors\<rparr>
     in log_result env io (u ''tool_call_inspected'') tool_name res (sm\<lparr>sm_shadow_detector := sh\<rparr>))"

definition pii_output_part :: "monitor_env \<Rightarrow> pyval \<Rightarrow> contribution" where
  "pii_output_part env output =
    (let pii_results = pii_detect (me_ucd env) (me_show env output)
     in if pii_results \<noteq> []
        then (map (\<lambda>(pii_type, values). PiiOutputFinding pii_type (length values)) pii_results,
              [50 + 10 * int (length pii_results)], [])
        else ([], [], []))"

definition monitor_inspect_output :: "monitor_env \<Rightarrow> append_io \<Rightarrow> pystr \<Rightarrow> pyval \<Rightarrow> pyval \<Rightarrow> security_monitor \<Rightarrow>
    (audit_exn + monitor_result) \<times> security_monitor" where
  "monitor_inspect_output env io call_id tool_name output sm =
    (let (f1, r1, e1) = exfil_part env (sm_max_payload_kb sm) tool_name output;
         (f2, r2, e2) = pii_output_part env output;
         errors = e1 @ e2;
         risk_score = final_risk (r1 @ r2);
         (decision, allowed) = final_decision (sm_shadow_mode sm) errors (risk_score \<ge> 50);
         res = \<lparr>mr_decision = decision, mr_allowed = allowed, mr_risk_score = risk_score,
           mr_findings = f1 @ f2, mr_call_id = call_id, mr_detector_errors = errors\<rparr>
     in log_result env io (u ''tool_output_inspected'') tool_name res sm)"

section \<open>Fail-closed\<close>

lemma py_max_ge: "r \<in> set rs \<Longrightarrow> r \<le> py_max rs"
  by (induction rs rule: py_max.induct) (auto simp: le_max_iff_disj)

lemma final_risk_ge: "r \<in> set rs \<Longrightarrow> 50 \<le> r \<Longrightarrow> 50 \<le> final_risk rs"
  using py_max_ge [of r rs] by (simp add: final_risk_def)

lemma final_risk_none: "final_risk [] = 0"
  by (simp add: final_risk_def)

text \<open>Each contribution is empty, or carries an error, or raises the risk to a block.\<close>

definition injection_clean :: "monitor_env \<Rightarrow> pydict \<Rightarrow> bool" where
  "injection_clean env call \<longleftrightarrow> detect (me_ucd env) (me_ml env) call = Inr (False, [])"

definition pii_clean :: "monitor_env \<Rightarrow> pydict \<Rightarrow> bool" where
  "pii_clean env call \<longleftrightarrow> (\<forall>t \<in> set (extract_strings (PDict call)).
     \<forall>(n, p) \<in> set PII_PATTERNS. \<not> rx_search (env_of (me_ucd env) False) p t)"

definition exfil_clean :: "monitor_env \<Rightarrow> rat \<Rightarrow> pydict \<Rightarrow> bool" where
  "exfil_clean env max_kb call \<longleftrightarrow> exfil_detect (me_ucd env) (me_show env) max_kb
     (dget_or call (u ''name'') (PStr [])) (dget_or call (u ''arguments'') (PDict [])) = Inr (False, [])"

definition server_clean :: "pydict \<Rightarrow> shadow_state \<Rightarrow> bool" where
  "server_clean call st \<longleftrightarrow> fst (shadow_detect call st) = Inr (False, NoReason)"

definition detector_failed :: "monitor_env \<Rightarrow> pydict \<Rightarrow> security_monitor \<Rightarrow> bool" where
  "detector_failed env call sm \<longleftrightarrow>
     snd (snd (snd (injection_part env call))) \<noteq> [] \<or>
     snd (snd (snd (fst (shadow_part call (sm_shadow_detector sm))))) \<noteq> [] \<or>
     snd (snd (exfil_part env (sm_max_payload_kb sm) (dget_or call (u ''name'') (PStr []))
       (dget_or call (u ''arguments'') (PDict [])))) \<noteq> []"

lemma injection_part_cases:
  "injection_clean env call \<longleftrightarrow> injection_part env call = (False, [], [], [])"
  "snd (snd (snd (injection_part env call))) = [] \<Longrightarrow> \<not> fst (injection_part env call) \<Longrightarrow> injection_clean env call"
proof -
  have "patterns = []" if "detect (me_ucd env) (me_ml env) call = Inr (False, patterns)" for patterns
    using injection.flag_patterns [OF that] by simp
  then show "injection_clean env call \<longleftrightarrow> injection_part env call = (False, [], [], [])"
    "snd (snd (snd (injection_part env call))) = [] \<Longrightarrow> \<not> fst (injection_part env call) \<Longrightarrow> injection_clean env call"
    by (auto simp: injection_part_def injection_clean_def split: sum.splits if_splits)
qed

lemma pii_part_cases:
  "if pii_clean env call then pii_part env call = ([], [], [])
   else (\<exists>fs r. pii_part env call = (fs, [r], []) \<and> 50 \<le> r)"
proof -
  let ?c = "pii_scan_texts (me_ucd env) (extract_strings (PDict call)) []"
  have "fst ` set ?c = {} \<longleftrightarrow> pii_clean env call"
    unfolding keys_scan pii_detect_keys pii_clean_def by (auto simp del: extract_strings.simps)
  then have "?c = [] \<longleftrightarrow> pii_clean env call" by simp
  moreover have "50 \<le> 40 + 10 * int (length c)" if "c \<noteq> []" for c :: pii_findings
    using that by (cases c) simp_all
  ultimately show ?thesis
    by (simp add: pii_part_def pii_scan_tool_call_def Let_def del: extract_strings.simps)
qed

lemma shadow_reason_cleared: "fst (shadow_detect call st) = Inr (False, r) \<Longrightarrow> r = NoReason"
  by (auto simp: shadow_clears_iff)

lemma shadow_part_cases:
  "server_clean call st \<longleftrightarrow> fst (shadow_part call st) = (False, [], [], [])"
  "snd (snd (snd (fst (shadow_part call st)))) = [] \<Longrightarrow> \<not> fst (fst (shadow_part call st)) \<Longrightarrow> server_clean call st"
  using shadow_reason_cleared [of call st]
  by (auto simp: shadow_part_def server_clean_def case_prod_unfold Let_def split: sum.splits if_splits)

lemma exfil_part_cases:
  assumes "exfil_part env (sm_max_payload_kb sm) (dget_or call (u ''name'') (PStr []))
      (dget_or call (u ''arguments'') (PDict [])) = (fs, rs, es)"
  shows "exfil_clean env (sm_max_payload_kb sm) call \<longleftrightarrow> (fs, rs, es) = ([], [], [])"
    "es = [] \<Longrightarrow> \<not> exfil_clean env (sm_max_payload_kb sm) call \<Longrightarrow> \<exists>r. rs = [r] \<and> 50 \<le> r"
proof -
  let ?o = "exfil_detect (me_ucd env) (me_show env) (sm_max_payload_kb sm)
    (dget_or call (u ''name'') (PStr [])) (dget_or call (u ''arguments'') (PDict []))"
  have flag: "?o = Inr (flag, reasons) \<Longrightarrow> flag \<longleftrightarrow> reasons \<noteq> []" for flag reasons
    by (rule exfil_flag)
  have "(exfil_clean env (sm_max_payload_kb sm) call \<longleftrightarrow> (fs, rs, es) = ([], [], [])) \<and>
    (es = [] \<longrightarrow> \<not> exfil_clean env (sm_max_payload_kb sm) call \<longrightarrow> (\<exists>r. rs = [r] \<and> 50 \<le> r))"
  proof (cases ?o)
    case (Inl e)
    with assms show ?thesis by (auto simp: exfil_part_def exfil_clean_def)
  next
    case (Inr p)
    obtain flag reasons where p: "p = (flag, reasons)" by (cases p)
    with Inr flag have "flag \<longleftrightarrow> reasons \<noteq> []" by blast
    with assms Inr p show ?thesis by (cases flag) (auto simp: exfil_part_def exfil_clean_def)
  qed
  then show "exfil_clean env (sm_max_payload_kb sm) call \<longleftrightarrow> (fs, rs, es) = ([], [], [])"
    "es = [] \<Longrightarrow> \<not> exfil_clean env (sm_max_payload_kb sm) call \<Longrightarrow> \<exists>r. rs = [r] \<and> 50 \<le> r"
    by blast+
qed

lemma log_result_effect:
  assumes "log_result env io ev tool_name res sm = (Inr res', sm')"
  shows "res' = res \<and> (\<exists>e. al_entries (sm_audit_log sm') = al_entries (sm_audit_log sm) @ [e] \<and>
    ae_event_type e = PStr ev \<and>
    ae_data e = PDict (audit_data env (mr_call_id res) tool_name (sm_shadow_mode sm) res))"
proof -
  obtain uid now disk where io: "io = (uid, now, disk)" by (cases io)
  obtain lg r where a: "al_append (me_hash env) uid now disk ev
      (audit_data env (mr_call_id res) tool_name (sm_shadow_mode sm) res) (sm_audit_log sm) = (lg, r)"
    by (cases "al_append (me_hash env) uid now disk ev
      (audit_data env (mr_call_id res) tool_name (sm_shadow_mode sm) res) (sm_audit_log sm)")
  with assms io obtain e where "r = Inr e" and eq: "res' = res" "sm' = sm\<lparr>sm_audit_log := lg\<rparr>"
    by (cases r) (auto simp: log_result_def)
  with al_append_cases [OF a] show ?thesis by (auto split: option.splits)
qed

definition call_clean :: "monitor_env \<Rightarrow> pydict \<Rightarrow> security_monitor \<Rightarrow> bool" where
  "call_clean env call sm \<longleftrightarrow> injection_clean env call \<and> pii_clean env call \<and>
     server_clean call (sm_shadow_detector sm) \<and> exfil_clean env (sm_max_payload_kb sm) call"

lemma monitor_decision_core:
  assumes i: "injection_part env call = (injected, f1, r1, e1)"
    and p: "pii_part env call = (f2, r2, e2)"
    and s: "fst (shadow_part call (sm_shadow_detector sm)) = (is_shadow, f3, r3, e3)"
    and x: "exfil_part env (sm_max_payload_kb sm) (dget_or call (u ''name'') (PStr []))
      (dget_or call (u ''arguments'') (PDict [])) = (f4, r4, e4)"
  shows "e1 @ e2 @ e3 @ e4 = [] \<longleftrightarrow> \<not> detector_failed env call sm"
    and "e1 @ e2 @ e3 @ e4 = [] \<Longrightarrow>
      (injected \<or> final_risk (r1 @ r2 @ r3 @ r4) \<ge> 50 \<or> is_shadow) \<longleftrightarrow> \<not> call_clean env call sm"
    and "call_clean env call sm \<Longrightarrow> e1 @ e2 @ e3 @ e4 = []"
proof -
  have e2: "e2 = []" using pii_part_cases [of env call] p by (auto split: if_splits)
  then show failed: "e1 @ e2 @ e3 @ e4 = [] \<longleftrightarrow> \<not> detector_failed env call sm"
    using i s x by (auto simp: detector_failed_def)
  have I: "injection_clean env call \<longleftrightarrow> (injected, f1, r1, e1) = (False, [], [], [])"
    using injection_part_cases(1) [of env call] i by simp
  have S: "server_clean call (sm_shadow_detector sm) \<longleftrightarrow> (is_shadow, f3, r3, e3) = (False, [], [], [])"
    using shadow_part_cases(1) [of call "sm_shadow_detector sm"] s by simp
  note X = exfil_part_cases(1) [OF x]
  show "call_clean env call sm \<Longrightarrow> e1 @ e2 @ e3 @ e4 = []"
    using I S X e2 by (auto simp: call_clean_def)
  assume none: "e1 @ e2 @ e3 @ e4 = []"
  show "(injected \<or> final_risk (r1 @ r2 @ r3 @ r4) \<ge> 50 \<or> is_shadow) \<longleftrightarrow> \<not> call_clean env call sm"
  proof (cases "call_clean env call sm")
    case True
    then have "pii_part env call = ([], [], [])" using pii_part_cases [of env call] by (simp add: call_clean_def)
    with True I S X p have "r1 @ r2 @ r3 @ r4 = []" "\<not> injected" "\<not> is_shadow"
      by (auto simp: call_clean_def)
    with True show ?thesis by (simp only: final_risk_none) simp
  next
    case False
    then consider "\<not> injection_clean env call" | "\<not> pii_clean env call"
      | "\<not> server_clean call (sm_shadow_detector sm)" | "\<not> exfil_clean env (sm_max_payload_kb sm) call"
      by (auto simp: call_clean_def)
    then have "injected \<or> final_risk (r1 @ r2 @ r3 @ r4) \<ge> 50 \<or> is_shadow"
    proof cases
      case 1
      with injection_part_cases(2) [of env call] i none show ?thesis by auto
    next
      case 2
      with pii_part_cases [of env call] p obtain r where "r2 = [r]" "50 \<le> r" by auto
      then show ?thesis using final_risk_ge [of r "r1 @ r2 @ r3 @ r4"] by simp
    next
      case 3
      with shadow_part_cases(2) [of call "sm_shadow_detector sm"] s none show ?thesis by auto
    next
      case 4
      with exfil_part_cases(2) [OF x] none obtain r where "r4 = [r]" "50 \<le> r" by auto
      then show ?thesis using final_risk_ge [of r "r1 @ r2 @ r3 @ r4"] by simp
    qed
    with False show ?thesis by simp
  qed
qed

lemma monitor_allows_core:
  assumes "monitor_inspect_call env io call_id call sm = (Inr res, sm')"
  shows "(mr_allowed res \<longleftrightarrow> call_clean env call sm \<or> sm_shadow_mode sm \<and> detector_failed env call sm) \<and>
    (mr_decision res = (if mr_allowed res then DecisionAllow else DecisionBlock)) \<and>
    (\<exists>e. al_entries (sm_audit_log sm') = al_entries (sm_audit_log sm) @ [e] \<and>
       ae_event_type e = PStr (u ''tool_call_inspected'') \<and>
       ae_data e = PDict (audit_data env call_id (dget_or call (u ''name'') (PStr [])) (sm_shadow_mode sm) res))"
proof -
  obtain injected f1 r1 e1 where i: "injection_part env call = (injected, f1, r1, e1)"
    by (cases "injection_part env call") auto
  obtain f2 r2 e2 where p: "pii_part env call = (f2, r2, e2)" by (cases "pii_part env call") auto
  obtain is_shadow f3 r3 e3 sh where s: "shadow_part call (sm_shadow_detector sm) = ((is_shadow, f3, r3, e3), sh)"
    by (cases "shadow_part call (sm_shadow_detector sm)") (metis prod_cases4)
  obtain f4 r4 e4 where x: "exfil_part env (sm_max_payload_kb sm) (dget_or call (u ''name'') (PStr []))
      (dget_or call (u ''arguments'') (PDict [])) = (f4, r4, e4)"
    by (cases "exfil_part env (sm_max_payload_kb sm) (dget_or call (u ''name'') (PStr []))
      (dget_or call (u ''arguments'') (PDict []))") auto
  let ?es = "e1 @ e2 @ e3 @ e4" and ?risk = "final_risk (r1 @ r2 @ r3 @ r4)"
  obtain dec al where d: "final_decision (sm_shadow_mode sm) ?es (injected \<or> ?risk \<ge> 50 \<or> is_shadow) = (dec, al)"
    by (cases "final_decision (sm_shadow_mode sm) ?es (injected \<or> ?risk \<ge> 50 \<or> is_shadow)")
  have s': "fst (shadow_part call (sm_shadow_detector sm)) = (is_shadow, f3, r3, e3)" using s by simp
  note core = monitor_decision_core [OF i p s' x]
  have al: "al \<longleftrightarrow> call_clean env call sm \<or> sm_shadow_mode sm \<and> detector_failed env call sm"
    "dec = (if al then DecisionAllow else DecisionBlock)"
    using d core unfolding final_decision_def by (auto split: if_splits)
  have "log_result env io (u ''tool_call_inspected'') (dget_or call (u ''name'') (PStr []))
      \<lparr>mr_decision = dec, mr_allowed = al, mr_risk_score = ?risk, mr_findings = f1 @ f2 @ f3 @ f4,
        mr_call_id = call_id, mr_detector_errors = ?es\<rparr> (sm\<lparr>sm_shadow_detector := sh\<rparr>) = (Inr res, sm')"
    using assms unfolding monitor_inspect_call_def i p s x d Let_def prod.case .
  from log_result_effect [OF this] al show ?thesis by auto
qed

text \<open>
  C6: The monitor is fail-closed, and exactly so. Whenever the inspection of a call returns, the
  call is allowed exactly when all four detectors ran and found nothing (no signature and no
  classifier threat, no PII in any string, an approved server within its capabilities, no
  exfiltration indicator), or, in shadow mode only, when some detector failed; and exactly one
  entry with that decision is added to the audit log. In shadow mode a failing detector thus
  lets a call pass that another detector recognised as an attack.
\<close>

theorem monitor_allows_iff:
  assumes "monitor_inspect_call env io call_id call sm = (Inr res, sm')"
  shows "(mr_allowed res \<longleftrightarrow> call_clean env call sm \<or> sm_shadow_mode sm \<and> detector_failed env call sm) \<and>
    (mr_decision res = (if mr_allowed res then DecisionAllow else DecisionBlock)) \<and>
    (\<exists>e. al_entries (sm_audit_log sm') = al_entries (sm_audit_log sm) @ [e] \<and>
       ae_event_type e = PStr (u ''tool_call_inspected'') \<and>
       ae_data e = PDict (audit_data env call_id (dget_or call (u ''name'') (PStr [])) (sm_shadow_mode sm) res))"
  by (rule monitor_allows_core [OF assms])

definition sample_monitor_env :: monitor_env where
  "sample_monitor_env = \<lparr>me_ucd = \<lparr>ucd_nfkc = id, ucd_printable = (\<lambda>c. True), ucd_word = is_digit\<rparr>,
     me_ml = None, me_show = (\<lambda>v. u ''{}''), me_render = (\<lambda>f. []), me_hash = toy_env\<rparr>"

definition sample_monitor :: security_monitor where
  "sample_monitor = make_security_monitor {u ''a''} empty_log 100 False"

lemma monitor_allows_iff_witness:
  "\<exists>res sm'. (mr_allowed res \<longleftrightarrow> call_clean sample_monitor_env [] sample_monitor \<or>
      sm_shadow_mode sample_monitor \<and> detector_failed sample_monitor_env [] sample_monitor) \<and>
    (mr_decision res = (if mr_allowed res then DecisionAllow else DecisionBlock)) \<and>
    (\<exists>e. al_entries (sm_audit_log (sm' :: security_monitor)) = al_entries (sm_audit_log sample_monitor) @ [e] \<and>
       ae_event_type e = PStr (u ''tool_call_inspected'') \<and>
       ae_data e = PDict (audit_data sample_monitor_env (u ''1'') (dget_or ([] :: pydict) (u ''name'') (PStr []))
         (sm_shadow_mode sample_monitor) res))"
proof -
  let ?r = "monitor_inspect_call sample_monitor_env (u ''id'', 1 / 2, None) (u ''1'') [] sample_monitor"
  have "map_sum id mr_allowed (fst ?r) = Inr False" by code_simp
  then obtain res where "fst ?r = Inr res" by (cases "fst ?r") auto
  then have "?r = (Inr res, snd ?r)" by (simp add: prod_eq_iff)
  from monitor_allows_iff [OF this] show ?thesis by (intro exI)
qed

end
