(* ===== verification/NetworkEgress.thy ===== *)
theory NetworkEgress
  imports InjectionDetector PyValues
begin

text \<open>
  \<open>layers/egress.py\<close>: the egress rules per server and their evaluation. A server id, destination
  and port reach \<open>evaluate\<close> from the arguments of a call, so they are any JSON values: a server id
  that is no string fails in \<open>re.search\<close>, a list or an object fails in a set membership test. The
  pattern of a rule is the regular expression its text denotes. Texts of reasons are constructors.
\<close>

section \<open>State\<close>

record egress_rule =
  gr_name :: pystr
  gr_description :: pystr
  gr_server_pattern :: rx
  gr_allowed_domains :: "pystr set"
  gr_allowed_ips :: "pystr set"
  gr_allowed_ports :: "int set"
  gr_blocked_domains :: "pystr set"
  gr_blocked_ips :: "pystr set"
  gr_max_payload_bytes :: int

datatype egress_reason =
    NoMatchingRules bool
  | ExplicitlyBlocked pyval
  | PayloadExceeds int int
  | MatchesAllowRule
  | NoAllowRuleMatched bool

record egress_decision =
  gd_allowed :: bool
  gd_server_id :: pyval
  gd_destination :: pyval
  gd_port :: pyval
  gd_rule_name :: pystr
  gd_reason :: egress_reason

record egress_policy =
  gp_default_deny :: bool
  gp_rules :: "egress_rule list"
  gp_decisions :: "egress_decision list"

datatype layer_exn = TypeErr | AttributeErr

definition make_egress_policy :: "bool \<Rightarrow> egress_policy" where
  "make_egress_policy default_deny =
     \<lparr>gp_default_deny = default_deny, gp_rules = [], gp_decisions = []\<rparr>"

definition add_egress_rule :: "egress_rule \<Rightarrow> egress_policy \<Rightarrow> egress_policy" where
  "add_egress_rule r p = p\<lparr>gp_rules := gp_rules p @ [r]\<rparr>"

section \<open>Evaluation\<close>

text \<open>\<open>re.search(r.server_pattern, server_id, re.IGNORECASE)\<close>.\<close>

definition rule_matches :: "ucd \<Rightarrow> pystr \<Rightarrow> egress_rule \<Rightarrow> bool" where
  "rule_matches uc server_id r \<longleftrightarrow> rx_search (env_of uc True) (gr_server_pattern r) server_id"

definition matching_rules :: "ucd \<Rightarrow> egress_rule list \<Rightarrow> pyval \<Rightarrow> layer_exn + egress_rule list" where
  "matching_rules uc rules server_id =
    (case server_id of
       PStr s \<Rightarrow> Inr (filter (rule_matches uc s) rules)
     | _ \<Rightarrow> if rules = [] then Inr [] else Inl TypeErr)"

text \<open>One rule: raise, decide (allowed, reason), or leave the call to the next rule.\<close>

definition apply_rule :: "pyval \<Rightarrow> pyval \<Rightarrow> int \<Rightarrow> egress_rule \<Rightarrow>
    layer_exn + (bool \<times> egress_reason) option" where
  "apply_rule destination port payload_bytes r =
    (if \<not> hashable destination then Inl TypeErr
     else if in_strs destination (gr_blocked_domains r) \<or> in_strs destination (gr_blocked_ips r)
     then Inr (Some (False, ExplicitlyBlocked destination))
     else if gr_max_payload_bytes r > 0 \<and> payload_bytes > gr_max_payload_bytes r
     then Inr (Some (False, PayloadExceeds payload_bytes (gr_max_payload_bytes r)))
     else if \<not> hashable port then Inl TypeErr
     else let dest_allowed = in_strs destination (gr_allowed_domains r) \<or>
                in_strs destination (gr_allowed_ips r) \<or>
                gr_allowed_domains r = {} \<and> gr_allowed_ips r = {};
              port_allowed = in_ints port (gr_allowed_ports r) \<or> gr_allowed_ports r = {}
          in if dest_allowed \<and> port_allowed then Inr (Some (True, MatchesAllowRule)) else Inr None)"

fun apply_rules :: "pyval \<Rightarrow> pyval \<Rightarrow> int \<Rightarrow> egress_rule list \<Rightarrow>
    layer_exn + (egress_rule \<times> bool \<times> egress_reason) option" where
  "apply_rules destination port payload_bytes [] = Inr None"
| "apply_rules destination port payload_bytes (r # rs) =
    (case apply_rule destination port payload_bytes r of
       Inl exc \<Rightarrow> Inl exc
     | Inr (Some (ok, reason)) \<Rightarrow> Inr (Some (r, ok, reason))
     | Inr None \<Rightarrow> apply_rules destination port payload_bytes rs)"

definition egress_evaluate :: "ucd \<Rightarrow> pyval \<Rightarrow> pyval \<Rightarrow> pyval \<Rightarrow> int \<Rightarrow> egress_policy \<Rightarrow>
    (layer_exn + egress_decision) \<times> egress_policy" where
  "egress_evaluate uc server_id destination port payload_bytes p =
    (let decide = (\<lambda>ok rule_name reason.
           let d = \<lparr>gd_allowed = ok, gd_server_id = server_id, gd_destination = destination,
                 gd_port = port, gd_rule_name = rule_name, gd_reason = reason\<rparr>
           in (Inr d, p\<lparr>gp_decisions := gp_decisions p @ [d]\<rparr>))
     in case matching_rules uc (gp_rules p) server_id of
          Inl exc \<Rightarrow> (Inl exc, p)
        | Inr rules \<Rightarrow>
            if rules = []
            then decide (\<not> gp_default_deny p) [] (NoMatchingRules (gp_default_deny p))
            else (case apply_rules destination port payload_bytes rules of
                Inl exc \<Rightarrow> (Inl exc, p)
              | Inr (Some (r, ok, reason)) \<Rightarrow> decide ok (gr_name r) reason
              | Inr None \<Rightarrow> decide (\<not> gp_default_deny p) [] (NoAllowRuleMatched (gp_default_deny p))))"

section \<open>The Postmark check and the statistics\<close>

definition SUSPICIOUS_TLDS :: "pystr list" where
  "SUSPICIOUS_TLDS = map u [''.club'', ''.tk'', ''.ml'', ''.ga'', ''.cf'', ''.gq'', ''.xyz'', ''.top'', ''.buzz'']"

definition DOTTED_QUAD :: rx where
  "DOTTED_QUAD = seqs [AtStart, upto 1 3 digit_cls, lit ''.'', upto 1 3 digit_cls, lit ''.'',
     upto 1 3 digit_cls, lit ''.'', upto 1 3 digit_cls, AtEnd]"

definition check_postmark_attack :: "ucd \<Rightarrow> pystr \<Rightarrow> bool" where
  "check_postmark_attack uc destination \<longleftrightarrow>
     list_ex (ends_with destination) SUSPICIOUS_TLDS \<or>
     rx_match (env_of uc False) DOTTED_QUAD destination"

definition get_egress_decisions :: "int \<Rightarrow> egress_policy \<Rightarrow> egress_decision list" where
  "get_egress_decisions n p = py_last n (gp_decisions p)"

record egress_stats =
  gs_total_evaluated :: nat
  gs_allowed :: nat
  gs_denied :: nat
  gs_deny_rate :: rat
  gs_rules_count :: nat
  gs_default_deny :: bool

definition egress_stats_of :: "egress_policy \<Rightarrow> egress_stats" where
  "egress_stats_of p =
    (let allowed = length (filter gd_allowed (gp_decisions p));
         denied = length (filter (\<lambda>d. \<not> gd_allowed d) (gp_decisions p))
     in \<lparr>gs_total_evaluated = length (gp_decisions p), gs_allowed = allowed, gs_denied = denied,
         gs_deny_rate = percent denied (length (gp_decisions p)),
         gs_rules_count = length (gp_rules p), gs_default_deny = gp_default_deny p\<rparr>)"

section \<open>What is allowed\<close>

text \<open>What a rule says of a destination, a port and a payload size.\<close>

definition blocks :: "egress_rule \<Rightarrow> pyval \<Rightarrow> int \<Rightarrow> bool" where
  "blocks r destination nbytes \<longleftrightarrow>
     in_strs destination (gr_blocked_domains r \<union> gr_blocked_ips r) \<or>
     0 < gr_max_payload_bytes r \<and> gr_max_payload_bytes r < nbytes"

definition grants :: "egress_rule \<Rightarrow> pyval \<Rightarrow> pyval \<Rightarrow> bool" where
  "grants r destination port \<longleftrightarrow>
     (in_strs destination (gr_allowed_domains r \<union> gr_allowed_ips r) \<or>
      gr_allowed_domains r \<union> gr_allowed_ips r = {}) \<and>
     (in_ints port (gr_allowed_ports r) \<or> gr_allowed_ports r = {})"

definition silent :: "pyval \<Rightarrow> pyval \<Rightarrow> int \<Rightarrow> egress_rule \<Rightarrow> bool" where
  "silent destination port nbytes r \<longleftrightarrow> \<not> blocks r destination nbytes \<and> \<not> grants r destination port"

lemma apply_rule_hashable:
  assumes "hashable destination" "hashable port"
  shows "\<exists>reason. apply_rule destination port nbytes r =
    (if blocks r destination nbytes then Inr (Some (False, reason))
     else if grants r destination port then Inr (Some (True, reason)) else Inr None)"
  using assms by (auto simp: apply_rule_def blocks_def grants_def)

lemma apply_rules_hashable:
  assumes "hashable destination" "hashable port"
  shows "\<exists>reason. apply_rules destination port nbytes rs =
    (case dropWhile (silent destination port nbytes) rs of
       [] \<Rightarrow> Inr None
     | r # _ \<Rightarrow> Inr (Some (r, \<not> blocks r destination nbytes, reason)))"
proof (induction rs)
  case (Cons r rs)
  from apply_rule_hashable [OF assms, of nbytes r] Cons.IH show ?case
    by (auto simp: silent_def)
qed simp

lemma matching_rules_str [simp]: "matching_rules uc rules (PStr s) = Inr (filter (rule_matches uc s) rules)"
  by (simp add: matching_rules_def)

lemma evaluate_hashable:
  assumes "hashable destination" "hashable port"
  shows "\<exists>d. egress_evaluate uc (PStr s) destination port nbytes p =
      (Inr d, p\<lparr>gp_decisions := gp_decisions p @ [d]\<rparr>) \<and>
    gd_allowed d = (case dropWhile (silent destination port nbytes) (filter (rule_matches uc s) (gp_rules p)) of
       [] \<Rightarrow> \<not> gp_default_deny p
     | r # _ \<Rightarrow> \<not> blocks r destination nbytes)"
  using apply_rules_hashable [OF assms, of nbytes "filter (rule_matches uc s) (gp_rules p)"]
  by (auto simp: egress_evaluate_def Let_def split: list.splits)

lemma head_not_silent: "dropWhile P xs = x # ys \<Longrightarrow> \<not> P x \<and> x \<in> set xs"
  by (metis dropWhile_eq_Cons_conv in_set_conv_decomp set_dropWhileD)

lemma dropWhile_first:
  "dropWhile P xs = r # ys \<longleftrightarrow> (\<exists>pre. xs = pre @ r # ys \<and> list_all P pre \<and> \<not> P r)"
  by (induction xs) (auto simp: Cons_eq_append_conv)

text \<open>
  C27: The rules of a server are read in order and the first that is not silent decides. A call is
  allowed exactly when that rule grants the destination and the port and does not block, or when
  every rule is silent (or none matches) and the default is to allow.
\<close>

theorem egress_allowed_iff:
  assumes "hashable destination" "hashable port"
  shows "\<exists>d. fst (egress_evaluate uc (PStr s) destination port nbytes p) = Inr d \<and>
    (gd_allowed d \<longleftrightarrow>
      (\<exists>pre r post. filter (rule_matches uc s) (gp_rules p) = pre @ r # post \<and>
         list_all (silent destination port nbytes) pre \<and>
         grants r destination port \<and> \<not> blocks r destination nbytes) \<or>
      list_all (silent destination port nbytes) (filter (rule_matches uc s) (gp_rules p)) \<and>
        \<not> gp_default_deny p)"
proof -
  let ?rs = "filter (rule_matches uc s) (gp_rules p)" and ?S = "silent destination port nbytes"
  obtain d where d: "fst (egress_evaluate uc (PStr s) destination port nbytes p) = Inr d"
    and ok: "gd_allowed d = (case dropWhile ?S ?rs of [] \<Rightarrow> \<not> gp_default_deny p
       | r # _ \<Rightarrow> \<not> blocks r destination nbytes)"
    using evaluate_hashable [OF assms, of uc s nbytes p] by fastforce
  have some: "(\<exists>pre r post. ?rs = pre @ r # post \<and> list_all ?S pre \<and> grants r destination port \<and>
      \<not> blocks r destination nbytes) \<longleftrightarrow>
    (\<exists>r post. dropWhile ?S ?rs = r # post \<and> \<not> blocks r destination nbytes)"
    unfolding dropWhile_first by (auto simp: silent_def)
  have none: "list_all ?S ?rs \<longleftrightarrow> dropWhile ?S ?rs = []"
    by (simp add: list_all_iff dropWhile_eq_Nil_conv)
  show ?thesis
    unfolding some none using d ok by (cases "dropWhile ?S ?rs") (simp_all del: dropWhile_eq_Nil_conv)
qed

text \<open>A character database for the concrete inputs below.\<close>

definition plain_ucd :: ucd where
  "plain_ucd = \<lparr>ucd_nfkc = id, ucd_printable = (\<lambda>c. True), ucd_word = (\<lambda>c. 97 \<le> c \<and> c \<le> 122)\<rparr>"

definition open_rule :: egress_rule where
  "open_rule = \<lparr>gr_name = u ''open'', gr_description = [], gr_server_pattern = lit ''mail'',
     gr_allowed_domains = {}, gr_allowed_ips = {}, gr_allowed_ports = {443},
     gr_blocked_domains = {}, gr_blocked_ips = {}, gr_max_payload_bytes = 0\<rparr>"

definition block_rule :: egress_rule where
  "block_rule = \<lparr>gr_name = u ''block'', gr_description = [], gr_server_pattern = lit ''mail'',
     gr_allowed_domains = {}, gr_allowed_ips = {}, gr_allowed_ports = {},
     gr_blocked_domains = {u ''giftshop.club''}, gr_blocked_ips = {}, gr_max_payload_bytes = 0\<rparr>"

lemma egress_allowed_iff_witness:
  "\<exists>d. fst (egress_evaluate plain_ucd (PStr (u ''mailer'')) (PStr (u ''giftshop.club'')) (PInt 443) 0
        (make_egress_policy True)) = Inr d \<and>
    (gd_allowed d \<longleftrightarrow>
      (\<exists>pre r post. filter (rule_matches plain_ucd (u ''mailer'')) (gp_rules (make_egress_policy True)) = pre @ r # post \<and>
         list_all (silent (PStr (u ''giftshop.club'')) (PInt 443) 0) pre \<and>
         grants r (PStr (u ''giftshop.club'')) (PInt 443) \<and> \<not> blocks r (PStr (u ''giftshop.club'')) 0) \<or>
      list_all (silent (PStr (u ''giftshop.club'')) (PInt 443) 0)
        (filter (rule_matches plain_ucd (u ''mailer'')) (gp_rules (make_egress_policy True))) \<and>
        \<not> gp_default_deny (make_egress_policy True))"
  by (rule egress_allowed_iff) simp_all

text \<open>A destination on the block list of a rule passes when an earlier rule of the server grants
  it.\<close>

lemma mail_search: "rx_search (env_of uc True) (lit ''mail'') (u ''mailer'')"
  by (simp add: rx_search_def lit_def u_def env_of_def chr_def class_has_def case_variants_def
      sre_lower_def lower_cp_def upper_cp_def extra_case_def)

lemma later_block_list_is_not_read:
  "\<exists>d. fst (egress_evaluate uc (PStr (u ''mailer'')) (PStr (u ''giftshop.club'')) (PInt 443) 0
        (add_egress_rule block_rule (add_egress_rule open_rule (make_egress_policy True)))) = Inr d \<and>
     gd_allowed d \<and> gd_rule_name d = u ''open''"
  using mail_search [of uc]
  by (simp add: egress_evaluate_def make_egress_policy_def add_egress_rule_def rule_matches_def
      open_rule_def block_rule_def apply_rule_def Let_def)

text \<open>The log keeps every decision in order, and the counts of the statistics add up.\<close>

lemma egress_log_grows:
  "gp_decisions (snd (egress_evaluate uc server_id destination port nbytes p)) =
     gp_decisions p @ (case fst (egress_evaluate uc server_id destination port nbytes p) of
        Inl _ \<Rightarrow> [] | Inr d \<Rightarrow> [d])"
  by (auto simp: egress_evaluate_def Let_def split: sum.splits option.splits)

lemma egress_stats_add_up:
  "gs_allowed (egress_stats_of p) + gs_denied (egress_stats_of p) = gs_total_evaluated (egress_stats_of p)"
  "0 \<le> gs_deny_rate (egress_stats_of p)" "gs_deny_rate (egress_stats_of p) \<le> 100"
  using sum_length_filter_compl [of gd_allowed "gp_decisions p"]
    percent_bounds [of "length (filter (\<lambda>d. \<not> gd_allowed d) (gp_decisions p))" "length (gp_decisions p)"]
  by (auto simp: egress_stats_of_def Let_def intro: order_trans)

end
