(* ===== verification/InlineProxy.thy ===== *)
theory InlineProxy
  imports NetworkEgress "HOL-Library.Multiset"
begin

text \<open>
  \<open>layers/proxy.py\<close>: the inline gateway with its priority rules, the thresholds on the inspector's
  risk score, redaction, quarantine and counters. The inspector is an argument (its two methods, as
  functions that raise or return a risk score and findings), as is the condition of a rule; the
  pattern of a rule is the regular expression its text denotes. Call ids (\<open>uuid4\<close>) are arguments.
\<close>

section \<open>State\<close>

datatype proxy_action = ActAllow | ActBlock | ActQuarantine | ActRedact

datatype proxy_reason =
    RuleApplied pystr pystr
  | InspectorFinding pystr
  | OverBlockThreshold int int
  | OverQuarantineThreshold int int

record proxy_decision =
  pd_call_id :: pystr
  pd_action :: proxy_action
  pd_tool_name :: pyval
  pd_server_id :: pyval
  pd_risk_score :: int
  pd_reasons :: "proxy_reason list"
  pd_original_payload :: "pydict option"
  pd_modified_payload :: "pydict option"

record proxy_rule =
  pr_name :: pystr
  pr_description :: pystr
  pr_tool_pattern :: rx
  pr_action :: proxy_action
  pr_condition :: "(pydict \<Rightarrow> layer_exn + bool) option"
  pr_priority :: int
  pr_fields_to_redact :: "pystr list"

record inspector_api =
  ia_inspect_call :: "pydict \<Rightarrow> layer_exn + int \<times> pystr list"
  ia_inspect_output :: "pyval \<Rightarrow> pydict \<Rightarrow> layer_exn + int \<times> pystr list"

record inline_proxy =
  ip_inspector :: "inspector_api option"
  ip_block_threshold :: int
  ip_quarantine_threshold :: int
  ip_default_action :: proxy_action
  ip_rules :: "proxy_rule list"
  ip_decisions :: "proxy_decision list"
  ip_blocked_count :: nat
  ip_allowed_count :: nat
  ip_quarantined :: "pydict list"

definition make_inline_proxy :: "inspector_api option \<Rightarrow> int \<Rightarrow> int \<Rightarrow> proxy_action \<Rightarrow> inline_proxy" where
  "make_inline_proxy inspector block_threshold quarantine_threshold default_action =
     \<lparr>ip_inspector = inspector, ip_block_threshold = block_threshold,
      ip_quarantine_threshold = quarantine_threshold, ip_default_action = default_action,
      ip_rules = [], ip_decisions = [], ip_blocked_count = 0, ip_allowed_count = 0,
      ip_quarantined = []\<rparr>"

text \<open>\<open>append\<close> and a stable sort, highest priority first.\<close>

definition add_proxy_rule :: "proxy_rule \<Rightarrow> inline_proxy \<Rightarrow> inline_proxy" where
  "add_proxy_rule r ip = ip\<lparr>ip_rules := sort_key (\<lambda>r. - pr_priority r) (ip_rules ip @ [r])\<rparr>"

section \<open>Rules\<close>

text \<open>\<open>dict(x)\<close>: a copy of a dictionary, or a dictionary from a sequence of pairs. A pair whose key
  is no string leaves the values of this model.\<close>

datatype dict_exn = DictTypeErr | DictValueErr | NonStringKey

fun pair_of :: "pyval \<Rightarrow> dict_exn + pystr \<times> pyval" where
  "pair_of (PList [PStr k, v]) = Inr (k, v)"
| "pair_of (PList [k, v]) = Inl (if hashable k then NonStringKey else DictTypeErr)"
| "pair_of (PList vs) = Inl DictValueErr"
| "pair_of (PStr [a, b]) = Inr ([a], PStr [b])"
| "pair_of (PStr s) = Inl DictValueErr"
| "pair_of (PDict [(k, v), (k', v')]) = Inr (k, PStr k')"
| "pair_of (PDict d) = Inl DictValueErr"
| "pair_of v = Inl DictTypeErr"

fun pairs_dict :: "pyval list \<Rightarrow> pydict \<Rightarrow> dict_exn + pydict" where
  "pairs_dict [] d = Inr d"
| "pairs_dict (v # vs) d =
    (case pair_of v of Inl exc \<Rightarrow> Inl exc | Inr (k, x) \<Rightarrow> pairs_dict vs (dset k x d))"

fun py_dict :: "pyval \<Rightarrow> dict_exn + pydict" where
  "py_dict (PDict d) = Inr d"
| "py_dict (PList vs) = pairs_dict vs []"
| "py_dict (PStr s) = pairs_dict (map (\<lambda>c. PStr [c]) s) []"
| "py_dict v = Inl DictTypeErr"

definition redact_fields :: "pydict \<Rightarrow> pystr list \<Rightarrow> dict_exn + pydict" where
  "redact_fields payload flds =
    rbind (py_dict (dget_or payload (u ''arguments'') (PDict []))) (\<lambda>args.
      Inr (dset (u ''arguments'') (PDict (fold dpop flds args)) payload))"

datatype proxy_exn2 = NameNotString | DictErr dict_exn | InspectorErr layer_exn | ConditionErr layer_exn

definition rule_applies :: "ucd \<Rightarrow> pydict \<Rightarrow> pystr \<Rightarrow> proxy_rule \<Rightarrow> bool" where
  "rule_applies uc tool_call tool_name r \<longleftrightarrow>
     rx_search (env_of uc True) (pr_tool_pattern r) tool_name \<and>
     (case pr_condition r of None \<Rightarrow> True | Some condition \<Rightarrow> condition tool_call = Inr True)"

text \<open>The first rule that applies, in the order of the list; an exception of a condition before it
  ends the loop.\<close>

fun first_rule :: "ucd \<Rightarrow> pydict \<Rightarrow> pystr \<Rightarrow> proxy_rule list \<Rightarrow> proxy_exn2 + proxy_rule option" where
  "first_rule uc tool_call tool_name [] = Inr None"
| "first_rule uc tool_call tool_name (r # rs) =
    (if \<not> rx_search (env_of uc True) (pr_tool_pattern r) tool_name then first_rule uc tool_call tool_name rs
     else (case (case pr_condition r of None \<Rightarrow> Inr True | Some condition \<Rightarrow> condition tool_call) of
         Inl exc \<Rightarrow> Inl (ConditionErr exc)
       | Inr True \<Rightarrow> Inr (Some r)
       | Inr False \<Rightarrow> first_rule uc tool_call tool_name rs))"

definition rule_decision :: "pydict \<Rightarrow> proxy_rule \<Rightarrow> proxy_exn2 + proxy_decision" where
  "rule_decision tool_call r =
    (let decision = (\<lambda>modified. \<lparr>pd_call_id = [], pd_action = pr_action r,
           pd_tool_name = dget_or tool_call (u ''name'') (PStr []),
           pd_server_id = dget_or tool_call (u ''server_id'') (PStr []), pd_risk_score = 0,
           pd_reasons = [RuleApplied (pr_name r) (pr_description r)],
           pd_original_payload = Some tool_call,
           pd_modified_payload = (if pr_action r \<noteq> ActBlock then Some modified else None)\<rparr>)
     in if pr_action r = ActRedact
        then (case redact_fields tool_call (pr_fields_to_redact r) of
            Inl exc \<Rightarrow> Inl (DictErr exc)
          | Inr modified \<Rightarrow> Inr (decision modified))
        else Inr (decision tool_call))"

definition check_rules :: "ucd \<Rightarrow> proxy_rule list \<Rightarrow> pydict \<Rightarrow> proxy_exn2 + proxy_decision option" where
  "check_rules uc rules tool_call =
    (case dget_or tool_call (u ''name'') (PStr []) of
       PStr tool_name \<Rightarrow>
         (case first_rule uc tool_call tool_name rules of
            Inl exc \<Rightarrow> Inl exc
          | Inr None \<Rightarrow> Inr None
          | Inr (Some r) \<Rightarrow> (case rule_decision tool_call r of Inl exc \<Rightarrow> Inl exc | Inr d \<Rightarrow> Inr (Some d)))
     | _ \<Rightarrow> if rules = [] then Inr None else Inl NameNotString)"

section \<open>Interception\<close>

definition record_decision :: "proxy_decision \<Rightarrow> inline_proxy \<Rightarrow> inline_proxy" where
  "record_decision d ip0 =
    (let ip = ip0\<lparr>ip_decisions := ip_decisions ip0 @ [d]\<rparr>
     in case pd_action d of
          ActBlock \<Rightarrow> ip\<lparr>ip_blocked_count := Suc (ip_blocked_count ip)\<rparr>
        | ActAllow \<Rightarrow> ip\<lparr>ip_allowed_count := Suc (ip_allowed_count ip)\<rparr>
        | ActQuarantine \<Rightarrow>
            (case pd_original_payload d of
               Some payload \<Rightarrow>
                 if payload \<noteq> [] then ip\<lparr>ip_quarantined := ip_quarantined ip @ [payload]\<rparr> else ip
             | None \<Rightarrow> ip)
        | ActRedact \<Rightarrow> ip)"

definition threshold_action :: "inline_proxy \<Rightarrow> int \<Rightarrow> proxy_action" where
  "threshold_action ip risk =
    (if risk \<ge> ip_block_threshold ip then ActBlock
     else if risk \<ge> ip_quarantine_threshold ip then ActQuarantine else ActAllow)"

definition threshold_reasons :: "inline_proxy \<Rightarrow> int \<Rightarrow> proxy_reason list" where
  "threshold_reasons ip risk =
    (case threshold_action ip risk of
       ActBlock \<Rightarrow> [OverBlockThreshold risk (ip_block_threshold ip)]
     | ActQuarantine \<Rightarrow> [OverQuarantineThreshold risk (ip_quarantine_threshold ip)]
     | _ \<Rightarrow> [])"

definition intercept :: "ucd \<Rightarrow> pystr \<Rightarrow> pydict \<Rightarrow> inline_proxy \<Rightarrow>
    (proxy_exn2 + proxy_decision) \<times> inline_proxy" where
  "intercept uc call_id tool_call ip =
    (case check_rules uc (ip_rules ip) tool_call of
       Inl exc \<Rightarrow> (Inl exc, ip)
     | Inr (Some d) \<Rightarrow>
         (let d' = d\<lparr>pd_call_id := call_id\<rparr> in (Inr d', record_decision d' ip))
     | Inr None \<Rightarrow>
         (case (case ip_inspector ip of None \<Rightarrow> Inr (0, [])
                | Some api \<Rightarrow> ia_inspect_call api tool_call) of
            Inl exc \<Rightarrow> (Inl (InspectorErr exc), ip)
          | Inr (risk, findings) \<Rightarrow>
              (let action = threshold_action ip risk;
                   d = \<lparr>pd_call_id = call_id, pd_action = action,
                     pd_tool_name = dget_or tool_call (u ''name'') (PStr []),
                     pd_server_id = dget_or tool_call (u ''server_id'') (PStr []),
                     pd_risk_score = risk,
                     pd_reasons = map InspectorFinding findings @ threshold_reasons ip risk,
                     pd_original_payload = Some tool_call,
                     pd_modified_payload = (if action = ActAllow then Some tool_call else None)\<rparr>
               in (Inr d, record_decision d ip))))"

definition intercept_output :: "pystr \<Rightarrow> pyval \<Rightarrow> pyval \<Rightarrow> pydict \<Rightarrow> inline_proxy \<Rightarrow>
    (proxy_exn2 + proxy_decision) \<times> inline_proxy" where
  "intercept_output call_id tool_name server_id outp ip =
    (case (case ip_inspector ip of None \<Rightarrow> Inr (0, [])
           | Some api \<Rightarrow> ia_inspect_output api tool_name outp) of
       Inl exc \<Rightarrow> (Inl (InspectorErr exc), ip)
     | Inr (risk, findings) \<Rightarrow>
         (let action = threshold_action ip risk;
              d = \<lparr>pd_call_id = call_id, pd_action = action, pd_tool_name = tool_name,
                pd_server_id = server_id, pd_risk_score = risk,
                pd_reasons = map InspectorFinding findings, pd_original_payload = Some outp,
                pd_modified_payload = (if action = ActAllow then Some outp else None)\<rparr>
          in (Inr d, record_decision d ip)))"

section \<open>Queries and the quarantine\<close>

record proxy_stats2 =
  ps_total_intercepted :: nat
  ps_blocked :: nat
  ps_allowed :: nat
  ps_quarantined :: nat
  ps_block_rate :: rat

definition proxy_stats_of :: "inline_proxy \<Rightarrow> proxy_stats2" where
  "proxy_stats_of ip =
    \<lparr>ps_total_intercepted = ip_blocked_count ip + ip_allowed_count ip,
     ps_blocked = ip_blocked_count ip, ps_allowed = ip_allowed_count ip,
     ps_quarantined = length (ip_quarantined ip),
     ps_block_rate = percent (ip_blocked_count ip) (ip_blocked_count ip + ip_allowed_count ip)\<rparr>"

definition release_quarantined :: "int \<Rightarrow> inline_proxy \<Rightarrow> pydict option \<times> inline_proxy" where
  "release_quarantined i ip =
    (let q = ip_quarantined ip
     in if 0 \<le> i \<and> i < int (length q)
        then (Some (q ! nat i), ip\<lparr>ip_quarantined := take (nat i) q @ drop (Suc (nat i)) q\<rparr>)
        else (None, ip))"

definition get_proxy_decisions :: "int \<Rightarrow> inline_proxy \<Rightarrow> proxy_decision list" where
  "get_proxy_decisions n ip = py_last n (ip_decisions ip)"

section \<open>The deciding rule\<close>

lemma first_rule_find:
  "first_rule uc tool_call tool_name rs = Inr x \<Longrightarrow> x = List.find (rule_applies uc tool_call tool_name) rs"
proof (induction rs)
  case (Cons r rs)
  then show ?case by (auto simp: rule_applies_def split: if_splits option.splits sum.splits bool.splits)
qed simp

definition with_rules :: "proxy_rule list \<Rightarrow> inline_proxy \<Rightarrow> inline_proxy" where
  "with_rules rs ip = fold add_proxy_rule rs ip"

lemma sort_key_append_sorted: "sort_key f (sort_key f xs @ ys) = sort_key f (xs @ ys)"
proof (rule properties_for_sort_key)
  show "mset (sort_key f (xs @ ys)) = mset (sort_key f xs @ ys)" by simp
  show "sorted (map f (sort_key f (xs @ ys)))" by simp
  fix k
  show "filter (\<lambda>y. f k = f y) (sort_key f (xs @ ys)) = filter (\<lambda>y. f k = f y) (sort_key f xs @ ys)"
    using sort_key_stable [of f "f k" "xs @ ys"] sort_key_stable [of f "f k" xs]
    by (simp add: eq_commute [of "f k"])
qed

lemma with_rules_sorted:
  "ip_rules (with_rules rs (make_inline_proxy api b q a)) = sort_key (\<lambda>r. - pr_priority r) rs"
proof (induction rs rule: rev_induct)
  case Nil
  show ?case by (simp add: with_rules_def make_inline_proxy_def)
next
  case (snoc r rs)
  then show ?case by (simp add: with_rules_def add_proxy_rule_def sort_key_append_sorted)
qed

lemma with_rules_params [simp]:
  "ip_inspector (with_rules rs ip) = ip_inspector ip"
  "ip_block_threshold (with_rules rs ip) = ip_block_threshold ip"
  "ip_quarantine_threshold (with_rules rs ip) = ip_quarantine_threshold ip"
  by (induction rs arbitrary: ip) (simp_all add: with_rules_def add_proxy_rule_def)

definition top_rule :: "(proxy_rule \<Rightarrow> bool) \<Rightarrow> proxy_rule list \<Rightarrow> proxy_rule \<Rightarrow> bool" where
  "top_rule P rs r \<longleftrightarrow> P r \<and> (\<forall>r' \<in> set rs. P r' \<longrightarrow> pr_priority r' \<le> pr_priority r)"

lemma find_filter: "List.find P xs = (case filter P xs of [] \<Rightarrow> None | x # _ \<Rightarrow> Some x)"
  by (induction xs) auto

lemma find_sorted:
  "List.find P (sort_key (\<lambda>r. - pr_priority r) rs) = List.find (top_rule P rs) rs"
proof -
  let ?f = "\<lambda>r. - pr_priority r" and ?s = "sort_key (\<lambda>r. - pr_priority r) rs"
  show ?thesis
  proof (cases "filter P ?s")
    case Nil
    then have "\<forall>r \<in> set rs. \<not> P r" by (simp add: filter_empty_conv)
    then show ?thesis using Nil by (auto simp: find_filter top_rule_def filter_empty_conv split: list.splits)
  next
    case (Cons r ys)
    have sorted: "sorted (map ?f (filter P ?s))" by (simp add: sorted_filter)
    have mem: "set (filter P ?s) = {x \<in> set rs. P x}" by simp
    have top: "top_rule P rs x \<longleftrightarrow> P x \<and> ?f x = ?f r" if "x \<in> set rs" for x
    proof
      assume x: "top_rule P rs x"
      have "r \<in> set rs" "P r" using mem Cons by auto
      with x have "pr_priority r \<le> pr_priority x" by (auto simp: top_rule_def)
      moreover have "x \<in> set (filter P ?s)" using x that mem by (auto simp: top_rule_def)
      with sorted Cons have "pr_priority x \<le> pr_priority r" by auto
      ultimately show "P x \<and> ?f x = ?f r" using x by (auto simp: top_rule_def)
    next
      assume x: "P x \<and> ?f x = ?f r"
      have "pr_priority r' \<le> pr_priority r" if "r' \<in> set rs" "P r'" for r'
      proof -
        have "r' \<in> set (filter P ?s)" using that mem by auto
        with sorted Cons show ?thesis by auto
      qed
      with x show "top_rule P rs x" by (auto simp: top_rule_def)
    qed
    have "filter (top_rule P rs) rs = filter (\<lambda>x. P x \<and> ?f x = ?f r) rs"
      using top by (auto intro: filter_cong)
    also have "\<dots> = filter P (filter (\<lambda>x. ?f x = ?f r) rs)" by (auto intro: filter_cong)
    also have "\<dots> = filter P (filter (\<lambda>x. ?f x = ?f r) ?s)"
      by (simp only: sort_key_stable)
    also have "\<dots> = filter (\<lambda>x. ?f x = ?f r) (filter P ?s)" by (auto intro: filter_cong)
    also have "\<dots> = r # filter (\<lambda>x. ?f x = ?f r) ys" using Cons by simp
    finally show ?thesis using Cons by (simp add: find_filter)
  qed
qed

text \<open>
  The action on a call: of the rules that apply, the one with the highest priority decides, the
  earliest added among equals; without one, the inspector's risk score against the two thresholds.
  The payload of a blocked call is never passed on.
\<close>

theorem intercept_action:
  assumes "dget_or tool_call (u ''name'') (PStr []) = PStr tool_name"
    and "ip = with_rules rs (make_inline_proxy api b q act)"
    and "fst (intercept uc call_id tool_call ip) = Inr d"
  shows "pd_action d =
      (case List.find (top_rule (rule_applies uc tool_call tool_name) rs) rs of
         Some r \<Rightarrow> pr_action r
       | None \<Rightarrow> (let risk = (case api of None \<Rightarrow> 0
                   | Some i \<Rightarrow> fst (projr (ia_inspect_call i tool_call)))
           in if b \<le> risk then ActBlock else if q \<le> risk then ActQuarantine else ActAllow)) \<and>
    (pd_action d = ActBlock \<longrightarrow> pd_modified_payload d = None) \<and> pd_call_id d = call_id"
proof -
  have params: "ip_inspector ip = api" "ip_block_threshold ip = b" "ip_quarantine_threshold ip = q"
    by (simp_all add: assms(2) make_inline_proxy_def)
  from assms(1,3) obtain x where x: "first_rule uc tool_call tool_name (ip_rules ip) = Inr x"
    by (auto simp: intercept_def check_rules_def split: sum.splits)
  have find: "x = List.find (top_rule (rule_applies uc tool_call tool_name) rs) rs"
    using first_rule_find [OF x] by (simp add: assms(2) with_rules_sorted find_sorted)
  show ?thesis
  proof (cases "List.find (top_rule (rule_applies uc tool_call tool_name) rs) rs")
    case (Some r)
    with assms(1,3) find x show ?thesis
      by (auto simp: intercept_def check_rules_def rule_decision_def Let_def split: sum.splits if_splits)
  next
    case None
    with assms(1,3) find x show ?thesis
      by (auto simp: intercept_def check_rules_def threshold_action_def params Let_def
          split: sum.splits option.splits if_splits)
  qed
qed

definition block_shell :: proxy_rule where
  "block_shell = \<lparr>pr_name = u ''shell'', pr_description = [], pr_tool_pattern = lit ''exec'',
     pr_action = ActBlock, pr_condition = None, pr_priority = 90, pr_fields_to_redact = []\<rparr>"

definition shell_call :: pydict where
  "shell_call = [(u ''name'', PStr (u ''exec''))]"

lemma exec_search: "rx_search (env_of uc True) (lit ''exec'') (u ''exec'')"
  by (simp add: rx_search_def lit_def u_def env_of_def chr_def class_has_def case_variants_def
      sre_lower_def lower_cp_def upper_cp_def extra_case_def)

lemma intercept_action_witness:
  "\<exists>d. fst (intercept plain_ucd [] shell_call (with_rules [block_shell] (make_inline_proxy None 50 30 ActBlock))) = Inr d \<and>
    pd_action d =
      (case List.find (top_rule (rule_applies plain_ucd shell_call (u ''exec'')) [block_shell]) [block_shell] of
         Some r \<Rightarrow> pr_action r
       | None \<Rightarrow> (let risk = (case (None :: inspector_api option) of None \<Rightarrow> 0
                   | Some i \<Rightarrow> fst (projr (ia_inspect_call i shell_call)))
           in if 50 \<le> risk then ActBlock else if 30 \<le> risk then ActQuarantine else ActAllow)) \<and>
    (pd_action d = ActBlock \<longrightarrow> pd_modified_payload d = None) \<and> pd_call_id d = []"
proof -
  have "\<exists>d. fst (intercept plain_ucd [] shell_call (with_rules [block_shell] (make_inline_proxy None 50 30 ActBlock))) = Inr d"
    using exec_search [of plain_ucd]
    by (simp add: intercept_def check_rules_def with_rules_sorted shell_call_def block_shell_def
        rule_applies_def rule_decision_def dget_or_def Let_def)
  then obtain d where d:
    "fst (intercept plain_ucd [] shell_call (with_rules [block_shell] (make_inline_proxy None 50 30 ActBlock))) = Inr d" ..
  have name: "dget_or shell_call (u ''name'') (PStr []) = PStr (u ''exec'')"
    by (simp add: shell_call_def)
  show ?thesis by (rule exI [of _ d], rule conjI [OF d intercept_action [OF name refl d]])
qed

section \<open>Counters\<close>

text \<open>The counters count the recorded decisions; a redacted or quarantined call is in neither, so
  \<open>total_intercepted\<close> is not the number of calls.\<close>

definition counters_ok :: "inline_proxy \<Rightarrow> bool" where
  "counters_ok ip \<longleftrightarrow>
     ip_blocked_count ip = length (filter (\<lambda>d. pd_action d = ActBlock) (ip_decisions ip)) \<and>
     ip_allowed_count ip = length (filter (\<lambda>d. pd_action d = ActAllow) (ip_decisions ip)) \<and>
     length (ip_quarantined ip) \<le> length (filter (\<lambda>d. pd_action d = ActQuarantine) (ip_decisions ip))"

lemma record_counters [intro]: "counters_ok ip \<Longrightarrow> counters_ok (record_decision d ip)"
  by (cases "pd_action d"; cases "pd_original_payload d")
    (simp_all add: counters_ok_def record_decision_def Let_def)

lemma intercept_counters: "counters_ok ip \<Longrightarrow> counters_ok (snd (intercept uc cid call ip))"
  by (auto simp: intercept_def Let_def split: sum.splits option.splits)

lemma output_counters: "counters_ok ip \<Longrightarrow> counters_ok (snd (intercept_output cid tool sid outp ip))"
  by (auto simp: intercept_output_def Let_def split: sum.splits option.splits)

lemma release_counters: "counters_ok ip \<Longrightarrow> counters_ok (snd (release_quarantined i ip))"
  by (auto simp: counters_ok_def release_quarantined_def Let_def)

lemma stats_undercount:
  assumes "counters_ok ip"
  shows "ps_total_intercepted (proxy_stats_of ip) +
     length (filter (\<lambda>d. pd_action d \<in> {ActQuarantine, ActRedact}) (ip_decisions ip)) =
   length (ip_decisions ip)"
proof -
  have "length (filter (\<lambda>d. pd_action d = ActBlock) ds) + length (filter (\<lambda>d. pd_action d = ActAllow) ds) +
    length (filter (\<lambda>d. pd_action d \<in> {ActQuarantine, ActRedact}) ds) = length ds" for ds
  proof (induction ds)
    case (Cons d ds)
    then show ?case by (cases "pd_action d") simp_all
  qed simp
  with assms show ?thesis by (simp add: counters_ok_def proxy_stats_of_def)
qed

section \<open>Redaction\<close>

text \<open>Redaction drops exactly the named arguments and keeps everything else; a field of the same
  name inside a nested object stays.\<close>

lemma dget_fold_dpop: "dget (fold dpop ks d) k = (if k \<in> set ks then None else dget d k)"
  by (induction ks arbitrary: d) auto

lemma redact_fields_exact:
  assumes "dget_or payload (u ''arguments'') (PDict []) = PDict args"
  shows "\<exists>kept. redact_fields payload flds = Inr (dset (u ''arguments'') (PDict kept) payload) \<and>
    (\<forall>k. dget kept k = (if k \<in> set flds then None else dget args k))"
  using assms by (auto simp: redact_fields_def dget_fold_dpop)

end
