(* ===== verification/KernelMonitor.thy ===== *)
theory KernelMonitor
  imports NetworkEgress
begin

text \<open>
  \<open>layers/kernel.py\<close>: the behaviour monitor over system call events. The details of an event are
  JSON values; a value of the wrong type raises where the code uses it, after the event has been
  stored and before any alert is. The descriptions of alerts are constructors with the values they
  quote; the time stamps and process ids, which nothing reads, are left out.
\<close>

section \<open>State\<close>

datatype syscall_type =
  NETWORK_CONNECT | DNS_RESOLVE | FILE_OPEN | FILE_WRITE | PROCESS_SPAWN | SOCKET_SEND

record syscall_event =
  se_server_id :: pystr
  se_type :: syscall_type
  se_details :: pydict

datatype alert_kind =
    NoPolicy syscall_type
  | UnauthorizedDns pyval
  | BlockedDns pyval
  | UnauthorizedFileAccess pyval
  | UnauthorizedSubprocess pyval
  | LargeSendUnknownDest pyval pyval
  | RateExceeded nat int
  | BlockedDestination pyval pyval
  | UnknownDestination pyval pyval
  | UnauthorizedPort pyval
  | HiddenSmtpPort pyval pyval

record kernel_alert =
  ka_server_id :: pystr
  ka_kind :: alert_kind
  ka_severity :: int
  ka_event :: syscall_event

record server_policy =
  sp_server_id :: pystr
  sp_allowed_destinations :: "pystr set"
  sp_allowed_ports :: "int set"
  sp_allowed_paths :: "pystr set"
  sp_blocked_destinations :: "pystr set"
  sp_max_connections_per_minute :: int
  sp_allow_subprocess :: bool
  sp_allow_dns :: bool

record kernel_monitor =
  km_policies :: "(pystr \<times> server_policy) list"
  km_events :: "(pystr \<times> syscall_event list) list"
  km_alerts :: "kernel_alert list"
  km_connection_counts :: "(pystr \<times> rat list) list"

definition default_policy :: "pystr \<Rightarrow> server_policy" where
  "default_policy server_id = \<lparr>sp_server_id = server_id, sp_allowed_destinations = {},
     sp_allowed_ports = {}, sp_allowed_paths = {}, sp_blocked_destinations = {},
     sp_max_connections_per_minute = 100, sp_allow_subprocess = False, sp_allow_dns = True\<rparr>"

definition make_kernel_monitor :: kernel_monitor where
  "make_kernel_monitor =
     \<lparr>km_policies = [], km_events = [], km_alerts = [], km_connection_counts = []\<rparr>"

definition register_policy :: "server_policy \<Rightarrow> kernel_monitor \<Rightarrow> kernel_monitor" where
  "register_policy policy m = m\<lparr>km_policies := dset (sp_server_id policy) policy (km_policies m)\<rparr>"

text \<open>\<open>alert_type\<close> of each kind.\<close>

fun alert_type :: "alert_kind \<Rightarrow> pystr" where
  "alert_type (NoPolicy t) = u ''no_policy''"
| "alert_type (UnauthorizedDns d) = u ''unauthorized_dns''"
| "alert_type (BlockedDns d) = u ''blocked_dns''"
| "alert_type (UnauthorizedFileAccess p) = u ''unauthorized_file_access''"
| "alert_type (UnauthorizedSubprocess c) = u ''unauthorized_subprocess''"
| "alert_type (LargeSendUnknownDest n d) = u ''large_send_unknown_dest''"
| "alert_type (RateExceeded n m) = u ''rate_limit_exceeded''"
| "alert_type (BlockedDestination d p) = u ''blocked_destination''"
| "alert_type (UnknownDestination d p) = u ''unknown_destination''"
| "alert_type (UnauthorizedPort p) = u ''unauthorized_port''"
| "alert_type (HiddenSmtpPort p d) = u ''hidden_smtp''"

section \<open>The checks\<close>

definition alert :: "syscall_event \<Rightarrow> alert_kind \<Rightarrow> int \<Rightarrow> kernel_alert" where
  "alert event kind severity = \<lparr>ka_server_id = se_server_id event, ka_kind = kind,
     ka_severity = severity, ka_event = event\<rparr>"

definition detail :: "syscall_event \<Rightarrow> string \<Rightarrow> pyval \<Rightarrow> pyval" where
  "detail event key dflt = dget_or (se_details event) (u key) dflt"

definition SMTP_PORT_SET :: "int set" where
  "SMTP_PORT_SET = {25, 465, 587, 2525}"

definition detect_hidden_smtp :: "kernel_monitor \<Rightarrow> syscall_event \<Rightarrow> layer_exn + bool" where
  "detect_hidden_smtp m event =
    (if se_type event \<noteq> NETWORK_CONNECT then Inr False
     else let port = detail event ''port'' (PInt 0)
          in if \<not> hashable port then Inl TypeErr
             else if in_ints port SMTP_PORT_SET
             then (case dget (km_policies m) (se_server_id event) of
                 None \<Rightarrow> Inr False
               | Some policy \<Rightarrow> Inr (\<not> in_ints port (sp_allowed_ports policy)))
             else Inr False)"

definition check_network :: "kernel_monitor \<Rightarrow> syscall_event \<Rightarrow> server_policy \<Rightarrow>
    layer_exn + kernel_alert list" where
  "check_network m event policy =
    (let dest = detail event ''destination'' (PStr []); port = detail event ''port'' (PInt 0)
     in if \<not> hashable dest then Inl TypeErr
        else if in_strs dest (sp_blocked_destinations policy)
        then Inr [alert event (BlockedDestination dest port) 95]
        else if sp_allowed_ports policy \<noteq> {} \<and> \<not> hashable port then Inl TypeErr
        else rbind (detect_hidden_smtp m event) (\<lambda>hidden.
          Inr ((if sp_allowed_destinations policy \<noteq> {} \<and> \<not> in_strs dest (sp_allowed_destinations policy)
                then [alert event (UnknownDestination dest port) 80] else []) @
               (if sp_allowed_ports policy \<noteq> {} \<and> \<not> in_ints port (sp_allowed_ports policy)
                then [alert event (UnauthorizedPort port) 75] else []) @
               (if hidden then [alert event (HiddenSmtpPort port dest) 95] else []))))"

definition check_dns :: "syscall_event \<Rightarrow> server_policy \<Rightarrow> layer_exn + kernel_alert list" where
  "check_dns event policy =
    (let domain = detail event ''domain'' (PStr [])
     in if \<not> hashable domain then Inl TypeErr
        else Inr ((if \<not> sp_allow_dns policy then [alert event (UnauthorizedDns domain) 60] else []) @
                  (if in_strs domain (sp_blocked_destinations policy)
                   then [alert event (BlockedDns domain) 90] else [])))"

definition check_file_open :: "syscall_event \<Rightarrow> server_policy \<Rightarrow> layer_exn + kernel_alert list" where
  "check_file_open event policy =
    (if sp_allowed_paths policy = {} then Inr []
     else (case detail event ''path'' (PStr []) of
         PStr path \<Rightarrow>
           Inr (if \<exists>p \<in> sp_allowed_paths policy. starts_with path p then []
                else [alert event (UnauthorizedFileAccess (PStr path)) 70])
       | _ \<Rightarrow> Inl AttributeErr))"

definition check_spawn :: "syscall_event \<Rightarrow> server_policy \<Rightarrow> kernel_alert list" where
  "check_spawn event policy =
    (if sp_allow_subprocess policy then []
     else [alert event (UnauthorizedSubprocess (detail event ''command'' (PStr []))) 90])"

text \<open>\<open>size > 10240\<close>: only numbers compare.\<close>

fun exceeds_10k :: "pyval \<Rightarrow> layer_exn + bool" where
  "exceeds_10k (PInt i) = Inr (i > 10240)"
| "exceeds_10k (PBool b) = Inr False"
| "exceeds_10k (PFloat (Fin q)) = Inr (q > 10240)"
| "exceeds_10k (PFloat PosInf) = Inr True"
| "exceeds_10k (PFloat f) = Inr False"
| "exceeds_10k v = Inl TypeErr"

definition check_send :: "syscall_event \<Rightarrow> server_policy \<Rightarrow> layer_exn + kernel_alert list" where
  "check_send event policy =
    (let amount = detail event ''bytes'' (PInt 0); dest = detail event ''destination'' (PStr [])
     in rbind (exceeds_10k amount) (\<lambda>large.
          if \<not> large then Inr []
          else if \<not> hashable dest then Inl TypeErr
          else if in_strs dest (sp_allowed_destinations policy) then Inr []
          else Inr [alert event (LargeSendUnknownDest amount dest) 80]))"

definition type_alerts :: "kernel_monitor \<Rightarrow> syscall_event \<Rightarrow> server_policy \<Rightarrow>
    layer_exn + kernel_alert list" where
  "type_alerts m event policy =
    (case se_type event of
       NETWORK_CONNECT \<Rightarrow> check_network m event policy
     | DNS_RESOLVE \<Rightarrow> check_dns event policy
     | FILE_OPEN \<Rightarrow> check_file_open event policy
     | FILE_WRITE \<Rightarrow> Inr []
     | PROCESS_SPAWN \<Rightarrow> Inr (check_spawn event policy)
     | SOCKET_SEND \<Rightarrow> check_send event policy)"

text \<open>The connections of the last minute, the new one included.\<close>

definition count_connection :: "rat \<Rightarrow> rat list \<Rightarrow> rat list" where
  "count_connection now ts = filter (\<lambda>t. now - t \<le> 60) (ts @ [now])"

definition rate_alerts :: "syscall_event \<Rightarrow> server_policy \<Rightarrow> nat \<Rightarrow> kernel_alert list" where
  "rate_alerts event policy n =
    (if int n > sp_max_connections_per_minute policy
     then [alert event (RateExceeded n (sp_max_connections_per_minute policy)) 65] else [])"

definition process_event :: "rat \<Rightarrow> syscall_event \<Rightarrow> kernel_monitor \<Rightarrow>
    (layer_exn + kernel_alert list) \<times> kernel_monitor" where
  "process_event now event m0 =
    (let sid = se_server_id event;
         m = m0\<lparr>km_events := dset sid (dget_or (km_events m0) sid [] @ [event]) (km_events m0)\<rparr>
     in case dget (km_policies m) sid of
          None \<Rightarrow>
            (let alerts = [alert event (NoPolicy (se_type event)) 70]
             in (Inr alerts, m\<lparr>km_alerts := km_alerts m @ alerts\<rparr>))
        | Some policy \<Rightarrow>
            (case type_alerts m event policy of
               Inl exc \<Rightarrow> (Inl exc, m)
             | Inr alerts \<Rightarrow>
                 if se_type event = NETWORK_CONNECT
                 then (let ts = count_connection now (dget_or (km_connection_counts m) sid []);
                           all_alerts = alerts @ rate_alerts event policy (length ts)
                       in (Inr all_alerts,
                           m\<lparr>km_connection_counts := dset sid ts (km_connection_counts m),
                             km_alerts := km_alerts m @ all_alerts\<rparr>))
                 else (Inr alerts, m\<lparr>km_alerts := km_alerts m @ alerts\<rparr>)))"

section \<open>Queries\<close>

definition get_alerts :: "pystr option \<Rightarrow> kernel_monitor \<Rightarrow> kernel_alert list" where
  "get_alerts server_id m =
    (case server_id of
       None \<Rightarrow> km_alerts m
     | Some s \<Rightarrow> if s = [] then km_alerts m else filter (\<lambda>a. ka_server_id a = s) (km_alerts m))"

record server_activity =
  sv_server_id :: pystr
  sv_total_events :: nat
  sv_by_type :: "(syscall_type \<times> nat) list"
  sv_has_policy :: bool
  sv_alert_count :: nat

definition get_server_activity :: "pystr \<Rightarrow> kernel_monitor \<Rightarrow> server_activity" where
  "get_server_activity server_id m =
    (let events = dget_or (km_events m) server_id []
     in \<lparr>sv_server_id = server_id, sv_total_events = length events,
         sv_by_type = tally se_type events, sv_has_policy = has_key (km_policies m) server_id,
         sv_alert_count = length (filter (\<lambda>a. ka_server_id a = server_id) (km_alerts m))\<rparr>)"

section \<open>The policy\<close>

text \<open>Events whose details have the types the monitor reads.\<close>

definition well_typed :: "syscall_event \<Rightarrow> bool" where
  "well_typed e \<longleftrightarrow>
    (case se_type e of
       NETWORK_CONNECT \<Rightarrow> hashable (detail e ''destination'' (PStr [])) \<and> hashable (detail e ''port'' (PInt 0))
     | DNS_RESOLVE \<Rightarrow> hashable (detail e ''domain'' (PStr []))
     | FILE_OPEN \<Rightarrow> is_str (detail e ''path'' (PStr []))
     | SOCKET_SEND \<Rightarrow> hashable (detail e ''destination'' (PStr [])) \<and>
         (\<exists>n. detail e ''bytes'' (PInt 0) = PInt n)
     | _ \<Rightarrow> True)"

text \<open>What the policy of a server allows, the rate of connections apart.\<close>

definition connect_permitted :: "server_policy \<Rightarrow> pyval \<Rightarrow> pyval \<Rightarrow> bool" where
  "connect_permitted p dest port \<longleftrightarrow>
     \<not> in_strs dest (sp_blocked_destinations p) \<and>
     (sp_allowed_destinations p \<noteq> {} \<longrightarrow> in_strs dest (sp_allowed_destinations p)) \<and>
     (sp_allowed_ports p \<noteq> {} \<or> in_ints port {25, 465, 587, 2525} \<longrightarrow> in_ints port (sp_allowed_ports p))"

definition permitted :: "server_policy \<Rightarrow> syscall_event \<Rightarrow> bool" where
  "permitted p e \<longleftrightarrow>
    (case se_type e of
       NETWORK_CONNECT \<Rightarrow>
         connect_permitted p (detail e ''destination'' (PStr [])) (detail e ''port'' (PInt 0))
     | DNS_RESOLVE \<Rightarrow>
         sp_allow_dns p \<and> \<not> in_strs (detail e ''domain'' (PStr [])) (sp_blocked_destinations p)
     | FILE_OPEN \<Rightarrow> sp_allowed_paths p = {} \<or>
         (\<exists>path \<in> sp_allowed_paths p. \<exists>rest. detail e ''path'' (PStr []) = PStr (path @ rest))
     | FILE_WRITE \<Rightarrow> True
     | PROCESS_SPAWN \<Rightarrow> sp_allow_subprocess p
     | SOCKET_SEND \<Rightarrow> \<not> (\<exists>n > 10240. detail e ''bytes'' (PInt 0) = PInt n) \<or>
         in_strs (detail e ''destination'' (PStr [])) (sp_allowed_destinations p))"

lemma type_alerts_total:
  assumes "well_typed e" "dget (km_policies m) (se_server_id e) = Some p"
  shows "\<exists>alerts. type_alerts m e p = Inr alerts \<and> (alerts = [] \<longleftrightarrow> permitted p e)"
proof (cases "se_type e")
  case NETWORK_CONNECT
  with assms show ?thesis
    by (auto simp: type_alerts_def check_network_def detect_hidden_smtp_def SMTP_PORT_SET_def
        well_typed_def permitted_def connect_permitted_def Let_def)
next
  case DNS_RESOLVE
  with assms show ?thesis
    by (auto simp: type_alerts_def check_dns_def well_typed_def permitted_def Let_def)
next
  case FILE_OPEN
  with assms show ?thesis
    by (auto simp: type_alerts_def check_file_open_def well_typed_def permitted_def
        starts_with_iff split: pyval.splits)
next
  case SOCKET_SEND
  with assms(1) obtain n where n: "detail e ''bytes'' (PInt 0) = PInt n"
    and h: "hashable (detail e ''destination'' (PStr []))"
    by (auto simp: well_typed_def)
  have "type_alerts m e p = Inr (if n > 10240 \<and>
      \<not> in_strs (detail e ''destination'' (PStr [])) (sp_allowed_destinations p)
      then [alert e (LargeSendUnknownDest (PInt n) (detail e ''destination'' (PStr []))) 80] else [])"
    using SOCKET_SEND n h by (simp add: type_alerts_def check_send_def Let_def)
  then show ?thesis using SOCKET_SEND n by (simp add: permitted_def)
qed (use assms in \<open>auto simp: type_alerts_def check_spawn_def permitted_def\<close>)

lemma type_alerts_events [simp]:
  "type_alerts (m\<lparr>km_events := ev\<rparr>) e p = type_alerts m e p"
proof -
  have "detect_hidden_smtp (m\<lparr>km_events := ev\<rparr>) e = detect_hidden_smtp m e"
    by (simp add: detect_hidden_smtp_def Let_def)
  then have "check_network (m\<lparr>km_events := ev\<rparr>) e p = check_network m e p"
    by (simp add: check_network_def Let_def)
  then show ?thesis by (simp add: type_alerts_def split: syscall_type.splits)
qed

section \<open>Histories\<close>

definition run_events :: "(rat \<times> syscall_event) list \<Rightarrow> kernel_monitor \<Rightarrow> kernel_monitor" where
  "run_events hist m = fold (\<lambda>(now, e) m. snd (process_event now e m)) hist m"

lemma run_events_snoc [simp]:
  "run_events (hist @ [(now, e)]) m = snd (process_event now e (run_events hist m))"
  by (simp add: run_events_def)

lemma process_alerts:
  assumes "dget (km_policies m) (se_server_id e) = Some p" "type_alerts m e p = Inr alerts"
  shows "fst (process_event now e m) = Inr (alerts @
    (if se_type e = NETWORK_CONNECT
     then rate_alerts e p (length (count_connection now
            (dget_or (km_connection_counts m) (se_server_id e) [])))
     else []))"
  using assms by (simp add: process_event_def Let_def)

lemma process_policies [simp]: "km_policies (snd (process_event now e m)) = km_policies m"
  by (simp add: process_event_def Let_def split: option.split sum.split)

lemma run_policies [simp]: "km_policies (run_events hist m) = km_policies m"
  by (induction hist rule: rev_induct) (auto simp: run_events_def)

text \<open>When a server connected, according to the history.\<close>

definition connect_times :: "(rat \<times> syscall_event) list \<Rightarrow> pystr \<Rightarrow> rat list" where
  "connect_times hist sid =
     map fst (filter (\<lambda>(t, e). se_type e = NETWORK_CONNECT \<and> se_server_id e = sid) hist)"

definition window_of :: "rat \<Rightarrow> rat list \<Rightarrow> rat list" where
  "window_of now ts = filter (\<lambda>t. now - t \<le> 60) ts"

lemma count_connection_window: "count_connection t ts = window_of t (ts @ [t])"
  by (simp add: count_connection_def window_of_def)

lemma window_of_window: "t \<le> now \<Longrightarrow> window_of now (window_of t ts) = window_of now ts"
  by (auto simp: window_of_def intro!: filter_cong)

lemma window_of_Nil [simp]: "window_of now [] = []"
  by (simp add: window_of_def)

lemma window_of_append [simp]: "window_of now (xs @ ys) = window_of now xs @ window_of now ys"
  by (simp add: window_of_def)

lemma process_counts:
  assumes "well_typed e" "dget (km_policies m) (se_server_id e) = Some p"
  shows "dget_or (km_connection_counts (snd (process_event t e m))) sid [] =
    (if se_type e = NETWORK_CONNECT \<and> se_server_id e = sid
     then window_of t (dget_or (km_connection_counts m) sid [] @ [t])
     else dget_or (km_connection_counts m) sid [])"
  using type_alerts_total [OF assms] assms(2)
  by (auto simp: process_event_def Let_def count_connection_window dget_or_def)

lemma window_exact:
  assumes "\<forall>(t, e) \<in> set hist. well_typed e \<and> t \<le> now \<and> has_key (km_policies m) (se_server_id e)"
    and "km_connection_counts m = []"
  shows "window_of now (dget_or (km_connection_counts (run_events hist m)) sid []) =
    window_of now (connect_times hist sid)"
  using assms(1)
proof (induction hist rule: rev_induct)
  case Nil
  show ?case using assms(2) by (simp add: run_events_def connect_times_def)
next
  case (snoc te hist)
  obtain t e where te: "te = (t, e)" by fastforce
  from snoc.prems te have wt: "well_typed e" "t \<le> now"
    and "has_key (km_policies m) (se_server_id e)" by auto
  then obtain p where p: "dget (km_policies (run_events hist m)) (se_server_id e) = Some p"
    by (auto simp: has_key_def)
  have IH: "window_of now (dget_or (km_connection_counts (run_events hist m)) sid []) =
      window_of now (connect_times hist sid)"
    using snoc by auto
  show ?case
    by (simp add: te process_counts [OF wt(1) p] window_of_window wt(2) IH del: window_of_append)
      (simp add: connect_times_def IH [unfolded connect_times_def])
qed

text \<open>
  C28: After any history of well-typed events of servers with a policy, an event raises no alert exactly
  when the policy of its server permits it and, for a connection, the server has made fewer than
  the permitted number of connections in the last sixty seconds.
\<close>

theorem kernel_silent_iff:
  assumes "\<forall>(t, e) \<in> set hist. well_typed e \<and> t \<le> now \<and> has_key (km_policies m) (se_server_id e)"
    and "km_connection_counts m = []"
    and "dget (km_policies m) (se_server_id e) = Some p" "well_typed e"
  shows "fst (process_event now e (run_events hist m)) = Inr [] \<longleftrightarrow>
    permitted p e \<and>
    (se_type e = NETWORK_CONNECT \<longrightarrow>
       int (length (filter (\<lambda>t. now - t \<le> 60) (connect_times hist (se_server_id e)))) <
         sp_max_connections_per_minute p)"
proof -
  let ?M = "run_events hist m" and ?sid = "se_server_id e"
  have p: "dget (km_policies ?M) ?sid = Some p" using assms(3) by simp
  obtain alerts where al: "type_alerts ?M e p = Inr alerts" "alerts = [] \<longleftrightarrow> permitted p e"
    using type_alerts_total [OF assms(4) p] by blast
  have n: "length (count_connection now (dget_or (km_connection_counts ?M) ?sid [])) =
      Suc (length (filter (\<lambda>t. now - t \<le> 60) (connect_times hist ?sid)))"
    using window_exact [OF assms(1,2), of ?sid]
    by (simp add: count_connection_window) (simp add: window_of_def)
  show ?thesis
    using al by (auto simp: process_alerts [OF p al(1)] n rate_alerts_def)
qed

definition sample_policy :: server_policy where
  "sample_policy = (default_policy (u ''s''))\<lparr>sp_max_connections_per_minute := 1\<rparr>"

definition sample_connect :: syscall_event where
  "sample_connect = \<lparr>se_server_id = u ''s'', se_type = NETWORK_CONNECT,
     se_details = [(u ''destination'', PStr (u ''api.x.io'')), (u ''port'', PInt 443)]\<rparr>"

lemma kernel_silent_iff_witness:
  "fst (process_event 10 sample_connect
      (run_events [(0, sample_connect)] (register_policy sample_policy make_kernel_monitor))) = Inr [] \<longleftrightarrow>
    permitted sample_policy sample_connect \<and>
    (se_type sample_connect = NETWORK_CONNECT \<longrightarrow>
       int (length (filter (\<lambda>t. 10 - t \<le> (60 :: rat))
         (connect_times [(0, sample_connect)] (se_server_id sample_connect)))) <
         sp_max_connections_per_minute sample_policy)"
  by (rule kernel_silent_iff)
    (simp_all add: well_typed_def sample_connect_def sample_policy_def register_policy_def
      make_kernel_monitor_def default_policy_def detail_def has_key_def dget_or_def)

text \<open>Writing to a path outside the allowed ones raises nothing, opening it does; the comparison of
  paths is by prefix, so a sibling directory counts as inside.\<close>

lemma file_write_unchecked:
  "se_type e = FILE_WRITE \<Longrightarrow> dget (km_policies m) (se_server_id e) = Some p \<Longrightarrow>
     fst (process_event now e m) = Inr []"
  by (simp add: process_event_def type_alerts_def Let_def)

lemma sibling_path_is_inside:
  "permitted ((default_policy (u ''s''))\<lparr>sp_allowed_paths := {u ''/app''}\<rparr>)
     \<lparr>se_server_id = u ''s'', se_type = FILE_OPEN,
       se_details = [(u ''path'', PStr (u ''/app-secrets/key''))]\<rparr>"
  using u_append [of "''/app''" "''-secrets/key''"]
  by (auto simp: permitted_def default_policy_def detail_def dget_or_def)

text \<open>The counts of a server's activity.\<close>

lemma activity_counts:
  "dget_or (sv_by_type (get_server_activity sid m)) t 0 =
     length (filter (\<lambda>e. se_type e = t) (dget_or (km_events m) sid []))"
  by (simp add: get_server_activity_def Let_def tally_count)

lemma alerts_of_server:
  "s \<noteq> [] \<Longrightarrow> length (get_alerts (Some s) m) = sv_alert_count (get_server_activity s m)"
  by (simp add: get_alerts_def get_server_activity_def Let_def)

end
