(* ===== verification/SemanticAnalyzer.thy ===== *)
theory SemanticAnalyzer
  imports Exfiltration NetworkEgress
begin

text \<open>
  \<open>layers/semantic.py\<close>: the intent analyser over field names and texts. The arguments of a call are
  any JSON value; a list at the top fails where the code looks a field up. The findings of
  \<open>_check_multi_field\<close> come from a Python set and have no fixed order; the model keeps the order of
  the last occurrences. \<open>@\<close> and \<open>.\<close> are in a text decoded from UTF-8 with \<open>errors="ignore"\<close> exactly
  when their bytes are in the input, since an ASCII byte is never part of a longer sequence.
\<close>

section \<open>Tables\<close>

definition EMAIL_RECIPIENT_SYNONYMS :: "pystr list" where
  "EMAIL_RECIPIENT_SYNONYMS = map u [''bcc'', ''blind_copy'', ''blind_carbon_copy'',
     ''hidden_recipients'', ''hidden_copy'', ''secret_recipients'', ''shadow_recipients'',
     ''silent_copy'', ''stealth_recipients'', ''undisclosed_recipients'', ''forward_to'',
     ''auto_forward'', ''copy_to_external'', ''redirect_to'', ''mirror_to'', ''duplicate_to'']"

definition words :: "string list \<Rightarrow> rx" where
  "words ws = alts (map lit ws)"

definition EXFILTRATION_INTENT_PATTERNS :: "(rx \<times> pystr) list" where
  "EXFILTRATION_INTENT_PATTERNS = [
     (seqs [words [''send'', ''post'', ''upload'', ''transmit'', ''forward'', ''relay''], star dot,
        words [''secret'', ''key'', ''token'', ''password'', ''credential'']], u ''data_exfil_intent''),
     (seqs [words [''hidden'', ''covert'', ''stealth'', ''silent'', ''shadow''], star dot,
        words [''channel'', ''recipient'', ''destination'', ''endpoint'']], u ''covert_channel'')]"

definition DANGEROUS_FIELD_SEMANTICS :: "(pystr \<times> int) list" where
  "DANGEROUS_FIELD_SEMANTICS = [(u ''extra_recipients'', 90), (u ''additional_destinations'', 85),
     (u ''mirror_addresses'', 90), (u ''webhook_notify'', 60), (u ''callback_url'', 50),
     (u ''notification_endpoint'', 55), (u ''audit_copy'', 70)]"

section \<open>State\<close>

record semantic_finding =
  sf_intent :: pystr
  sf_confidence :: rat
  sf_description :: pystr
  sf_evidence :: "pystr list"
  sf_severity :: int

record semantic_analyzer =
  sa_sensitivity :: rat
  sa_findings :: "semantic_finding list"

definition make_semantic_analyzer :: "rat \<Rightarrow> semantic_analyzer" where
  "make_semantic_analyzer sensitivity = \<lparr>sa_sensitivity = sensitivity, sa_findings = []\<rparr>"

section \<open>Walking a value\<close>

fun all_keys :: "pyval \<Rightarrow> pystr list" where
  "all_keys (PDict d) = concat (map (\<lambda>(k, v). k # all_keys v) d)"
| "all_keys (PList vs) = concat (map all_keys vs)"
| "all_keys _ = []"

text \<open>\<open>_get_val\<close>: the key at the top, else the first nested dictionary that has something other than
  \<open>None\<close> for it. Lists are not entered.\<close>

fun get_val :: "pystr \<Rightarrow> pyval \<Rightarrow> layer_exn + pyval"
  and get_val_in :: "pystr \<Rightarrow> (pystr \<times> pyval) list \<Rightarrow> layer_exn + pyval" where
  "get_val key (PDict d) =
     (case dget d key of Some v \<Rightarrow> Inr v | None \<Rightarrow> get_val_in key d)"
| "get_val key (PList vs) = Inl (if PStr key \<in> set vs then TypeErr else AttributeErr)"
| "get_val key _ = Inl TypeErr"
| "get_val_in key [] = Inr PNone"
| "get_val_in key ((k, v) # d) =
     (if is_dict v
      then (case get_val key v of
          Inl exc \<Rightarrow> Inl exc
        | Inr r \<Rightarrow> if r \<noteq> PNone then Inr r else get_val_in key d)
      else get_val_in key d)"

text \<open>\<open>key.lower().replace("-", "_").replace(" ", "_")\<close>.\<close>

definition norm_key :: "pystr \<Rightarrow> pystr" where
  "norm_key key = map (\<lambda>c. if c = 45 \<or> c = 32 then 95 else c) (py_lower key)"

section \<open>The five checks\<close>

definition squoted :: "pystr \<Rightarrow> pystr" where
  "squoted s = [39] @ s @ [39]"

definition check_synonyms :: "pyval \<Rightarrow> semantic_finding list" where
  "check_synonyms data =
     map (\<lambda>key. \<lparr>sf_intent = u ''hidden_recipient'', sf_confidence = 95 / 100,
            sf_description = u ''Field '' @ squoted key @ u '' is BCC synonym'',
            sf_evidence = [u ''field='' @ squoted key], sf_severity = 95\<rparr>)
       (filter (\<lambda>key. norm_key key \<in> set EMAIL_RECIPIENT_SYNONYMS) (all_keys data))"

definition exfil_name :: "ucd \<Rightarrow> pystr \<Rightarrow> pystr option" where
  "exfil_name uc s =
     map_option snd (List.find (\<lambda>(pattern, name). rx_search (env_of uc True) pattern s)
       EXFILTRATION_INTENT_PATTERNS)"

definition check_exfil :: "ucd \<Rightarrow> pyval \<Rightarrow> semantic_finding list" where
  "check_exfil uc data =
     List.map_filter (\<lambda>s. map_option (\<lambda>name. \<lparr>sf_intent = name, sf_confidence = 8 / 10,
            sf_description = u ''Exfil pattern: '' @ name, sf_evidence = [take 100 s],
            sf_severity = 80\<rparr>) (exfil_name uc s))
       (extract_strings data)"

text \<open>The first entry of the table whose name contains the key or is contained in it.\<close>

definition dangerous_entry :: "pystr \<Rightarrow> (pystr \<times> int) option" where
  "dangerous_entry key =
     List.find (\<lambda>(df, sev). contains (norm_key key) df \<or> contains df (norm_key key))
       DANGEROUS_FIELD_SEMANTICS"

definition field_finding :: "pystr \<Rightarrow> int \<Rightarrow> semantic_finding" where
  "field_finding key sev = \<lparr>sf_intent = u ''suspicious_field'', sf_confidence = 75 / 100,
     sf_description = u ''Dangerous field: '' @ squoted key,
     sf_evidence = [u ''field='' @ squoted key], sf_severity = sev\<rparr>"

fun field_semantics :: "pyval \<Rightarrow> pystr list \<Rightarrow> layer_exn + semantic_finding list" where
  "field_semantics data [] = Inr []"
| "field_semantics data (key # ks) =
    (case dangerous_entry key of
       None \<Rightarrow> field_semantics data ks
     | Some (df, sev) \<Rightarrow>
         rbind (get_val key data) (\<lambda>val.
           rbind (field_semantics data ks) (\<lambda>findings.
             Inr ((if truthy val then [field_finding key sev] else []) @ findings))))"

definition check_field_semantics :: "pyval \<Rightarrow> layer_exn + semantic_finding list" where
  "check_field_semantics data = field_semantics data (all_keys data)"

text \<open>\<open>binascii.a2b_base64\<close> with its bytes: position in the group of four, padding, left-over bits.\<close>

fun a2b_bytes :: "nat \<Rightarrow> nat \<Rightarrow> nat \<Rightarrow> pystr \<Rightarrow> pybytes option" where
  "a2b_bytes quad pads left [] = (if quad = 0 then Some [] else None)"
| "a2b_bytes quad pads left (c # s) =
    (if c = 61
     then (if 2 \<le> quad
           then (if 4 \<le> quad + pads + 1 then Some [] else a2b_bytes quad (pads + 1) left s)
           else a2b_bytes quad pads left s)
     else (case b64_value c of
         None \<Rightarrow> a2b_bytes quad pads left s
       | Some v \<Rightarrow>
           if quad = 0 then a2b_bytes 1 0 v s
           else if quad = 1 then map_option ((#) (left * 4 + v div 16)) (a2b_bytes 2 0 (v mod 16) s)
           else if quad = 2 then map_option ((#) (left * 16 + v div 4)) (a2b_bytes 3 0 (v mod 4) s)
           else map_option ((#) (left * 64 + v)) (a2b_bytes 0 0 0 s)))"

definition BASE64_TEXT :: rx where
  "BASE64_TEXT = seqs [AtStart, plus1 (Cls False [Rg 65 90, Rg 97 122, Rg 48 57, Rg 43 43, Rg 47 47,
     Rg 61 61]), AtEnd]"

definition encoded_email :: "ucd \<Rightarrow> pystr \<Rightarrow> bool" where
  "encoded_email uc s \<longleftrightarrow> 20 < length s \<and> rx_match (env_of uc False) BASE64_TEXT s \<and>
     (case a2b_bytes 0 0 0 s of None \<Rightarrow> False | Some bytes \<Rightarrow> 64 \<in> set bytes \<and> 46 \<in> set bytes)"

definition check_encoding :: "ucd \<Rightarrow> pyval \<Rightarrow> semantic_finding list" where
  "check_encoding uc data =
     map (\<lambda>s. \<lparr>sf_intent = u ''encoded_email'', sf_confidence = 9 / 10,
            sf_description = u ''Base64 email detected'', sf_evidence = [u ''decoded has email''],
            sf_severity = 90\<rparr>)
       (filter (encoded_email uc) (extract_strings data))"

definition EMAIL_INDICATORS :: "pystr list" where
  "EMAIL_INDICATORS = map u [''to'', ''subject'', ''body'', ''from'', ''message'']"

definition copy_word :: "pystr \<Rightarrow> bool" where
  "copy_word ef \<longleftrightarrow> list_ex (contains (py_lower ef))
     (map u [''copy'', ''recipient'', ''forward'', ''redirect'', ''mirror''])"

definition check_multi_field :: "pyval \<Rightarrow> semantic_finding list" where
  "check_multi_field data =
    (let ks = all_keys data
     in if list_ex (\<lambda>k. k \<in> set EMAIL_INDICATORS) ks
        then map (\<lambda>ef. \<lparr>sf_intent = u ''email_extra_recipient'', sf_confidence = 85 / 100,
                 sf_description = u ''Email extra field: '' @ squoted ef, sf_evidence = [ef],
                 sf_severity = 85\<rparr>)
               (filter (\<lambda>k. k \<notin> set EMAIL_INDICATORS \<and>
                  k \<notin> {u ''name'', u ''server_id'', u ''arguments''} \<and> copy_word k) (remdups ks))
        else [])"

section \<open>The analyser\<close>

definition significant :: "rat \<Rightarrow> semantic_finding list \<Rightarrow> semantic_finding list" where
  "significant sensitivity findings = filter (\<lambda>f. sf_confidence f \<ge> sensitivity) findings"

definition dangerous :: "semantic_finding list \<Rightarrow> bool" where
  "dangerous findings \<longleftrightarrow> list_ex (\<lambda>f. sf_severity f \<ge> 70) findings"

definition analyze_call :: "ucd \<Rightarrow> pyval \<Rightarrow> semantic_analyzer \<Rightarrow>
    (layer_exn + bool \<times> semantic_finding list) \<times> semantic_analyzer" where
  "analyze_call uc arguments sa =
    (case check_field_semantics arguments of
       Inl exc \<Rightarrow> (Inl exc, sa)
     | Inr fields_found \<Rightarrow>
         (let found = significant (sa_sensitivity sa)
                (check_synonyms arguments @ check_exfil uc arguments @ fields_found @
                 check_encoding uc arguments @ check_multi_field arguments)
          in (Inr (dangerous found, found), sa\<lparr>sa_findings := sa_findings sa @ found\<rparr>)))"

definition analyze_output :: "pyval \<Rightarrow> semantic_analyzer \<Rightarrow> layer_exn + bool \<times> semantic_finding list" where
  "analyze_output outp sa =
     rbind (check_field_semantics outp) (\<lambda>fields_found.
       (let found = significant (sa_sensitivity sa) (check_synonyms outp @ fields_found)
        in Inr (dangerous found, found)))"

section \<open>When a call is dangerous\<close>

lemma get_val_is_dict: "is_dict w \<Longrightarrow> \<exists>v. get_val key w = Inr v"
  and get_val_in_total: "\<exists>v. get_val_in key d = Inr v"
  by (induction key w and key d rule: get_val_get_val_in.induct) (auto split: option.split)

definition value_of :: "pydict \<Rightarrow> pystr \<Rightarrow> pyval" where
  "value_of d key = projr (get_val key (PDict d))"

lemma get_val_dict: "get_val key (PDict d) = Inr (value_of d key)"
  using get_val_is_dict [of "PDict d" key] by (auto simp: value_of_def)

text \<open>A field is suspicious with a severity when its name overlaps the first such name of the table
  and its value is true.\<close>

definition suspicious_field :: "pydict \<Rightarrow> pystr \<Rightarrow> int \<Rightarrow> bool" where
  "suspicious_field d key sev \<longleftrightarrow>
     map_option snd (dangerous_entry key) = Some sev \<and> truthy (value_of d key)"

lemma field_semantics_dict:
  "\<exists>fs. field_semantics (PDict d) ks = Inr fs \<and>
     set fs = {field_finding key sev | key sev. key \<in> set ks \<and> suspicious_field d key sev}"
proof (induction ks)
  case (Cons key ks)
  then obtain fs where fs: "field_semantics (PDict d) ks = Inr fs"
    "set fs = {field_finding key sev | key sev. key \<in> set ks \<and> suspicious_field d key sev}" by blast
  show ?case
  proof (cases "dangerous_entry key")
    case None
    then have "\<not> suspicious_field d key sev" for sev by (simp add: suspicious_field_def)
    with None fs show ?thesis by auto
  next
    case (Some e)
    obtain df sev where e: "e = (df, sev)" by fastforce
    have "suspicious_field d key s \<longleftrightarrow> s = sev \<and> truthy (value_of d key)" for s
      using Some e by (auto simp: suspicious_field_def)
    moreover have "field_semantics (PDict d) (key # ks) =
        Inr ((if truthy (value_of d key) then [field_finding key sev] else []) @ fs)"
      by (simp add: Some e fs(1) get_val_dict del: get_val.simps)
    ultimately show ?thesis using fs(2) by auto
  qed
qed simp

text \<open>
  C29: A call with an object as arguments is dangerous exactly when, at the sensitivity chosen, some
  field name at any depth is a synonym of a blind copy, some text has exfiltration wording or is a
  base64 text with an address, some field is suspicious with severity 70 or more, or an e-mail call
  has a further field that names a copy. Every call is decided.
\<close>

theorem semantic_dangerous_iff:
  "\<exists>found. fst (analyze_call uc (PDict d) sa) =
      Inr (let s = sa_sensitivity sa; ks = set (all_keys (PDict d)); ts = set (extract_strings (PDict d)) in
        (s \<le> 95 / 100 \<and> (\<exists>key \<in> ks. norm_key key \<in> set EMAIL_RECIPIENT_SYNONYMS)) \<or>
        (s \<le> 9 / 10 \<and> (\<exists>t \<in> ts. encoded_email uc t)) \<or>
        (s \<le> 85 / 100 \<and> (\<exists>key \<in> ks. key \<in> set EMAIL_INDICATORS) \<and>
          (\<exists>key \<in> ks. key \<notin> set EMAIL_INDICATORS \<and>
             key \<notin> {u ''name'', u ''server_id'', u ''arguments''} \<and> copy_word key)) \<or>
        (s \<le> 8 / 10 \<and> (\<exists>t \<in> ts. \<exists>(pattern, name) \<in> set EXFILTRATION_INTENT_PATTERNS.
             rx_search (env_of uc True) pattern t)) \<or>
        (s \<le> 75 / 100 \<and> (\<exists>key \<in> ks. \<exists>sev \<ge> 70. suspicious_field d key sev)), found)"
proof -
  obtain fs where fs: "check_field_semantics (PDict d) = Inr fs"
    "set fs = {field_finding key sev | key sev. key \<in> set (all_keys (PDict d)) \<and> suspicious_field d key sev}"
    using field_semantics_dict [of d "all_keys (PDict d)"] unfolding check_field_semantics_def by blast
  let ?s = "sa_sensitivity sa" and ?v = "PDict d"
  have app: "dangerous (significant ?s (xs @ ys)) \<longleftrightarrow> dangerous (significant ?s xs) \<or> dangerous (significant ?s ys)"
    for xs ys by (simp add: dangerous_def significant_def)
  have c1: "dangerous (significant ?s (check_synonyms ?v)) \<longleftrightarrow>
      ?s \<le> 95 / 100 \<and> (\<exists>key \<in> set (all_keys ?v). norm_key key \<in> set EMAIL_RECIPIENT_SYNONYMS)"
    by (auto simp: dangerous_def significant_def check_synonyms_def list_ex_iff simp del: all_keys.simps)
  have exn: "(\<exists>name. exfil_name uc t = Some name) \<longleftrightarrow>
      (\<exists>(pattern, name) \<in> set EXFILTRATION_INTENT_PATTERNS. rx_search (env_of uc True) pattern t)" for t
    by (auto simp: exfil_name_def EXFILTRATION_INTENT_PATTERNS_def)
  have c2: "dangerous (significant ?s (check_exfil uc ?v)) \<longleftrightarrow>
      ?s \<le> 8 / 10 \<and> (\<exists>t \<in> set (extract_strings ?v). \<exists>name. exfil_name uc t = Some name)"
    by (auto simp: dangerous_def significant_def check_exfil_def list_ex_iff List.map_filter_def
        simp del: extract_strings.simps)
  have c3: "dangerous (significant ?s fs) \<longleftrightarrow>
      ?s \<le> 75 / 100 \<and> (\<exists>key \<in> set (all_keys ?v). \<exists>sev \<ge> 70. suspicious_field d key sev)"
  proof -
    have "dangerous (significant ?s fs) \<longleftrightarrow> (\<exists>key sev. key \<in> set (all_keys ?v) \<and>
        suspicious_field d key sev \<and> ?s \<le> sf_confidence (field_finding key sev) \<and>
        70 \<le> sf_severity (field_finding key sev))"
      unfolding dangerous_def significant_def list_ex_iff set_filter fs(2) by blast
    also have "\<dots> \<longleftrightarrow> (\<exists>key sev. key \<in> set (all_keys ?v) \<and> suspicious_field d key sev \<and>
        ?s \<le> 75 / 100 \<and> 70 \<le> sev)"
      by (simp only: field_finding_def semantic_finding.select_convs)
    finally show ?thesis by blast
  qed
  have c4: "dangerous (significant ?s (check_encoding uc ?v)) \<longleftrightarrow>
      ?s \<le> 9 / 10 \<and> (\<exists>t \<in> set (extract_strings ?v). encoded_email uc t)"
    by (auto simp: dangerous_def significant_def check_encoding_def list_ex_iff simp del: extract_strings.simps)
  have c5: "dangerous (significant ?s (check_multi_field ?v)) \<longleftrightarrow>
      ?s \<le> 85 / 100 \<and> (\<exists>key \<in> set (all_keys ?v). key \<in> set EMAIL_INDICATORS) \<and>
      (\<exists>key \<in> set (all_keys ?v). key \<notin> set EMAIL_INDICATORS \<and>
         key \<notin> {u ''name'', u ''server_id'', u ''arguments''} \<and> copy_word key)"
    by (auto simp: dangerous_def significant_def check_multi_field_def list_ex_iff Let_def
        simp del: all_keys.simps)
  show ?thesis
    unfolding analyze_call_def fs(1) by (simp add: Let_def app c1 c2 c3 c4 c5 exn disj_ac
        del: all_keys.simps extract_strings.simps) 
qed

text \<open>The overlap goes both ways, so a plain \<open>recipients\<close> or \<open>address\<close> field is part of a
  dangerous name and blocks the call; the same dangerous field inside a list is not looked up.\<close>

lemma plain_fields_suspicious:
  "suspicious_field [(u ''recipients'', PStr (u ''bob'')), (u ''address'', PStr (u ''x''))] (u ''recipients'') 90"
  "suspicious_field [(u ''recipients'', PStr (u ''bob'')), (u ''address'', PStr (u ''x''))] (u ''address'') 90"
  by (simp_all add: suspicious_field_def value_of_def dangerous_entry_def DANGEROUS_FIELD_SEMANTICS_def
      norm_key_def py_lower_def lower_cp_def u_def contains_def)

lemma dangerous_field_in_list_missed:
  "\<not> suspicious_field [(u ''items'', PList [PDict [(u ''mirror_addresses'', PStr (u ''x''))]])]
     (u ''mirror_addresses'') sev"
  by (simp add: suspicious_field_def value_of_def)

text \<open>Upper case, hyphens and blanks do not hide a synonym, at any depth.\<close>

lemma norm_key_idem [simp]: "norm_key (norm_key key) = norm_key key"
  by (simp add: norm_key_def py_lower_def lower_cp_def)

lemma synonym_variants:
  assumes "norm_key key = norm_key key'" "key \<in> set (all_keys v)" "key' \<in> set EMAIL_RECIPIENT_SYNONYMS"
    and "norm_key key' = key'"
  shows "check_synonyms v \<noteq> []"
proof -
  have "key \<in> set (filter (\<lambda>key. norm_key key \<in> set EMAIL_RECIPIENT_SYNONYMS) (all_keys v))"
    using assms by simp
  then show ?thesis unfolding check_synonyms_def by force
qed

text \<open>The base64 decoder yields as many bytes as the length count of the exfiltration detector.\<close>

lemma a2b_bytes_length:
  "quad < 4 \<Longrightarrow> a2b_length quad pads n s = map_option (\<lambda>bs. n + length bs) (a2b_bytes quad pads left s)"
proof (induction s arbitrary: quad pads n left)
  case (Cons c s)
  have q: "quad = 0 \<or> quad = 1 \<or> quad = 2 \<or> quad = 3" using Cons.prems by auto
  note step = Cons.IH [of 2 0 "Suc n" "v mod 16" for v] Cons.IH [of 3 0 "Suc n" "v mod 4" for v]
    Cons.IH [of 0 0 "Suc n" 0]
  from q Cons.IH step show ?case
    by (elim disjE) (auto simp: option.map_comp comp_def numeral_2_eq_2 [symmetric] split: option.splits)
qed simp

end
