(* ===== verification/FiveLayer.thy ===== *)
theory FiveLayer
  imports InlineProxy KernelMonitor SemanticAnalyzer Honeypot
begin

text \<open>
  \<open>layers/orchestrator.py\<close>: the five layers in sequence over one tool call: server registry, inline
  proxy, spawn wording in the arguments, semantic analyser, egress policy. Call ids are arguments,
  the execution times of the layers are left out. An exception of a layer leaves the states of the
  layers before it updated and adds no verdict.
\<close>

section \<open>Flattening\<close>

text \<open>\<open>_flatten\<close> with the number of levels that are left; below the last one a marker stands for the
  value.\<close>

fun flatten_to :: "nat \<Rightarrow> pyval \<Rightarrow> pyval list" where
  "flatten_to 0 v = [PStr (u ''__max_depth_exceeded__'')]"
| "flatten_to (Suc n) (PDict d) = concat (map (\<lambda>(k, v). flatten_to n v) d)"
| "flatten_to (Suc n) (PList vs) = concat (map (flatten_to n) vs)"
| "flatten_to (Suc n) v = [v]"

definition arg_blob :: "(rat \<Rightarrow> pystr) \<Rightarrow> pyval \<Rightarrow> pystr" where
  "arg_blob fr arguments = py_lower (join_with [32] (map (str_scalar fr) (flatten_to 64 arguments)))"

definition SPAWN_TOKENS :: "pystr list" where
  "SPAWN_TOKENS = map u [''subprocess'', ''os.system'', ''/bin/sh'', ''bash -c'', ''cmd.exe /c'']"

section \<open>State\<close>

datatype layer_finding =
    UnregisteredServer pyval
  | ProxyReason proxy_reason
  | SpawnIntent
  | SemanticReason pystr
  | EgressReason egress_reason

record layer_result =
  lr_layer :: nat
  lr_layer_name :: pystr
  lr_passed :: bool
  lr_risk_score :: int
  lr_findings :: "layer_finding list"

record five_verdict =
  fv_call_id :: pystr
  fv_allowed :: bool
  fv_blocked_by_layer :: "nat option"
  fv_layer_results :: "layer_result list"
  fv_total_risk_score :: int
  fv_enforcement_action :: pystr

record five_layer =
  fl_proxy :: inline_proxy
  fl_kernel :: kernel_monitor
  fl_semantic :: semantic_analyzer
  fl_egress :: egress_policy
  fl_known_servers :: "pystr set"
  fl_verdicts :: "five_verdict list"

datatype five_exn = RegistryExn | ProxyExn proxy_exn2 | SemanticExn layer_exn
  | ArgumentsNotDict | EgressExn layer_exn

definition make_five_layer :: "inline_proxy \<Rightarrow> kernel_monitor \<Rightarrow> semantic_analyzer \<Rightarrow> egress_policy \<Rightarrow>
    pystr set \<Rightarrow> five_layer" where
  "make_five_layer prx kern semantic egress known =
     \<lparr>fl_proxy = prx, fl_kernel = kern, fl_semantic = semantic, fl_egress = egress,
      fl_known_servers = known, fl_verdicts = []\<rparr>"

definition fl_register_server :: "pystr \<Rightarrow> five_layer \<Rightarrow> five_layer" where
  "fl_register_server server_id f =
    (if server_id \<noteq> [] then f\<lparr>fl_known_servers := insert server_id (fl_known_servers f)\<rparr> else f)"

section \<open>The layers\<close>

definition layer1_passed :: "five_layer \<Rightarrow> pyval \<Rightarrow> five_exn + bool" where
  "layer1_passed f server_id =
    (if fl_known_servers f = {} then Inr True
     else if \<not> hashable server_id then Inl RegistryExn
     else Inr (in_strs server_id (fl_known_servers f) \<or> \<not> truthy server_id))"

definition layer3_passed :: "(rat \<Rightarrow> pystr) \<Rightarrow> pyval \<Rightarrow> bool" where
  "layer3_passed fr arguments \<longleftrightarrow> \<not> list_ex (contains (arg_blob fr arguments)) SPAWN_TOKENS"

definition max_severity :: "semantic_finding list \<Rightarrow> int" where
  "max_severity fs = (if fs = [] then 0 else Max (set (map sf_severity fs)))"

definition layer5 :: "ucd \<Rightarrow> pyval \<Rightarrow> pyval \<Rightarrow> egress_policy \<Rightarrow>
    (five_exn + egress_reason option) \<times> egress_policy" where
  "layer5 uc server_id arguments ep =
    (case arguments of
       PDict args \<Rightarrow>
         (let dest = dget_or args (u ''url'') (dget_or args (u ''destination'') (PStr []))
          in if \<not> truthy dest then (Inr None, ep)
             else (case egress_evaluate uc server_id dest (dget_or args (u ''port'') (PInt 443)) 0 ep of
                 (Inl exc, ep') \<Rightarrow> (Inl (EgressExn exc), ep')
               | (Inr d, ep') \<Rightarrow> (Inr (if gd_allowed d then None else Some (gd_reason d)), ep')))
     | _ \<Rightarrow> (Inl ArgumentsNotDict, ep))"

definition give_verdict :: "pystr \<Rightarrow> bool \<Rightarrow> nat option \<Rightarrow> layer_result list \<Rightarrow> int \<Rightarrow> five_layer \<Rightarrow>
    (five_exn + five_verdict) \<times> five_layer" where
  "give_verdict call_id allowed blocked_by results total_risk f =
    (let v = \<lparr>fv_call_id = call_id, fv_allowed = allowed, fv_blocked_by_layer = blocked_by,
           fv_layer_results = results, fv_total_risk_score = total_risk,
           fv_enforcement_action = (if allowed then u ''allow'' else u ''block'')\<rparr>
     in (Inr v, f\<lparr>fl_verdicts := fl_verdicts f @ [v]\<rparr>))"

definition LAYER_NAMES :: "(nat \<times> pystr) list" where
  "LAYER_NAMES = [(1, u ''audit_registry''), (2, u ''inline_proxy''), (3, u ''kernel_behavior''),
     (4, u ''semantic_intent''), (5, u ''network_egress'')]"

definition result_of :: "nat \<Rightarrow> bool \<Rightarrow> int \<Rightarrow> layer_finding list \<Rightarrow> layer_result" where
  "result_of layer passed risk findings =
     \<lparr>lr_layer = layer, lr_layer_name = dget_or LAYER_NAMES layer [], lr_passed = passed,
       lr_risk_score = risk, lr_findings = findings\<rparr>"

text \<open>Layers four and five, after the results and the risk so far.\<close>

definition last_layers :: "ucd \<Rightarrow> pystr \<Rightarrow> pydict \<Rightarrow> layer_result list \<Rightarrow> int \<Rightarrow> five_layer \<Rightarrow>
    (five_exn + five_verdict) \<times> five_layer" where
  "last_layers uc call_id tool_call results risk f =
    (let arguments = dget_or tool_call (u ''arguments'') (PDict []);
         server_id = dget_or tool_call (u ''server_id'') (PStr [])
     in case analyze_call uc arguments (fl_semantic f) of
          (Inl exc, sa) \<Rightarrow> (Inl (SemanticExn exc), f\<lparr>fl_semantic := sa\<rparr>)
        | (Inr (danger, sf), sa) \<Rightarrow>
            (let f4 = f\<lparr>fl_semantic := sa\<rparr>;
                 r4 = results @ [result_of 4 (\<not> danger) (max_severity sf) (map (SemanticReason \<circ> sf_description) sf)];
                 risk4 = max risk (max_severity sf)
             in if danger then give_verdict call_id False (Some 4) r4 risk4 f4
                else (case layer5 uc server_id arguments (fl_egress f4) of
                    (Inl exc, ep) \<Rightarrow> (Inl exc, f4\<lparr>fl_egress := ep\<rparr>)
                  | (Inr None, ep) \<Rightarrow>
                      give_verdict call_id True None (r4 @ [result_of 5 True 0 []]) risk4 (f4\<lparr>fl_egress := ep\<rparr>)
                  | (Inr (Some reason), ep) \<Rightarrow>
                      give_verdict call_id False (Some 5) (r4 @ [result_of 5 False 90 [EgressReason reason]])
                        (max risk4 90) (f4\<lparr>fl_egress := ep\<rparr>))))"

definition evaluate_call :: "ucd \<Rightarrow> (rat \<Rightarrow> pystr) \<Rightarrow> pystr \<Rightarrow> pystr \<Rightarrow> pydict \<Rightarrow> five_layer \<Rightarrow>
    (five_exn + five_verdict) \<times> five_layer" where
  "evaluate_call uc fr call_id proxy_call_id tool_call f =
    (let server_id = dget_or tool_call (u ''server_id'') (PStr []);
         arguments = dget_or tool_call (u ''arguments'') (PDict [])
     in case layer1_passed f server_id of
          Inl exc \<Rightarrow> (Inl exc, f)
        | Inr False \<Rightarrow>
            give_verdict call_id False (Some 1) [result_of 1 False 95 [UnregisteredServer server_id]] 95 f
        | Inr True \<Rightarrow>
            (case intercept uc proxy_call_id tool_call (fl_proxy f) of
               (Inl exc, prx) \<Rightarrow> (Inl (ProxyExn exc), f\<lparr>fl_proxy := prx\<rparr>)
             | (Inr pd, prx) \<Rightarrow>
                 (let f2 = f\<lparr>fl_proxy := prx\<rparr>;
                      passed = (pd_action pd = ActAllow \<or> pd_action pd = ActRedact);
                      r2 = [result_of 1 True 0 [],
                        result_of 2 passed (pd_risk_score pd) (map ProxyReason (pd_reasons pd))];
                      risk2 = max 0 (pd_risk_score pd)
                  in if \<not> passed then give_verdict call_id False (Some 2) r2 risk2 f2
                     else if \<not> layer3_passed fr arguments
                     then give_verdict call_id False (Some 3) (r2 @ [result_of 3 False 85 [SpawnIntent]])
                            (max risk2 85) f2
                     else last_layers uc call_id tool_call (r2 @ [result_of 3 True 0 []]) risk2 f2)))"

definition verdict_summary :: "five_verdict \<Rightarrow> pystr" where
  "verdict_summary v =
    (if fv_allowed v then u ''ALLOWED (risk='' @ show_int (fv_total_risk_score v) @ u '')''
     else u ''BLOCKED by Layer '' @ (case fv_blocked_by_layer v of None \<Rightarrow> u ''None'' | Some l \<Rightarrow> show_nat l) @
       u '' (risk='' @ show_int (fv_total_risk_score v) @ u '')'')"

definition evaluate_kernel_event :: "rat \<Rightarrow> syscall_event \<Rightarrow> five_layer \<Rightarrow>
    (layer_exn + kernel_alert list) \<times> five_layer" where
  "evaluate_kernel_event now event f =
    (case process_event now event (fl_kernel f) of (out, k) \<Rightarrow> (out, f\<lparr>fl_kernel := k\<rparr>))"

definition get_verdicts :: "int \<Rightarrow> five_layer \<Rightarrow> five_verdict list" where
  "get_verdicts n f = py_last n (fl_verdicts f)"

record five_stats =
  f5_total_calls :: nat
  f5_allowed :: nat
  f5_blocked :: nat
  f5_block_rate :: rat
  f5_blocks_by_layer :: "(nat \<times> nat) list"
  f5_proxy_stats :: proxy_stats2
  f5_egress_stats :: egress_stats

definition blocks_by_layer :: "five_verdict list \<Rightarrow> (nat \<times> nat) list" where
  "blocks_by_layer vs = foldl (\<lambda>d v. case fv_blocked_by_layer v of
       None \<Rightarrow> d | Some l \<Rightarrow> if l = 0 then d else bump l d) [(1, 0), (2, 0), (3, 0), (4, 0), (5, 0)] vs"

definition get_layer_stats :: "five_layer \<Rightarrow> five_stats" where
  "get_layer_stats f =
    (let n = length (fl_verdicts f); allowed = length (filter fv_allowed (fl_verdicts f))
     in \<lparr>f5_total_calls = n, f5_allowed = allowed, f5_blocked = n - allowed,
         f5_block_rate = percent (n - allowed) n, f5_blocks_by_layer = blocks_by_layer (fl_verdicts f),
         f5_proxy_stats = proxy_stats_of (fl_proxy f), f5_egress_stats = egress_stats_of (fl_egress f)\<rparr>)"

section \<open>The decision\<close>

text \<open>What the five layers must say to let a call through, and what the results of a verdict look like.\<close>

definition layers_agree :: "ucd \<Rightarrow> (rat \<Rightarrow> pystr) \<Rightarrow> pystr \<Rightarrow> pydict \<Rightarrow> five_layer \<Rightarrow> bool" where
  "layers_agree uc fr pid tool_call f \<longleftrightarrow>
    (let sid = dget_or tool_call (u ''server_id'') (PStr []);
         args = dget_or tool_call (u ''arguments'') (PDict [])
     in layer1_passed f sid = Inr True \<and>
        (\<exists>pd. fst (intercept uc pid tool_call (fl_proxy f)) = Inr pd \<and>
           pd_action pd \<in> {ActAllow, ActRedact}) \<and>
        layer3_passed fr args \<and>
        (\<exists>found. fst (analyze_call uc args (fl_semantic f)) = Inr (False, found)) \<and>
        fst (layer5 uc sid args (fl_egress f)) = Inr None)"

definition blames_last :: "five_verdict \<Rightarrow> bool" where
  "blames_last v \<longleftrightarrow>
    (let rs = fv_layer_results v
     in map lr_layer rs = take (length rs) [1, 2, 3, 4, 5] \<and>
        (if fv_allowed v then fv_blocked_by_layer v = None \<and> length rs = 5 \<and> list_all lr_passed rs
         else fv_blocked_by_layer v = Some (length rs) \<and> rs \<noteq> [] \<and>
           list_all lr_passed (butlast rs) \<and> \<not> lr_passed (last rs)))"

lemma give_verdict_eq:
  "give_verdict cid ok l rs risk f = (Inr v, f') \<longleftrightarrow>
     v = \<lparr>fv_call_id = cid, fv_allowed = ok, fv_blocked_by_layer = l, fv_layer_results = rs,
           fv_total_risk_score = risk,
           fv_enforcement_action = (if ok then u ''allow'' else u ''block'')\<rparr> \<and>
     f' = f\<lparr>fl_verdicts := fl_verdicts f @ [v]\<rparr>"
  by (auto simp: give_verdict_def Let_def)

lemma blames_first_failure:
  assumes "map lr_layer (rs @ [r]) = take (Suc (length rs)) [1, 2, 3, 4, 5]" "list_all lr_passed rs"
    and "\<not> lr_passed r" "give_verdict cid False (Some (Suc (length rs))) (rs @ [r]) risk f = (Inr v, f')"
  shows "\<not> fv_allowed v \<and> blames_last v \<and> fl_verdicts f' = fl_verdicts f @ [v]"
  using assms by (simp add: give_verdict_eq blames_last_def Let_def)

lemma blames_none:
  assumes "map lr_layer rs = [1, 2, 3, 4, 5]" "list_all lr_passed rs"
    and "give_verdict cid True None rs risk f = (Inr v, f')"
  shows "fv_allowed v \<and> blames_last v \<and> fl_verdicts f' = fl_verdicts f @ [v]"
proof -
  have "length rs = 5" using arg_cong [OF assms(1), of length] by simp
  with assms show ?thesis by (simp add: give_verdict_eq blames_last_def Let_def)
qed

lemma result_of_simps [simp]:
  "lr_layer (result_of l p r fs) = l" "lr_passed (result_of l p r fs) = p"
  by (simp_all add: result_of_def)

lemma last_layers_verdict:
  assumes ev: "last_layers uc cid call rs risk f = (Inr v, f')"
    and rs: "map lr_layer rs = [1, 2, 3]" "list_all lr_passed rs"
  shows "(fv_allowed v \<longleftrightarrow>
      (\<exists>found. fst (analyze_call uc (dget_or call (u ''arguments'') (PDict [])) (fl_semantic f)) =
         Inr (False, found)) \<and>
      fst (layer5 uc (dget_or call (u ''server_id'') (PStr [])) (dget_or call (u ''arguments'') (PDict []))
         (fl_egress f)) = Inr None) \<and>
    blames_last v \<and> fl_verdicts f' = fl_verdicts f @ [v]"
proof -
  let ?sid = "dget_or call (u ''server_id'') (PStr [])" and ?args = "dget_or call (u ''arguments'') (PDict [])"
  have n: "length rs = 3" using arg_cong [OF rs(1), of length] by simp
  obtain out sa where an: "analyze_call uc ?args (fl_semantic f) = (out, sa)" by fastforce
  then obtain danger sf where out: "out = Inr (danger, sf)"
    using ev by (cases out) (auto simp: last_layers_def Let_def)
  let ?r4 = "rs @ [result_of 4 (\<not> danger) (max_severity sf) (map (SemanticReason \<circ> sf_description) sf)]"
  let ?risk4 = "max risk (max_severity sf)" and ?f4 = "f\<lparr>fl_semantic := sa\<rparr>"
  show ?thesis
  proof (cases danger)
    case True
    have "give_verdict cid False (Some (Suc (length rs))) ?r4 ?risk4 ?f4 = (Inr v, f')"
      using ev an out True n by (simp add: last_layers_def Let_def)
    from blames_first_failure [OF _ rs(2) _ this] True an out rs n show ?thesis by simp
  next
    case False
    obtain o5 ep where l5: "layer5 uc ?sid ?args (fl_egress f) = (o5, ep)" by fastforce
    then obtain r where o5: "o5 = Inr r"
      using ev an out False by (cases o5) (auto simp: last_layers_def Let_def)
    show ?thesis
    proof (cases r)
      case None
      have "give_verdict cid True None (?r4 @ [result_of 5 True 0 []]) ?risk4 (?f4\<lparr>fl_egress := ep\<rparr>) = (Inr v, f')"
        using ev an out False l5 o5 None by (simp add: last_layers_def Let_def)
      from blames_none [OF _ _ this] False an out l5 o5 None rs show ?thesis by simp
    next
      case (Some reason)
      have "give_verdict cid False (Some (Suc (length ?r4))) (?r4 @ [result_of 5 False 90 [EgressReason reason]])
          (max ?risk4 90) (?f4\<lparr>fl_egress := ep\<rparr>) = (Inr v, f')"
        using ev an out False l5 o5 Some n by (simp add: last_layers_def Let_def)
      from blames_first_failure [OF _ _ _ this] False an out l5 o5 Some rs n show ?thesis by simp
    qed
  qed
qed

lemma evaluate_decides:
  assumes ev: "evaluate_call uc fr cid pid tool_call f = (Inr v, f')"
  shows "(fv_allowed v \<longleftrightarrow> layers_agree uc fr pid tool_call f) \<and> blames_last v \<and>
    fl_verdicts f' = fl_verdicts f @ [v]"
proof -
  let ?sid = "dget_or tool_call (u ''server_id'') (PStr [])"
  let ?args = "dget_or tool_call (u ''arguments'') (PDict [])"
  obtain ok where l1: "layer1_passed f ?sid = Inr ok"
    using ev by (cases "layer1_passed f ?sid") (auto simp: evaluate_call_def Let_def)
  show ?thesis
  proof (cases ok)
    case False
    have "give_verdict cid False (Some (Suc (length ([] :: layer_result list))))
        ([] @ [result_of 1 False 95 [UnregisteredServer ?sid]]) 95 f = (Inr v, f')"
      using ev l1 False by (simp add: evaluate_call_def Let_def)
    from blames_first_failure [OF _ _ _ this] l1 False show ?thesis by (simp add: layers_agree_def Let_def)
  next
    case True
    obtain out prx where ic: "intercept uc pid tool_call (fl_proxy f) = (out, prx)" by fastforce
    then obtain pd where out: "out = Inr pd"
      using ev l1 True by (cases out) (auto simp: evaluate_call_def Let_def)
    let ?passed = "pd_action pd = ActAllow \<or> pd_action pd = ActRedact" and ?f2 = "f\<lparr>fl_proxy := prx\<rparr>"
    let ?r2 = "[result_of 1 True 0 [],
          result_of 2 ?passed (pd_risk_score pd) (map ProxyReason (pd_reasons pd))]"
    consider "\<not> ?passed" | "?passed" "\<not> layer3_passed fr ?args" | "?passed" "layer3_passed fr ?args" by blast
    then show ?thesis
    proof cases
      case 1
      have "give_verdict cid False (Some (Suc (length [result_of 1 True 0 []])))
          ([result_of 1 True 0 []] @ [result_of 2 False (pd_risk_score pd) (map ProxyReason (pd_reasons pd))])
          (max 0 (pd_risk_score pd)) ?f2 = (Inr v, f')"
        using ev l1 True ic out 1 by (simp add: evaluate_call_def Let_def numeral_2_eq_2)
      from blames_first_failure [OF _ _ _ this] l1 True ic out 1 show ?thesis
        by (simp add: layers_agree_def Let_def)
    next
      case 2
      have "give_verdict cid False (Some (Suc (length ?r2))) (?r2 @ [result_of 3 False 85 [SpawnIntent]])
          (max (max 0 (pd_risk_score pd)) 85) ?f2 = (Inr v, f')"
        using ev l1 True ic out 2 by (simp add: evaluate_call_def Let_def numeral_3_eq_3)
      from blames_first_failure [OF _ _ _ this] l1 True ic out 2 show ?thesis
        by (simp add: layers_agree_def Let_def)
    next
      case 3
      have "last_layers uc cid tool_call (?r2 @ [result_of 3 True 0 []]) (max 0 (pd_risk_score pd)) ?f2 = (Inr v, f')"
        using ev l1 True ic out 3 by (simp add: evaluate_call_def Let_def)
      from last_layers_verdict [OF this] l1 True ic out 3 show ?thesis
        by (simp add: layers_agree_def Let_def)
    qed
  qed
qed

text \<open>
  C5: A call is allowed exactly when all five layers pass: the registry, the proxy with the action
  allow or redact, no spawn wording, no dangerous semantic finding, and no objection of the egress
  policy to its destination. A blocked call carries the results of the layers up to the one that
  objected, which alone failed.
\<close>

theorem five_layers_decide:
  assumes ev: "evaluate_call uc fr cid pid tool_call f = (Inr v, f')"
  shows "(fv_allowed v \<longleftrightarrow> layers_agree uc fr pid tool_call f) \<and> blames_last v \<and>
    fl_verdicts f' = fl_verdicts f @ [v]"
  by (rule evaluate_decides [OF ev])

text \<open>A call without arguments through an empty stack.\<close>

definition sample_stack :: five_layer where
  "sample_stack = make_five_layer (make_inline_proxy None 50 30 ActBlock) make_kernel_monitor
     (make_semantic_analyzer (7 / 10)) (make_egress_policy True) {u ''s''}"

lemma sample_evaluates: "\<exists>v f'. evaluate_call plain_ucd (\<lambda>q. []) [] [] [] sample_stack = (Inr v, f')"
  by (simp add: evaluate_call_def sample_stack_def make_five_layer_def layer1_passed_def intercept_def
      check_rules_def make_inline_proxy_def threshold_action_def layer3_passed_def arg_blob_def
      SPAWN_TOKENS_def u_def contains_def last_layers_def analyze_call_def check_field_semantics_def
      check_synonyms_def check_exfil_def check_encoding_def check_multi_field_def significant_def
      dangerous_def layer5_def give_verdict_def dget_or_def Let_def List.map_filter_def)

lemma five_layers_decide_witness:
  "\<exists>v f'. evaluate_call plain_ucd (\<lambda>q. []) [] [] [] sample_stack = (Inr v, f') \<and>
     (fv_allowed v \<longleftrightarrow> layers_agree plain_ucd (\<lambda>q. []) [] [] sample_stack) \<and> blames_last v \<and>
     fl_verdicts f' = fl_verdicts sample_stack @ [v]"
proof -
  obtain v f' where ev: "evaluate_call plain_ucd (\<lambda>q. []) [] [] [] sample_stack = (Inr v, f')"
    using sample_evaluates by blast
  show ?thesis by (intro exI [of _ v] exI [of _ f'] conjI) (use ev five_layers_decide [OF ev] in blast)+
qed

text \<open>A failing layer stops the call without a verdict: nothing is let through by an exception.\<close>

lemma give_verdict_Inr [simp]: "fst (give_verdict cid ok l rs risk f) \<noteq> Inl exc"
  by (simp add: give_verdict_def Let_def)

lemma exception_leaves_no_verdict:
  assumes "fst (evaluate_call uc fr cid pid tool_call f) = Inl exc"
  shows "fl_verdicts (snd (evaluate_call uc fr cid pid tool_call f)) = fl_verdicts f"
  using assms
  by (auto simp: evaluate_call_def last_layers_def Let_def
      split: sum.splits prod.splits bool.splits if_splits option.splits)

section \<open>Statistics\<close>

lemma blocks_by_layer_snoc:
  "blocks_by_layer (vs @ [v]) = (case fv_blocked_by_layer v of
       None \<Rightarrow> blocks_by_layer vs | Some l \<Rightarrow> if l = 0 then blocks_by_layer vs else bump l (blocks_by_layer vs))"
  by (simp only: blocks_by_layer_def foldl_append foldl.simps)

lemma blocks_by_layer_count:
  "l \<noteq> 0 \<Longrightarrow> dget_or (blocks_by_layer vs) l 0 = length (filter (\<lambda>v. fv_blocked_by_layer v = Some l) vs)"
proof (induction vs rule: rev_induct)
  case Nil
  then show ?case by (simp add: blocks_by_layer_def dget_or_def)
next
  case (snoc v vs)
  then show ?case
    by (auto simp: blocks_by_layer_snoc bump_def dget_or_def split: option.splits if_splits)
qed

section \<open>Gaps\<close>

text \<open>A call that names no server passes the registry.\<close>

lemma anonymous_call_is_registered: "layer1_passed f (PStr []) = Inr True"
  by (simp add: layer1_passed_def)

text \<open>The destination is the whole URL, so a domain on the block list is reached through its URL.\<close>

lemma url_escapes_block_list:
  "egress_evaluate plain_ucd (PStr (u ''mailer'')) (PStr (u ''https://giftshop.club/'')) (PInt 443) 0
     (add_egress_rule block_rule (make_egress_policy True)) = (Inr d, p) \<Longrightarrow> gd_allowed d"
  using mail_search [of plain_ucd]
  by (auto simp: egress_evaluate_def make_egress_policy_def add_egress_rule_def rule_matches_def
      block_rule_def apply_rule_def Let_def)

end
