(* ===== verification/ToolInvariants.thy ===== *)
theory ToolInvariants
  imports InjectionDetector PyValues JsonDump
begin

text \<open>
  \<open>advanced/invariants.py\<close>: declarative invariants on the arguments and outputs of tools. The kind
  of an invariant comes with the value it reads: a regular expression with its inline flag, a set
  of strings, a length, or a predicate. What a violation expected is a constructor.
\<close>

section \<open>Invariants\<close>

datatype invariant_type =
    FIELD_ABSENT
  | FIELD_PRESENT
  | VALUE_MATCHES bool rx
  | VALUE_NOT_MATCHES bool rx
  | VALUE_IN_SET "pystr set"
  | VALUE_NOT_IN_SET "pystr set"
  | MAX_LENGTH int
  | CUSTOM "(pydict \<Rightarrow> bool) option"

record tool_invariant =
  iv_name :: pystr
  iv_description :: pystr
  iv_type :: invariant_type
  iv_tool_pattern :: rx
  iv_field_path :: pystr
  iv_severity :: int
  iv_applies_to :: pystr

datatype expectation =
    MustNotExist pystr
  | MustExist pystr
  | MustMatch bool rx
  | MustNotMatch bool rx
  | MustBeOneOf "pystr set"
  | MustNotBeOneOf "pystr set"
  | MaximumLength int
  | PredicateTrue

record violation =
  vi_invariant_name :: pystr
  vi_description :: pystr
  vi_severity :: int
  vi_tool_name :: pystr
  vi_field_path :: pystr
  vi_actual_value :: pyval
  vi_expected :: expectation

datatype invariant_exn = UnhashableValue

definition words_rx :: "string list \<Rightarrow> rx" where
  "words_rx ws = alts (map lit ws)"

definition BUILTIN_INVARIANTS :: "tool_invariant list" where
  "BUILTIN_INVARIANTS = [
     \<lparr>iv_name = u ''no_bcc_in_email'',
      iv_description = u ''Email tools must NEVER have a BCC field (Postmark attack prevention)'',
      iv_type = FIELD_ABSENT,
      iv_tool_pattern = words_rx [''email'', ''mail'', ''send'', ''postmark'', ''smtp'', ''sendgrid''],
      iv_field_path = u ''bcc'', iv_severity = 95, iv_applies_to = u ''both''\<rparr>,
     \<lparr>iv_name = u ''no_hidden_recipients'',
      iv_description = u ''No hidden/blind recipients in any communication tool'',
      iv_type = FIELD_ABSENT,
      iv_tool_pattern = words_rx [''email'', ''mail'', ''send'', ''message'', ''chat''],
      iv_field_path = u ''hidden_recipients'', iv_severity = 90, iv_applies_to = u ''both''\<rparr>,
     \<lparr>iv_name = u ''no_sql_drop'',
      iv_description = u ''Database tools must not contain DROP statements'',
      iv_type = VALUE_NOT_MATCHES True (seqs [WordB, alts [lit ''DROP'', lit ''TRUNCATE'',
        seqs [lit ''DELETE'', plus1 sp, lit ''FROM'']], WordB]),
      iv_tool_pattern = words_rx [''db'', ''database'', ''sql'', ''query'', ''postgres'', ''mysql''],
      iv_field_path = u ''query'', iv_severity = 95, iv_applies_to = u ''arguments''\<rparr>,
     \<lparr>iv_name = u ''no_raw_ip_urls'',
      iv_description = u ''Tools must not use raw IP addresses as URLs'',
      iv_type = VALUE_NOT_MATCHES False (seqs [lit ''http'', opt (lit ''s''), lit ''://'',
        upto 1 3 digit_cls, lit ''.'', upto 1 3 digit_cls, lit ''.'', upto 1 3 digit_cls, lit ''.'',
        upto 1 3 digit_cls]),
      iv_tool_pattern = star dot,
      iv_field_path = u ''url'', iv_severity = 70, iv_applies_to = u ''both''\<rparr>,
     \<lparr>iv_name = u ''no_shell_execution'',
      iv_description = u ''No shell command execution via tool arguments'',
      iv_type = VALUE_NOT_MATCHES False (seqs [alts [lit '';'', lit ''|'', lit ''$('', chr 96], star dot,
        alts [lit ''rm'', lit ''curl'', lit ''wget'', lit ''nc'', lit ''bash'', seqs [lit ''sh'', sp]]]),
      iv_tool_pattern = star dot,
      iv_field_path = u ''command'', iv_severity = 95, iv_applies_to = u ''arguments''\<rparr>]"

definition make_enforcer :: "bool \<Rightarrow> tool_invariant list" where
  "make_enforcer include_builtins = (if include_builtins then BUILTIN_INVARIANTS else [])"

definition add_invariants :: "tool_invariant list \<Rightarrow> tool_invariant list \<Rightarrow> tool_invariant list" where
  "add_invariants ivs enforcer = enforcer @ ivs"

section \<open>Evaluation\<close>

definition resolve_path :: "pydict \<Rightarrow> pystr \<Rightarrow> pyval option" where
  "resolve_path data path =
    (if path = [] then Some (PDict data) else resolve_parts (split_on 46 path) (PDict data))"

definition violates :: "tool_invariant \<Rightarrow> pystr \<Rightarrow> pyval \<Rightarrow> expectation \<Rightarrow> violation" where
  "violates iv tool_name actual expected =
     \<lparr>vi_invariant_name = iv_name iv, vi_description = iv_description iv,
      vi_severity = iv_severity iv, vi_tool_name = tool_name,
      vi_field_path = (case iv_type iv of CUSTOM _ \<Rightarrow> u ''<custom>'' | _ \<Rightarrow> iv_field_path iv),
      vi_actual_value = actual, vi_expected = expected\<rparr>"

definition evaluate_invariant :: "ucd \<Rightarrow> tool_invariant \<Rightarrow> pystr \<Rightarrow> pydict \<Rightarrow>
    invariant_exn + violation option" where
  "evaluate_invariant uc iv tool_name data =
    (let path = iv_field_path iv; found = resolve_path data path;
         bad = (\<lambda>actual expected. Inr (Some (violates iv tool_name actual expected)))
     in case iv_type iv of
       CUSTOM p \<Rightarrow>
         (case p of
            Some predicate \<Rightarrow> if \<not> predicate data then bad PNone PredicateTrue else Inr None
          | None \<Rightarrow> Inr None)
     | FIELD_ABSENT \<Rightarrow>
         (case found of
            Some v \<Rightarrow> if truthy v then bad v (MustNotExist path) else Inr None
          | None \<Rightarrow> Inr None)
     | FIELD_PRESENT \<Rightarrow> (case found of None \<Rightarrow> bad PNone (MustExist path) | Some v \<Rightarrow> Inr None)
     | VALUE_MATCHES ic r \<Rightarrow>
         (case found of
            Some (PStr s) \<Rightarrow> if \<not> rx_search (env_of uc ic) r s then bad (PStr s) (MustMatch ic r) else Inr None
          | _ \<Rightarrow> Inr None)
     | VALUE_NOT_MATCHES ic r \<Rightarrow>
         (case found of
            Some (PStr s) \<Rightarrow>
              if rx_search (env_of uc ic) r s then bad (PStr (take 100 s)) (MustNotMatch ic r) else Inr None
          | _ \<Rightarrow> Inr None)
     | VALUE_IN_SET S \<Rightarrow>
         (case found of
            Some v \<Rightarrow> if \<not> hashable v then Inl UnhashableValue
                      else if \<not> in_strs v S then bad v (MustBeOneOf S) else Inr None
          | None \<Rightarrow> Inr None)
     | VALUE_NOT_IN_SET S \<Rightarrow>
         (case found of
            Some v \<Rightarrow> if \<not> hashable v then Inl UnhashableValue
                      else if in_strs v S then bad v (MustNotBeOneOf S) else Inr None
          | None \<Rightarrow> Inr None)
     | MAX_LENGTH n \<Rightarrow>
         (case found of
            Some (PStr s) \<Rightarrow>
              if int (length s) > n then bad (PStr (u ''length='' @ show_nat (length s))) (MaximumLength n)
              else Inr None
          | _ \<Rightarrow> Inr None))"

definition applies :: "ucd \<Rightarrow> pystr \<Rightarrow> pystr \<Rightarrow> tool_invariant \<Rightarrow> bool" where
  "applies uc side tool_name iv \<longleftrightarrow>
     (iv_applies_to iv = side \<or> iv_applies_to iv = u ''both'') \<and>
     rx_search (env_of uc True) (iv_tool_pattern iv) tool_name"

fun check_side :: "ucd \<Rightarrow> pystr \<Rightarrow> pystr \<Rightarrow> pydict \<Rightarrow> tool_invariant list \<Rightarrow>
    invariant_exn + violation list" where
  "check_side uc side tool_name data [] = Inr []"
| "check_side uc side tool_name data (iv # invs) =
    (if \<not> applies uc side tool_name iv then check_side uc side tool_name data invs
     else rbind (evaluate_invariant uc iv tool_name data) (\<lambda>v.
       rbind (check_side uc side tool_name data invs) (\<lambda>vs.
         Inr (case v of None \<Rightarrow> vs | Some x \<Rightarrow> x # vs))))"

definition check_call :: "ucd \<Rightarrow> tool_invariant list \<Rightarrow> pystr \<Rightarrow> pydict \<Rightarrow>
    invariant_exn + bool \<times> violation list" where
  "check_call uc invs tool_name arguments =
     rbind (check_side uc (u ''arguments'') tool_name arguments invs) (\<lambda>vs. Inr (vs = [], vs))"

definition check_output :: "ucd \<Rightarrow> tool_invariant list \<Rightarrow> pystr \<Rightarrow> pydict \<Rightarrow>
    invariant_exn + bool \<times> violation list" where
  "check_output uc invs tool_name outp =
     rbind (check_side uc (u ''output'') tool_name outp invs) (\<lambda>vs. Inr (vs = [], vs))"

section \<open>What passes\<close>

text \<open>The meaning of an invariant on the value at its path.\<close>

definition value_ok :: "ucd \<Rightarrow> invariant_type \<Rightarrow> pyval option \<Rightarrow> bool" where
  "value_ok uc t found \<longleftrightarrow>
    (case t of
       FIELD_ABSENT \<Rightarrow> \<not> (\<exists>v. found = Some v \<and> truthy v)
     | FIELD_PRESENT \<Rightarrow> found \<noteq> None
     | VALUE_MATCHES ic r \<Rightarrow> \<forall>s. found = Some (PStr s) \<longrightarrow> rx_search (env_of uc ic) r s
     | VALUE_NOT_MATCHES ic r \<Rightarrow> \<forall>s. found = Some (PStr s) \<longrightarrow> \<not> rx_search (env_of uc ic) r s
     | VALUE_IN_SET S \<Rightarrow> found = None \<or> (\<exists>s \<in> S. found = Some (PStr s))
     | VALUE_NOT_IN_SET S \<Rightarrow> found = None \<or> (\<exists>v. found = Some v \<and> hashable v \<and> \<not> (\<exists>s \<in> S. v = PStr s))
     | MAX_LENGTH n \<Rightarrow> \<forall>s. found = Some (PStr s) \<longrightarrow> int (length s) \<le> n
     | CUSTOM p \<Rightarrow> True)"

definition invariant_holds :: "ucd \<Rightarrow> pydict \<Rightarrow> tool_invariant \<Rightarrow> bool" where
  "invariant_holds uc data iv \<longleftrightarrow>
     value_ok uc (iv_type iv) (resolve_path data (iv_field_path iv)) \<and>
     (\<forall>predicate. iv_type iv = CUSTOM (Some predicate) \<longrightarrow> predicate data)"

lemma in_strs_iff: "in_strs v S \<longleftrightarrow> (\<exists>s \<in> S. v = PStr s)"
  by (cases v) auto

lemma evaluate_None_iff:
  "evaluate_invariant uc iv tool_name data = Inr None \<longleftrightarrow> invariant_holds uc data iv"
  by (auto simp: evaluate_invariant_def invariant_holds_def value_ok_def in_strs_iff Let_def
      split: invariant_type.splits option.splits pyval.splits if_splits)

lemma check_side_Nil_iff:
  "check_side uc side tool_name data ivs = Inr [] \<longleftrightarrow>
     (\<forall>iv \<in> set ivs. applies uc side tool_name iv \<longrightarrow> invariant_holds uc data iv)"
proof (induction ivs)
  case (Cons iv ivs)
  show ?case
  proof (cases "applies uc side tool_name iv")
    case True
    have "check_side uc side tool_name data (iv # ivs) = Inr [] \<longleftrightarrow>
        evaluate_invariant uc iv tool_name data = Inr None \<and> check_side uc side tool_name data ivs = Inr []"
      using True by (auto split: option.splits)
    with True Cons show ?thesis by (simp add: evaluate_None_iff del: check_side.simps)
  next
    case False
    with Cons show ?thesis by simp
  qed
qed simp

text \<open>
  A call passes exactly when every invariant that applies to its tool and to arguments holds of
  them; a value that cannot be looked up in the set of an invariant fails it with an exception.
\<close>

theorem call_passes_iff:
  "check_call uc ivs tool_name arguments = Inr (True, vs) \<longleftrightarrow>
     vs = [] \<and> (\<forall>iv \<in> set ivs. applies uc (u ''arguments'') tool_name iv \<longrightarrow> invariant_holds uc arguments iv)"
  unfolding check_call_def check_side_Nil_iff [symmetric]
  by (auto simp: rbind_eq_Inr)

section \<open>The built-in policies\<close>

lemma word_in_alts: "w \<in> set ws \<Longrightarrow> consumes env (lit w) v \<Longrightarrow> consumes env (words_rx ws) v"
  unfolding words_rx_def
proof (induction ws)
  case (Cons x ws)
  then show ?case by (cases ws) (auto intro: consumes_Alt)
qed simp

lemma u_ascii: "list_all (\<lambda>c. of_char c < (128 :: nat)) w \<Longrightarrow> list_all (\<lambda>k. k < 128) (u w)"
  by (simp add: u_def list_all_iff)

lemma mail_word_search:
  assumes "py_lower w = u v" "v \<in> set ws" "list_all (\<lambda>c. of_char c < (128 :: nat)) v"
  shows "rx_search (env_of uc True) (words_rx ws) (a @ w @ b)"
  by (rule consumes_search, rule word_in_alts [OF assms(2)])
    (auto simp: lit_def env_of_def intro!: consumes_word assms(1) u_ascii assms(3))

text \<open>
  With the built-in invariants, a tool whose name contains \<open>mail\<close> or \<open>send\<close> in any case never passes
  with a blind copy or hidden recipients at the top of its arguments, whatever further invariants
  are configured.
\<close>

theorem mail_calls_have_no_bcc:
  assumes "check_call uc (add_invariants extra (make_enforcer True)) tool_name arguments = Inr (True, vs)"
    and "tool_name = a @ w @ b" "py_lower w \<in> {u ''mail'', u ''send''}"
    and "key \<in> {u ''bcc'', u ''hidden_recipients''}"
  shows "\<not> truthy (dget_or arguments key PNone)"
proof -
  let ?iv = "\<lambda>n. BUILTIN_INVARIANTS ! n"
  obtain v where v: "py_lower w = u v" "v = ''mail'' \<or> v = ''send''" using assms(3) by auto
  have ascii: "list_all (\<lambda>c. of_char c < (128 :: nat)) v" using v(2) by auto
  have parts: "split_on 46 (u ''bcc'') = [u ''bcc'']"
    "split_on 46 (u ''hidden_recipients'') = [u ''hidden_recipients'']"
    by (simp_all add: u_def)
  have app: "applies uc (u ''arguments'') tool_name (?iv 0)" "applies uc (u ''arguments'') tool_name (?iv 1)"
    using mail_word_search [OF v(1) _ ascii, of "[''email'', ''mail'', ''send'', ''postmark'', ''smtp'', ''sendgrid'']" uc a b]
      mail_word_search [OF v(1) _ ascii, of "[''email'', ''mail'', ''send'', ''message'', ''chat'']" uc a b] v(2)
    by (auto simp: applies_def BUILTIN_INVARIANTS_def assms(2))
  have "?iv 0 \<in> set (add_invariants extra (make_enforcer True))"
    "?iv 1 \<in> set (add_invariants extra (make_enforcer True))"
    by (simp_all add: add_invariants_def make_enforcer_def BUILTIN_INVARIANTS_def)
  with assms(1) app have "invariant_holds uc arguments (?iv 0)" "invariant_holds uc arguments (?iv 1)"
    unfolding call_passes_iff by blast+
  with parts assms(4) show ?thesis
    by (auto simp: invariant_holds_def value_ok_def BUILTIN_INVARIANTS_def resolve_path_def dget_or_def
        split: option.splits)
qed

lemma resolve_empty: "path \<noteq> [] \<Longrightarrow> resolve_path [] path = None"
  by (cases "split_on 46 path") (auto simp: resolve_path_def)

lemma builtins_hold_of_nothing: "iv \<in> set BUILTIN_INVARIANTS \<Longrightarrow> invariant_holds uc [] iv"
  by (auto simp: BUILTIN_INVARIANTS_def invariant_holds_def value_ok_def resolve_empty)

lemma mail_calls_have_no_bcc_witness:
  "check_call \<lparr>ucd_nfkc = id, ucd_printable = (\<lambda>c. True), ucd_word = (\<lambda>c. False)\<rparr>
      (add_invariants [] (make_enforcer True)) (u ''Mail'') [] = Inr (True, []) \<and>
   \<not> truthy (dget_or [] (u ''bcc'') PNone)"
proof -
  let ?uc = "\<lparr>ucd_nfkc = id, ucd_printable = (\<lambda>c. True), ucd_word = (\<lambda>c. False)\<rparr> :: ucd"
  have ok: "check_call ?uc (add_invariants [] (make_enforcer True)) (u ''Mail'') [] = Inr (True, [])"
    unfolding call_passes_iff by (auto simp: add_invariants_def make_enforcer_def builtins_hold_of_nothing)
  have name: "u ''Mail'' = [] @ u ''Mail'' @ []" "py_lower (u ''Mail'') \<in> {u ''mail'', u ''send''}"
    by (simp_all add: py_lower_def lower_cp_def u_def)
  have "u ''bcc'' \<in> {u ''bcc'', u ''hidden_recipients''}" by simp
  from mail_calls_have_no_bcc [OF ok name this] ok show ?thesis by blast
qed

text \<open>The policy looks at one place and one spelling: a blind copy in a nested message, or written
  \<open>Bcc\<close>, holds of all built-in invariants.\<close>

lemma nested_bcc_passes:
  "iv \<in> set BUILTIN_INVARIANTS \<Longrightarrow>
     invariant_holds uc [(u ''message'', PDict [(u ''bcc'', PStr x)]), (u ''Bcc'', PStr y)] iv"
  by (auto simp: BUILTIN_INVARIANTS_def invariant_holds_def value_ok_def resolve_path_def u_def)

end
