(* ===== verification/ToolManifest.thy ===== *)
theory ToolManifest
  imports JsonDump PyValues
begin

text \<open>
  \<open>advanced/manifest.py\<close>: signed tool manifests and their verification against approved baselines.
  HMAC-SHA-256 (\<open>hm\<close>) and \<open>float.__repr__\<close> (\<open>fr\<close>) are parameters, keys are the encoded bytes. The
  canonical text is ASCII (\<open>ensure_ascii\<close>), so its bytes are its characters. Modified parameters
  come from a Python set; the model lists them in the order of the live manifest.
\<close>

section \<open>Manifests\<close>

record tool_manifest =
  tm_server_id :: pystr
  tm_tool_name :: pystr
  tm_description :: pystr
  tm_parameters :: pydict
  tm_capabilities :: "pystr list"
  tm_version :: pystr
  tm_signed_at :: rat
  tm_signature :: pystr

definition manifest_items :: "tool_manifest \<Rightarrow> pydict" where
  "manifest_items m = [
     (u ''server_id'', PStr (tm_server_id m)),
     (u ''tool_name'', PStr (tm_tool_name m)),
     (u ''description'', PStr (tm_description m)),
     (u ''parameters'', PDict (tm_parameters m)),
     (u ''capabilities'', PList (map PStr (sort (tm_capabilities m)))),
     (u ''version'', PStr (tm_version m))]"

definition canonical_manifest :: "tool_manifest \<Rightarrow> pyval" where
  "canonical_manifest m = PDict (manifest_items m)"

definition canonical_bytes :: "(rat \<Rightarrow> pystr) \<Rightarrow> tool_manifest \<Rightarrow> pybytes" where
  "canonical_bytes fr m = dumps fr canonical_style (canonical_manifest m)"

section \<open>Signing\<close>

type_synonym mac = "pybytes \<Rightarrow> pybytes \<Rightarrow> pystr"

definition compute_signature :: "mac \<Rightarrow> (rat \<Rightarrow> pystr) \<Rightarrow> pybytes \<Rightarrow> tool_manifest \<Rightarrow> pystr" where
  "compute_signature hm fr key m = hm key (canonical_bytes fr m)"

definition sign_manifest :: "mac \<Rightarrow> (rat \<Rightarrow> pystr) \<Rightarrow> pybytes \<Rightarrow> rat \<Rightarrow> tool_manifest \<Rightarrow> tool_manifest" where
  "sign_manifest hm fr key now m =
    (let m1 = m\<lparr>tm_signed_at := now\<rparr>
     in m1\<lparr>tm_signature := hm key (canonical_bytes fr m1)\<rparr>)"

definition verify_signature :: "mac \<Rightarrow> (rat \<Rightarrow> pystr) \<Rightarrow> pybytes \<Rightarrow> tool_manifest \<Rightarrow> bool" where
  "verify_signature hm fr key m \<longleftrightarrow> tm_signature m = hm key (canonical_bytes fr m)"

section \<open>Verification against the baseline\<close>

datatype manifest_violation =
    NoBaseline pystr
  | BaselineTampered
  | DescriptionDrift pystr pystr
  | ParamsAdded "pystr list"
  | ParamsRemoved "pystr list"
  | ParamModified pystr
  | NewCapabilities "pystr list"
  | LostCapabilities "pystr list"

record manifest_verifier =
  mv_key :: pybytes
  mv_baselines :: "(pystr \<times> tool_manifest) list"

definition make_verifier :: "pybytes \<Rightarrow> manifest_verifier" where
  "make_verifier key = \<lparr>mv_key = key, mv_baselines = []\<rparr>"

definition manifest_key :: "tool_manifest \<Rightarrow> pystr" where
  "manifest_key m = tm_server_id m @ u ''::'' @ tm_tool_name m"

definition register_baseline :: "tool_manifest \<Rightarrow> manifest_verifier \<Rightarrow> manifest_verifier" where
  "register_baseline m v = v\<lparr>mv_baselines := dset (manifest_key m) m (mv_baselines v)\<rparr>"

definition keys_minus :: "pydict \<Rightarrow> pydict \<Rightarrow> pystr list" where
  "keys_minus d e = sort (filter (\<lambda>k. \<not> has_key e k) (map fst d))"

definition param_violations :: "pydict \<Rightarrow> pydict \<Rightarrow> manifest_violation list" where
  "param_violations live base =
    (if py_eq (PDict live) (PDict base) then []
     else (let added = keys_minus live base; removed = keys_minus base live
           in (if added \<noteq> [] then [ParamsAdded added] else []) @
              (if removed \<noteq> [] then [ParamsRemoved removed] else []) @
              map (\<lambda>(k, v). ParamModified k)
                (filter (\<lambda>(k, v). case dget base k of None \<Rightarrow> False | Some w \<Rightarrow> \<not> py_eq v w) live)))"

definition capability_violations :: "pystr list \<Rightarrow> pystr list \<Rightarrow> manifest_violation list" where
  "capability_violations live base =
    (if sort live = sort base then []
     else (let fresh = sorted_list_of_set (set live - set base);
               lost = sorted_list_of_set (set base - set live)
           in (if fresh \<noteq> [] then [NewCapabilities fresh] else []) @
              (if lost \<noteq> [] then [LostCapabilities lost] else [])))"

definition verify_manifest :: "mac \<Rightarrow> (rat \<Rightarrow> pystr) \<Rightarrow> manifest_verifier \<Rightarrow> tool_manifest \<Rightarrow>
    bool \<times> manifest_violation list" where
  "verify_manifest hm fr v live =
    (case dget (mv_baselines v) (manifest_key live) of
       None \<Rightarrow> (False, [NoBaseline (manifest_key live)])
     | Some base \<Rightarrow>
         (let violations =
            (if tm_signature base \<noteq> hm (mv_key v) (canonical_bytes fr base) then [BaselineTampered] else []) @
            (if tm_description live \<noteq> tm_description base
             then [DescriptionDrift (take 50 (tm_description base)) (take 50 (tm_description live))] else []) @
            param_violations (tm_parameters live) (tm_parameters base) @
            capability_violations (tm_capabilities live) (tm_capabilities base)
          in (violations = [], violations)))"

section \<open>What passes\<close>

lemma keys_minus_empty: "keys_minus d e = [] \<longleftrightarrow> fst ` set d \<subseteq> fst ` set e"
proof -
  have "keys_minus d e = [] \<longleftrightarrow> (\<forall>k \<in> fst ` set d. has_key e k)"
    by (metis (mono_tags, lifting) filter_empty_conv keys_minus_def list.set_map set_empty2 set_sort)
  then show ?thesis by (auto simp: has_key_iff)
qed

lemma param_violations_iff:
  assumes "distinct (map fst live)" "distinct (map fst base)"
  shows "param_violations live base = [] \<longleftrightarrow> py_eq (PDict live) (PDict base)"
proof
  assume none: "param_violations live base = []"
  show "py_eq (PDict live) (PDict base)"
  proof (rule ccontr)
    assume neq: "\<not> py_eq (PDict live) (PDict base)"
    with none have "keys_minus live base = []" "keys_minus base live = []"
      and same: "\<forall>(k, v) \<in> set live. case dget base k of None \<Rightarrow> True | Some w \<Rightarrow> py_eq v w"
      by (auto simp: param_violations_def Let_def filter_empty_conv simp del: py_eq.simps
          split: if_splits option.splits)
    then have "fst ` set live = fst ` set base" by (simp add: keys_minus_empty)
    moreover have "py_eq v w" if "dget live k = Some v" "dget base k = Some w" for k v w
      using same dget_Some_in [OF that(1)] that(2) by fastforce
    ultimately show False using neq unfolding py_eq_dict_iff [OF assms] by blast
  qed
qed (simp add: param_violations_def)

lemma capability_violations_iff: "capability_violations live base = [] \<longleftrightarrow> set live = set base"
proof -
  have "set live = set base" if "sort live = sort base" using that by (metis set_sort)
  then show ?thesis
    by (auto simp: capability_violations_def Let_def sorted_list_of_set_eq_Nil_iff)
qed

text \<open>
  C36: A live manifest passes exactly when its server and tool have an approved baseline whose stored
  signature is genuine, and its description, parameters (by value) and set of capabilities are
  those of the baseline.
\<close>

theorem verify_manifest_iff:
  assumes "distinct (map fst (tm_parameters live))"
    and "\<forall>base \<in> snd ` set (mv_baselines v). distinct (map fst (tm_parameters base))"
  shows "fst (verify_manifest hm fr v live) \<longleftrightarrow>
    (\<exists>base. dget (mv_baselines v) (manifest_key live) = Some base \<and>
       verify_signature hm fr (mv_key v) base \<and>
       tm_description live = tm_description base \<and>
       py_eq (PDict (tm_parameters live)) (PDict (tm_parameters base)) \<and>
       set (tm_capabilities live) = set (tm_capabilities base))"
proof (cases "dget (mv_baselines v) (manifest_key live)")
  case None
  then show ?thesis by (simp add: verify_manifest_def)
next
  case (Some base)
  have "distinct (map fst (tm_parameters base))"
    using bspec [OF assms(2) imageI [OF dget_Some_in [OF Some]]] by simp
  from param_violations_iff [OF assms(1) this] Some show ?thesis
    by (simp add: verify_manifest_def Let_def verify_signature_def capability_violations_iff
        del: py_eq.simps)
qed

definition sample_manifest :: tool_manifest where
  "sample_manifest = \<lparr>tm_server_id = u ''s'', tm_tool_name = u ''t'', tm_description = u ''d'',
     tm_parameters = [(u ''to'', PStr (u ''string''))], tm_capabilities = [u ''send''],
     tm_version = u ''1.0.15'', tm_signed_at = 0, tm_signature = []\<rparr>"

definition sample_verifier :: "mac \<Rightarrow> (rat \<Rightarrow> pystr) \<Rightarrow> manifest_verifier" where
  "sample_verifier hm fr =
     register_baseline (sign_manifest hm fr [107] 1 sample_manifest) (make_verifier [107])"

lemma verify_manifest_iff_witness:
  "fst (verify_manifest (\<lambda>k m. m) (\<lambda>q. []) (sample_verifier (\<lambda>k m. m) (\<lambda>q. [])) sample_manifest) \<longleftrightarrow>
    (\<exists>base. dget (mv_baselines (sample_verifier (\<lambda>k m. m) (\<lambda>q. []))) (manifest_key sample_manifest) = Some base \<and>
       verify_signature (\<lambda>k m. m) (\<lambda>q. []) (mv_key (sample_verifier (\<lambda>k m. m) (\<lambda>q. []))) base \<and>
       tm_description sample_manifest = tm_description base \<and>
       py_eq (PDict (tm_parameters sample_manifest)) (PDict (tm_parameters base)) \<and>
       set (tm_capabilities sample_manifest) = set (tm_capabilities base))"
  by (rule verify_manifest_iff)
    (simp_all add: sample_manifest_def sample_verifier_def make_verifier_def register_baseline_def
      sign_manifest_def Let_def)

text \<open>Signing and then verifying with the same key succeeds, and so does the verification of the
  manifest just approved.\<close>

lemma canonical_signed [simp]:
  "canonical_bytes fr (m\<lparr>tm_signature := s\<rparr>) = canonical_bytes fr m"
  "canonical_bytes fr (m\<lparr>tm_signed_at := t\<rparr>) = canonical_bytes fr m"
  by (simp_all add: canonical_bytes_def canonical_manifest_def manifest_items_def)

lemma signed_verifies: "verify_signature hm fr key (sign_manifest hm fr key now m)"
  by (simp add: verify_signature_def sign_manifest_def Let_def)

lemma approved_passes:
  assumes "comparable (PDict (tm_parameters m))"
  shows "verify_manifest hm fr (register_baseline (sign_manifest hm fr (mv_key v) now m) v) m = (True, [])"
proof -
  let ?b = "sign_manifest hm fr (mv_key v) now m"
  have b: "manifest_key ?b = manifest_key m" "tm_description ?b = tm_description m"
    "tm_parameters ?b = tm_parameters m" "tm_capabilities ?b = tm_capabilities m"
    by (simp_all add: sign_manifest_def manifest_key_def Let_def)
  have "tm_signature ?b = hm (mv_key v) (canonical_bytes fr ?b)"
    using signed_verifies by (simp add: verify_signature_def)
  then show ?thesis
    using py_eq_refl [OF assms]
    by (simp add: verify_manifest_def register_baseline_def b param_violations_def
        capability_violations_def del: py_eq.simps)
qed

section \<open>What a signature binds\<close>

lemma sort_keys_items:
  "\<exists>e. sort_keys (PDict d) = PDict e \<and> set e = (\<lambda>(k, v). (k, sort_keys v)) ` set d"
  by simp

text \<open>
  C37: Two manifests that verify under one key with the same signature agree in everything that was
  signed, the order of object keys and of the capabilities apart, unless their two canonical texts
  differ and are themselves a collision of the HMAC under that key. The \<open>repr\<close> of floats is assumed to be readable back.
\<close>

theorem signature_binds:
  assumes "repr_law fr F"
    and "printable F (canonical_manifest m)" "printable F (canonical_manifest n)"
    and "verify_signature hm fr key m" "verify_signature hm fr key n"
    and "tm_signature m = tm_signature n"
  shows "(tm_server_id m = tm_server_id n \<and> tm_tool_name m = tm_tool_name n \<and>
      tm_description m = tm_description n \<and> tm_version m = tm_version n \<and>
      sort (tm_capabilities m) = sort (tm_capabilities n) \<and>
      sort_keys (PDict (tm_parameters m)) = sort_keys (PDict (tm_parameters n))) \<or>
    (canonical_bytes fr m \<noteq> canonical_bytes fr n \<and>
      hm key (canonical_bytes fr m) = hm key (canonical_bytes fr n))"
proof (cases "canonical_bytes fr m = canonical_bytes fr n")
  case False
  then show ?thesis using assms(4-6) unfolding verify_signature_def by metis
next
  case True
  then have keys: "sort_keys (canonical_manifest m) = sort_keys (canonical_manifest n)"
    unfolding canonical_bytes_def by (rule canonical_injective [OF assms(1-3)])
  let ?S = "\<lambda>x. (\<lambda>(k, v). (k, sort_keys v)) ` set (manifest_items x)"
  from keys sort_keys_items [of "manifest_items m"] sort_keys_items [of "manifest_items n"]
  have same: "?S m = ?S n" unfolding canonical_manifest_def by force
  have strs: "map (sort_keys \<circ> PStr) ss = map PStr ss" for ss by simp
  have S: "?S x = {(u ''server_id'', PStr (tm_server_id x)), (u ''tool_name'', PStr (tm_tool_name x)),
      (u ''description'', PStr (tm_description x)),
      (u ''parameters'', sort_keys (PDict (tm_parameters x))),
      (u ''capabilities'', PList (map PStr (sort (tm_capabilities x)))),
      (u ''version'', PStr (tm_version x))}" for x
    unfolding manifest_items_def by (simp add: strs del: sort_keys.simps(2))
  have "(u ''server_id'', PStr (tm_server_id m)) \<in> ?S n" "(u ''tool_name'', PStr (tm_tool_name m)) \<in> ?S n"
    "(u ''description'', PStr (tm_description m)) \<in> ?S n"
    "(u ''parameters'', sort_keys (PDict (tm_parameters m))) \<in> ?S n"
    "(u ''capabilities'', PList (map PStr (sort (tm_capabilities m)))) \<in> ?S n"
    "(u ''version'', PStr (tm_version m)) \<in> ?S n"
    unfolding same [symmetric] unfolding S by blast+
  then have "tm_server_id m = tm_server_id n" "tm_tool_name m = tm_tool_name n"
    "tm_description m = tm_description n"
    "sort_keys (PDict (tm_parameters m)) = sort_keys (PDict (tm_parameters n))"
    "map PStr (sort (tm_capabilities m)) = map PStr (sort (tm_capabilities n))"
    "tm_version m = tm_version n"
    unfolding S by (simp_all del: sort_keys.simps)
  then show ?thesis by (simp add: inj_map_eq_map inj_def del: sort_keys.simps)
qed

lemma signature_binds_witness:
  "let m = sign_manifest (\<lambda>k m. m) (\<lambda>q. []) [107] 1 sample_manifest;
       n = sign_manifest (\<lambda>k m. m) (\<lambda>q. []) [107] 2 sample_manifest
   in (tm_server_id m = tm_server_id n \<and> tm_tool_name m = tm_tool_name n \<and>
      tm_description m = tm_description n \<and> tm_version m = tm_version n \<and>
      sort (tm_capabilities m) = sort (tm_capabilities n) \<and>
      sort_keys (PDict (tm_parameters m)) = sort_keys (PDict (tm_parameters n))) \<or>
    (canonical_bytes (\<lambda>q. []) m \<noteq> canonical_bytes (\<lambda>q. []) n \<and>
      (\<lambda>k m. m) [107] (canonical_bytes (\<lambda>q. []) m) = (\<lambda>k m. m) ([107] :: nat list) (canonical_bytes (\<lambda>q. []) n))"
proof -
  have pr: "printable {} (canonical_manifest (sign_manifest (\<lambda>k m. m) (\<lambda>q. []) [107] t sample_manifest))" for t
    by (simp add: canonical_manifest_def manifest_items_def sign_manifest_def sample_manifest_def
        Let_def plain_text_def is_surrogate_def u_def)
  have law: "repr_law (\<lambda>q. []) {}" by (simp add: repr_law_def)
  have sig: "tm_signature (sign_manifest (\<lambda>k m. m) (\<lambda>q. []) [107] t sample_manifest) =
      canonical_bytes (\<lambda>q. []) sample_manifest" for t
    by (simp add: sign_manifest_def Let_def)
  show ?thesis
    unfolding Let_def
    by (rule signature_binds [OF law pr pr signed_verifies signed_verifies]) (simp only: sig)
qed

text \<open>The version is signed but not compared, and the key of a baseline does not separate the
  server from the tool.\<close>

lemma version_not_compared:
  "verify_manifest hm fr v (live\<lparr>tm_version := x\<rparr>) = verify_manifest hm fr v live"
  by (simp add: verify_manifest_def manifest_key_def split: option.split)

lemma baseline_key_ambiguous:
  "manifest_key (m\<lparr>tm_server_id := u ''a::b'', tm_tool_name := u ''c''\<rparr>) =
   manifest_key (m\<lparr>tm_server_id := u ''a'', tm_tool_name := u ''b::c''\<rparr>)"
  by (simp add: manifest_key_def u_def)

end
