(* ===== verification/ToolCanary.thy ===== *)
theory ToolCanary
  imports JsonDump PyValues
begin

text \<open>
  \<open>advanced/canary.py\<close>: probes with expected behaviour, the evaluation of a response and the health
  of a tool. SHA-256 (\<open>sha\<close>) and \<open>float.__repr__\<close> (\<open>fr\<close>) are parameters. A validator returns a truth
  value or raises with a text. Times are left out. The violations are the texts of the source, since
  the status is decided by searching them. A probe is a value: one probe object registered under
  two tools is not shared here.
\<close>

section \<open>State\<close>

datatype canary_status = PASS | FAIL | DRIFT | TIMEOUT | CANARY_ERROR

record canary_probe =
  pb_probe_id :: pystr
  pb_tool_name :: pystr
  pb_input_data :: pydict
  pb_expected_output :: "pydict option"
  pb_expected_fields :: "pystr list"
  pb_forbidden_fields :: "pystr list"
  pb_output_validator :: "(pydict \<Rightarrow> pystr + bool) option"
  pb_description :: pystr
  pb_max_response_size :: int

record canary_result =
  cr_probe_id :: pystr
  cr_tool_name :: pystr
  cr_status :: canary_status
  cr_actual_output :: "pydict option"
  cr_violations :: "pystr list"
  cr_output_hash :: pystr

record tool_canary =
  tc_probes :: "(pystr \<times> canary_probe list) list"
  tc_history :: "(pystr \<times> canary_result list) list"
  tc_baselines :: "(pystr \<times> pystr) list"

definition canary_passed :: "canary_result \<Rightarrow> bool" where
  "canary_passed r \<longleftrightarrow> cr_status r = PASS"

definition make_canary :: tool_canary where
  "make_canary = \<lparr>tc_probes = [], tc_history = [], tc_baselines = []\<rparr>"

definition canonical_output :: "(rat \<Rightarrow> pystr) \<Rightarrow> pydict \<Rightarrow> pystr" where
  "canonical_output fr d = dumps fr canonical_style (PDict d)"

definition register_probe :: "(pybytes \<Rightarrow> pystr) \<Rightarrow> (rat \<Rightarrow> pystr) \<Rightarrow> canary_probe \<Rightarrow> tool_canary \<Rightarrow> tool_canary" where
  "register_probe sha fr probe tc =
    (let tool = pb_tool_name probe;
         tc1 = tc\<lparr>tc_probes := dset tool (dget_or (tc_probes tc) tool [] @ [probe]) (tc_probes tc)\<rparr>
     in case pb_expected_output probe of
          None \<Rightarrow> tc1
        | Some d \<Rightarrow> tc1\<lparr>tc_baselines := dset (pb_probe_id probe) (sha (canonical_output fr d)) (tc_baselines tc1)\<rparr>)"

definition find_probe :: "tool_canary \<Rightarrow> pystr \<Rightarrow> canary_probe option" where
  "find_probe tc probe_id = List.find (\<lambda>p. pb_probe_id p = probe_id) (concat (map snd (tc_probes tc)))"

definition field_exists :: "pydict \<Rightarrow> pystr \<Rightarrow> bool" where
  "field_exists data field_path \<longleftrightarrow> resolve_parts (split_on 46 field_path) (PDict data) \<noteq> None"

section \<open>Evaluating a response\<close>

definition apostrophed :: "pystr \<Rightarrow> pystr" where
  "apostrophed s = [39] @ s @ [39]"

definition mismatch_text :: "pystr \<Rightarrow> pystr \<Rightarrow> pystr" where
  "mismatch_text expected got = u ''output_mismatch: expected hash '' @ take 16 expected @ u ''..., got '' @
     take 16 got @ u ''...''"

definition missing_text :: "pystr \<Rightarrow> pystr" where
  "missing_text name = u ''missing_field: '' @ apostrophed name @ u '' not in output''"

definition forbidden_text :: "pystr \<Rightarrow> pystr" where
  "forbidden_text name = u ''forbidden_field: '' @ apostrophed name @
     u '' PRESENT in output (potential behavioral drift!)''"

definition size_text :: "nat \<Rightarrow> int \<Rightarrow> pystr" where
  "size_text n limit = u ''size_exceeded: response '' @ show_nat n @ u '' bytes > max '' @ show_int limit"

definition validator_violations :: "canary_probe \<Rightarrow> pydict \<Rightarrow> pystr list" where
  "validator_violations probe out =
    (case pb_output_validator probe of
       None \<Rightarrow> []
     | Some f \<Rightarrow> (case f out of
           Inl e \<Rightarrow> [u ''validator_error: '' @ e]
         | Inr ok \<Rightarrow> if ok then [] else [u ''custom_validator: probe validator returned False'']))"

definition probe_violations :: "(pybytes \<Rightarrow> pystr) \<Rightarrow> (rat \<Rightarrow> pystr) \<Rightarrow> tool_canary \<Rightarrow> canary_probe \<Rightarrow>
    pystr \<Rightarrow> pydict \<Rightarrow> pystr list" where
  "probe_violations sha fr tc probe probe_id out =
    (let canon = canonical_output fr out; h = sha canon; base = dget_or (tc_baselines tc) probe_id []
     in (if pb_expected_output probe \<noteq> None \<and> h \<noteq> base then [mismatch_text base h] else []) @
        map missing_text (filter (\<lambda>f. \<not> field_exists out f) (pb_expected_fields probe)) @
        map forbidden_text (filter (field_exists out) (pb_forbidden_fields probe)) @
        (if pb_max_response_size probe > 0 \<and> int (length canon) > pb_max_response_size probe
         then [size_text (length canon) (pb_max_response_size probe)] else []) @
        validator_violations probe out)"

definition canary_status_of :: "pystr list \<Rightarrow> canary_status" where
  "canary_status_of violations =
    (if violations = [] then PASS
     else if list_ex (\<lambda>v. contains v (u ''forbidden_field'')) violations then FAIL
     else if list_ex (\<lambda>v. contains v (u ''output_mismatch'')) violations then DRIFT
     else FAIL)"

definition evaluate_response :: "(pybytes \<Rightarrow> pystr) \<Rightarrow> (rat \<Rightarrow> pystr) \<Rightarrow> pystr \<Rightarrow> pydict \<Rightarrow> tool_canary \<Rightarrow>
    canary_result \<times> tool_canary" where
  "evaluate_response sha fr probe_id out tc =
    (case find_probe tc probe_id of
       None \<Rightarrow>
         (\<lparr>cr_probe_id = probe_id, cr_tool_name = u ''unknown'', cr_status = CANARY_ERROR,
           cr_actual_output = None, cr_violations = [u ''Unknown probe_id: '' @ probe_id],
           cr_output_hash = []\<rparr>, tc)
     | Some probe \<Rightarrow>
         (let violations = probe_violations sha fr tc probe probe_id out;
              result = \<lparr>cr_probe_id = probe_id, cr_tool_name = pb_tool_name probe,
                cr_status = canary_status_of violations, cr_actual_output = Some out,
                cr_violations = violations, cr_output_hash = sha (canonical_output fr out)\<rparr>
          in (result, tc\<lparr>tc_history :=
                dset probe_id (dget_or (tc_history tc) probe_id [] @ [result]) (tc_history tc)\<rparr>)))"

section \<open>Queries and updates\<close>

definition get_probes_for_tool :: "tool_canary \<Rightarrow> pystr \<Rightarrow> canary_probe list" where
  "get_probes_for_tool tc tool = dget_or (tc_probes tc) tool []"

definition get_history :: "tool_canary \<Rightarrow> pystr \<Rightarrow> canary_result list" where
  "get_history tc probe_id = dget_or (tc_history tc) probe_id []"

text \<open>The health score is the exact percentage, which the source rounds to one decimal.\<close>

record tool_health =
  hl_healthy :: bool
  hl_health_score :: rat
  hl_total_checks :: nat
  hl_passed :: nat
  hl_failed :: nat
  hl_drifted :: nat
  hl_probe_count :: nat

definition get_tool_health :: "tool_canary \<Rightarrow> pystr \<Rightarrow> tool_health option" where
  "get_tool_health tc tool =
    (let probes = get_probes_for_tool tc tool;
         results = concat (map (\<lambda>p. get_history tc (pb_probe_id p)) probes);
         count = (\<lambda>s. length (filter (\<lambda>r. cr_status r = s) results))
     in if probes = [] then None
        else Some \<lparr>hl_healthy = (count FAIL = 0),
               hl_health_score = (if results = [] then 100 else percent (count PASS) (length results)),
               hl_total_checks = length results, hl_passed = count PASS, hl_failed = count FAIL,
               hl_drifted = count DRIFT, hl_probe_count = length probes\<rparr>)"

fun update_first :: "('a \<Rightarrow> bool) \<Rightarrow> ('a \<Rightarrow> 'a) \<Rightarrow> 'a list \<Rightarrow> 'a list" where
  "update_first P f [] = []"
| "update_first P f (x # xs) = (if P x then f x # xs else x # update_first P f xs)"

fun update_probe :: "pystr \<Rightarrow> pydict \<Rightarrow> (pystr \<times> canary_probe list) list \<Rightarrow> (pystr \<times> canary_probe list) list" where
  "update_probe probe_id expected [] = []"
| "update_probe probe_id expected ((tool, ps) # rest) =
    (if list_ex (\<lambda>p. pb_probe_id p = probe_id) ps
     then (tool, update_first (\<lambda>p. pb_probe_id p = probe_id) (\<lambda>p. p\<lparr>pb_expected_output := Some expected\<rparr>) ps) # rest
     else (tool, ps) # update_probe probe_id expected rest)"

definition update_baseline :: "(pybytes \<Rightarrow> pystr) \<Rightarrow> (rat \<Rightarrow> pystr) \<Rightarrow> pystr \<Rightarrow> pydict \<Rightarrow> tool_canary \<Rightarrow> tool_canary" where
  "update_baseline sha fr probe_id expected tc =
     tc\<lparr>tc_baselines := dset probe_id (sha (canonical_output fr expected)) (tc_baselines tc),
       tc_probes := update_probe probe_id expected (tc_probes tc)\<rparr>"

section \<open>Verdicts\<close>

definition probe_satisfied :: "(pybytes \<Rightarrow> pystr) \<Rightarrow> (rat \<Rightarrow> pystr) \<Rightarrow> tool_canary \<Rightarrow> canary_probe \<Rightarrow> pydict \<Rightarrow> bool" where
  "probe_satisfied sha fr tc probe out \<longleftrightarrow>
     (pb_expected_output probe \<noteq> None \<longrightarrow>
        sha (canonical_output fr out) = dget_or (tc_baselines tc) (pb_probe_id probe) []) \<and>
     (\<forall>f \<in> set (pb_expected_fields probe). field_exists out f) \<and>
     (\<forall>f \<in> set (pb_forbidden_fields probe). \<not> field_exists out f) \<and>
     (0 < pb_max_response_size probe \<longrightarrow> int (length (canonical_output fr out)) \<le> pb_max_response_size probe) \<and>
     (\<forall>f. pb_output_validator probe = Some f \<longrightarrow> f out = Inr True)"

lemma no_violations_iff:
  assumes "pb_probe_id probe = probe_id"
  shows "probe_violations sha fr tc probe probe_id out = [] \<longleftrightarrow> probe_satisfied sha fr tc probe out"
  using assms by (auto simp: probe_violations_def probe_satisfied_def validator_violations_def Let_def
      filter_empty_conv split: option.splits sum.splits)

lemma find_probe_id: "find_probe tc probe_id = Some p \<Longrightarrow> pb_probe_id p = probe_id"
  by (auto simp: find_probe_def find_Some_iff)

text \<open>
  A response passes its probe exactly when it has the expected hash (if an output is expected),
  all expected and no forbidden fields, at most the permitted size, and the validator returns true;
  a forbidden field always fails, and the result joins the history of the probe.
\<close>

theorem canary_verdict:
  assumes "find_probe tc probe_id = Some probe"
  shows "(cr_status (fst (evaluate_response sha fr probe_id out tc)) = PASS \<longleftrightarrow>
      probe_satisfied sha fr tc probe out) \<and>
    ((\<exists>f \<in> set (pb_forbidden_fields probe). field_exists out f) \<longrightarrow>
      cr_status (fst (evaluate_response sha fr probe_id out tc)) = FAIL) \<and>
    get_history (snd (evaluate_response sha fr probe_id out tc)) probe_id =
      get_history tc probe_id @ [fst (evaluate_response sha fr probe_id out tc)]"
proof -
  let ?vs = "probe_violations sha fr tc probe probe_id out"
  have pass: "canary_status_of ?vs = PASS \<longleftrightarrow> ?vs = []" by (simp add: canary_status_of_def)
  have "contains (forbidden_text f) (u ''forbidden_field'')" for f
    using contains_infix [of "[]" "u ''forbidden_field''" "u '': '' @ apostrophed f @
        u '' PRESENT in output (potential behavioral drift!)''"]
    by (simp add: forbidden_text_def u_def)
  moreover have "forbidden_text f \<in> set ?vs"
    if "f \<in> set (pb_forbidden_fields probe)" "field_exists out f" for f
    using that by (simp add: probe_violations_def Let_def)
  ultimately have "canary_status_of ?vs = FAIL"
    if "f \<in> set (pb_forbidden_fields probe)" "field_exists out f" for f
    using that by (auto simp: canary_status_of_def list_ex_iff)
  then show ?thesis
    using assms no_violations_iff [OF find_probe_id [OF assms]] pass
    by (auto simp: evaluate_response_def Let_def get_history_def)
qed

definition bcc_probe :: canary_probe where
  "bcc_probe = \<lparr>pb_probe_id = u ''p'', pb_tool_name = u ''mail'', pb_input_data = [],
     pb_expected_output = None, pb_expected_fields = [], pb_forbidden_fields = [u ''bcc''],
     pb_output_validator = None, pb_description = [], pb_max_response_size = 0\<rparr>"

lemma canary_verdict_witness:
  "let tc = register_probe id (\<lambda>q. []) bcc_probe make_canary; out = [(u ''bcc'', PNone)] in
   (cr_status (fst (evaluate_response id (\<lambda>q. []) (u ''p'') out tc)) = PASS \<longleftrightarrow>
      probe_satisfied id (\<lambda>q. []) tc bcc_probe out) \<and>
    ((\<exists>f \<in> set (pb_forbidden_fields bcc_probe). field_exists out f) \<longrightarrow>
      cr_status (fst (evaluate_response id (\<lambda>q. []) (u ''p'') out tc)) = FAIL) \<and>
    get_history (snd (evaluate_response id (\<lambda>q. []) (u ''p'') out tc)) (u ''p'') =
      get_history tc (u ''p'') @ [fst (evaluate_response id (\<lambda>q. []) (u ''p'') out tc)]"
  unfolding Let_def
  by (rule canary_verdict)
    (simp add: find_probe_def register_probe_def bcc_probe_def make_canary_def dget_or_def Let_def)

text \<open>A tool is healthy exactly when no recorded result of one of its probes is a failure: drifted
  outputs count as healthy.\<close>

lemma healthy_iff:
  assumes "get_tool_health tc tool = Some h"
  shows "hl_healthy h \<longleftrightarrow> (\<forall>p \<in> set (get_probes_for_tool tc tool).
      \<forall>r \<in> set (get_history tc (pb_probe_id p)). cr_status r \<noteq> FAIL)"
  using assms by (auto simp: get_tool_health_def Let_def filter_empty_conv split: if_splits)

lemma health_counts:
  assumes "get_tool_health tc tool = Some h"
  shows "hl_passed h + hl_failed h + hl_drifted h \<le> hl_total_checks h"
proof -
  have "length (filter (\<lambda>r. cr_status r = PASS) rs) + length (filter (\<lambda>r. cr_status r = FAIL) rs) +
      length (filter (\<lambda>r. cr_status r = DRIFT) rs) \<le> length rs" for rs
    by (induction rs) auto
  with assms show ?thesis by (auto simp: get_tool_health_def Let_def split: if_splits)
qed

text \<open>A probe id that is registered again takes the baseline of the last registration, whichever of
  the probes is then found.\<close>

lemma reregistered_probe_mixed:
  assumes "find_probe tc (pb_probe_id p) = Some q" "pb_expected_output p = Some d"
    and "has_key (tc_probes tc) (pb_tool_name p)"
  shows "dget (tc_baselines (register_probe sha fr p tc)) (pb_probe_id p) = Some (sha (canonical_output fr d))"
  using assms by (simp add: register_probe_def Let_def)

end
