(* ===== verification/DriftDetector.thy ===== *)
theory DriftDetector
  imports JsonDump PyValues
begin

text \<open>
  \<open>advanced/drift.py\<close>: baselines of a tool's behaviour and the detection of drift. SHA-256 (\<open>sha\<close>) and
  \<open>float.__repr__\<close> (\<open>fr\<close>) are parameters; averages and thresholds are exact rationals; the texts of
  details are constructors with the sorted lists they print. A sensitivity of zero raises when the
  size check divides by it.
\<close>

section \<open>State\<close>

record behavior_sample =
  bs_tool_name :: pystr
  bs_input_hash :: pystr
  bs_output_fields :: "pystr set"
  bs_output_hash :: pystr
  bs_timestamp :: rat
  bs_payload_size :: nat

datatype drift_kind =
    NewField "pystr list"
  | FieldRemoved "pystr list"
  | SizeHigh nat rat
  | SizeLow nat rat
  | OutputChanged "pystr list" "pystr list"

record drift_alert =
  da_tool_name :: pystr
  da_kind :: drift_kind
  da_severity :: int

record drift_detector =
  dd_baseline_window :: int
  dd_sensitivity :: rat
  dd_baselines :: "(pystr \<times> behavior_sample list) list"
  dd_known_fields :: "(pystr \<times> pystr set) list"
  dd_size_history :: "(pystr \<times> nat list) list"
  dd_alerts :: "drift_alert list"

datatype drift_exn = ZeroDivision

definition make_drift_detector :: "int \<Rightarrow> rat \<Rightarrow> drift_detector" where
  "make_drift_detector window sensitivity = \<lparr>dd_baseline_window = window, dd_sensitivity = sensitivity,
     dd_baselines = [], dd_known_fields = [], dd_size_history = [], dd_alerts = []\<rparr>"

section \<open>Field paths\<close>

text \<open>\<open>_extract_field_paths\<close>: of a list only the first element is looked at.\<close>

fun field_paths :: "pystr \<Rightarrow> pyval \<Rightarrow> pystr set" where
  "field_paths prefix (PDict d) =
     \<Union> (set (map (\<lambda>(key, v).
       let path = (if prefix \<noteq> [] then prefix @ [46] @ key else key)
       in insert path (field_paths path v)) d))"
| "field_paths prefix (PList []) = {}"
| "field_paths prefix (PList (v # vs)) =
     insert (prefix @ [91, 93]) (if is_dict v then field_paths (prefix @ [91, 93]) v else {})"
| "field_paths prefix _ = {}"

declare field_paths.simps [simp del]

definition create_sample :: "(pybytes \<Rightarrow> pystr) \<Rightarrow> (rat \<Rightarrow> pystr) \<Rightarrow> rat \<Rightarrow> pystr \<Rightarrow> pydict \<Rightarrow> pydict \<Rightarrow>
    behavior_sample" where
  "create_sample sha fr now tool_name inp outp =
    (let input_canonical = dumps fr canonical_style (PDict inp);
         output_canonical = dumps fr canonical_style (PDict outp)
     in \<lparr>bs_tool_name = tool_name, bs_input_hash = sha input_canonical,
         bs_output_fields = field_paths [] (PDict outp), bs_output_hash = sha output_canonical,
         bs_timestamp = now, bs_payload_size = length output_canonical\<rparr>)"

section \<open>Baselines\<close>

definition keep_window :: "int \<Rightarrow> 'a list \<Rightarrow> 'a list" where
  "keep_window w xs = (if int (length xs) > w then py_last w xs else xs)"

definition record_baseline :: "(pybytes \<Rightarrow> pystr) \<Rightarrow> (rat \<Rightarrow> pystr) \<Rightarrow> rat \<Rightarrow> pystr \<Rightarrow> pydict \<Rightarrow> pydict \<Rightarrow>
    drift_detector \<Rightarrow> behavior_sample \<times> drift_detector" where
  "record_baseline sha fr now tool_name inp outp dd =
    (let sample = create_sample sha fr now tool_name inp outp; w = dd_baseline_window dd
     in (sample, dd\<lparr>
       dd_baselines := dset tool_name (keep_window w (dget_or (dd_baselines dd) tool_name [] @ [sample])) (dd_baselines dd),
       dd_known_fields := dset tool_name
         (dget_or (dd_known_fields dd) tool_name {} \<union> field_paths [] (PDict outp)) (dd_known_fields dd),
       dd_size_history := dset tool_name
         (keep_window w (dget_or (dd_size_history dd) tool_name [] @ [bs_payload_size sample])) (dd_size_history dd)\<rparr>))"

fun common_fields :: "behavior_sample list \<Rightarrow> pystr set" where
  "common_fields [] = {}"
| "common_fields [s] = bs_output_fields s"
| "common_fields (s # ss) = bs_output_fields s \<inter> common_fields ss"

section \<open>Drift\<close>

definition HIGH_RISK_PATTERNS :: "pystr list" where
  "HIGH_RISK_PATTERNS = map u [''bcc'', ''cc'', ''forward'', ''redirect'', ''exfil'', ''hidden'', ''secret'']"

definition new_field_severity :: "pystr set \<Rightarrow> int" where
  "new_field_severity fs =
    (if \<exists>f \<in> fs. list_ex (contains (py_lower f)) HIGH_RISK_PATTERNS then 95 else 60)"

definition check_size_anomaly :: "rat \<Rightarrow> pystr \<Rightarrow> nat list \<Rightarrow> nat \<Rightarrow> drift_exn + drift_alert option" where
  "check_size_anomaly sensitivity tool_name sizes current =
    (if length sizes < 5 then Inr None
     else let avg = of_nat (sum_list sizes) / of_nat (length sizes)
          in if avg = 0 then Inr None
             else if sensitivity = 0 then Inl ZeroDivision
             else if of_nat current > avg * (3 / sensitivity)
             then Inr (Some \<lparr>da_tool_name = tool_name, da_kind = SizeHigh current avg, da_severity = 60\<rparr>)
             else if of_nat current < avg * (1 / 10 * sensitivity) \<and> avg > 10
             then Inr (Some \<lparr>da_tool_name = tool_name, da_kind = SizeLow current avg, da_severity = 30\<rparr>)
             else Inr None)"

definition sorted_fields :: "pystr set \<Rightarrow> pystr list" where
  "sorted_fields fs = sorted_list_of_set fs"

definition new_field_alerts :: "pystr \<Rightarrow> pystr set \<Rightarrow> pystr set \<Rightarrow> drift_alert list" where
  "new_field_alerts tool_name current known =
    (if current - known = {} then []
     else [\<lparr>da_tool_name = tool_name, da_kind = NewField (sorted_fields (current - known)),
            da_severity = new_field_severity (current - known)\<rparr>])"

definition removed_field_alerts :: "pystr \<Rightarrow> pystr set \<Rightarrow> pystr set \<Rightarrow> behavior_sample list \<Rightarrow> drift_alert list" where
  "removed_field_alerts tool_name current known samples =
    (if known = {} \<or> common_fields samples - current = {} then []
     else [\<lparr>da_tool_name = tool_name, da_kind = FieldRemoved (sorted_fields (common_fields samples - current)),
            da_severity = 50\<rparr>])"

definition changed_output_alerts :: "pystr \<Rightarrow> behavior_sample \<Rightarrow> behavior_sample list \<Rightarrow> drift_alert list" where
  "changed_output_alerts tool_name current samples =
    (let matching = filter (\<lambda>s. bs_input_hash s = bs_input_hash current) samples
     in if matching = [] \<or> bs_output_fields current = bs_output_fields (last matching) then []
        else let base = bs_output_fields (last matching); now = bs_output_fields current
             in [\<lparr>da_tool_name = tool_name,
                  da_kind = OutputChanged (sorted_fields (now - base)) (sorted_fields (base - now)),
                  da_severity = 75\<rparr>])"

definition size_check :: "drift_detector \<Rightarrow> pystr \<Rightarrow> nat \<Rightarrow> drift_exn + drift_alert option" where
  "size_check dd tool_name current =
    (let sizes = dget_or (dd_size_history dd) tool_name []
     in if sizes = [] then Inr None else check_size_anomaly (dd_sensitivity dd) tool_name sizes current)"

definition report_drift :: "drift_alert list \<Rightarrow> drift_detector \<Rightarrow>
    (drift_exn + bool \<times> drift_alert list) \<times> drift_detector" where
  "report_drift alerts dd = (Inr (alerts \<noteq> [], alerts), dd\<lparr>dd_alerts := dd_alerts dd @ alerts\<rparr>)"

definition check_drift :: "(pybytes \<Rightarrow> pystr) \<Rightarrow> (rat \<Rightarrow> pystr) \<Rightarrow> rat \<Rightarrow> pystr \<Rightarrow> pydict \<Rightarrow> pydict \<Rightarrow>
    drift_detector \<Rightarrow> (drift_exn + bool \<times> drift_alert list) \<times> drift_detector" where
  "check_drift sha fr now tool_name inp outp dd =
    (let current = create_sample sha fr now tool_name inp outp;
         fields_now = field_paths [] (PDict outp);
         samples = dget_or (dd_baselines dd) tool_name [];
         known = dget_or (dd_known_fields dd) tool_name {}
     in if samples = [] then (Inr (False, []), dd)
        else (case size_check dd tool_name (bs_payload_size current) of
            Inl exc \<Rightarrow> (Inl exc, dd)
          | Inr size_alert \<Rightarrow> report_drift (new_field_alerts tool_name fields_now known @
                removed_field_alerts tool_name fields_now known samples @
                (case size_alert of None \<Rightarrow> [] | Some a \<Rightarrow> [a]) @
                changed_output_alerts tool_name current samples) dd))"

definition get_drift_alerts :: "pystr option \<Rightarrow> drift_detector \<Rightarrow> drift_alert list" where
  "get_drift_alerts tool dd =
    (case tool of None \<Rightarrow> dd_alerts dd
     | Some t \<Rightarrow> if t = [] then dd_alerts dd else filter (\<lambda>a. da_tool_name a = t) (dd_alerts dd))"

text \<open>The average is exact, the source rounds it to one decimal.\<close>

record baseline_stats =
  bt_sample_count :: nat
  bt_known_fields :: "pystr list"
  bt_avg_payload_size :: rat
  bt_min_payload_size :: nat
  bt_max_payload_size :: nat
  bt_first_seen :: rat
  bt_last_seen :: rat

definition get_baseline_stats :: "pystr \<Rightarrow> drift_detector \<Rightarrow> baseline_stats option" where
  "get_baseline_stats tool dd =
    (let samples = dget_or (dd_baselines dd) tool []; sizes = dget_or (dd_size_history dd) tool [];
         known = dget_or (dd_known_fields dd) tool {}
     in if samples = [] then None
        else Some \<lparr>bt_sample_count = length samples, bt_known_fields = sorted_fields known,
          bt_avg_payload_size = (if sizes = [] then 0 else of_nat (sum_list sizes) / of_nat (length sizes)),
          bt_min_payload_size = (if sizes = [] then 0 else Min (set sizes)),
          bt_max_payload_size = (if sizes = [] then 0 else Max (set sizes)),
          bt_first_seen = Min (bs_timestamp ` set samples), bt_last_seen = Max (bs_timestamp ` set samples)\<rparr>)"

section \<open>Histories\<close>

datatype drift_op = Baseline rat pystr pydict pydict | Check rat pystr pydict pydict

fun drift_step :: "(pybytes \<Rightarrow> pystr) \<Rightarrow> (rat \<Rightarrow> pystr) \<Rightarrow> drift_op \<Rightarrow> drift_detector \<Rightarrow> drift_detector" where
  "drift_step sha fr (Baseline now t inp out) dd = snd (record_baseline sha fr now t inp out dd)"
| "drift_step sha fr (Check now t inp out) dd = snd (check_drift sha fr now t inp out dd)"

definition run_drift :: "(pybytes \<Rightarrow> pystr) \<Rightarrow> (rat \<Rightarrow> pystr) \<Rightarrow> drift_op list \<Rightarrow> drift_detector \<Rightarrow> drift_detector" where
  "run_drift sha fr ops dd = fold (drift_step sha fr) ops dd"

text \<open>The samples recorded for a tool over a history.\<close>

fun recorded :: "(pybytes \<Rightarrow> pystr) \<Rightarrow> (rat \<Rightarrow> pystr) \<Rightarrow> pystr \<Rightarrow> drift_op list \<Rightarrow> behavior_sample list" where
  "recorded sha fr t [] = []"
| "recorded sha fr t (Baseline now t' inp out # ops) =
     (if t' = t then [create_sample sha fr now t inp out] else []) @ recorded sha fr t ops"
| "recorded sha fr t (Check now t' inp out # ops) = recorded sha fr t ops"

lemma recorded_append: "recorded sha fr t (xs @ ys) = recorded sha fr t xs @ recorded sha fr t ys"
proof (induction xs)
  case (Cons x xs)
  then show ?case by (cases x) simp_all
qed simp

lemma run_drift_snoc [simp]:
  "run_drift sha fr (ops @ [e]) dd = drift_step sha fr e (run_drift sha fr ops dd)"
  by (simp add: run_drift_def)

lemma check_keeps [simp]:
  "dd_baselines (snd (check_drift sha fr now t inp out dd)) = dd_baselines dd"
  "dd_known_fields (snd (check_drift sha fr now t inp out dd)) = dd_known_fields dd"
  "dd_baseline_window (snd (check_drift sha fr now t inp out dd)) = dd_baseline_window dd"
  by (simp_all add: check_drift_def Let_def report_drift_def split: sum.split)

lemma window_kept [simp]: "dd_baseline_window (drift_step sha fr e dd) = dd_baseline_window dd"
  by (cases e) (simp_all add: record_baseline_def Let_def)

lemma run_window: "dd_baseline_window (run_drift sha fr ops dd) = dd_baseline_window dd"
  by (induction ops rule: rev_induct) (simp_all add: run_drift_def)

lemma keep_window_snoc:
  "1 \<le> w \<Longrightarrow> keep_window w (last_n (nat w) xs @ [x]) = last_n (nat w) (xs @ [x])"
  by (cases "nat w \<le> length xs") (auto simp: keep_window_def py_last_def last_n_def Suc_diff_le)

lemma history_baselines:
  assumes "1 \<le> w"
  shows "dget_or (dd_baselines (run_drift sha fr ops (make_drift_detector w s))) t [] =
      last_n (nat w) (recorded sha fr t ops) \<and>
    dget_or (dd_known_fields (run_drift sha fr ops (make_drift_detector w s))) t {} =
      \<Union> (bs_output_fields ` set (recorded sha fr t ops))"
proof (induction ops rule: rev_induct)
  case Nil
  show ?case by (simp add: run_drift_def make_drift_detector_def last_n_def dget_or_def)
next
  case (snoc e ops)
  show ?case
  proof (cases e)
    case (Baseline now t' inp out)
    have w: "dd_baseline_window (run_drift sha fr ops (make_drift_detector w s)) = w"
      by (simp add: run_window) (simp add: make_drift_detector_def)
    have out: "bs_output_fields (create_sample sha fr now t inp out) = field_paths [] (PDict out)"
      by (simp add: create_sample_def Let_def)
    show ?thesis
    proof (cases "t' = t")
      case True
      with snoc show ?thesis
        by (simp add: Baseline record_baseline_def Let_def recorded_append w keep_window_snoc [OF assms] out
            Un_commute)
    next
      case False
      with snoc show ?thesis
        by (simp add: Baseline record_baseline_def Let_def recorded_append dget_or_def)
    qed
  next
    case (Check now t' inp out)
    with snoc show ?thesis by (simp add: recorded_append)
  qed
qed

lemma common_fields_Inter: "ss \<noteq> [] \<Longrightarrow> common_fields ss = \<Inter> (bs_output_fields ` set ss)"
  by (induction ss rule: common_fields.induct) auto

text \<open>
  C35: After any history, a tool with a baseline is reported with new fields exactly when its output has
  a field path that none of the outputs ever recorded for it had, and with removed fields exactly
  when a path common to the outputs in the window is missing; the check says drifted exactly when
  it reports anything.
\<close>

theorem drift_report_exact:
  assumes "1 \<le> w" "recorded sha fr t ops \<noteq> []"
    and "fst (check_drift sha fr now t inp out (run_drift sha fr ops (make_drift_detector w s))) =
      Inr (drifted, alerts)"
  shows "((\<exists>a \<in> set alerts. \<exists>fs. da_kind a = NewField fs) \<longleftrightarrow>
      \<not> field_paths [] (PDict out) \<subseteq> \<Union> (bs_output_fields ` set (recorded sha fr t ops))) \<and>
    ((\<exists>a \<in> set alerts. \<exists>fs. da_kind a = FieldRemoved fs) \<longleftrightarrow>
      \<not> \<Inter> (bs_output_fields ` set (last_n (nat w) (recorded sha fr t ops))) \<subseteq> field_paths [] (PDict out)) \<and>
    (drifted \<longleftrightarrow> alerts \<noteq> [])"
proof -
  let ?dd = "run_drift sha fr ops (make_drift_detector w s)"
  let ?samples = "last_n (nat w) (recorded sha fr t ops)"
  let ?known = "\<Union> (bs_output_fields ` set (recorded sha fr t ops))"
  let ?now = "field_paths [] (PDict out)"
  have hist: "dget_or (dd_baselines ?dd) t [] = ?samples" "dget_or (dd_known_fields ?dd) t {} = ?known"
    by (rule history_baselines [OF assms(1), THEN conjunct1], rule history_baselines [OF assms(1), THEN conjunct2])
  have ne: "?samples \<noteq> []" using assms(1,2) by (simp add: last_n_def not_le)
  have "hd ?samples \<in> set ?samples" "hd ?samples \<in> set (recorded sha fr t ops)"
    using ne set_last_n [of "nat w" "recorded sha fr t ops"] by auto
  then have sub: "common_fields ?samples \<subseteq> ?known"
    unfolding common_fields_Inter [OF ne] by blast
  obtain size_alert current where al: "alerts = new_field_alerts t ?now ?known @
      removed_field_alerts t ?now ?known ?samples @
      (case size_alert of None \<Rightarrow> [] | Some a \<Rightarrow> [a]) @ changed_output_alerts t current ?samples"
    and size: "size_alert = None \<or> (\<exists>n. size_check ?dd t n = Inr size_alert)"
    and dr: "drifted \<longleftrightarrow> alerts \<noteq> []"
    using assms(3) ne
    by (auto simp: check_drift_def hist Let_def report_drift_def split: sum.splits)
  have sizes: "da_kind a \<noteq> NewField fs \<and> da_kind a \<noteq> FieldRemoved fs" if "size_alert = Some a" for a fs
    using size that by (auto simp: size_check_def check_size_anomaly_def Let_def split: if_splits)
  have changed: "\<forall>a \<in> set (changed_output_alerts t current ?samples). \<forall>fs. da_kind a \<noteq> NewField fs \<and> da_kind a \<noteq> FieldRemoved fs"
    by (simp add: changed_output_alerts_def Let_def)
  have "(\<exists>a \<in> set alerts. \<exists>fs. da_kind a = NewField fs) \<longleftrightarrow> \<not> ?now \<subseteq> ?known"
    unfolding al using sizes changed
    by (auto simp: new_field_alerts_def removed_field_alerts_def
        split: option.splits if_splits)
  moreover have "(\<exists>a \<in> set alerts. \<exists>fs. da_kind a = FieldRemoved fs) \<longleftrightarrow> \<not> common_fields ?samples \<subseteq> ?now"
    unfolding al using sizes changed sub
    by (auto simp: new_field_alerts_def removed_field_alerts_def
        split: option.splits if_splits)
  ultimately show ?thesis using dr common_fields_Inter [OF ne] by simp
qed

definition sample_ops :: "drift_op list" where
  "sample_ops = [Baseline 0 (u ''t'') [] [(u ''id'', PNone)]]"

lemma sample_recorded:
  "recorded id (\<lambda>q. []) (u ''t'') sample_ops =
     [create_sample id (\<lambda>q. []) 0 (u ''t'') [] [(u ''id'', PNone)]]"
  by (simp add: sample_ops_def)

lemma drift_report_exact_witness:
  "\<exists>drifted alerts.
    fst (check_drift id (\<lambda>q. []) 1 (u ''t'') [] [(u ''id'', PNone), (u ''bcc'', PNone)]
      (run_drift id (\<lambda>q. []) sample_ops (make_drift_detector 50 (8 / 10)))) = Inr (drifted, alerts) \<and>
    ((\<exists>a \<in> set alerts. \<exists>fs. da_kind a = NewField fs) \<longleftrightarrow>
      \<not> field_paths [] (PDict [(u ''id'', PNone), (u ''bcc'', PNone)]) \<subseteq>
        \<Union> (bs_output_fields ` set (recorded id (\<lambda>q. []) (u ''t'') sample_ops))) \<and>
    ((\<exists>a \<in> set alerts. \<exists>fs. da_kind a = FieldRemoved fs) \<longleftrightarrow>
      \<not> \<Inter> (bs_output_fields ` set (last_n (nat 50) (recorded id (\<lambda>q. []) (u ''t'') sample_ops))) \<subseteq>
        field_paths [] (PDict [(u ''id'', PNone), (u ''bcc'', PNone)])) \<and>
    (drifted \<longleftrightarrow> alerts \<noteq> [])"
proof -
  let ?dd = "run_drift id (\<lambda>q. []) sample_ops (make_drift_detector 50 (8 / 10))"
  let ?out = "[(u ''id'', PNone), (u ''bcc'', PNone)]"
  have "size_check ?dd (u ''t'') n = Inr None" for n
    by (simp add: size_check_def check_size_anomaly_def run_drift_def sample_ops_def record_baseline_def
        make_drift_detector_def keep_window_def dget_or_def Let_def)
  then have "\<exists>drifted alerts. fst (check_drift id (\<lambda>q. []) 1 (u ''t'') [] ?out ?dd) = Inr (drifted, alerts)"
    by (auto simp: check_drift_def report_drift_def Let_def)
  then obtain drifted alerts where
    c: "fst (check_drift id (\<lambda>q. []) 1 (u ''t'') [] ?out ?dd) = Inr (drifted, alerts)" by blast
  have "recorded id (\<lambda>q. []) (u ''t'') sample_ops \<noteq> []" by (simp add: sample_recorded)
  with drift_report_exact [OF _ this c] c show ?thesis
    by (intro exI [of _ drifted] exI [of _ alerts] conjI) (assumption | simp only: one_le_numeral)+
qed

text \<open>A field that appears in the second element of a list only is not among the paths, so its
  appearance is no drift.\<close>

lemma second_element_unseen:
  "field_paths prefix (PList [PDict [(u ''to'', x)], PDict [(u ''to'', x), (u ''bcc'', y)]]) =
   field_paths prefix (PList [PDict [(u ''to'', x)]])"
  by (simp add: field_paths.simps)

text \<open>A window of zero keeps everything instead of nothing.\<close>

lemma zero_window_keeps_all: "keep_window 0 xs = xs"
  by (simp add: keep_window_def)

end
