(* ===== verification/Greedy.thy ===== *)
theory Greedy
  imports Prelude "HOL-Library.Sublist"
begin

text \<open>
  Greedy matching of a list of stages against a list of events, as both correlation engines do it:
  each event is offered to the current stage only, and the first event it accepts is its match. The
  search is sound and complete for subsequences, and its match is the earliest one.
\<close>

fun greedy :: "('e \<Rightarrow> bool) list \<Rightarrow> 'e list \<Rightarrow> 'e list option" where
  "greedy [] es = Some []"
| "greedy (p # ps) [] = None"
| "greedy (p # ps) (e # es) = (if p e then map_option ((#) e) (greedy ps es) else greedy (p # ps) es)"

definition stages :: "('e \<Rightarrow> bool) list \<Rightarrow> 'e list \<Rightarrow> bool" where
  "stages ps ms = list_all2 (\<lambda>p m. p m) ps ms"

lemma stages_simps [simp]:
  "stages [] ms \<longleftrightarrow> ms = []"
  "stages (p # ps) [] \<longleftrightarrow> False"
  "stages (p # ps) (m # ms) \<longleftrightarrow> p m \<and> stages ps ms"
  by (auto simp: stages_def)

lemma stages_ConsE:
  assumes "stages (p # ps) ms"
  obtains m ns where "ms = m # ns" "p m" "stages ps ns"
  using assms by (cases ms) auto

lemma stages_length: "stages ps ms \<Longrightarrow> length ms = length ps"
  by (auto simp: stages_def dest: list_all2_lengthD)

lemma greedy_sound: "greedy ps es = Some ms \<Longrightarrow> subseq ms es \<and> stages ps ms"
proof (induction ps es arbitrary: ms rule: greedy.induct)
  case (3 p ps e es)
  then show ?case by (cases "p e") auto
qed auto

lemma greedy_complete: "subseq ms es \<Longrightarrow> stages ps ms \<Longrightarrow> greedy ps es \<noteq> None"
proof (induction ps es arbitrary: ms rule: greedy.induct)
  case (2 p ps)
  then show ?case by (auto elim: stages_ConsE)
next
  case (3 p ps e es)
  from 3(4) obtain m ns where m: "ms = m # ns" "p m" "stages ps ns" by (rule stages_ConsE)
  have tail: "subseq ns es"
    using 3(3) unfolding m(1) by (cases "m = e") (auto dest: subseq_Cons')
  show ?case
  proof (cases "p e")
    case True
    from 3(1) [OF True tail m(3)] True show ?thesis by simp
  next
    case False
    with m have "m \<noteq> e" by auto
    with 3(3) have "subseq ms es" unfolding m(1) by simp
    from 3(2) [OF False this 3(4)] False show ?thesis by simp
  qed
qed simp

lemma greedy_iff: "greedy ps es \<noteq> None \<longleftrightarrow> (\<exists>ms. subseq ms es \<and> stages ps ms)"
  using greedy_sound greedy_complete by (metis not_None_eq)

lemma greedy_length: "greedy ps es = Some ms \<Longrightarrow> length ms = length ps"
  by (auto dest!: greedy_sound stages_length)

lemma greedy_needs_length: "greedy ps es = Some ms \<Longrightarrow> length ps \<le> length es"
  using greedy_length greedy_sound list_emb_length by metis

text \<open>What comes after the earliest match changes nothing.\<close>

lemma greedy_stable: "greedy ps es = Some ms \<Longrightarrow> greedy ps (es @ later) = Some ms"
  by (induction ps es arbitrary: ms rule: greedy.induct) (auto split: if_splits)

section \<open>The earliest places\<close>

text \<open>\<open>first_places b ps es is\<close>: \<open>is\<close> lists the places of the earliest match. The first stage is met at the first
  place from \<open>b\<close> on whose event it accepts, and so on from the place after it.\<close>

fun first_places :: "nat \<Rightarrow> ('e \<Rightarrow> bool) list \<Rightarrow> 'e list \<Rightarrow> nat list \<Rightarrow> bool" where
  "first_places b [] es is \<longleftrightarrow> is = []"
| "first_places b (p # ps) es [] \<longleftrightarrow> False"
| "first_places b (p # ps) es (i # is) \<longleftrightarrow>
     b \<le> i \<and> i < length es \<and> p (es ! i) \<and> (\<forall>j \<in> {b..<i}. \<not> p (es ! j)) \<and> first_places (Suc i) ps es is"

lemma first_places_here:
  assumes "b < length es" "p (es ! b)"
  shows "first_places b (p # ps) es is \<longleftrightarrow> (\<exists>js. is = b # js \<and> first_places (Suc b) ps es js)"
proof (cases "is")
  case (Cons i js)
  have "i = b" if "b \<le> i" "\<forall>j \<in> {b..<i}. \<not> p (es ! j)"
    using that assms(2) by (metis atLeastLessThan_iff order_le_less)
  with Cons assms show ?thesis by auto
qed simp

lemma first_places_later:
  assumes "b \<ge> length es \<or> \<not> p (es ! b)"
  shows "first_places b (p # ps) es is \<longleftrightarrow> first_places (Suc b) (p # ps) es is"
proof (cases "is")
  case (Cons i js)
  have "(b \<le> i \<and> (\<forall>j \<in> {b..<i}. \<not> p (es ! j))) \<longleftrightarrow> (Suc b \<le> i \<and> (\<forall>j \<in> {Suc b..<i}. \<not> p (es ! j)))"
    if "i < length es" "p (es ! i)"
    using that assms by (auto simp: atLeastLessThan_iff Suc_le_eq) (metis Suc_leI le_neq_implies_less order_le_less)+
  with Cons show ?thesis by auto
qed simp

lemma greedy_places:
  "greedy ps (drop b es) = Some ms \<longleftrightarrow> (\<exists>is. first_places b ps es is \<and> ms = map ((!) es) is)"
proof (induction ps "drop b es" arbitrary: b ms rule: greedy.induct)
  case (1 b)
  then show ?case by auto
next
  case (2 p ps b)
  then have "length es \<le> b" by (metis drop_eq_Nil)
  then have "\<not> first_places b (p # ps) es is" for "is" by (cases "is") auto
  with 2 show ?case by (metis greedy.simps(2) option.distinct(1))
next
  case (3 p ps e rest b)
  then have b: "b < length es" by (metis drop_eq_Nil leI list.distinct(1))
  with 3(3) have e: "e = es ! b" "rest = drop (Suc b) es" by (simp_all add: Cons_nth_drop_Suc [symmetric])
  show ?case
  proof (cases "p e")
    case True
    have "greedy (p # ps) (drop b es) = Some ms \<longleftrightarrow> (\<exists>ns. ms = e # ns \<and> greedy ps (drop (Suc b) es) = Some ns)"
      using True 3(3) [symmetric] e(2) by auto
    also have "\<dots> \<longleftrightarrow> (\<exists>is. first_places b (p # ps) es is \<and> ms = map ((!) es) is)"
      using 3(1) [OF True e(2)] True b e(1) by (auto simp: first_places_here)
    finally show ?thesis .
  next
    case False
    with 3(2) [OF False e(2), of ms] 3(3) [symmetric] e show ?thesis
      by (simp add: first_places_later del: first_places.simps)
  qed
qed

end
