(* ===== verification/CrossTool.thy ===== *)
theory CrossTool
  imports InjectionDetector PyValues JsonDump Greedy
begin

text \<open>
  \<open>advanced/correlation.py\<close>: correlation of tool calls over a sliding window. \<open>str\<close> of a dictionary
  is the parameter \<open>show_val\<close>; the two clock readings of a call (the event's and that of the rules)
  are arguments. A pattern is the regular expression its text denotes, a condition a function.
\<close>

section \<open>State\<close>

record tool_event =
  ce_tool_name :: pystr
  ce_server_id :: pystr
  ce_arguments :: pydict
  ce_output :: "pydict option"
  ce_timestamp :: rat
  ce_call_id :: pystr

record sequence_rule =
  sr_name :: pystr
  sr_description :: pystr
  sr_tool_sequence :: "rx list"
  sr_condition :: "(tool_event list \<Rightarrow> bool) option"
  sr_severity :: int
  sr_window_seconds :: rat

record sequence_alert =
  sq_rule_name :: pystr
  sq_description :: pystr
  sq_severity :: int
  sq_matched_calls :: "tool_event list"
  sq_data_flow :: pystr

record correlation_engine =
  ce_window_size :: nat
  ce_window :: "tool_event list"
  ce_rules :: "sequence_rule list"
  ce_alerts :: "sequence_alert list"

section \<open>Built-in rules\<close>

definition some_output :: "tool_event \<Rightarrow> bool" where
  "some_output e \<longleftrightarrow> (case ce_output e of None \<Rightarrow> False | Some d \<Rightarrow> d \<noteq> [])"

definition SEND_WORDS :: "pystr list" where
  "SEND_WORDS = map u [''send'', ''email'', ''post'', ''upload'']"

definition chunks_of :: "pystr \<Rightarrow> pystr list" where
  "chunks_of s = map (\<lambda>j. take 20 (drop (20 * j) s)) [0..<(min (length s) 200 + 19) div 20]"

definition flows_into :: "pystr \<Rightarrow> pystr \<Rightarrow> bool" where
  "flows_into args_str earlier \<longleftrightarrow> 20 < length earlier \<and>
     list_ex (\<lambda>chunk. contains args_str chunk \<and> py_strip chunk \<noteq> []) (chunks_of earlier)"

definition data_read_then_exfil :: "(pyval \<Rightarrow> pystr) \<Rightarrow> tool_event list \<Rightarrow> bool" where
  "data_read_then_exfil show_val events =
    (let read_outputs = map (\<lambda>e. show_val (PDict (the (ce_output e)))) (filter some_output events)
     in list_ex (\<lambda>i. let evt = events ! i in
          list_ex (contains (py_lower (ce_tool_name evt))) SEND_WORDS \<and>
          list_ex (flows_into (show_val (PDict (ce_arguments evt)))) (take i read_outputs))
        [0..<length events])"

definition shadow_pivot :: "tool_event list \<Rightarrow> bool" where
  "shadow_pivot events \<longleftrightarrow> 2 \<le> length events \<and>
     ce_server_id (hd events) \<noteq> ce_server_id (last events) \<and>
     ce_server_id (last events) \<notin> {[], ce_server_id (hd events)}"

definition any_of :: "string list \<Rightarrow> rx" where
  "any_of ws = alts (map lit ws)"

definition DEFAULT_RULES :: "(pyval \<Rightarrow> pystr) \<Rightarrow> sequence_rule list" where
  "DEFAULT_RULES show_val = [
     \<lparr>sr_name = u ''read_then_exfil'',
      sr_description = u ''Sensitive data read followed by outbound transmission'',
      sr_tool_sequence = [any_of [''read'', ''get'', ''fetch'', ''query'', ''secret'', ''key'', ''token''],
        any_of [''send'', ''email'', ''post'', ''upload'', ''webhook'']],
      sr_condition = Some (data_read_then_exfil show_val), sr_severity = 90, sr_window_seconds = 120\<rparr>,
     \<lparr>sr_name = u ''credential_harvest'',
      sr_description = u ''Multiple credential/secret reads in rapid succession'',
      sr_tool_sequence = [any_of [''secret'', ''credential'', ''key'', ''token'', ''password''],
        any_of [''secret'', ''credential'', ''key'', ''token'', ''password'']],
      sr_condition = None, sr_severity = 70, sr_window_seconds = 60\<rparr>,
     \<lparr>sr_name = u ''recon_then_exploit'',
      sr_description = u ''Information gathering followed by privileged action'',
      sr_tool_sequence = [any_of [''list'', ''scan'', ''discover'', ''enumerate''],
        any_of [''delete'', ''modify'', ''admin'', ''execute'', ''shell'']],
      sr_condition = None, sr_severity = 85, sr_window_seconds = 180\<rparr>,
     \<lparr>sr_name = u ''shadow_pivot'',
      sr_description = u ''Call to registered server followed by unregistered server'',
      sr_tool_sequence = [star dot, star dot], sr_condition = Some shadow_pivot,
      sr_severity = 75, sr_window_seconds = 60\<rparr>]"

definition make_engine :: "nat \<Rightarrow> sequence_rule list \<Rightarrow> correlation_engine" where
  "make_engine window_size rules =
     \<lparr>ce_window_size = window_size, ce_window = [], ce_rules = rules, ce_alerts = []\<rparr>"

definition add_sequence_rule :: "sequence_rule \<Rightarrow> correlation_engine \<Rightarrow> correlation_engine" where
  "add_sequence_rule r ce = ce\<lparr>ce_rules := ce_rules ce @ [r]\<rparr>"

definition get_recent_calls :: "int \<Rightarrow> correlation_engine \<Rightarrow> tool_event list" where
  "get_recent_calls n ce = py_last n (ce_window ce)"

definition clear_window :: "correlation_engine \<Rightarrow> correlation_engine" where
  "clear_window ce = ce\<lparr>ce_window := []\<rparr>"

section \<open>Data flow\<close>

fun is_nested :: "pyval \<Rightarrow> bool" where
  "is_nested (PDict d) = True"
| "is_nested (PList vs) = True"
| "is_nested _ = False"

text \<open>\<open>_extract_values\<close>: the scalars that are values of a dictionary, with their paths; a scalar that
  is the element of a list has none.\<close>

function (sequential) extract_values :: "pystr \<Rightarrow> pyval \<Rightarrow> (pystr \<times> pyval) list" where
  "extract_values pre (PDict d) =
     concat (map (\<lambda>(key, val).
       let path = (if pre \<noteq> [] then pre @ [46] @ key else key)
       in if is_nested val then extract_values path val else [(path, val)]) d)"
| "extract_values pre (PList vs) =
     concat (map (\<lambda>(i, v). extract_values (pre @ [91] @ show_nat i @ [93]) v) (zip [0..<length vs] vs))"
| "extract_values pre _ = []"
  by pat_completeness auto
termination
proof (relation "measure (\<lambda>(pre, v). size v)", goal_cases)
  case (2 pre d x xa y z)
  then have "(xa, y) \<in> set d" by auto
  then have "size y \<le> size_list (size_prod (\<lambda>x. 0) size) d"
    by (rule size_list_estimation') simp
  then show ?case by simp
next
  case (3 pre vs x xa y)
  then have "y \<in> set vs" by (auto dest: set_zip_rightD)
  then have "size y \<le> size_list size vs" by (rule size_list_estimation') simp
  then show ?case by simp
qed simp

definition detect_data_flow :: "(pyval \<Rightarrow> pystr) \<Rightarrow> pydict \<Rightarrow> pydict \<Rightarrow> pystr list" where
  "detect_data_flow show_val source target =
    (let target_str = show_val (PDict target)
     in List.map_filter (\<lambda>(path, val). case val of
            PStr s \<Rightarrow> if 8 < length s \<and> contains target_str s then Some (path @ u '' -> target_arguments'') else None
          | _ \<Rightarrow> None) (extract_values [] (PDict source)))"

section \<open>Matching\<close>

definition tool_matches :: "ucd \<Rightarrow> rx \<Rightarrow> tool_event \<Rightarrow> bool" where
  "tool_matches uc pattern e \<longleftrightarrow> rx_search (env_of uc True) pattern (ce_tool_name e)"

fun match_sequence :: "ucd \<Rightarrow> tool_event list \<Rightarrow> rx list \<Rightarrow> tool_event list option" where
  "match_sequence uc es [] = Some []"
| "match_sequence uc [] (p # ps) = None"
| "match_sequence uc (e # es) (p # ps) =
    (if tool_matches uc p e then map_option ((#) e) (match_sequence uc es ps)
     else match_sequence uc es (p # ps))"

fun flow_text :: "(pyval \<Rightarrow> pystr) \<Rightarrow> tool_event list \<Rightarrow> pystr \<Rightarrow> pystr" where
  "flow_text show_val (a # b # es) found =
    (let flows = (if some_output a then detect_data_flow show_val (the (ce_output a)) (ce_arguments b) else [])
     in flow_text show_val (b # es) (if flows \<noteq> [] then join_with (u ''; '') flows else found))"
| "flow_text show_val _ found = found"

definition evaluate_rule :: "ucd \<Rightarrow> (pyval \<Rightarrow> pystr) \<Rightarrow> rat \<Rightarrow> tool_event list \<Rightarrow> sequence_rule \<Rightarrow>
    sequence_alert option" where
  "evaluate_rule uc show_val now window r =
    (let window_events = filter (\<lambda>e. now - ce_timestamp e \<le> sr_window_seconds r) window
     in if length window_events < length (sr_tool_sequence r) then None
        else (case match_sequence uc window_events (sr_tool_sequence r) of
            None \<Rightarrow> None
          | Some matched \<Rightarrow>
              if matched = [] then None
              else if (case sr_condition r of None \<Rightarrow> False | Some c \<Rightarrow> \<not> c matched) then None
              else Some \<lparr>sq_rule_name = sr_name r, sq_description = sr_description r,
                sq_severity = sr_severity r, sq_matched_calls = matched,
                sq_data_flow = flow_text show_val matched []\<rparr>))"

definition engine_record :: "ucd \<Rightarrow> (pyval \<Rightarrow> pystr) \<Rightarrow> rat \<Rightarrow> rat \<Rightarrow> pystr \<Rightarrow> pystr \<Rightarrow> pydict \<Rightarrow> pydict option \<Rightarrow>
    pystr \<Rightarrow> correlation_engine \<Rightarrow> sequence_alert list \<times> correlation_engine" where
  "engine_record uc show_val stamp now tool server args out call_id ce =
    (let event = \<lparr>ce_tool_name = tool, ce_server_id = server, ce_arguments = args, ce_output = out,
           ce_timestamp = stamp, ce_call_id = call_id\<rparr>;
         window = last_n (ce_window_size ce) (ce_window ce @ [event]);
         new_alerts = List.map_filter (evaluate_rule uc show_val now window) (ce_rules ce)
     in (new_alerts, ce\<lparr>ce_window := window, ce_alerts := ce_alerts ce @ new_alerts\<rparr>))"

section \<open>Greedy matching is complete\<close>

lemma match_sequence_greedy: "match_sequence uc es ps = greedy (map (tool_matches uc) ps) es"
  by (induction uc es ps rule: match_sequence.induct) auto

lemma match_sequence_iff:
  "match_sequence uc es ps \<noteq> None \<longleftrightarrow> (\<exists>ms. subseq ms es \<and> list_all2 (tool_matches uc) ps ms)"
  by (simp add: match_sequence_greedy greedy_iff stages_def list_all2_map1 del: not_None_eq)

lemma match_sequence_length: "match_sequence uc es ps = Some ms \<Longrightarrow> length ms = length ps"
  by (auto simp: match_sequence_greedy dest: greedy_length)

lemma match_needs_length: "match_sequence uc es ps = Some ms \<Longrightarrow> length ps \<le> length es"
  by (auto simp: match_sequence_greedy dest: greedy_needs_length)

section \<open>The window and the alerts\<close>

text \<open>A history of calls, each with its clock readings.\<close>

datatype engine_call = Call rat rat pystr pystr pydict "pydict option" pystr

fun step_event :: "engine_call \<Rightarrow> tool_event" where
  "step_event (Call stamp now tool server args out cid) =
     \<lparr>ce_tool_name = tool, ce_server_id = server, ce_arguments = args, ce_output = out,
      ce_timestamp = stamp, ce_call_id = cid\<rparr>"

fun engine_step :: "ucd \<Rightarrow> (pyval \<Rightarrow> pystr) \<Rightarrow> engine_call \<Rightarrow> correlation_engine \<Rightarrow> sequence_alert list \<times> correlation_engine" where
  "engine_step uc show_val (Call stamp now tool server args out cid) ce =
     engine_record uc show_val stamp now tool server args out cid ce"

fun step_now :: "engine_call \<Rightarrow> rat" where
  "step_now (Call stamp now tool server args out cid) = now"

definition run_engine :: "ucd \<Rightarrow> (pyval \<Rightarrow> pystr) \<Rightarrow> engine_call list \<Rightarrow> correlation_engine \<Rightarrow> correlation_engine" where
  "run_engine uc show_val steps ce = fold (\<lambda>s ce. snd (engine_step uc show_val s ce)) steps ce"

lemma last_n_snoc: "last_n n (last_n n xs @ [x]) = last_n n (xs @ [x])"
proof (cases "n \<le> length xs")
  case True
  show ?thesis
  proof (cases n)
    case (Suc m)
    have "Suc (length xs - Suc m) = length xs - m" using True Suc by simp
    with True Suc show ?thesis by (simp add: last_n_def)
  qed (simp add: last_n_def)
qed (simp add: last_n_def)

lemma engine_step_window:
  "ce_window (snd (engine_step uc show_val s ce)) = last_n (ce_window_size ce) (ce_window ce @ [step_event s])"
  "ce_rules (snd (engine_step uc show_val s ce)) = ce_rules ce"
  "ce_window_size (snd (engine_step uc show_val s ce)) = ce_window_size ce"
  by (cases s; simp add: engine_record_def Let_def)+

lemma run_engine_params:
  "ce_rules (run_engine uc show_val steps ce) = ce_rules ce \<and>
   ce_window_size (run_engine uc show_val steps ce) = ce_window_size ce"
  by (induction steps rule: rev_induct) (simp_all add: run_engine_def engine_step_window)

lemma run_engine_window:
  "ce_window (run_engine uc show_val steps (make_engine n rules)) = last_n n (map step_event steps)"
proof (induction steps rule: rev_induct)
  case Nil
  show ?case by (simp add: run_engine_def make_engine_def last_n_def)
next
  case (snoc s steps)
  have "ce_window_size (run_engine uc show_val steps (make_engine n rules)) = n"
    using run_engine_params [of uc show_val steps "make_engine n rules"] by (simp add: make_engine_def)
  moreover have "run_engine uc show_val (steps @ [s]) ce = snd (engine_step uc show_val s (run_engine uc show_val steps ce))" for ce
    by (simp add: run_engine_def)
  ultimately show ?case using snoc by (simp add: engine_step_window last_n_snoc)
qed

definition in_window :: "rat \<Rightarrow> sequence_rule \<Rightarrow> tool_event list \<Rightarrow> tool_event list" where
  "in_window now r es = filter (\<lambda>e. now - ce_timestamp e \<le> sr_window_seconds r) es"

lemma evaluate_rule_iff:
  assumes "sr_tool_sequence r \<noteq> []"
  shows "(\<exists>a. evaluate_rule uc show_val now es r = Some a) \<longleftrightarrow>
    (\<exists>ms. match_sequence uc (in_window now r es) (sr_tool_sequence r) = Some ms \<and>
       (\<forall>c. sr_condition r = Some c \<longrightarrow> c ms))"
proof (cases "match_sequence uc (in_window now r es) (sr_tool_sequence r)")
  case None
  then show ?thesis by (simp add: evaluate_rule_def in_window_def Let_def)
next
  case (Some ms)
  from match_needs_length [OF Some] have "length (sr_tool_sequence r) \<le> length (in_window now r es)" .
  moreover from match_sequence_length [OF Some] assms have "ms \<noteq> []" by auto
  ultimately show ?thesis using Some
    by (auto simp: evaluate_rule_def in_window_def Let_def split: option.splits)
qed

text \<open>
  C33: After any history, a call raises an alert for a rule without a condition exactly when some
  subsequence of the last \<open>window_size\<close> calls, the new one included, each within the rule's time
  window, matches the tool patterns in order: the greedy search misses no sequence.
\<close>

theorem sequence_alert_iff:
  assumes "r \<in> set rules" "sr_condition r = None" "sr_tool_sequence r \<noteq> []"
  shows "(\<exists>a. evaluate_rule uc show_val (step_now s)
       (ce_window (snd (engine_step uc show_val s (run_engine uc show_val steps (make_engine n rules))))) r = Some a \<and>
       a \<in> set (fst (engine_step uc show_val s (run_engine uc show_val steps (make_engine n rules))))) \<longleftrightarrow>
    (\<exists>ms. subseq ms (in_window (step_now s) r (last_n n (map step_event (steps @ [s])))) \<and>
       list_all2 (tool_matches uc) (sr_tool_sequence r) ms)"
proof -
  let ?ce = "run_engine uc show_val steps (make_engine n rules)"
  let ?W = "last_n n (map step_event (steps @ [s]))"
  have size: "ce_window_size ?ce = n" "ce_rules ?ce = rules"
    using run_engine_params [of uc show_val steps "make_engine n rules"] by (simp_all add: make_engine_def)
  have window: "ce_window (snd (engine_step uc show_val s ?ce)) = ?W"
    by (simp add: engine_step_window size run_engine_window last_n_snoc)
  have reported: "a \<in> set (fst (engine_step uc show_val s ?ce))"
    if "evaluate_rule uc show_val (step_now s) ?W r = Some a" for a
  proof (cases s)
    case (Call stamp now tool server args out cid)
    have W: "last_n n (ce_window ?ce @ [step_event s]) = ?W"
      by (simp add: run_engine_window last_n_snoc)
    with that assms(1) show ?thesis
      by (force simp: Call engine_record_def Let_def size List.map_filter_def)
  qed
  have "(\<exists>a. evaluate_rule uc show_val (step_now s) ?W r = Some a) \<longleftrightarrow>
      match_sequence uc (in_window (step_now s) r ?W) (sr_tool_sequence r) \<noteq> None"
    using evaluate_rule_iff [OF assms(3), of uc show_val "step_now s" ?W] assms(2) by auto
  with reported show ?thesis
    unfolding window match_sequence_iff by blast
qed

definition harvest_rule :: sequence_rule where
  "harvest_rule = DEFAULT_RULES (\<lambda>v. []) ! 1"

definition read_secret :: "rat \<Rightarrow> engine_call" where
  "read_secret t = Call t t (u ''get_secret'') (u ''s'') [] None []"

definition word_ucd :: ucd where
  "word_ucd = \<lparr>ucd_nfkc = id, ucd_printable = (\<lambda>c. True), ucd_word = (\<lambda>c. False)\<rparr>"

lemma sequence_alert_iff_witness:
  "(\<exists>a. evaluate_rule word_ucd (\<lambda>v. []) (step_now (read_secret 1))
       (ce_window (snd (engine_step word_ucd (\<lambda>v. []) (read_secret 1)
          (run_engine word_ucd (\<lambda>v. []) [read_secret 0] (make_engine 100 (DEFAULT_RULES (\<lambda>v. []))))))) harvest_rule = Some a \<and>
       a \<in> set (fst (engine_step word_ucd (\<lambda>v. []) (read_secret 1)
          (run_engine word_ucd (\<lambda>v. []) [read_secret 0] (make_engine 100 (DEFAULT_RULES (\<lambda>v. []))))))) \<longleftrightarrow>
    (\<exists>ms. subseq ms (in_window (step_now (read_secret 1)) harvest_rule
        (last_n 100 (map step_event ([read_secret 0] @ [read_secret 1])))) \<and>
       list_all2 (tool_matches word_ucd) (sr_tool_sequence harvest_rule) ms)"
  by (rule sequence_alert_iff) (simp_all add: harvest_rule_def DEFAULT_RULES_def)

section \<open>Gaps\<close>

text \<open>The condition of a rule sees the earliest match only: once the older part of the window
  matches, whatever is called later changes nothing.\<close>

lemma earlier_match_shadows:
  "match_sequence uc es ps = Some ms \<Longrightarrow> match_sequence uc (es @ later) ps = Some ms"
  unfolding match_sequence_greedy by (rule greedy_stable)

text \<open>A value inside a list is no value of the data-flow check.\<close>

lemma list_scalars_not_extracted: "extract_values pre (PList (map PStr ss)) = []"
proof -
  have "list_all (\<lambda>(i, v). extract_values (pre @ [91] @ show_nat i @ [93]) v = []) (zip is (map PStr ss))" for "is"
    by (induction "is" "ss" rule: list_induct2') simp_all
  then show ?thesis by (auto simp: list_all_iff)
qed

text \<open>The outputs of the reads are counted apart from the calls, so the output of a sending call
  itself counts as an earlier read when a call before it had none.\<close>

definition echo_events :: "tool_event list" where
  "echo_events =
     [\<lparr>ce_tool_name = u ''get_time'', ce_server_id = [], ce_arguments = [], ce_output = None,
       ce_timestamp = 0, ce_call_id = []\<rparr>,
      \<lparr>ce_tool_name = u ''send'', ce_server_id = [], ce_arguments = [], ce_output = Some [(u ''ok'', PNone)],
       ce_timestamp = 1, ce_call_id = []\<rparr>]"

lemma flows_into_itself: "flows_into (replicate 21 65) (replicate 21 65)"
proof -
  have "py_strip (replicate 20 65) = replicate 20 65"
    by (rule py_strip_id) (simp add: is_space_def)
  moreover have "contains ([] @ replicate 20 65 @ [65]) (replicate 20 (65 :: nat))" by (rule contains_infix)
  moreover have "replicate 21 (65 :: nat) = replicate 20 65 @ [65]"
    using replicate_add [of 20 1 "65 :: nat"] by simp
  moreover have "take 20 (drop (20 * 0) (replicate 21 65)) \<in> set (chunks_of (replicate 21 65))"
    unfolding chunks_of_def set_map by (rule imageI) simp
  ultimately show ?thesis by (auto simp: flows_into_def list_ex_iff intro!: bexI)
qed

lemma own_output_counts_as_read: "data_read_then_exfil (\<lambda>v. replicate 21 65) echo_events"
proof -
  have "contains (py_lower (u ''send'')) (u ''send'')"
    by (simp add: py_lower_def lower_cp_def u_def contains_def)
  with flows_into_itself show ?thesis
    by (simp add: data_read_then_exfil_def echo_events_def some_output_def SEND_WORDS_def list_ex_iff Let_def
        del: replicate_Suc)
qed

end
