(* ===== verification/NdJson.thy ===== *)
theory NdJson
  imports JsonDump
begin

text \<open>
  Newline-delimited JSON: one document per line, as the audit log, the write-ahead log and the log
  shippers write it. A printed document holds no newline, so the lines of a file are its documents.
\<close>

definition json_line :: "(rat \<Rightarrow> pystr) \<Rightarrow> pyval \<Rightarrow> pystr" where
  "json_line fr v = dumps fr default_style v @ [10]"

definition ndjson :: "(rat \<Rightarrow> pystr) \<Rightarrow> pyval list \<Rightarrow> pystr" where
  "ndjson fr vs = concat (map (json_line fr) vs)"

lemma ndjson_append [simp]: "ndjson fr (vs @ ws) = ndjson fr vs @ ndjson fr ws"
  by (simp add: ndjson_def)

lemma ndjson_Nil [simp]: "ndjson fr [] = []"
  by (simp add: ndjson_def)

lemma dump_no_newline:
  assumes "repr_law fr F" "printable F v"
  shows "10 \<notin> set (dumps fr default_style v)"
proof -
  have "\<forall>c \<in> set (print_val fr default_style v). 32 \<le> c"
    using ascii_print [OF assms, of default_style] by (auto simp: ascii_text_def list_all_iff)
  then show ?thesis by (auto simp: dumps_def default_style_def dest: bspec [of _ _ 10])
qed

lemma loads_dump:
  "repr_law fr F \<Longrightarrow> printable F v \<Longrightarrow> depth v \<le> rl \<Longrightarrow>
   loads_text plain_hook rl (dumps fr default_style v) = Inr v"
  by (rule loads_dumps) (simp_all add: default_style_def)

text \<open>Reading a file line by line gives the documents back, in order.\<close>

definition read_ndjson :: "nat \<Rightarrow> pystr \<Rightarrow> pyval option list" where
  "read_ndjson rl s = map (\<lambda>l. case loads_text plain_hook rl l of Inl e \<Rightarrow> None | Inr v \<Rightarrow> Some v)
     (filter (\<lambda>l. l \<noteq> []) (split_on 10 s))"

lemma dump_not_Nil: "repr_law fr F \<Longrightarrow> printable F v \<Longrightarrow> depth v \<le> rl \<Longrightarrow> dumps fr default_style v \<noteq> []"
proof
  assume a: "repr_law fr F" "printable F v" "depth v \<le> rl" "dumps fr default_style v = []"
  have "loads_text plain_hook rl [] = Inr v" using loads_dump [OF a(1-3)] a(4) by simp
  then show False by (subst (asm) loads_text_def, subst (asm) jvalue.simps) (auto simp: skip_ws_def split: if_splits)
qed

lemma read_ndjson_lines:
  assumes "repr_law fr F" "list_all (\<lambda>v. printable F v \<and> depth v \<le> rl) vs"
  shows "read_ndjson rl (ndjson fr vs) = map Some vs"
  using assms(2)
proof (induction vs)
  case Nil
  show ?case by (simp add: read_ndjson_def ndjson_def)
next
  case (Cons v vs)
  then have v: "printable F v" "depth v \<le> rl" by simp_all
  have "split_on 10 (ndjson fr (v # vs)) = dumps fr default_style v # split_on 10 (ndjson fr vs)"
    using split_on_app [of 10 "dumps fr default_style v" "ndjson fr vs"]
      split_on_fresh [OF dump_no_newline [OF assms(1) v(1)]]
    by (simp add: ndjson_def json_line_def)
  with Cons loads_dump [OF assms(1) v] dump_not_Nil [OF assms(1) v] show ?case
    by (simp add: read_ndjson_def)
qed

section \<open>Decimal texts\<close>

lemma show_nat_length: "0 < k \<Longrightarrow> n < 10 ^ k \<Longrightarrow> length (show_nat n) \<le> k"
proof (induction k arbitrary: n)
  case (Suc k)
  show ?case
  proof (cases "n < 10")
    case False
    with Suc.prems have "0 < k" by (cases k) auto
    moreover have "n div 10 < 10 ^ k" using Suc.prems(2) by (simp add: less_mult_imp_div_less mult.commute)
    ultimately show ?thesis using Suc.IH [of "n div 10"] False by (simp add: show_nat.simps [of n])
  qed (simp add: show_nat.simps [of n])
qed simp

end
