(* ===== verification/EcsFormatter.thy ===== *)
theory EcsFormatter
  imports PyValues NdJson
begin

text \<open>
  \<open>siem/ecs_formatter.py\<close>: security decisions as Elastic Common Schema documents. The time stamp and
  the fresh event id are arguments; \<open>int(latency_ms * 1000000)\<close> is computed on the exact rational.
\<close>

section \<open>Events\<close>

record ecs_event =
  ec_timestamp :: pystr
  ec_event_id :: pystr
  ec_event_kind :: pystr
  ec_event_category :: "pystr list"
  ec_event_type :: "pystr list"
  ec_event_action :: pystr
  ec_event_outcome :: pystr
  ec_event_severity :: int
  ec_event_risk_score :: rat
  ec_event_duration_ns :: int
  ec_event_module :: pystr
  ec_event_dataset :: pystr
  ec_source_agent_id :: pystr
  ec_source_session_id :: pystr
  ec_destination_server_id :: pystr
  ec_destination_tool_name :: pystr
  ec_threat_framework :: pystr
  ec_threat_tactic_name :: pystr
  ec_threat_tactic_id :: pystr
  ec_threat_technique_name :: pystr
  ec_threat_technique_id :: pystr
  ec_rule_id :: pystr
  ec_rule_name :: pystr
  ec_rule_category :: pystr
  ec_rule_description :: pystr
  ec_mcp_layer :: int
  ec_mcp_layer_name :: pystr
  ec_mcp_enforcement_action :: pystr
  ec_mcp_findings :: "pystr list"
  ec_mcp_call_id :: pystr
  ec_mcp_trace_id :: pystr
  ec_mcp_shadow_mode :: bool

text \<open>The defaults of the fields, with the id of the event.\<close>

definition default_ecs :: "pystr \<Rightarrow> ecs_event" where
  "default_ecs event_id =
     \<lparr>ec_timestamp = [], ec_event_id = event_id, ec_event_kind = u ''alert'', ec_event_category =
      [u ''intrusion_detection''], ec_event_type = [u ''denied''], ec_event_action = [],
      ec_event_outcome = [], ec_event_severity = 0, ec_event_risk_score = 0, ec_event_duration_ns
      = 0, ec_event_module = u ''mcp_security_gateway'', ec_event_dataset = u ''mcp.security'',
      ec_source_agent_id = [], ec_source_session_id = [], ec_destination_server_id = [],
      ec_destination_tool_name = [], ec_threat_framework = [], ec_threat_tactic_name = [],
      ec_threat_tactic_id = [], ec_threat_technique_name = [], ec_threat_technique_id = [],
      ec_rule_id = [], ec_rule_name = [], ec_rule_category = [], ec_rule_description = [],
      ec_mcp_layer = 0, ec_mcp_layer_name = [], ec_mcp_enforcement_action = [], ec_mcp_findings =
      [], ec_mcp_call_id = [], ec_mcp_trace_id = [], ec_mcp_shadow_mode = False\<rparr>"

definition str_list :: "pystr list \<Rightarrow> pyval" where
  "str_list ss = PList (map PStr ss)"

definition threat_doc :: "ecs_event \<Rightarrow> pyval" where
  "threat_doc e = PDict
     [(u ''framework'', PStr (ec_threat_framework e)),
      (u ''tactic'', PDict [(u ''name'', PStr (ec_threat_tactic_name e)), (u ''id'', PStr (ec_threat_tactic_id e))]),
      (u ''technique'', PDict [(u ''name'', PStr (ec_threat_technique_name e)), (u ''id'', PStr (ec_threat_technique_id e))])]"

definition base_doc :: "ecs_event \<Rightarrow> pydict" where
  "base_doc e =
     [(u ''@timestamp'', PStr (ec_timestamp e)),
      (u ''event'', PDict
        [(u ''id'', PStr (ec_event_id e)), (u ''kind'', PStr (ec_event_kind e)),
         (u ''category'', str_list (ec_event_category e)), (u ''type'', str_list (ec_event_type e)),
         (u ''action'', PStr (ec_event_action e)), (u ''outcome'', PStr (ec_event_outcome e)),
         (u ''severity'', PInt (ec_event_severity e)),
         (u ''risk_score'', PFloat (Fin (ec_event_risk_score e))),
         (u ''duration'', PInt (ec_event_duration_ns e)), (u ''module'', PStr (ec_event_module e)),
         (u ''dataset'', PStr (ec_event_dataset e))]),
      (u ''source'', PDict
        [(u ''agent_id'', PStr (ec_source_agent_id e)), (u ''session_id'', PStr (ec_source_session_id e))]),
      (u ''destination'', PDict
        [(u ''server_id'', PStr (ec_destination_server_id e)),
         (u ''tool_name'', PStr (ec_destination_tool_name e))]),
      (u ''rule'', PDict
        [(u ''id'', PStr (ec_rule_id e)), (u ''name'', PStr (ec_rule_name e)),
         (u ''category'', PStr (ec_rule_category e)), (u ''description'', PStr (ec_rule_description e))]),
      (u ''mcp'', PDict
        [(u ''layer'', PInt (ec_mcp_layer e)), (u ''layer_name'', PStr (ec_mcp_layer_name e)),
         (u ''enforcement_action'', PStr (ec_mcp_enforcement_action e)),
         (u ''findings'', str_list (ec_mcp_findings e)), (u ''call_id'', PStr (ec_mcp_call_id e)),
         (u ''trace_id'', PStr (ec_mcp_trace_id e)), (u ''shadow_mode'', PBool (ec_mcp_shadow_mode e))])]"

definition ecs_to_dict :: "ecs_event \<Rightarrow> pydict" where
  "ecs_to_dict e =
     base_doc e @ (if ec_threat_technique_id e \<noteq> [] then [(u ''threat'', threat_doc e)] else [])"

section \<open>Formatting\<close>

record threat_info =
  ti_tactic_name :: pystr
  ti_tactic_id :: pystr
  ti_technique_name :: pystr
  ti_technique_id :: pystr
  ti_framework :: pystr

definition mitre :: "string \<Rightarrow> string \<Rightarrow> string \<Rightarrow> string \<Rightarrow> threat_info" where
  "mitre tactic tactic_id technique technique_id =
     \<lparr>ti_tactic_name = u tactic, ti_tactic_id = u tactic_id, ti_technique_name = u technique,
      ti_technique_id = u technique_id, ti_framework = u ''MITRE ATT&CK''\<rparr>"

definition LAYER_THREAT_MAP :: "(pystr \<times> threat_info) list" where
  "LAYER_THREAT_MAP =
     [(u ''server_trust'', mitre ''Initial Access'' ''TA0001'' ''Trusted Relationship'' ''T1199''),
      (u ''tool_policy'', mitre ''Execution'' ''TA0002'' ''Command and Scripting Interpreter'' ''T1059''),
      (u ''process_spawn'', mitre ''Execution'' ''TA0002'' ''Command and Scripting Interpreter'' ''T1059''),
      (u ''semantic_intent'', mitre ''Collection'' ''TA0009'' ''Data from Information Repositories'' ''T1213''),
      (u ''network_egress'', mitre ''Exfiltration'' ''TA0010'' ''Exfiltration Over Web Service'' ''T1567'')]"

definition ACTION_OUTCOME_MAP :: "(pystr \<times> pystr) list" where
  "ACTION_OUTCOME_MAP = [(u ''allow'', u ''success''), (u ''block'', u ''failure''),
     (u ''deny'', u ''failure''), (u ''redact'', u ''success''), (u ''quarantine'', u ''failure'')]"

definition risk_to_severity :: "int \<Rightarrow> int" where
  "risk_to_severity risk_score =
    (if risk_score \<ge> 80 then 90
     else if risk_score \<ge> 60 then 70
     else if risk_score \<ge> 40 then 50
     else if risk_score \<ge> 20 then 30
     else 10)"

text \<open>The keyword arguments of \<open>format_decision\<close> and their defaults.\<close>

record decision_args =
  da_call_id :: pystr
  da_trace_id :: pystr
  da_tool_name :: pystr
  da_server_id :: pystr
  da_agent_id :: pystr
  da_session_id :: pystr
  da_allowed :: bool
  da_enforcement_action :: pystr
  da_blocked_by_layer :: "int option"
  da_layer_name :: pystr
  da_risk_score :: int
  da_findings :: "pystr list option"
  da_latency_ms :: rat

definition default_decision :: decision_args where
  "default_decision =
     \<lparr>da_call_id = [], da_trace_id = [], da_tool_name = [], da_server_id = [], da_agent_id = [],
      da_session_id = [], da_allowed = True, da_enforcement_action = u ''allow'',
      da_blocked_by_layer = None, da_layer_name = [], da_risk_score = 0, da_findings = None,
      da_latency_ms = 0\<rparr>"

definition findings_of :: "decision_args \<Rightarrow> pystr list" where
  "findings_of a = (case da_findings a of None \<Rightarrow> [] | Some fs \<Rightarrow> fs)"

definition layer_rule_id :: "int option \<Rightarrow> pystr" where
  "layer_rule_id layer = (case layer of None \<Rightarrow> []
     | Some l \<Rightarrow> if l \<noteq> 0 then u ''mcp-layer-'' @ show_int l else [])"

definition decision_event :: "bool \<Rightarrow> pystr \<Rightarrow> pystr \<Rightarrow> decision_args \<Rightarrow> ecs_event" where
  "decision_event shadow_mode now event_id a =
     (default_ecs event_id)
       \<lparr>ec_timestamp := now,
        ec_event_kind := (if da_allowed a then u ''event'' else u ''alert''),
        ec_event_type := (if da_allowed a then [u ''allowed''] else [u ''denied'']),
        ec_event_action := u ''mcp.tool_call.'' @ da_enforcement_action a,
        ec_event_outcome := dget_or ACTION_OUTCOME_MAP (da_enforcement_action a) (u ''unknown''),
        ec_event_severity := risk_to_severity (da_risk_score a),
        ec_event_risk_score := of_int (da_risk_score a),
        ec_event_duration_ns := py_trunc (da_latency_ms a * 1000000),
        ec_source_agent_id := da_agent_id a, ec_source_session_id := da_session_id a,
        ec_destination_server_id := da_server_id a, ec_destination_tool_name := da_tool_name a,
        ec_rule_id := layer_rule_id (da_blocked_by_layer a), ec_rule_name := da_layer_name a,
        ec_rule_category := u ''mcp_security'',
        ec_rule_description := join_with (u ''; '') (take 3 (findings_of a)),
        ec_mcp_layer := (case da_blocked_by_layer a of None \<Rightarrow> 0 | Some l \<Rightarrow> l),
        ec_mcp_layer_name := da_layer_name a,
        ec_mcp_enforcement_action := da_enforcement_action a, ec_mcp_findings := findings_of a,
        ec_mcp_call_id := da_call_id a, ec_mcp_trace_id := da_trace_id a,
        ec_mcp_shadow_mode := shadow_mode\<rparr>"

definition add_threat :: "threat_info \<Rightarrow> ecs_event \<Rightarrow> ecs_event" where
  "add_threat ti e =
     e\<lparr>ec_threat_framework := ti_framework ti, ec_threat_tactic_name := ti_tactic_name ti,
       ec_threat_tactic_id := ti_tactic_id ti, ec_threat_technique_name := ti_technique_name ti,
       ec_threat_technique_id := ti_technique_id ti\<rparr>"

definition format_decision :: "bool \<Rightarrow> pystr \<Rightarrow> pystr \<Rightarrow> decision_args \<Rightarrow> ecs_event" where
  "format_decision shadow_mode now event_id a =
    (case dget LAYER_THREAT_MAP (da_layer_name a) of
       Some ti \<Rightarrow> if \<not> da_allowed a then add_threat ti (decision_event shadow_mode now event_id a)
                  else decision_event shadow_mode now event_id a
     | None \<Rightarrow> decision_event shadow_mode now event_id a)"

definition format_circuit_breaker_event :: "pystr \<Rightarrow> pystr \<Rightarrow> pystr \<Rightarrow> pystr \<Rightarrow> int \<Rightarrow> ecs_event" where
  "format_circuit_breaker_event now event_id breaker_name state failure_count =
     (default_ecs event_id)
       \<lparr>ec_timestamp := now, ec_event_kind := u ''event'',
        ec_event_category := [u ''configuration''], ec_event_type := [u ''change''],
        ec_event_action := u ''circuit_breaker.'' @ state, ec_event_outcome := u ''success'',
        ec_event_severity := (if state = u ''open'' then 70 else 10),
        ec_rule_id := u ''cb-'' @ breaker_name, ec_rule_name := u ''circuit_breaker_'' @ breaker_name,
        ec_rule_category := u ''operational'',
        ec_rule_description := u ''Circuit breaker '' @ breaker_name @ u '' transitioned to '' @ state @
          u '' after '' @ show_int failure_count @ u '' failures'',
        ec_mcp_findings := [u ''failure_count='' @ show_int failure_count, u ''state='' @ state]\<rparr>"

definition format_rate_limit_event :: "pystr \<Rightarrow> pystr \<Rightarrow> pystr \<Rightarrow> int \<Rightarrow> int \<Rightarrow> ecs_event" where
  "format_rate_limit_event now event_id client_id requests_per_minute limit =
     (default_ecs event_id)
       \<lparr>ec_timestamp := now, ec_event_kind := u ''alert'',
        ec_event_category := [u ''intrusion_detection''], ec_event_type := [u ''denied''],
        ec_event_action := u ''rate_limit.exceeded'', ec_event_outcome := u ''failure'',
        ec_event_severity := 50, ec_source_agent_id := client_id,
        ec_rule_id := u ''rate-limit-001'', ec_rule_name := u ''request_rate_limit'',
        ec_rule_category := u ''availability'',
        ec_rule_description := u ''Client '' @ client_id @ u '' exceeded '' @ show_int limit @
          u '' req/min (actual: '' @ show_int requests_per_minute @ u '')'',
        ec_mcp_enforcement_action := u ''deny'',
        ec_mcp_findings := [u ''requests_per_minute='' @ show_int requests_per_minute,
          u ''limit='' @ show_int limit]\<rparr>"

section \<open>The document\<close>

lemma decision_fields [simp]:
  "ec_threat_technique_id (decision_event sm now event_id a) = []"
  "ec_event_kind (decision_event sm now event_id a) = (if da_allowed a then u ''event'' else u ''alert'')"
  "ec_event_severity (decision_event sm now event_id a) = risk_to_severity (da_risk_score a)"
  by (simp_all add: decision_event_def default_ecs_def)

lemma add_threat_fields [simp]:
  "ec_threat_technique_id (add_threat ti e) = ti_technique_id ti"
  "ec_event_kind (add_threat ti e) = ec_event_kind e"
  "ec_event_severity (add_threat ti e) = ec_event_severity e"
  by (simp_all add: add_threat_def)

lemma format_decision_fields [simp]:
  "ec_event_kind (format_decision sm now event_id a) = (if da_allowed a then u ''event'' else u ''alert'')"
  "ec_event_severity (format_decision sm now event_id a) = risk_to_severity (da_risk_score a)"
  by (auto simp: format_decision_def split: option.splits)

lemma threat_key: "has_key (ecs_to_dict e) (u ''threat'') \<longleftrightarrow> ec_threat_technique_id e \<noteq> []"
  by (simp add: ecs_to_dict_def base_doc_def has_key_def)

definition threat_layers :: "pystr set" where
  "threat_layers = {u ''server_trust'', u ''tool_policy'', u ''process_spawn'', u ''semantic_intent'',
     u ''network_egress''}"

lemma mapped_technique: "dget LAYER_THREAT_MAP l = Some ti \<Longrightarrow> ti_technique_id ti \<noteq> []"
  by (auto simp: LAYER_THREAT_MAP_def mitre_def split: if_splits)

lemma mapped_layers: "dget LAYER_THREAT_MAP l \<noteq> None \<longleftrightarrow> l \<in> threat_layers"
  by (auto simp: LAYER_THREAT_MAP_def threat_layers_def)

lemma format_technique:
  "ec_threat_technique_id (format_decision sm now event_id a) \<noteq> [] \<longleftrightarrow>
     \<not> da_allowed a \<and> da_layer_name a \<in> threat_layers"
  using mapped_technique mapped_layers [of "da_layer_name a"]
  by (auto simp: format_decision_def split: option.splits)

text \<open>
  A decision is an alert exactly when it was refused, and its document carries a \<open>threat\<close> object
  exactly when it was refused by one of the five mapped layers; the severity never decreases with the
  risk score and stays between 10 and 90.
\<close>

theorem ecs_decision_document:
  "(ec_event_kind (format_decision sm now event_id a) = u ''alert'' \<longleftrightarrow> \<not> da_allowed a) \<and>
   (has_key (ecs_to_dict (format_decision sm now event_id a)) (u ''threat'') \<longleftrightarrow>
      \<not> da_allowed a \<and> da_layer_name a \<in> threat_layers) \<and>
   ec_event_severity (format_decision sm now event_id a) \<in> {10, 30, 50, 70, 90} \<and>
   mono risk_to_severity"
  by (simp add: threat_key format_technique del: not_None_eq)
    (simp add: risk_to_severity_def mono_def)

text \<open>The layers one to three of \<open>layers/orchestrator.py\<close> go by other names, so what they refuse has
  no \<open>threat\<close> object.\<close>

lemma orchestrator_layers_unmapped:
  "da_layer_name a \<in> {u ''audit_registry'', u ''inline_proxy'', u ''kernel_behavior''} \<Longrightarrow>
   \<not> has_key (ecs_to_dict (format_decision sm now event_id a)) (u ''threat'')"
  by (auto simp: threat_key format_technique threat_layers_def)

text \<open>The strings of an event, its numbers, and when its line can be printed.\<close>

definition ecs_strings :: "ecs_event \<Rightarrow> pystr list" where
  "ecs_strings e =
     [ec_timestamp e, ec_event_id e, ec_event_kind e, ec_event_action e, ec_event_outcome e, ec_event_module e,
      ec_event_dataset e, ec_source_agent_id e, ec_source_session_id e, ec_destination_server_id e,
      ec_destination_tool_name e, ec_threat_framework e, ec_threat_tactic_name e, ec_threat_tactic_id e,
      ec_threat_technique_name e, ec_threat_technique_id e, ec_rule_id e, ec_rule_name e,
      ec_rule_category e, ec_rule_description e, ec_mcp_layer_name e, ec_mcp_enforcement_action e,
      ec_mcp_call_id e, ec_mcp_trace_id e] @ ec_event_category e @ ec_event_type e @ ec_mcp_findings e"

definition short_int :: "int \<Rightarrow> bool" where
  "short_int i \<longleftrightarrow> length (show_nat (nat \<bar>i\<bar>)) \<le> 4300"

definition ecs_printable :: "rat set \<Rightarrow> ecs_event \<Rightarrow> bool" where
  "ecs_printable F e \<longleftrightarrow> list_all plain_text (ecs_strings e) \<and> ec_event_risk_score e \<in> F \<and>
     short_int (ec_event_severity e) \<and> short_int (ec_event_duration_ns e) \<and> short_int (ec_mcp_layer e)"

lemma ascii_plain [simp]: "plain_text (u s)"
proof -
  have "\<not> is_surrogate n \<and> n < 1114112" if "n < 256" for n
    using that by (auto simp: is_surrogate_def)
  from this [OF nat_of_char_less_256] show ?thesis
    unfolding plain_text_def u_def list_all_iff by auto
qed

lemma plain_Nil [simp]: "plain_text []"
  by (simp add: plain_text_def)

lemma printable_str_list [simp]: "printable F (str_list ss) \<longleftrightarrow> list_all plain_text ss"
  by (simp add: str_list_def list_all_iff)

lemma depth_str_list [simp]: "depth (str_list ss) = 1"
proof -
  have "foldr max (map depth (map PStr ss)) 0 = 0" by (induction ss) auto
  then show ?thesis by (simp add: str_list_def)
qed

lemma ecs_doc_printable:
  assumes "ecs_printable F e"
  shows "printable F (PDict (ecs_to_dict e))" "depth (PDict (ecs_to_dict e)) \<le> 3"
  using assms
  by (simp_all add: ecs_printable_def ecs_strings_def ecs_to_dict_def base_doc_def threat_doc_def
      short_int_def)

end
