(* ===== verification/LogShipper.thy ===== *)
theory LogShipper
  imports EcsFormatter
begin

text \<open>
  \<open>siem/shipper.py\<close>: the buffer in front of a log backend and the three backends. What the file
  system, the standard output and the HTTP server do at the n-th call is part of a backend's state. The
  clock readings are arguments. The behaviour of the buffer is proved once, over the contract
  \<open>log_backend\<close> of a backend.
\<close>

section \<open>The buffer\<close>

record shipper_stats =
  st_events_shipped :: nat
  st_events_failed :: nat
  st_events_buffered :: nat
  st_last_ship_timestamp :: rat
  st_last_error :: pystr
  st_consecutive_failures :: nat

record 'b shipper =
  sh_buffer_size :: nat
  sh_flush_interval :: rat
  sh_buffer :: "pyval list"
  sh_stats :: shipper_stats
  sh_last_flush :: rat
  sh_backend :: 'b

text \<open>A batch: whether it was shipped, the error text when one was recorded, the backend after it.\<close>

type_synonym 'b batch_op = "'b \<Rightarrow> pyval list \<Rightarrow> bool \<times> pystr option \<times> 'b"

definition make_stats :: shipper_stats where
  "make_stats = \<lparr>st_events_shipped = 0, st_events_failed = 0, st_events_buffered = 0,
     st_last_ship_timestamp = 0, st_last_error = [], st_consecutive_failures = 0\<rparr>"

text \<open>\<open>deque(maxlen=-1)\<close> raises.\<close>

definition make_shipper :: "int \<Rightarrow> rat \<Rightarrow> rat \<Rightarrow> 'b \<Rightarrow> 'b shipper option" where
  "make_shipper buffer_size interval now backend =
    (if buffer_size < 0 then None
     else Some \<lparr>sh_buffer_size = nat buffer_size, sh_flush_interval = interval, sh_buffer = [],
       sh_stats = make_stats, sh_last_flush = now, sh_backend = backend\<rparr>)"

definition note_error :: "pystr option \<Rightarrow> shipper_stats \<Rightarrow> shipper_stats" where
  "note_error err st = (case err of None \<Rightarrow> st | Some m \<Rightarrow> st\<lparr>st_last_error := m\<rparr>)"

definition note_batch :: "bool \<Rightarrow> nat \<Rightarrow> rat \<Rightarrow> shipper_stats \<Rightarrow> shipper_stats" where
  "note_batch success n now st =
    (if success
     then st\<lparr>st_events_shipped := st_events_shipped st + n, st_last_ship_timestamp := now,
       st_consecutive_failures := 0\<rparr>
     else st\<lparr>st_events_failed := st_events_failed st + n,
       st_consecutive_failures := st_consecutive_failures st + 1\<rparr>)"

definition flush_shipper :: "'b batch_op \<Rightarrow> rat \<Rightarrow> 'b shipper \<Rightarrow> bool \<times> 'b shipper" where
  "flush_shipper ship_batch now s =
    (if sh_buffer s = [] then (True, s)
     else (case ship_batch (sh_backend s) (sh_buffer s) of (success, err, backend) \<Rightarrow>
       (success, s\<lparr>sh_buffer := [],
         sh_stats := note_batch success (length (sh_buffer s)) now
           (note_error err ((sh_stats s)\<lparr>st_events_buffered := 0\<rparr>)),
         sh_last_flush := now, sh_backend := backend\<rparr>)))"

definition ship_doc :: "'b batch_op \<Rightarrow> rat \<Rightarrow> rat \<Rightarrow> pyval \<Rightarrow> 'b shipper \<Rightarrow> 'b shipper" where
  "ship_doc ship_batch now done_at doc s =
    (let buffer = last_n (sh_buffer_size s) (sh_buffer s @ [doc]);
         s' = s\<lparr>sh_buffer := buffer,
           sh_stats := (sh_stats s)\<lparr>st_events_buffered := length buffer\<rparr>\<rparr>
     in if length buffer \<ge> sh_buffer_size s \<or> now - sh_last_flush s \<ge> sh_flush_interval s
        then snd (flush_shipper ship_batch done_at s') else s')"

definition ship_event :: "'b batch_op \<Rightarrow> rat \<Rightarrow> rat \<Rightarrow> ecs_event \<Rightarrow> 'b shipper \<Rightarrow> 'b shipper" where
  "ship_event ship_batch now done_at e s = ship_doc ship_batch now done_at (PDict (ecs_to_dict e)) s"

definition shipper_get_stats :: "'b shipper \<Rightarrow> shipper_stats \<times> 'b shipper" where
  "shipper_get_stats s =
    (let st = (sh_stats s)\<lparr>st_events_buffered := length (sh_buffer s)\<rparr> in (st, s\<lparr>sh_stats := st\<rparr>))"

datatype ship_op = Ship rat rat ecs_event | Flush rat

fun ship_step :: "'b batch_op \<Rightarrow> 'b shipper \<Rightarrow> ship_op \<Rightarrow> 'b shipper" where
  "ship_step ship_batch s (Ship now done_at e) = ship_event ship_batch now done_at e s"
| "ship_step ship_batch s (Flush now) = snd (flush_shipper ship_batch now s)"

definition run_shipper :: "'b batch_op \<Rightarrow> ship_op list \<Rightarrow> 'b shipper \<Rightarrow> 'b shipper" where
  "run_shipper ship_batch ops s = foldl (ship_step ship_batch) s ops"

fun op_docs :: "ship_op list \<Rightarrow> pyval list" where
  "op_docs [] = []"
| "op_docs (Ship now done_at e # ops) = PDict (ecs_to_dict e) # op_docs ops"
| "op_docs (Flush now # ops) = op_docs ops"

lemma op_docs_append [simp]: "op_docs (a @ b) = op_docs a @ op_docs b"
  by (induction a rule: op_docs.induct) auto

section \<open>The contract of a backend\<close>

text \<open>
  What a backend promises about the text it has stored: a batch that succeeds is stored whole, as one
  line per event; a batch that fails leaves at most a part of its text behind.
\<close>

locale log_backend =
  fixes ship_batch :: "'b batch_op"
    and stored :: "'b \<Rightarrow> pystr"
    and fr :: "rat \<Rightarrow> pystr"
    and ok :: "'b \<Rightarrow> bool"
  assumes keeps_ok: "ok b \<Longrightarrow> ship_batch b evs = (success, err, b') \<Longrightarrow> ok b'"
    and success_stores: "ok b \<Longrightarrow> ship_batch b evs = (True, err, b') \<Longrightarrow> stored b' = stored b @ ndjson fr evs"
    and failure_stores: "ok b \<Longrightarrow> ship_batch b evs = (False, err, b') \<Longrightarrow>
      \<exists>k. stored b' = stored b @ take k (ndjson fr evs)"
begin

text \<open>Every event is shipped, failed or waiting, and without a failure the stored text followed by
  the waiting events is the history.\<close>

definition delivered :: "'b \<Rightarrow> pyval list \<Rightarrow> 'b shipper \<Rightarrow> bool" where
  "delivered b docs s \<longleftrightarrow> ok (sh_backend s) \<and>
     st_events_shipped (sh_stats s) + st_events_failed (sh_stats s) + length (sh_buffer s) = length docs \<and>
     st_events_buffered (sh_stats s) = length (sh_buffer s) \<and>
     length (sh_buffer s) < sh_buffer_size s \<and>
     (st_events_failed (sh_stats s) = 0 \<longrightarrow>
        stored (sh_backend s) @ ndjson fr (sh_buffer s) = stored b @ ndjson fr docs)"

lemma flush_delivers:
  assumes "ok (sh_backend s)"
    "st_events_shipped (sh_stats s) + st_events_failed (sh_stats s) + length (sh_buffer s) = length docs"
    "st_events_buffered (sh_stats s) = length (sh_buffer s)" "0 < sh_buffer_size s"
    "st_events_failed (sh_stats s) = 0 \<Longrightarrow>
       stored (sh_backend s) @ ndjson fr (sh_buffer s) = stored b @ ndjson fr docs"
  shows "delivered b docs (snd (flush_shipper ship_batch now s))"
proof (cases "sh_buffer s = []")
  case True
  with assms show ?thesis by (simp add: flush_shipper_def delivered_def)
next
  case False
  obtain success err b' where sb: "ship_batch (sh_backend s) (sh_buffer s) = (success, err, b')"
    by (metis prod.exhaust)
  have "stored b' = stored b @ ndjson fr docs" if success "st_events_failed (sh_stats s) = 0"
    using success_stores [OF assms(1)] sb that assms(5) by simp
  with assms False sb keeps_ok [OF assms(1) sb] show ?thesis
    by (cases success; cases err) (simp_all add: flush_shipper_def delivered_def note_batch_def note_error_def)
qed

lemma flush_size: "sh_buffer_size (snd (flush_shipper ship_batch now s)) = sh_buffer_size s"
  by (simp add: flush_shipper_def split: prod.splits)

lemma step_size: "sh_buffer_size (ship_step ship_batch s x) = sh_buffer_size s"
  by (cases x) (simp_all add: flush_size ship_event_def ship_doc_def Let_def)

lemma step_delivers:
  assumes "delivered b docs s"
  shows "delivered b (docs @ op_docs [x]) (ship_step ship_batch s x)"
proof (cases x)
  case (Flush now)
  with assms flush_delivers [of s docs b now] show ?thesis by (simp add: delivered_def)
next
  case (Ship now done_at e)
  let ?doc = "PDict (ecs_to_dict e)"
  let ?s = "s\<lparr>sh_buffer := sh_buffer s @ [?doc],
     sh_stats := (sh_stats s)\<lparr>st_events_buffered := Suc (length (sh_buffer s))\<rparr>\<rparr>"
  have whole: "last_n (sh_buffer_size s) (sh_buffer s @ [?doc]) = sh_buffer s @ [?doc]"
    using assms by (simp add: delivered_def last_n_def)
  have "delivered b (docs @ [?doc]) (snd (flush_shipper ship_batch done_at ?s))"
    using assms by (intro flush_delivers) (auto simp: delivered_def)
  moreover have "delivered b (docs @ [?doc]) ?s" if "Suc (length (sh_buffer s)) < sh_buffer_size s"
    using assms that by (auto simp: delivered_def)
  ultimately show ?thesis
    unfolding Ship by (auto simp: ship_event_def ship_doc_def Let_def whole)
qed

lemma run_delivers:
  assumes "ok b" "0 < n" "make_shipper n interval now b = Some s"
  shows "delivered b (op_docs ops) (run_shipper ship_batch ops s)"
proof (induction ops rule: rev_induct)
  case Nil
  from assms show ?case
    by (auto simp: run_shipper_def make_shipper_def make_stats_def delivered_def)
next
  case (snoc x ops)
  from step_delivers [OF this, of x] show ?case by (simp add: run_shipper_def)
qed

end

section \<open>The file\<close>

text \<open>What the file system does at a batch: an error of \<open>exists\<close> or \<open>stat\<close>, a failing rename, the
  outcome of the write (an error may leave part of the text in the file), and the second of the clock
  that names a rotated file. The printed text is ASCII, so its size is its length.\<close>

datatype write_outcome = Written | OpenFails pystr | WriteFails nat pystr

record file_outcome =
  fo_stat_error :: "pystr option"
  fo_rename_fails :: bool
  fo_write :: write_outcome
  fo_second :: int

record file_backend =
  fb_file :: "pystr option"
  fb_rotated :: "(int \<times> pystr) list"
  fb_rotate_size_mb :: int
  fb_calls :: nat
  fb_world :: "nat \<Rightarrow> file_outcome"

definition make_file_backend :: "int \<Rightarrow> (nat \<Rightarrow> file_outcome) \<Rightarrow> file_backend" where
  "make_file_backend rotate_size_mb world =
     \<lparr>fb_file = None, fb_rotated = [], fb_rotate_size_mb = rotate_size_mb, fb_calls = 0, fb_world = world\<rparr>"

definition make_file_shipper :: "int \<Rightarrow> rat \<Rightarrow> int \<Rightarrow> rat \<Rightarrow> (nat \<Rightarrow> file_outcome) \<Rightarrow> file_backend shipper option" where
  "make_file_shipper buffer_size interval rotate_size_mb now world =
     make_shipper buffer_size interval now (make_file_backend rotate_size_mb world)"

definition rotate_file :: "file_outcome \<Rightarrow> pystr \<Rightarrow> file_backend \<Rightarrow> file_backend" where
  "rotate_file w content b =
    (if fo_rename_fails w then b
     else b\<lparr>fb_rotated := dset (fo_second w) content (fb_rotated b), fb_file := None\<rparr>)"

definition check_rotation :: "file_outcome \<Rightarrow> file_backend \<Rightarrow> file_backend" where
  "check_rotation w b = (case fb_file b of
       None \<Rightarrow> b
     | Some content \<Rightarrow> if int (length content) \<ge> fb_rotate_size_mb b * (1024 * 1024)
         then rotate_file w content b else b)"

definition file_text :: "file_backend \<Rightarrow> pystr" where
  "file_text b = (case fb_file b of None \<Rightarrow> [] | Some content \<Rightarrow> content)"

definition file_ship_batch :: "(rat \<Rightarrow> pystr) \<Rightarrow> file_backend batch_op" where
  "file_ship_batch fr b events =
    (let w = fb_world b (fb_calls b); b0 = b\<lparr>fb_calls := Suc (fb_calls b)\<rparr>
     in case fo_stat_error w of
          Some m \<Rightarrow> (False, Some m, b0)
        | None \<Rightarrow> (let b1 = check_rotation w b0 in case fo_write w of
            Written \<Rightarrow> (True, None, b1\<lparr>fb_file := Some (file_text b1 @ ndjson fr events)\<rparr>)
          | OpenFails m \<Rightarrow> (False, Some m, b1)
          | WriteFails k m \<Rightarrow> (False, Some m, b1\<lparr>fb_file := Some (file_text b1 @ take k (ndjson fr events))\<rparr>)))"

text \<open>All that was stored: the rotated files in the order of rotation, then the current one.\<close>

definition file_stored :: "file_backend \<Rightarrow> pystr" where
  "file_stored b = concat (map snd (fb_rotated b)) @ file_text b"

text \<open>No two batches rotate within one second.\<close>

definition distinct_seconds :: "(nat \<Rightarrow> file_outcome) \<Rightarrow> bool" where
  "distinct_seconds world \<longleftrightarrow> inj (\<lambda>i. fo_second (world i))"

definition file_ok :: "file_backend \<Rightarrow> bool" where
  "file_ok b \<longleftrightarrow> distinct_seconds (fb_world b) \<and>
     fst ` set (fb_rotated b) \<subseteq> (\<lambda>i. fo_second (fb_world b i)) ` {..<fb_calls b}"



lemma file_text_simps [simp]:
  "file_text (b\<lparr>fb_file := Some t\<rparr>) = t" "file_text (b\<lparr>fb_file := None\<rparr>) = []"
  "file_text (b\<lparr>fb_calls := n\<rparr>) = file_text b"
  by (simp_all add: file_text_def)

lemma rotation_keeps:
  fixes b :: file_backend
  assumes "file_ok b" "w = fb_world b (fb_calls b)"
  shows "file_ok (check_rotation w (b\<lparr>fb_calls := Suc (fb_calls b)\<rparr>)) \<and>
    file_stored (check_rotation w (b\<lparr>fb_calls := Suc (fb_calls b)\<rparr>)) = file_stored b"
proof -
  have fresh: "\<not> has_key (fb_rotated b) (fo_second w)"
    using assms by (force simp: has_key_iff file_ok_def distinct_seconds_def dest: injD)
  have grow: "file_ok (b\<lparr>fb_calls := Suc (fb_calls b)\<rparr>)"
    using assms(1) by (auto simp: file_ok_def)
  have rot: "file_ok (rotate_file w c (b\<lparr>fb_calls := Suc (fb_calls b)\<rparr>)) \<and>
      file_stored (rotate_file w c (b\<lparr>fb_calls := Suc (fb_calls b)\<rparr>)) = file_stored b"
    if "fb_file b = Some c" for c
  proof (cases "fo_rename_fails w")
    case True
    with grow show ?thesis by (simp add: rotate_file_def file_stored_def)
  next
    case False
    have "fo_second w \<in> (\<lambda>i. fo_second (fb_world b i)) ` {..<Suc (fb_calls b)}"
      using assms(2) by auto
    with False grow that show ?thesis
      by (auto simp: rotate_file_def file_stored_def file_ok_def dset_fresh [OF fresh] keys_dset file_text_def)
  qed
  from rot grow show ?thesis
    by (auto simp: check_rotation_def file_stored_def split: option.splits)
qed

lemma file_params [simp]:
  "file_ok (b\<lparr>fb_file := f\<rparr>) = file_ok b"
  "file_stored (b\<lparr>fb_file := Some (file_text b @ t)\<rparr>) = file_stored b @ t"
  by (simp_all add: file_ok_def file_stored_def)

lemma file_batch_cases:
  assumes "file_ok b" "file_ship_batch fr b evs = (success, err, b')"
  obtains (Whole) "success" "file_ok b'" "file_stored b' = file_stored b @ ndjson fr evs"
    | (Part) k where "\<not> success" "file_ok b'" "file_stored b' = file_stored b @ take k (ndjson fr evs)"
proof -
  let ?w = "fb_world b (fb_calls b)"
  let ?b0 = "b\<lparr>fb_calls := Suc (fb_calls b)\<rparr>"
  let ?b1 = "check_rotation ?w ?b0"
  have r: "file_ok ?b1" "file_stored ?b1 = file_stored b" using rotation_keeps [OF assms(1) refl] by auto
  have "file_ok ?b0" "file_stored ?b0 = file_stored b"
    using assms(1) by (auto simp: file_ok_def file_stored_def)
  note b0 = this
  show thesis
  proof (cases "fo_stat_error ?w")
    case (Some m)
    with assms(2) b0 show thesis by (intro Part [of 0]) (auto simp: file_ship_batch_def)
  next
    case None
    show thesis
    proof (cases "fo_write ?w")
      case Written
      with None assms(2) r show thesis by (intro Whole) (auto simp: file_ship_batch_def Let_def)
    next
      case (OpenFails m)
      with None assms(2) r show thesis by (intro Part [of 0]) (auto simp: file_ship_batch_def Let_def)
    next
      case (WriteFails k m)
      with None assms(2) r show thesis by (intro Part [of k]) (auto simp: file_ship_batch_def Let_def)
    qed
  qed
qed

interpretation file_log: log_backend "file_ship_batch fr" file_stored fr file_ok for fr
proof
  fix b evs success err b'
  assume "file_ok b" "file_ship_batch fr b evs = (success, err, b')"
  then show "file_ok b'" by (rule file_batch_cases)
next
  fix b evs err b'
  assume "file_ok b" "file_ship_batch fr b evs = (True, err, b')"
  then show "file_stored b' = file_stored b @ ndjson fr evs" by (rule file_batch_cases) simp_all
next
  fix b evs err b'
  assume "file_ok b" "file_ship_batch fr b evs = (False, err, b')"
  then show "\<exists>k. file_stored b' = file_stored b @ take k (ndjson fr evs)" by (rule file_batch_cases) auto
qed

text \<open>
  C22: Nothing is lost or reordered between a decision and the log file. After any sequence of ships and
  flushes of a \<open>FileShipper\<close> whose rotations fall in distinct seconds, the events shipped, failed and
  waiting add up to those handed over, fewer than \<open>buffer_size\<close> wait, and unless a batch failed the
  rotated files, the current file and the waiting lines together read back as exactly the documents of
  the events, in order.
\<close>

theorem file_shipper_delivers:
  assumes "0 < n" "distinct_seconds world" "make_file_shipper n interval mb now world = Some s"
    "s' = run_shipper (file_ship_batch fr) ops s"
    "repr_law fr F" "list_all (\<lambda>v. printable F v \<and> depth v \<le> rl) (op_docs ops)"
  shows "st_events_shipped (sh_stats s') + st_events_failed (sh_stats s') + length (sh_buffer s') = length (op_docs ops) \<and>
    length (sh_buffer s') < sh_buffer_size s' \<and>
    (st_events_failed (sh_stats s') = 0 \<longrightarrow>
       read_ndjson rl (file_stored (sh_backend s') @ ndjson fr (sh_buffer s')) = map Some (op_docs ops))"
proof -
  let ?b = "make_file_backend mb world"
  have ok: "file_ok ?b" "file_stored ?b = []"
    using assms(2) by (simp_all add: file_ok_def make_file_backend_def file_stored_def file_text_def)
  from file_log.run_delivers [OF ok(1) assms(1), of interval now s fr ops] assms(3,4)
  have "file_log.delivered fr ?b (op_docs ops) s'"
    by (simp add: make_file_shipper_def)
  then show ?thesis
    using ok(2) read_ndjson_lines [OF assms(5,6)] by (simp add: file_log.delivered_def)
qed

definition sound_disk :: "nat \<Rightarrow> file_outcome" where
  "sound_disk i = \<lparr>fo_stat_error = None, fo_rename_fails = False, fo_write = Written, fo_second = int i\<rparr>"

definition sample_event :: ecs_event where
  "sample_event = format_decision False (u ''now'') (u ''id'')
     (default_decision\<lparr>da_allowed := False, da_layer_name := u ''network_egress''\<rparr>)"

definition zero_repr :: "rat \<Rightarrow> pystr" where
  "zero_repr q = [48, 46, 48]"

lemma zero_repr_law: "repr_law zero_repr {0}"
proof -
  have "jnumber ([48, 46, 48] @ r) = Inr (PFloat (Fin 0), r)" if "at_end r" for r
  proof -
    have d: "is_digit 48" "\<not> is_digit 46" by (simp_all add: is_digit_def)
    have "takeWhile is_digit r = []" "dropWhile is_digit r = r"
      using at_end_not_digit [OF that] by (cases r; simp)+
    with d have "take_digits (48 # r) = ([48], r)" by (simp add: take_digits_def)
    with d show ?thesis
      using at_end_parts [OF that]
      by (simp add: jnumber_def int_part_def frac_part_def digits_val_def scale10_def)
  qed
  then show ?thesis by (simp add: repr_law_def zero_repr_def is_digit_def)
qed

lemma sample_event_printable: "ecs_printable {0} sample_event"
proof -
  have "length (show_nat n) \<le> 4300" if "n < 10" for n
    using that by (simp add: show_nat.simps)
  moreover have "length (show_nat 10) \<le> 4300" by (simp add: show_nat.simps [of 10] show_nat.simps [of "Suc 0"])
  ultimately show ?thesis
    by (simp add: sample_event_def format_decision_def decision_event_def default_decision_def add_threat_def
        LAYER_THREAT_MAP_def mitre_def ACTION_OUTCOME_MAP_def default_ecs_def ecs_printable_def
        ecs_strings_def short_int_def findings_of_def layer_rule_id_def risk_to_severity_def py_trunc_def
        u_append [symmetric])
qed

lemma file_shipper_delivers_witness:
  "\<exists>s s'. make_file_shipper 2 60 50 0 sound_disk = Some s \<and>
     s' = run_shipper (file_ship_batch zero_repr) [Ship 0 0 sample_event, Flush 1] s \<and>
     st_events_shipped (sh_stats s') + st_events_failed (sh_stats s') + length (sh_buffer s') = 1 \<and>
     (st_events_failed (sh_stats s') = 0 \<longrightarrow>
        read_ndjson 3 (file_stored (sh_backend s') @ ndjson zero_repr (sh_buffer s')) =
          [Some (PDict (ecs_to_dict sample_event))])"
proof -
  obtain s where s: "make_file_shipper 2 60 50 0 sound_disk = Some s"
    by (simp add: make_file_shipper_def make_shipper_def)
  have "distinct_seconds sound_disk" by (simp add: distinct_seconds_def sound_disk_def inj_def)
  from file_shipper_delivers [OF _ this s refl zero_repr_law, of
      3 "[Ship 0 0 sample_event, Flush 1]"] s ecs_doc_printable [OF sample_event_printable]
  show ?thesis by auto
qed

section \<open>Standard output\<close>

text \<open>What printing does at a batch: an error may leave part of the text behind.\<close>

record stdout_backend =
  so_text :: pystr
  so_calls :: nat
  so_world :: "nat \<Rightarrow> (nat \<times> pystr) option"

definition make_stdout_shipper :: "rat \<Rightarrow> (nat \<Rightarrow> (nat \<times> pystr) option) \<Rightarrow> stdout_backend shipper option" where
  "make_stdout_shipper now world =
     make_shipper 1 0 now \<lparr>so_text = [], so_calls = 0, so_world = world\<rparr>"

definition stdout_ship_batch :: "(rat \<Rightarrow> pystr) \<Rightarrow> stdout_backend batch_op" where
  "stdout_ship_batch fr b events =
    (case so_world b (so_calls b) of
       None \<Rightarrow> (True, None, b\<lparr>so_calls := Suc (so_calls b), so_text := so_text b @ ndjson fr events\<rparr>)
     | Some (k, m) \<Rightarrow>
         (False, Some m, b\<lparr>so_calls := Suc (so_calls b), so_text := so_text b @ take k (ndjson fr events)\<rparr>))"

interpretation stdout_log: log_backend "stdout_ship_batch fr" so_text fr "\<lambda>b. True" for fr
  by unfold_locales (auto simp: stdout_ship_batch_def split: option.splits)

text \<open>With a buffer of one event nothing ever waits: every decision is printed or counted as failed
  before \<open>ship\<close> returns.\<close>

lemma stdout_never_waits:
  assumes "make_stdout_shipper now world = Some s"
  shows "sh_buffer (run_shipper (stdout_ship_batch fr) ops s) = []"
proof -
  from stdout_log.run_delivers [of 1 0 now _ s fr ops] assms
  have "stdout_log.delivered fr \<lparr>so_text = [], so_calls = 0, so_world = world\<rparr> (op_docs ops)
      (run_shipper (stdout_ship_batch fr) ops s)"
    by (simp add: make_stdout_shipper_def)
  moreover have "sh_buffer_size (run_shipper (stdout_ship_batch fr) ops s) = 1"
  proof (induction ops rule: rev_induct)
    case Nil
    from assms show ?case by (auto simp: make_stdout_shipper_def make_shipper_def run_shipper_def)
  next
    case (snoc x ops)
    then show ?case by (simp add: run_shipper_def stdout_log.step_size)
  qed
  ultimately show ?thesis by (simp add: stdout_log.delivered_def)
qed

section \<open>Elasticsearch\<close>

text \<open>The outcome of the n-th request of a run: a \<open>URLError\<close>, another exception with its text, or the
  decoded body of the response.\<close>

datatype es_outcome = EsUrlError | EsOtherError pystr | EsReply pyval

record es_request =
  er_url :: pystr
  er_headers :: "(pystr \<times> pystr) list"
  er_body :: pystr

record es_backend =
  es_url :: pystr
  es_index_pattern :: pystr
  es_api_key :: pystr
  es_username :: pystr
  es_password :: pystr
  es_max_retries :: int
  es_requests :: "es_request list"
  es_sleeps :: "nat list"
  es_world :: "nat \<Rightarrow> es_outcome"
  es_today :: "nat \<Rightarrow> pystr"

text \<open>The exceptions of the client itself; their texts are a parameter.\<close>

datatype es_exn = EncodeExn | AttributeExn pyval

definition make_es_backend :: "pystr \<Rightarrow> pystr \<Rightarrow> pystr \<Rightarrow> pystr \<Rightarrow> pystr \<Rightarrow> int \<Rightarrow> (nat \<Rightarrow> es_outcome) \<Rightarrow>
    (nat \<Rightarrow> pystr) \<Rightarrow> es_backend" where
  "make_es_backend url index_pattern api_key username password max_retries world today =
     \<lparr>es_url = rev (dropWhile (\<lambda>c. c = 47) (rev url)), es_index_pattern = index_pattern,
      es_api_key = api_key, es_username = username, es_password = password,
      es_max_retries = max_retries, es_requests = [], es_sleeps = [], es_world = world,
      es_today = today\<rparr>"

function replace_date :: "pystr \<Rightarrow> pystr \<Rightarrow> pystr" where
  "replace_date today [] = []"
| "replace_date today (c # s) =
    (if starts_with (c # s) (u ''{date}'') then today @ replace_date today (drop 5 s)
     else c # replace_date today s)"
  by pat_completeness auto
termination by (relation "measure (\<lambda>(t, s). length s)") auto

definition get_index_name :: "es_backend \<Rightarrow> pystr" where
  "get_index_name b = replace_date (es_today b (length (es_requests b))) (es_index_pattern b)"

definition b64_char :: "nat \<Rightarrow> nat" where
  "b64_char n = (if n < 26 then 65 + n else if n < 52 then 71 + n else if n < 62 then n - 4
     else if n = 62 then 43 else 47)"

fun b64encode :: "pybytes \<Rightarrow> pystr" where
  "b64encode [] = []"
| "b64encode [a] = map b64_char [a div 4, a mod 4 * 16] @ [61, 61]"
| "b64encode [a, b] = map b64_char [a div 4, a mod 4 * 16 + b div 16, b mod 16 * 4] @ [61]"
| "b64encode (a # b # c # s) =
     map b64_char [a div 4, a mod 4 * 16 + b div 16, b mod 16 * 4 + c div 64, c mod 64] @ b64encode s"

definition build_headers :: "es_backend \<Rightarrow> (pystr \<times> pystr) list" where
  "build_headers b =
     [(u ''Content-Type'', u ''application/x-ndjson'')] @
     (if es_api_key b \<noteq> [] then [(u ''Authorization'', u ''ApiKey '' @ es_api_key b)] else [])"

definition bulk_body :: "(rat \<Rightarrow> pystr) \<Rightarrow> pystr \<Rightarrow> pyval list \<Rightarrow> pystr" where
  "bulk_body fr index_name events =
     join_with [10] (concat (map (\<lambda>event.
       [dumps fr default_style (PDict [(u ''index'', PDict [(u ''_index'', PStr index_name)])]),
        dumps fr default_style event]) events)) @ [10]"

text \<open>No request when the credentials cannot be encoded.\<close>

definition bulk_request :: "(rat \<Rightarrow> pystr) \<Rightarrow> pyval list \<Rightarrow> es_backend \<Rightarrow> es_request option" where
  "bulk_request fr events b =
    (let body = bulk_body fr (get_index_name b) events; url = es_url b @ u ''/_bulk''
     in if es_username b \<noteq> [] \<and> es_password b \<noteq> []
        then (case utf8_encode (es_username b @ [58] @ es_password b) of
            None \<Rightarrow> None
          | Some credentials \<Rightarrow> Some \<lparr>er_url = url,
              er_headers = dset (u ''Authorization'') (u ''Basic '' @ b64encode credentials) (build_headers b),
              er_body = body\<rparr>)
        else Some \<lparr>er_url = url, er_headers = build_headers b, er_body = body\<rparr>)"

text \<open>The loop over the attempts: the number of the attempt and how many are left.\<close>

fun es_attempts :: "(es_exn \<Rightarrow> pystr) \<Rightarrow> es_request option \<Rightarrow> nat \<Rightarrow> nat \<Rightarrow> es_backend \<Rightarrow>
    bool \<times> pystr option \<times> es_backend" where
  "es_attempts exn_text req attempt 0 b = (False, Some (u ''Max retries exceeded''), b)"
| "es_attempts exn_text req attempt (Suc n) b =
    (case req of
       None \<Rightarrow> (False, Some (exn_text EncodeExn), b)
     | Some r \<Rightarrow>
         (let b' = b\<lparr>es_requests := es_requests b @ [r]\<rparr>
          in case es_world b (length (es_requests b)) of
               EsUrlError \<Rightarrow> es_attempts exn_text req (Suc attempt) n
                 (if 0 < n then b'\<lparr>es_sleeps := es_sleeps b @ [2 ^ attempt]\<rparr> else b')
             | EsOtherError m \<Rightarrow> (False, Some m, b')
             | EsReply (PDict d) \<Rightarrow>
                 (\<not> truthy (dget_or d (u ''errors'') PNone), None, b')
             | EsReply v \<Rightarrow> (False, Some (exn_text (AttributeExn v)), b')))"

definition es_ship_batch :: "(es_exn \<Rightarrow> pystr) \<Rightarrow> (rat \<Rightarrow> pystr) \<Rightarrow> es_backend batch_op" where
  "es_ship_batch exn_text fr b events =
     es_attempts exn_text (bulk_request fr events b) 0 (nat (es_max_retries b)) b"

text \<open>A reply that acknowledges the batch.\<close>

definition acknowledged :: "es_outcome \<Rightarrow> bool" where
  "acknowledged w \<longleftrightarrow> (case w of EsReply (PDict d) \<Rightarrow> \<not> truthy (dget_or d (u ''errors'') PNone) | _ \<Rightarrow> False)"

lemma es_attempts_exact:
  "fst (es_attempts t (Some r) attempt n b) \<longleftrightarrow>
    (\<exists>i < n. list_all (\<lambda>j. es_world b (length (es_requests b) + j) = EsUrlError) [0..<i] \<and>
       acknowledged (es_world b (length (es_requests b) + i)))"
proof (induction n arbitrary: attempt b)
  case (Suc n)
  let ?k = "length (es_requests b)"
  have first: "(\<exists>i < Suc n. P i) \<longleftrightarrow> P 0 \<or> (\<exists>i < n. P (Suc i))" for P :: "nat \<Rightarrow> bool"
    by (rule Ex_less_Suc2)
  have shift: "list_all P [0..<Suc i] \<longleftrightarrow> P 0 \<and> list_all (\<lambda>j. P (Suc j)) [0..<i]" for P :: "nat \<Rightarrow> bool" and i
    by (simp add: upt_conv_Cons map_Suc_upt [symmetric] list.pred_map comp_def del: upt_Suc)
  show ?case
  proof (cases "es_world b ?k")
    case EsUrlError
    then show ?thesis
      by (subst first) (simp add: shift Suc.IH Let_def acknowledged_def del: upt_Suc)
  next
    case (EsReply v)
    then show ?thesis
      by (subst first) (cases v; simp add: shift acknowledged_def Let_def del: upt_Suc)
  next
    case (EsOtherError m)
    then show ?thesis
      by (subst first) (simp add: shift acknowledged_def Let_def del: upt_Suc)
  qed
qed simp

lemma es_attempts_bounded:
  "length (es_requests (snd (snd (es_attempts t req attempt n b)))) \<le> length (es_requests b) + n \<and>
   sum_list (es_sleeps (snd (snd (es_attempts t req attempt n b)))) + 2 ^ attempt \<le>
     sum_list (es_sleeps b) + 2 ^ (attempt + (n - 1))"
proof (induction n arbitrary: attempt b)
  case (Suc n)
  show ?case
  proof (cases req)
    case (Some r)
    let ?b = "b\<lparr>es_requests := es_requests b @ [r]\<rparr>"
    have pow: "(2 :: nat) ^ attempt \<le> 2 ^ (attempt + n)" by simp
    show ?thesis
    proof (cases "es_world b (length (es_requests b)) = EsUrlError")
      case True
      with Some Suc.IH [of "Suc attempt" "?b\<lparr>es_sleeps := es_sleeps b @ [2 ^ attempt]\<rparr>"] show ?thesis
        by (subst (1 2) es_attempts.simps(2), cases n)
          (simp_all add: Let_def del: es_attempts.simps(2))
    next
      case False
      with Some pow show ?thesis
        by (simp add: Let_def split: es_outcome.splits pyval.splits)
    qed
  qed simp
qed simp

text \<open>
  C39: A bulk request is repeated only after a \<open>URLError\<close>, and always ends: a batch of an
  \<open>ElasticsearchShipper\<close> takes at most \<open>max_retries\<close> requests and sleeps less than
  \<open>2 ^ (max_retries - 1)\<close> seconds in all; it succeeds exactly when some attempt is acknowledged
  without errors and all before it failed to connect.
\<close>

theorem es_retries_end:
  "(bulk_request fr events b \<noteq> None \<longrightarrow>
     (fst (es_ship_batch exn_text fr b events) \<longleftrightarrow>
       (\<exists>i < nat (es_max_retries b).
          list_all (\<lambda>j. es_world b (length (es_requests b) + j) = EsUrlError) [0..<i] \<and>
          acknowledged (es_world b (length (es_requests b) + i))))) \<and>
   length (es_requests (snd (snd (es_ship_batch exn_text fr b events)))) \<le>
     length (es_requests b) + nat (es_max_retries b) \<and>
   sum_list (es_sleeps (snd (snd (es_ship_batch exn_text fr b events)))) <
     sum_list (es_sleeps b) + 2 ^ (nat (es_max_retries b) - 1)"
  using es_attempts_bounded [of exn_text "bulk_request fr events b" 0 "nat (es_max_retries b)" b]
  by (auto simp: es_ship_batch_def es_attempts_exact)

definition sample_es :: es_backend where
  "sample_es = make_es_backend (u ''http://es'') (u ''i'') [] [] [] 3 (\<lambda>i. EsUrlError) (\<lambda>i. [])"

lemma es_retries_end_witness:
  "bulk_request zero_repr [] sample_es \<noteq> None \<and>
   (fst (es_ship_batch (\<lambda>e. []) zero_repr sample_es []) \<longleftrightarrow>
     (\<exists>i < nat (es_max_retries sample_es).
        list_all (\<lambda>j. es_world sample_es (length (es_requests sample_es) + j) = EsUrlError) [0..<i] \<and>
        acknowledged (es_world sample_es (length (es_requests sample_es) + i))))"
proof -
  have "bulk_request zero_repr [] sample_es \<noteq> None"
    by (simp add: bulk_request_def Let_def sample_es_def make_es_backend_def)
  with es_retries_end [of zero_repr "[]" sample_es "\<lambda>e. []"] show ?thesis by blast
qed

section \<open>Gaps\<close>

text \<open>A batch that fails is neither kept nor tried again at the next flush, and the file and standard
  output backends have no retry of their own.\<close>

lemma failed_batch_is_dropped:
  assumes "ship_batch (sh_backend s) (sh_buffer s) = (False, err, b')" "sh_buffer s \<noteq> []"
  shows "sh_buffer (snd (flush_shipper ship_batch now s)) = [] \<and>
    st_events_failed (sh_stats (snd (flush_shipper ship_batch now s))) =
      st_events_failed (sh_stats s) + length (sh_buffer s)"
  using assms by (cases err) (simp_all add: flush_shipper_def note_batch_def note_error_def)

text \<open>Two rotations within one second leave one rotated file: the second rename replaces the first.\<close>

lemma same_second_rotation_loses:
  assumes "fo_second w = fo_second w'" "\<not> fo_rename_fails w" "\<not> fo_rename_fails w'"
  shows "dget (fb_rotated (rotate_file w' new (rotate_file w old b))) (fo_second w) = Some new \<and>
    length (fb_rotated (rotate_file w' new (rotate_file w old b))) = length (fb_rotated (rotate_file w old b))"
proof -
  have "has_key d k \<Longrightarrow> length (dset k v d) = length d" for k v and d :: "(int \<times> pystr) list"
    by (induction d) (auto simp: has_key_def)
  with assms show ?thesis by (simp add: rotate_file_def)
qed

end
