(* ===== verification/SiemCorrelation.thy ===== *)
theory SiemCorrelation
  imports PyValues Greedy
begin

text \<open>
  \<open>siem/correlation.py\<close>: the correlation engine of the SIEM pipeline. It keeps a window of events
  per session and evaluates six built-in attack sequences on it. The clock reading of
  \<open>_expire_old_events\<close> and the one stamped on the matches of an ingest are arguments.
\<close>

section \<open>State\<close>

record security_event =
  se_timestamp :: rat
  se_event_type :: pystr
  se_tool_name :: pystr
  se_server_id :: pystr
  se_agent_id :: pystr
  se_session_id :: pystr
  se_enforcement_action :: pystr
  se_layer_name :: pystr
  se_risk_score :: int
  se_findings :: "pystr list"
  se_metadata :: pydict

record siem_match =
  sm_rule_id :: pystr
  sm_rule_name :: pystr
  sm_severity :: pystr
  sm_description :: pystr
  sm_matched_events :: "security_event list"
  sm_matched_at :: rat
  sm_mitre_tactic :: pystr
  sm_mitre_technique :: pystr

record siem_rule =
  sl_rule_id :: pystr
  sl_name :: pystr
  sl_description :: pystr
  sl_severity :: pystr
  sl_conditions :: "(security_event \<Rightarrow> bool) list"
  sl_window_seconds :: rat
  sl_mitre_tactic :: pystr
  sl_mitre_technique :: pystr
  sl_min_events :: nat

record siem_engine =
  si_window_seconds :: rat
  si_max_events :: int
  si_rules :: "siem_rule list"
  si_sessions :: "(pystr \<times> security_event list) list"
  si_global_events :: "security_event list"

section \<open>Operations\<close>

definition siem_rule_evaluate :: "rat \<Rightarrow> security_event list \<Rightarrow> siem_rule \<Rightarrow> siem_match option" where
  "siem_rule_evaluate stamp events r =
    (if length events < sl_min_events r then None
     else (case greedy (sl_conditions r) events of
         None \<Rightarrow> None
       | Some matched \<Rightarrow>
           if matched \<noteq> [] \<and> se_timestamp (last matched) - se_timestamp (hd matched) > sl_window_seconds r
           then None
           else Some \<lparr>sm_rule_id = sl_rule_id r, sm_rule_name = sl_name r, sm_severity = sl_severity r,
             sm_description = sl_description r, sm_matched_events = matched, sm_matched_at = stamp,
             sm_mitre_tactic = sl_mitre_tactic r, sm_mitre_technique = sl_mitre_technique r\<rparr>))"

definition make_siem :: "rat \<Rightarrow> int \<Rightarrow> siem_engine" where
  "make_siem window max_events =
     \<lparr>si_window_seconds = window, si_max_events = max_events, si_rules = [], si_sessions = [],
      si_global_events = []\<rparr>"

definition siem_add_rule :: "siem_rule \<Rightarrow> siem_engine \<Rightarrow> siem_engine" where
  "siem_add_rule r si = si\<lparr>si_rules := si_rules si @ [r]\<rparr>"

definition siem_add_rules :: "siem_rule list \<Rightarrow> siem_engine \<Rightarrow> siem_engine" where
  "siem_add_rules rs si = si\<lparr>si_rules := si_rules si @ rs\<rparr>"

definition session_key :: "security_event \<Rightarrow> pystr" where
  "session_key e =
    (if se_session_id e \<noteq> [] then se_session_id e
     else if se_agent_id e \<noteq> [] then se_agent_id e else u ''_global'')"

definition fresh_events :: "rat \<Rightarrow> siem_engine \<Rightarrow> security_event list \<Rightarrow> security_event list" where
  "fresh_events now si events =
    (let kept = filter (\<lambda>e. se_timestamp e > now - si_window_seconds si) events
     in if int (length kept) > si_max_events si then py_last (si_max_events si) kept else kept)"

definition expire_old_events :: "rat \<Rightarrow> pystr \<Rightarrow> siem_engine \<Rightarrow> siem_engine" where
  "expire_old_events now key si =
    (let kept = fresh_events now si (dget_or (si_sessions si) key [])
     in si\<lparr>si_sessions := (if kept = [] then dpop key (dset key kept (si_sessions si))
          else dset key kept (si_sessions si))\<rparr>)"

definition evaluate_session :: "rat \<Rightarrow> pystr \<Rightarrow> siem_engine \<Rightarrow> siem_match list" where
  "evaluate_session stamp key si =
    (let events = dget_or (si_sessions si) key []
     in if events = [] then [] else List.map_filter (siem_rule_evaluate stamp events) (si_rules si))"

definition siem_ingest :: "rat \<Rightarrow> rat \<Rightarrow> security_event \<Rightarrow> siem_engine \<Rightarrow> siem_match list \<times> siem_engine" where
  "siem_ingest now stamp e si =
    (let key = session_key e;
         si1 = si\<lparr>si_sessions := dset key (dget_or (si_sessions si) key [] @ [e]) (si_sessions si),
           si_global_events := si_global_events si @ [e]\<rparr>;
         si2 = expire_old_events now key si1
     in (evaluate_session stamp key si2, si2))"

definition evaluate_all :: "rat \<Rightarrow> rat \<Rightarrow> siem_engine \<Rightarrow> siem_match list \<times> siem_engine" where
  "evaluate_all now stamp si =
     foldl (\<lambda>(matches, si) key. let si' = expire_old_events now key si
         in (matches @ evaluate_session stamp key si', si'))
       ([], si) (map fst (si_sessions si))"

definition get_session_events :: "pystr \<Rightarrow> siem_engine \<Rightarrow> security_event list" where
  "get_session_events key si = dget_or (si_sessions si) key []"

definition get_active_sessions :: "siem_engine \<Rightarrow> pystr list" where
  "get_active_sessions si = map fst (filter (\<lambda>(k, v). v \<noteq> []) (si_sessions si))"

record siem_stats =
  ss_active_sessions :: nat
  ss_total_events :: nat
  ss_rules_loaded :: nat
  ss_window_seconds :: rat

definition siem_get_stats :: "siem_engine \<Rightarrow> siem_stats" where
  "siem_get_stats si =
     \<lparr>ss_active_sessions = length (si_sessions si),
      ss_total_events = sum_list (map (\<lambda>(k, v). length v) (si_sessions si)),
      ss_rules_loaded = length (si_rules si), ss_window_seconds = si_window_seconds si\<rparr>"

section \<open>Built-in rules\<close>

definition findings_text :: "security_event \<Rightarrow> pystr" where
  "findings_text e = py_lower (join_with (u '' '') (se_findings e))"

definition mentions :: "pystr \<Rightarrow> string list \<Rightarrow> bool" where
  "mentions s inds \<longleftrightarrow> list_ex (\<lambda>ind. contains s (u ind)) inds"

definition is_recon_event :: "security_event \<Rightarrow> bool" where
  "is_recon_event e \<longleftrightarrow> list_ex (\<lambda>ind. contains (py_lower (se_tool_name e)) (u ind) \<or> contains (findings_text e) (u ind))
     [''tools/list'', ''list_tools'', ''discover'', ''enumerate'']"

definition is_sensitive_access :: "security_event \<Rightarrow> bool" where
  "is_sensitive_access e \<longleftrightarrow> list_ex (\<lambda>ind. contains (py_lower (se_tool_name e)) (u ind) \<or> contains (findings_text e) (u ind))
     [''read_file'', ''get_secret'', ''database'', ''credentials'', ''pii'', ''sensitive'', ''password'', ''token'', ''key'']"

definition is_exfil_attempt :: "security_event \<Rightarrow> bool" where
  "is_exfil_attempt e \<longleftrightarrow> se_layer_name e = u ''network_egress''
     \<or> contains (findings_text e) (u ''exfiltration'')
     \<or> contains (findings_text e) (u ''hidden_recipient'')
     \<or> se_enforcement_action e \<in> {u ''block'', u ''deny''} \<and>
       mentions (findings_text e) [''bcc'', ''external'', ''raw_ip'', ''oversized'']"

definition is_injection_attempt :: "security_event \<Rightarrow> bool" where
  "is_injection_attempt e \<longleftrightarrow> contains (findings_text e) (u ''prompt_injection'')
     \<or> contains (py_lower (se_layer_name e)) (u ''injection'')
     \<or> list_ex (\<lambda>f. contains (py_lower f) (u ''injection'')) (se_findings e)"

definition is_privilege_escalation :: "security_event \<Rightarrow> bool" where
  "is_privilege_escalation e \<longleftrightarrow> se_layer_name e = u ''process_spawn''
     \<or> mentions (findings_text e) [''subprocess'', ''os.system'', ''cmd.exe'', ''bash'', ''shell'']"

definition is_server_trust_violation :: "security_event \<Rightarrow> bool" where
  "is_server_trust_violation e \<longleftrightarrow> se_layer_name e = u ''server_trust''
     \<or> contains (findings_text e) (u ''unregistered'')
     \<or> contains (findings_text e) (u ''shadow_server'')"

definition is_blocked :: "security_event \<Rightarrow> bool" where
  "is_blocked e \<longleftrightarrow> se_enforcement_action e \<in> {u ''block'', u ''deny'', u ''quarantine''}"

definition is_repeated_block :: "security_event \<Rightarrow> bool" where
  "is_repeated_block e \<longleftrightarrow> se_enforcement_action e \<in> {u ''block'', u ''deny''} \<and> se_risk_score e \<ge> 60"

definition RECON_TO_EXFIL_RULE :: siem_rule where
  "RECON_TO_EXFIL_RULE =
     \<lparr>sl_rule_id = u ''COR-001'', sl_name = u ''recon_sensitive_access_exfil'',
      sl_description = u ''Agent performed reconnaissance, accessed sensitive data, then attempted exfiltration within the correlation window.'',
      sl_severity = u ''critical'',
      sl_conditions = [is_recon_event, is_sensitive_access, is_exfil_attempt],
      sl_window_seconds = 300, sl_mitre_tactic = u ''TA0010'', sl_mitre_technique = u ''T1567'',
      sl_min_events = 3\<rparr>"

definition INJECTION_THEN_ESCALATION_RULE :: siem_rule where
  "INJECTION_THEN_ESCALATION_RULE =
     \<lparr>sl_rule_id = u ''COR-002'', sl_name = u ''injection_then_privilege_escalation'',
      sl_description = u ''Prompt injection attempt followed by process-spawn or privilege escalation attempt within the same session.'',
      sl_severity = u ''critical'',
      sl_conditions = [is_injection_attempt, is_privilege_escalation],
      sl_window_seconds = 120, sl_mitre_tactic = u ''TA0004'', sl_mitre_technique = u ''T1059'',
      sl_min_events = 2\<rparr>"

definition SHADOW_SERVER_EXFIL_RULE :: siem_rule where
  "SHADOW_SERVER_EXFIL_RULE =
     \<lparr>sl_rule_id = u ''COR-003'', sl_name = u ''shadow_server_then_exfil'',
      sl_description = u ''Connection to unregistered/shadow MCP server followed by exfiltration attempt. Indicates tool-call redirection attack.'',
      sl_severity = u ''critical'',
      sl_conditions = [is_server_trust_violation, is_exfil_attempt],
      sl_window_seconds = 180, sl_mitre_tactic = u ''TA0010'', sl_mitre_technique = u ''T1199'',
      sl_min_events = 2\<rparr>"

definition PERSISTENT_ATTACKER_RULE :: siem_rule where
  "PERSISTENT_ATTACKER_RULE =
     \<lparr>sl_rule_id = u ''COR-004'', sl_name = u ''persistent_blocked_attempts'',
      sl_description = u ''Multiple high-risk blocked attempts from the same session. Indicates an attacker probing for bypasses.'',
      sl_severity = u ''high'',
      sl_conditions = [is_repeated_block, is_repeated_block, is_repeated_block],
      sl_window_seconds = 60, sl_mitre_tactic = u ''TA0001'', sl_mitre_technique = u ''T1190'',
      sl_min_events = 3\<rparr>"

definition INJECTION_THEN_EXFIL_RULE :: siem_rule where
  "INJECTION_THEN_EXFIL_RULE =
     \<lparr>sl_rule_id = u ''COR-005'', sl_name = u ''injection_then_exfil'',
      sl_description = u ''Prompt injection attempt followed by data exfiltration attempt. Classic indirect prompt injection attack chain.'',
      sl_severity = u ''critical'',
      sl_conditions = [is_injection_attempt, is_exfil_attempt],
      sl_window_seconds = 180, sl_mitre_tactic = u ''TA0010'', sl_mitre_technique = u ''T1567'',
      sl_min_events = 2\<rparr>"

definition SENSITIVE_THEN_SHADOW_RULE :: siem_rule where
  "SENSITIVE_THEN_SHADOW_RULE =
     \<lparr>sl_rule_id = u ''COR-006'', sl_name = u ''sensitive_access_then_shadow_server'',
      sl_description = u ''Agent accessed sensitive data then connected to an unregistered MCP server. Possible data staging.'',
      sl_severity = u ''high'',
      sl_conditions = [is_sensitive_access, is_server_trust_violation],
      sl_window_seconds = 120, sl_mitre_tactic = u ''TA0009'', sl_mitre_technique = u ''T1074'',
      sl_min_events = 2\<rparr>"

definition BUILTIN_RULES :: "siem_rule list" where
  "BUILTIN_RULES = [RECON_TO_EXFIL_RULE, INJECTION_THEN_ESCALATION_RULE, SHADOW_SERVER_EXFIL_RULE,
     PERSISTENT_ATTACKER_RULE, INJECTION_THEN_EXFIL_RULE, SENSITIVE_THEN_SHADOW_RULE]"

section \<open>The window of a session\<close>

text \<open>A history of ingests, each with its clock reading.\<close>

definition run_siem :: "(rat \<times> security_event) list \<Rightarrow> siem_engine \<Rightarrow> siem_engine" where
  "run_siem steps si = foldl (\<lambda>si (now, e). snd (siem_ingest now now e si)) si steps"

definition session_events :: "pystr \<Rightarrow> (rat \<times> security_event) list \<Rightarrow> (rat \<times> security_event) list" where
  "session_events key steps = filter (\<lambda>(now, e). session_key e = key) steps"

definition newer_than :: "rat \<Rightarrow> security_event list \<Rightarrow> security_event list" where
  "newer_than cutoff es = filter (\<lambda>e. se_timestamp e > cutoff) es"

lemma ingest_params [simp]:
  "si_window_seconds (snd (siem_ingest now stamp e si)) = si_window_seconds si"
  "si_max_events (snd (siem_ingest now stamp e si)) = si_max_events si"
  "si_rules (snd (siem_ingest now stamp e si)) = si_rules si"
  by (simp_all add: siem_ingest_def expire_old_events_def Let_def)

lemma engine_params [simp]:
  "si_window_seconds (siem_add_rules rs si) = si_window_seconds si"
  "si_max_events (siem_add_rules rs si) = si_max_events si"
  "si_rules (siem_add_rules rs si) = si_rules si @ rs"
  "si_window_seconds (make_siem w n) = w" "si_max_events (make_siem w n) = n" "si_rules (make_siem w n) = []"
  by (simp_all add: siem_add_rules_def make_siem_def)

lemma run_siem_snoc: "run_siem (steps @ [(now, e)]) si = snd (siem_ingest now now e (run_siem steps si))"
  by (simp add: run_siem_def)

lemma run_siem_params [simp]:
  "si_window_seconds (run_siem steps si) = si_window_seconds si \<and>
   si_max_events (run_siem steps si) = si_max_events si \<and> si_rules (run_siem steps si) = si_rules si"
  by (induction steps rule: rev_induct) (auto simp: run_siem_snoc, simp_all add: run_siem_def)

lemma get_after_expire:
  "get_session_events k (expire_old_events now key si) =
     (if k = key then fresh_events now si (get_session_events key si) else get_session_events k si)"
  by (auto simp: get_session_events_def expire_old_events_def Let_def dget_or_def)

lemma get_after_ingest:
  "get_session_events k (snd (siem_ingest now stamp e si)) =
     (if k = session_key e then fresh_events now si (get_session_events k si @ [e])
      else get_session_events k si)"
  by (simp add: siem_ingest_def Let_def get_after_expire)
    (simp add: get_session_events_def fresh_events_def dget_or_def Let_def)

lemma fresh_events_eq:
  "0 < si_max_events si \<Longrightarrow>
   fresh_events now si es = last_n (nat (si_max_events si)) (newer_than (now - si_window_seconds si) es)"
  by (auto simp: fresh_events_def Let_def newer_than_def py_last_pos last_n_def)

text \<open>On events in the order of their time stamps the cap and the expiry commute.\<close>

lemma newer_last_n:
  assumes "sorted (map se_timestamp es)"
  shows "last_n n (newer_than c (last_n n es)) = last_n n (newer_than c es)"
proof -
  obtain ys where ys: "es = ys @ last_n n es" by (metis last_n_suffix)
  show ?thesis
  proof (cases "newer_than c ys = []")
    case True
    then have "newer_than c es = newer_than c (last_n n es)"
      using ys by (metis append_Nil filter_append newer_than_def)
    then show ?thesis by simp
  next
    case False
    then obtain y where y: "y \<in> set ys" "se_timestamp y > c"
      by (auto simp: newer_than_def filter_empty_conv)
    have "sorted (map se_timestamp ys @ map se_timestamp (last_n n es))"
      using assms ys by (metis map_append)
    then have "\<forall>e \<in> set (last_n n es). se_timestamp y \<le> se_timestamp e"
      using y(1) by (auto simp: sorted_append)
    then have all: "newer_than c (last_n n es) = last_n n es"
      using y(2) by (auto simp: newer_than_def filter_id_conv)
    have len: "length (last_n n es) = n"
      using y(1) ys by (cases "n \<le> length es") (auto simp: last_n_def)
    have "newer_than c es = newer_than c ys @ last_n n es"
      using ys all by (metis filter_append newer_than_def)
    then have "last_n n (newer_than c es) = last_n n es"
      using len by (simp add: last_n_def)
    with all show ?thesis by (metis append_Nil2 last_n_append)
  qed
qed

lemma newer_newer: "c \<le> d \<Longrightarrow> newer_than d (newer_than c es) = newer_than d es"
  by (auto simp: newer_than_def intro!: filter_cong)

lemma sorted_newer: "sorted (map se_timestamp es) \<Longrightarrow> sorted (map se_timestamp (newer_than c es))"
  by (simp add: newer_than_def sorted_filter)

lemma window_step:
  assumes "sorted (map se_timestamp es)" "c \<le> d"
  shows "last_n n (newer_than d (last_n n (newer_than c es) @ [e])) = last_n n (newer_than d (es @ [e]))"
proof -
  have split: "newer_than d (a @ b) = newer_than d a @ newer_than d b" for a b
    by (simp add: newer_than_def)
  have "last_n n (newer_than d (last_n n (newer_than c es) @ [e])) =
      last_n n (last_n n (newer_than d (last_n n (newer_than c es))) @ newer_than d [e])"
    by (simp add: split last_n_append)
  also have "\<dots> = last_n n (newer_than d es @ newer_than d [e])"
    using newer_last_n [OF sorted_newer [OF assms(1)]] newer_newer [OF assms(2)]
    by (simp add: last_n_append)
  finally show ?thesis by (simp add: split)
qed

text \<open>The clock and the time stamps of a session do not go back.\<close>

definition in_order :: "(rat \<times> security_event) list \<Rightarrow> bool" where
  "in_order steps \<longleftrightarrow> sorted (map fst steps) \<and> sorted (map (\<lambda>x. se_timestamp (snd x)) steps)"

definition window_spec :: "rat \<Rightarrow> int \<Rightarrow> (rat \<times> security_event) list \<Rightarrow> security_event list" where
  "window_spec window max_events own =
    (if own = [] then []
     else last_n (nat max_events) (newer_than (fst (last own) - window) (map snd own)))"

lemma run_siem_window:
  assumes "0 < max_events" "in_order steps"
  shows "get_session_events k (run_siem steps (siem_add_rules rs (make_siem window max_events))) =
    window_spec window max_events (session_events k steps)"
  using assms(2)
proof (induction steps rule: rev_induct)
  case Nil
  show ?case
    by (simp add: run_siem_def window_spec_def session_events_def get_session_events_def make_siem_def
        siem_add_rules_def dget_or_def)
next
  case (snoc x steps)
  obtain now e where x: "x = (now, e)" by fastforce
  let ?si = "siem_add_rules rs (make_siem window max_events)"
  let ?own = "session_events k steps"
  from snoc.prems have order: "in_order steps"
    by (auto simp: in_order_def sorted_append)
  have params: "si_window_seconds ?si = window" "si_max_events ?si = max_events"
    by (simp_all add: siem_add_rules_def make_siem_def)
  note IH = snoc.IH [OF order]
  show ?case
  proof (cases "session_key e = k")
    case False
    then show ?thesis using IH x
      by (simp add: run_siem_snoc get_after_ingest session_events_def)
  next
    case True
    then have own: "session_events k (steps @ [x]) = ?own @ [(now, e)]"
      using x by (simp add: session_events_def)
    have sorted: "sorted (map se_timestamp (map snd ?own))"
      using order sorted_filter [of "\<lambda>x. se_timestamp (snd x)" steps]
      by (simp add: in_order_def session_events_def comp_def)
    have earlier: "fst (last ?own) - window \<le> now - window" if "?own \<noteq> []"
    proof -
      have "last ?own \<in> set steps" using last_in_set [OF that] by (auto simp: session_events_def)
      with snoc.prems x show ?thesis by (auto simp: in_order_def sorted_append)
    qed
    have "get_session_events k (run_siem (steps @ [x]) ?si) =
        last_n (nat max_events) (newer_than (now - window) (window_spec window max_events ?own @ [e]))"
      using True x IH assms(1) run_siem_params [of steps ?si] params
      by (simp add: run_siem_snoc get_after_ingest fresh_events_eq)
    also have "\<dots> = last_n (nat max_events) (newer_than (now - window) (map snd ?own @ [e]))"
      using window_step [OF sorted earlier] by (cases "?own = []") (simp_all add: window_spec_def)
    finally show ?thesis by (simp add: own window_spec_def)
  qed
qed

section \<open>What an alert means\<close>

lemma rule_evaluate_Some:
  "siem_rule_evaluate stamp es r = Some m \<longleftrightarrow>
    (\<exists>ms. sl_min_events r \<le> length es \<and> greedy (sl_conditions r) es = Some ms \<and>
       (ms \<noteq> [] \<longrightarrow> se_timestamp (last ms) - se_timestamp (hd ms) \<le> sl_window_seconds r) \<and>
       m = \<lparr>sm_rule_id = sl_rule_id r, sm_rule_name = sl_name r, sm_severity = sl_severity r,
         sm_description = sl_description r, sm_matched_events = ms, sm_matched_at = stamp,
         sm_mitre_tactic = sl_mitre_tactic r, sm_mitre_technique = sl_mitre_technique r\<rparr>)"
  by (auto simp: siem_rule_evaluate_def not_less split: option.splits)

lemma ingest_matches:
  "m \<in> set (fst (siem_ingest now stamp e si)) \<longleftrightarrow>
    (get_session_events (session_key e) (snd (siem_ingest now stamp e si)) \<noteq> [] \<and>
     (\<exists>r \<in> set (si_rules si). siem_rule_evaluate stamp
        (get_session_events (session_key e) (snd (siem_ingest now stamp e si))) r = Some m))"
proof -
  have "fst (siem_ingest now stamp e si) =
      evaluate_session stamp (session_key e) (snd (siem_ingest now stamp e si))"
    by (simp add: siem_ingest_def Let_def)
  then show ?thesis
    by (simp add: evaluate_session_def get_session_events_def Let_def in_map_filter)
qed

text \<open>
  Every match names a rule of the engine; its events lie in the session's window in this order, meet
  the stages of the rule one by one, and span no more than the rule's window.
\<close>

theorem siem_match_sound:
  assumes "m \<in> set (fst (siem_ingest now stamp e si))"
  shows "\<exists>r \<in> set (si_rules si). sm_rule_id m = sl_rule_id r \<and> sm_severity m = sl_severity r \<and>
    subseq (sm_matched_events m) (get_session_events (session_key e) (snd (siem_ingest now stamp e si))) \<and>
    stages (sl_conditions r) (sm_matched_events m) \<and>
    (sm_matched_events m \<noteq> [] \<longrightarrow>
      se_timestamp (last (sm_matched_events m)) - se_timestamp (hd (sm_matched_events m)) \<le> sl_window_seconds r)"
  using assms by (fastforce simp: ingest_matches rule_evaluate_Some dest: greedy_sound)

text \<open>When the whole session fits in the rule's window the time check never refuses.\<close>

lemma rule_evaluate_iff:
  assumes "sl_conditions r \<noteq> []" "sl_min_events r \<le> length (sl_conditions r)"
    "\<And>a b. a \<in> set es \<Longrightarrow> b \<in> set es \<Longrightarrow> se_timestamp b - se_timestamp a \<le> sl_window_seconds r"
  shows "siem_rule_evaluate stamp es r \<noteq> None \<longleftrightarrow> (\<exists>ms. subseq ms es \<and> stages (sl_conditions r) ms)"
proof -
  have fits: "sl_min_events r \<le> length es \<and>
      (ms \<noteq> [] \<longrightarrow> se_timestamp (last ms) - se_timestamp (hd ms) \<le> sl_window_seconds r)"
    if "greedy (sl_conditions r) es = Some ms" for ms
  proof -
    have "set ms \<subseteq> set es"
      using greedy_sound [OF that] by (auto dest: list_emb_set)
    then have "se_timestamp (last ms) - se_timestamp (hd ms) \<le> sl_window_seconds r" if "ms \<noteq> []"
      using that by (intro assms(3)) auto
    then show ?thesis
      using greedy_needs_length [OF that] assms(2) by simp
  qed
  have "siem_rule_evaluate stamp es r \<noteq> None \<longleftrightarrow> greedy (sl_conditions r) es \<noteq> None"
    using fits by (auto simp: rule_evaluate_Some)
  then show ?thesis by (simp add: greedy_iff del: not_None_eq)
qed

definition siem_event :: "rat \<Rightarrow> pystr \<Rightarrow> pystr \<Rightarrow> int \<Rightarrow> security_event" where
  "siem_event t tool action risk =
     \<lparr>se_timestamp = t, se_event_type = u ''block'', se_tool_name = tool, se_server_id = [],
      se_agent_id = [], se_session_id = u ''s'', se_enforcement_action = action, se_layer_name = [],
      se_risk_score = risk, se_findings = [], se_metadata = []\<rparr>"

definition probing :: "rat \<Rightarrow> security_event" where
  "probing t = siem_event t (u ''run'') (u ''block'') 70"

lemma probing_block [simp]: "is_repeated_block (probing t)"
  by (simp add: probing_def siem_event_def is_repeated_block_def)

lemma probing_time [simp]: "se_timestamp (probing t) = t"
  by (simp add: probing_def siem_event_def)

lemma probing_key [simp]: "session_key (probing t) = u ''s''"
  by (simp add: probing_def siem_event_def session_key_def)

text \<open>
  C34: After any history whose clock and time stamps do not go back, an ingest raises an alert of a rule with
  given events exactly when: the session's window (its last \<open>max_events\<close> events, none older than the engine's
  window) has at least \<open>min_events\<close> events, the given ones stand at the earliest places of the window that meet
  the stages of the rule in order, and they span no more than the rule's own window. Events of other sessions
  play no part. It is the earliest places that count: a later match within the rule's window raises nothing
  when the earliest one is too long.
\<close>

theorem siem_alert_iff:
  assumes "0 < max_events" "in_order (steps @ [(now, e)])"
    "r \<in> set rs" "\<forall>r' \<in> set rs. sl_rule_id r' = sl_rule_id r \<longrightarrow> r' = r"
    "W = window_spec window max_events (session_events (session_key e) (steps @ [(now, e)]))"
  shows "(\<exists>m \<in> set (fst (siem_ingest now now e (run_siem steps (siem_add_rules rs (make_siem window max_events))))).
      sm_rule_id m = sl_rule_id r \<and> sm_matched_events m = ms) \<longleftrightarrow>
    W \<noteq> [] \<and> sl_min_events r \<le> length W \<and>
    (\<exists>is. first_places 0 (sl_conditions r) W is \<and> ms = map ((!) W) is) \<and>
    (ms \<noteq> [] \<longrightarrow> se_timestamp (last ms) - se_timestamp (hd ms) \<le> sl_window_seconds r)"
proof -
  let ?si = "siem_add_rules rs (make_siem window max_events)"
  have W: "get_session_events (session_key e) (snd (siem_ingest now now e (run_siem steps ?si))) = W"
    using run_siem_window [OF assms(1,2)] assms(5) by (simp add: run_siem_snoc)
  have out: "m \<in> set (fst (siem_ingest now now e (run_siem steps ?si))) \<longleftrightarrow>
      W \<noteq> [] \<and> (\<exists>r' \<in> set rs. siem_rule_evaluate now W r' = Some m)" for m
    unfolding ingest_matches W by simp
  have names: "sm_rule_id m = sl_rule_id r'" if "siem_rule_evaluate now W r' = Some m" for m r'
    using that by (auto simp: rule_evaluate_Some)
  have "(\<exists>m \<in> set (fst (siem_ingest now now e (run_siem steps ?si))).
      sm_rule_id m = sl_rule_id r \<and> sm_matched_events m = ms) \<longleftrightarrow>
    W \<noteq> [] \<and> (\<exists>m. siem_rule_evaluate now W r = Some m \<and> sm_matched_events m = ms)"
    unfolding Bex_def out using names assms(3,4) by metis
  also have "\<dots> \<longleftrightarrow> W \<noteq> [] \<and> sl_min_events r \<le> length W \<and> greedy (sl_conditions r) W = Some ms \<and>
    (ms \<noteq> [] \<longrightarrow> se_timestamp (last ms) - se_timestamp (hd ms) \<le> sl_window_seconds r)"
    by (auto simp: rule_evaluate_Some)
  finally show ?thesis using greedy_places [of "sl_conditions r" 0 W ms] by simp
qed

lemma siem_alert_iff_witness:
  "\<exists>m \<in> set (fst (siem_ingest 120 120 (probing 120)
      (run_siem [(100, probing 100), (110, probing 110)]
        (siem_add_rules [PERSISTENT_ATTACKER_RULE] (make_siem 300 1000))))).
    sm_rule_id m = sl_rule_id PERSISTENT_ATTACKER_RULE \<and>
    sm_matched_events m = [probing 100, probing 110, probing 120]"
proof -
  let ?W = "[probing 100, probing 110, probing 120]"
  have W: "?W = window_spec 300 1000 (session_events (session_key (probing 120))
      ([(100, probing 100), (110, probing 110)] @ [(120, probing 120)]))"
    by (simp add: window_spec_def session_events_def newer_than_def last_n_def)
  show ?thesis
    by (subst siem_alert_iff [OF _ _ _ _ W])
      (auto simp: in_order_def PERSISTENT_ATTACKER_RULE_def intro!: exI [of _ "[0, 1, 2]"])
qed

section \<open>Gaps\<close>

text \<open>The search stops at the earliest match and checks the time span afterwards: one old block hides
  the three blocks within twenty seconds that follow it.\<close>

lemma old_block_hides_burst:
  "siem_rule_evaluate now [probing 0, probing 100, probing 110, probing 120] PERSISTENT_ATTACKER_RULE = None \<and>
   siem_rule_evaluate now [probing 100, probing 110, probing 120] PERSISTENT_ATTACKER_RULE \<noteq> None"
  by (simp add: siem_rule_evaluate_def PERSISTENT_ATTACKER_RULE_def)

text \<open>A match is reported again at every later ingest of its session, whatever the new event is.\<close>

lemma match_is_repeated:
  "siem_rule_evaluate stamp es r = Some m \<Longrightarrow> siem_rule_evaluate stamp (es @ [e]) r = Some m"
  by (auto simp: rule_evaluate_Some greedy_stable)

text \<open>The list of all events is never shortened.\<close>

lemma global_events_grow: "si_global_events (run_siem steps si) = si_global_events si @ map snd steps"
  by (induction steps rule: rev_induct)
    (auto simp: run_siem_snoc siem_ingest_def expire_old_events_def Let_def, simp add: run_siem_def)

text \<open>A session id, an agent id and the shared key of anonymous events live in one name space.\<close>

lemma session_key_ambiguous:
  "se_session_id e = k \<Longrightarrow> k \<noteq> [] \<Longrightarrow> se_session_id e' = [] \<Longrightarrow> se_agent_id e' = k \<Longrightarrow>
   session_key e = session_key e'"
  by (simp add: session_key_def)

end
