(* ===== verification/DetectionLifecycle.thy ===== *)
theory DetectionLifecycle
  imports SiemCorrelation "HOL-Library.List_Lexorder"
begin

text \<open>
  \<open>siem/lifecycle.py\<close>: the coverage matrix of the detection rules and the precision and recall of
  the built-in rules on the labelled fixtures. The parsed Elastic rules, the start time and the clock are
  arguments; averages are exact rationals. Markdown, the latency benchmark and the artifact files are
  left out.
\<close>

section \<open>Coverage matrix\<close>

definition TACTIC_NAMES :: "(pystr \<times> pystr) list" where
  "TACTIC_NAMES = [(u ''TA0001'', u ''Initial Access''), (u ''TA0002'', u ''Execution''),
     (u ''TA0004'', u ''Privilege Escalation''), (u ''TA0009'', u ''Collection''),
     (u ''TA0010'', u ''Exfiltration''), (u ''TA0043'', u ''Reconnaissance'')]"

definition TECHNIQUE_NAMES :: "(pystr \<times> pystr) list" where
  "TECHNIQUE_NAMES = [(u ''T1005'', u ''Data from Local System''),
     (u ''T1059'', u ''Command and Scripting Interpreter''), (u ''T1074'', u ''Data Staged''),
     (u ''T1190'', u ''Exploit Public-Facing Application''), (u ''T1199'', u ''Trusted Relationship''),
     (u ''T1567'', u ''Exfiltration Over Web Service''), (u ''T1595'', u ''Active Scanning'')]"

definition ATLAS_CROSSREF :: "(pystr \<times> pystr) list" where
  "ATLAS_CROSSREF = [(u ''T1059'', u ''AML.T0051 (LLM Prompt Injection)''),
     (u ''T1567'', u ''AML.T0024 (Exfiltration via ML Inference API)''),
     (u ''T1074'', u ''AML.T0035 (ML Artifact Collection)''),
     (u ''T1005'', u ''AML.T0035 (ML Artifact Collection)'')]"

record coverage_entry =
  cv_source :: pystr
  cv_rule_id :: pystr
  cv_rule_name :: pystr
  cv_severity :: pystr
  cv_tactic_id :: pystr
  cv_tactic_name :: pystr
  cv_technique_id :: pystr
  cv_technique_name :: pystr
  cv_atlas :: pystr

text \<open>A parsed Elastic rule: each table as its optional keys.\<close>

type_synonym mitre_ref = "pystr option \<times> pystr option"

record elastic_threat =
  et_tactic :: "mitre_ref option"
  et_techniques :: "mitre_ref list"

record elastic_rule =
  el_name :: "pystr option"
  el_severity :: "pystr option"
  el_threat :: "elastic_threat list"

definition or_empty :: "pystr option \<Rightarrow> pystr" where
  "or_empty s = (case s of None \<Rightarrow> [] | Some t \<Rightarrow> t)"

definition first_threat_mapping :: "elastic_rule \<Rightarrow> pystr \<times> pystr \<times> pystr \<times> pystr" where
  "first_threat_mapping r =
    (case el_threat r of
       [] \<Rightarrow> ([], [], [], [])
     | t # _ \<Rightarrow>
         (let (tactic_id, tactic_name) = (case et_tactic t of None \<Rightarrow> (None, None) | Some ref \<Rightarrow> ref);
              (tech_id, tech_name) = (case et_techniques t of [] \<Rightarrow> (None, None) | ref # _ \<Rightarrow> ref)
          in (or_empty tactic_id, or_empty tactic_name, or_empty tech_id, or_empty tech_name)))"

definition correlation_entry :: "siem_rule \<Rightarrow> coverage_entry" where
  "correlation_entry r =
     \<lparr>cv_source = u ''correlation'', cv_rule_id = sl_rule_id r, cv_rule_name = sl_name r,
      cv_severity = sl_severity r, cv_tactic_id = sl_mitre_tactic r,
      cv_tactic_name = dget_or TACTIC_NAMES (sl_mitre_tactic r) [],
      cv_technique_id = sl_mitre_technique r,
      cv_technique_name = dget_or TECHNIQUE_NAMES (sl_mitre_technique r) [],
      cv_atlas = dget_or ATLAS_CROSSREF (sl_mitre_technique r) []\<rparr>"

definition elastic_entry :: "elastic_rule \<Rightarrow> coverage_entry" where
  "elastic_entry r =
    (let (tac_id, tac_name, tech_id, tech_name) = first_threat_mapping r
     in \<lparr>cv_source = u ''elastic'', cv_rule_id = or_empty (el_name r), cv_rule_name = or_empty (el_name r),
         cv_severity = or_empty (el_severity r), cv_tactic_id = tac_id,
         cv_tactic_name = (if tac_name \<noteq> [] then tac_name else dget_or TACTIC_NAMES tac_id []),
         cv_technique_id = tech_id,
         cv_technique_name = (if tech_name \<noteq> [] then tech_name else dget_or TECHNIQUE_NAMES tech_id []),
         cv_atlas = dget_or ATLAS_CROSSREF tech_id []\<rparr>)"

record coverage_matrix =
  mx_correlation_rule_count :: nat
  mx_elastic_rule_count :: nat
  mx_entries :: "coverage_entry list"
  mx_referenced :: "pystr list"
  mx_covered :: "pystr list"
  mx_not_covered :: "pystr list"
  mx_unmapped_rules :: "(pystr \<times> pystr \<times> pystr) list"

definition from_source :: "string \<Rightarrow> coverage_entry list \<Rightarrow> nat" where
  "from_source src entries = length (filter (\<lambda>e. cv_source e = u src) entries)"

definition build_coverage_matrix :: "elastic_rule list \<Rightarrow> siem_rule list \<Rightarrow> coverage_matrix" where
  "build_coverage_matrix elastic rules =
    (let entries = map correlation_entry rules @ map elastic_entry elastic;
         referenced = sorted_list_of_set (set (map cv_technique_id (filter (\<lambda>e. cv_technique_id e \<noteq> []) entries)));
         covered = sorted_list_of_set (set (map cv_technique_id
           (filter (\<lambda>e. cv_technique_id e \<noteq> [] \<and> cv_source e \<in> {u ''correlation'', u ''elastic''}) entries)))
     in \<lparr>mx_correlation_rule_count = from_source ''correlation'' entries,
         mx_elastic_rule_count = from_source ''elastic'' entries,
         mx_entries = entries, mx_referenced = referenced, mx_covered = covered,
         mx_not_covered = filter (\<lambda>t. t \<notin> set covered) referenced,
         mx_unmapped_rules = map (\<lambda>e. (cv_source e, cv_rule_id e, cv_rule_name e))
           (filter (\<lambda>e. cv_technique_id e = []) entries)\<rparr>)"

section \<open>Labelled fixtures\<close>

text \<open>The keys an event of a fixture may give; the rest are defaults.\<close>

record event_spec =
  ev_tool_name :: "pystr option"
  ev_enforcement_action :: "pystr option"
  ev_layer_name :: "pystr option"
  ev_risk_score :: "int option"
  ev_findings :: "pystr list option"
  ev_offset :: "rat option"

definition spec :: event_spec where
  "spec = \<lparr>ev_tool_name = None, ev_enforcement_action = None, ev_layer_name = None,
     ev_risk_score = None, ev_findings = None, ev_offset = None\<rparr>"

record labeled_sequence =
  lq_seq_id :: pystr
  lq_label :: pystr
  lq_description :: pystr
  lq_events :: "event_spec list"
  lq_expected_rules :: "pystr list"

fun or_default :: "'a \<Rightarrow> 'a option \<Rightarrow> 'a" where
  "or_default d None = d"
| "or_default d (Some x) = x"

definition mk_event :: "pystr \<Rightarrow> rat \<Rightarrow> rat \<Rightarrow> event_spec \<Rightarrow> security_event" where
  "mk_event session_id offset base_ts ev =
     \<lparr>se_timestamp = base_ts + offset, se_event_type = u ''block'',
      se_tool_name = or_default [] (ev_tool_name ev), se_server_id = [], se_agent_id = session_id,
      se_session_id = session_id,
      se_enforcement_action = or_default (u ''block'') (ev_enforcement_action ev),
      se_layer_name = or_default [] (ev_layer_name ev), se_risk_score = or_default 50 (ev_risk_score ev),
      se_findings = or_default [] (ev_findings ev), se_metadata = []\<rparr>"

definition events_from_sequence :: "labeled_sequence \<Rightarrow> rat \<Rightarrow> security_event list" where
  "events_from_sequence seq base_ts =
     map (\<lambda>(i, ev). mk_event (lq_seq_id seq) (or_default (of_nat i) (ev_offset ev)) base_ts ev)
       (zip [0..<length (lq_events seq)] (lq_events seq))"

definition malicious_sequences :: "labeled_sequence list" where
  "malicious_sequences =
    [\<lparr>lq_seq_id = u ''mal-cor001'', lq_label = u ''malicious'',
      lq_description = u ''recon (tools/list) -> sensitive read -> network egress exfil'',
      lq_events = [
        spec\<lparr>ev_tool_name := Some (u ''tools/list''), ev_findings := Some [u ''discover''],
          ev_enforcement_action := Some (u ''allow'')\<rparr>,
        spec\<lparr>ev_tool_name := Some (u ''read_file''), ev_findings := Some [u ''sensitive''], ev_offset := Some 5\<rparr>,
        spec\<lparr>ev_tool_name := Some (u ''email.send''), ev_layer_name := Some (u ''network_egress''),
          ev_findings := Some [u ''exfiltration'', u ''hidden_recipient''], ev_offset := Some 10\<rparr>],
      lq_expected_rules = [u ''COR-001'']\<rparr>,
     \<lparr>lq_seq_id = u ''mal-cor002'', lq_label = u ''malicious'',
      lq_description = u ''prompt injection -> process spawn'',
      lq_events = [
        spec\<lparr>ev_findings := Some [u ''prompt_injection detected'']\<rparr>,
        spec\<lparr>ev_layer_name := Some (u ''process_spawn''), ev_findings := Some [u ''subprocess''],
          ev_offset := Some 5\<rparr>],
      lq_expected_rules = [u ''COR-002'']\<rparr>,
     \<lparr>lq_seq_id = u ''mal-cor003'', lq_label = u ''malicious'',
      lq_description = u ''shadow/unregistered server -> exfil'',
      lq_events = [
        spec\<lparr>ev_layer_name := Some (u ''server_trust''),
          ev_findings := Some [u ''unregistered'', u ''shadow_server'']\<rparr>,
        spec\<lparr>ev_layer_name := Some (u ''network_egress''), ev_findings := Some [u ''exfiltration''],
          ev_offset := Some 5\<rparr>],
      lq_expected_rules = [u ''COR-003'']\<rparr>,
     \<lparr>lq_seq_id = u ''mal-cor004'', lq_label = u ''malicious'',
      lq_description = u ''three high-risk blocks in quick succession'',
      lq_events = [
        spec\<lparr>ev_enforcement_action := Some (u ''block''), ev_risk_score := Some 70\<rparr>,
        spec\<lparr>ev_enforcement_action := Some (u ''deny''), ev_risk_score := Some 80, ev_offset := Some 1\<rparr>,
        spec\<lparr>ev_enforcement_action := Some (u ''block''), ev_risk_score := Some 65, ev_offset := Some 2\<rparr>],
      lq_expected_rules = [u ''COR-004'']\<rparr>,
     \<lparr>lq_seq_id = u ''mal-cor005'', lq_label = u ''malicious'',
      lq_description = u ''prompt injection -> exfil (indirect injection chain)'',
      lq_events = [
        spec\<lparr>ev_findings := Some [u ''prompt_injection'']\<rparr>,
        spec\<lparr>ev_layer_name := Some (u ''network_egress''), ev_findings := Some [u ''exfiltration''],
          ev_offset := Some 5\<rparr>],
      lq_expected_rules = [u ''COR-005'']\<rparr>,
     \<lparr>lq_seq_id = u ''mal-cor006'', lq_label = u ''malicious'',
      lq_description = u ''sensitive data access -> unregistered server (staging)'',
      lq_events = [
        spec\<lparr>ev_tool_name := Some (u ''get_secret''), ev_findings := Some [u ''credentials'']\<rparr>,
        spec\<lparr>ev_layer_name := Some (u ''server_trust''), ev_findings := Some [u ''unregistered''],
          ev_offset := Some 5\<rparr>],
      lq_expected_rules = [u ''COR-006'']\<rparr>]"

definition benign_sequences :: "labeled_sequence list" where
  "benign_sequences =
    [\<lparr>lq_seq_id = u ''ben-normal-1'', lq_label = u ''benign'',
      lq_description = u ''ordinary allowed tool calls, no attack pattern'',
      lq_events = [
        spec\<lparr>ev_tool_name := Some (u ''math.add''), ev_enforcement_action := Some (u ''allow''),
          ev_findings := Some [u ''normal'']\<rparr>,
        spec\<lparr>ev_tool_name := Some (u ''math.multiply''), ev_enforcement_action := Some (u ''allow''),
          ev_findings := Some [u ''normal''], ev_offset := Some 3\<rparr>],
      lq_expected_rules = []\<rparr>,
     \<lparr>lq_seq_id = u ''ben-single-block'', lq_label = u ''benign'',
      lq_description = u ''a single low-risk block, insufficient for any multi-event rule'',
      lq_events = [
        spec\<lparr>ev_enforcement_action := Some (u ''block''), ev_risk_score := Some 30,
          ev_findings := Some [u ''policy_violation'']\<rparr>],
      lq_expected_rules = []\<rparr>,
     \<lparr>lq_seq_id = u ''ben-low-risk-blocks'', lq_label = u ''benign'',
      lq_description = u ''repeated but LOW-risk blocks (<60), below COR-004 threshold'',
      lq_events = [
        spec\<lparr>ev_enforcement_action := Some (u ''block''), ev_risk_score := Some 40\<rparr>,
        spec\<lparr>ev_enforcement_action := Some (u ''block''), ev_risk_score := Some 45, ev_offset := Some 1\<rparr>,
        spec\<lparr>ev_enforcement_action := Some (u ''block''), ev_risk_score := Some 30, ev_offset := Some 2\<rparr>],
      lq_expected_rules = []\<rparr>]"

definition build_synthetic_dataset :: "labeled_sequence list" where
  "build_synthetic_dataset = malicious_sequences @ benign_sequences"

section \<open>Precision and recall\<close>

record confusion =
  cf_tp :: nat
  cf_fp :: nat
  cf_fn :: nat
  cf_tn :: nat

definition count_outcome :: "bool \<Rightarrow> bool \<Rightarrow> confusion \<Rightarrow> confusion" where
  "count_outcome expected got c =
    (if expected \<and> got then c\<lparr>cf_tp := cf_tp c + 1\<rparr>
     else if \<not> expected \<and> got then c\<lparr>cf_fp := cf_fp c + 1\<rparr>
     else if expected \<and> \<not> got then c\<lparr>cf_fn := cf_fn c + 1\<rparr>
     else c\<lparr>cf_tn := cf_tn c + 1\<rparr>)"

definition ratio :: "rat \<Rightarrow> rat \<Rightarrow> rat" where
  "ratio a b = (if b \<noteq> 0 then a / b else 0)"

definition prf_of :: "confusion \<Rightarrow> rat \<times> rat \<times> rat" where
  "prf_of c =
    (let precision = ratio (of_nat (cf_tp c)) (of_nat (cf_tp c + cf_fp c));
         recall = ratio (of_nat (cf_tp c)) (of_nat (cf_tp c + cf_fn c))
     in (precision, recall, ratio (2 * precision * recall) (precision + recall)))"

text \<open>The rules that fired while the events of a sequence were ingested into a fresh engine.\<close>

definition fired_rules :: "siem_rule list \<Rightarrow> rat \<Rightarrow> rat \<Rightarrow> labeled_sequence \<Rightarrow> pystr list" where
  "fired_rules rules base_ts now seq =
     fst (foldl (\<lambda>(fired, engine) e.
         let (matches, engine') = siem_ingest now now e engine in (fired @ map sm_rule_id matches, engine'))
       ([], siem_add_rules rules (make_siem 600 1000)) (events_from_sequence seq base_ts))"

definition zero_counts :: confusion where
  "zero_counts = \<lparr>cf_tp = 0, cf_fp = 0, cf_fn = 0, cf_tn = 0\<rparr>"

definition count_sequence :: "(labeled_sequence \<Rightarrow> pystr list) \<Rightarrow> pystr list \<Rightarrow> (pystr \<times> confusion) list \<Rightarrow>
    labeled_sequence \<Rightarrow> (pystr \<times> confusion) list" where
  "count_sequence fired rule_ids conf seq =
     foldl (\<lambda>conf rid. dset rid
         (count_outcome (rid \<in> set (lq_expected_rules seq)) (rid \<in> set (fired seq))
           (dget_or conf rid zero_counts)) conf) conf rule_ids"

definition confusion_counts :: "(labeled_sequence \<Rightarrow> pystr list) \<Rightarrow> pystr list \<Rightarrow> labeled_sequence list \<Rightarrow>
    (pystr \<times> confusion) list" where
  "confusion_counts fired rule_ids dataset =
     foldl (count_sequence fired rule_ids) (foldl (\<lambda>d rid. dset rid zero_counts d) [] rule_ids) dataset"

record pr_report =
  pr_sequence_count :: nat
  pr_malicious :: nat
  pr_benign :: nat
  pr_per_rule :: "(pystr \<times> confusion \<times> rat \<times> rat \<times> rat) list"
  pr_micro :: "confusion \<times> rat \<times> rat \<times> rat"
  pr_per_sequence :: "(pystr \<times> pystr \<times> pystr list \<times> pystr list) list"

definition sorted_set :: "pystr list \<Rightarrow> pystr list" where
  "sorted_set xs = sort (remdups xs)"

definition run_precision_recall :: "labeled_sequence list \<Rightarrow> siem_rule list \<Rightarrow> rat \<Rightarrow> rat \<Rightarrow> pr_report" where
  "run_precision_recall dataset rules base_ts now =
    (let rule_ids = map sl_rule_id rules;
         fired = fired_rules rules base_ts now;
         conf = confusion_counts fired rule_ids dataset;
         sum_of = (\<lambda>f. sum_list (map (\<lambda>r. f (dget_or conf r zero_counts)) rule_ids));
         agg = \<lparr>cf_tp = sum_of cf_tp, cf_fp = sum_of cf_fp, cf_fn = sum_of cf_fn, cf_tn = sum_of cf_tn\<rparr>
     in \<lparr>pr_sequence_count = length dataset,
         pr_malicious = length (filter (\<lambda>s. lq_label s = u ''malicious'') dataset),
         pr_benign = length (filter (\<lambda>s. lq_label s = u ''benign'') dataset),
         pr_per_rule = foldl (\<lambda>d rid. dset rid (dget_or conf rid zero_counts, prf_of (dget_or conf rid zero_counts)) d)
           [] rule_ids,
         pr_micro = (agg, prf_of agg),
         pr_per_sequence = map (\<lambda>s. (lq_seq_id s, lq_label s, sorted_set (lq_expected_rules s),
           sorted_set (fired s))) dataset\<rparr>)"

section \<open>The confusion counts\<close>

text \<open>How many sequences are in one of the four cells for a rule.\<close>

definition cell :: "(labeled_sequence \<Rightarrow> pystr list) \<Rightarrow> pystr \<Rightarrow> bool \<Rightarrow> bool \<Rightarrow> labeled_sequence list \<Rightarrow> nat" where
  "cell fired rid expected got dataset =
     length (filter (\<lambda>s. (rid \<in> set (lq_expected_rules s)) = expected \<and> (rid \<in> set (fired s)) = got) dataset)"

definition cells :: "(labeled_sequence \<Rightarrow> pystr list) \<Rightarrow> pystr \<Rightarrow> labeled_sequence list \<Rightarrow> confusion" where
  "cells fired rid dataset =
     \<lparr>cf_tp = cell fired rid True True dataset, cf_fp = cell fired rid False True dataset,
      cf_fn = cell fired rid True False dataset, cf_tn = cell fired rid False False dataset\<rparr>"

lemma fold_dset_get:
  "distinct rids \<Longrightarrow> dget (foldl (\<lambda>d r. dset r (f r (dget_or d r z)) d) d rids) rid =
     (if rid \<in> set rids then Some (f rid (dget_or d rid z)) else dget d rid)"
  by (induction rids arbitrary: d) (auto simp: dget_or_def)

lemma count_sequence_get:
  assumes "distinct rids" "rid \<in> set rids"
  shows "dget (count_sequence fired rids conf s) rid =
    Some (count_outcome (rid \<in> set (lq_expected_rules s)) (rid \<in> set (fired s)) (dget_or conf rid zero_counts))"
  using fold_dset_get [OF assms(1), of "\<lambda>r. count_outcome (r \<in> set (lq_expected_rules s)) (r \<in> set (fired s))"
      zero_counts conf rid] assms(2)
  by (simp add: count_sequence_def)

lemma count_cells: "count_outcome (rid \<in> set (lq_expected_rules s)) (rid \<in> set (fired s)) (cells fired rid dataset) =
    cells fired rid (dataset @ [s])"
  by (auto simp: count_outcome_def cells_def cell_def)

lemma confusion_counts_get:
  assumes "distinct rids" "rid \<in> set rids"
  shows "dget (confusion_counts fired rids dataset) rid = Some (cells fired rid dataset)"
proof (induction dataset rule: rev_induct)
  case Nil
  show ?case
    using fold_dset_get [OF assms(1), of "\<lambda>r c. zero_counts" zero_counts "[]" rid] assms(2)
    by (simp add: confusion_counts_def cells_def cell_def zero_counts_def)
next
  case (snoc s dataset)
  have step: "confusion_counts fired rids (dataset @ [s]) = count_sequence fired rids (confusion_counts fired rids dataset) s"
    by (simp add: confusion_counts_def)
  show ?case unfolding step count_sequence_get [OF assms] using snoc by (simp add: count_cells)
qed

lemma cells_total:
  "cf_tp (cells fired rid dataset) + cf_fp (cells fired rid dataset) +
   cf_fn (cells fired rid dataset) + cf_tn (cells fired rid dataset) = length dataset"
  by (induction dataset) (auto simp: cells_def cell_def)

lemma ratio_bounds: "0 \<le> a \<Longrightarrow> a \<le> b \<Longrightarrow> 0 \<le> ratio a b \<and> ratio a b \<le> 1"
  by (auto simp: ratio_def field_simps)

section \<open>What fires on a sequence\<close>

text \<open>A match on a prefix is a match on the whole sequence, so the rules that fired are those that
  match the whole.\<close>



lemma expire_fresh:
  assumes "list_all (\<lambda>e. se_timestamp e > now - si_window_seconds si) es" "int (length es) \<le> si_max_events si"
  shows "fresh_events now si es = es"
proof -
  have "filter (\<lambda>e. se_timestamp e > now - si_window_seconds si) es = es"
    using assms(1) by (simp add: list_all_iff filter_id_conv)
  with assms(2) show ?thesis by (simp add: fresh_events_def)
qed

definition fired_step :: "rat \<Rightarrow> pystr list \<times> siem_engine \<Rightarrow> security_event \<Rightarrow> pystr list \<times> siem_engine" where
  "fired_step now = (\<lambda>(fired, engine) e.
     let (matches, engine') = siem_ingest now now e engine in (fired @ map sm_rule_id matches, engine'))"

lemma fired_step_state: "snd (fired_step now fe e) = snd (siem_ingest now now e (snd fe))"
  by (simp add: fired_step_def Let_def case_prod_beta)

lemma fired_step_ids: "fst (fired_step now fe e) = fst fe @ map sm_rule_id (fst (siem_ingest now now e (snd fe)))"
  by (simp add: fired_step_def Let_def case_prod_beta)

definition fired_state :: "siem_rule list \<Rightarrow> rat \<Rightarrow> security_event list \<Rightarrow> pystr list \<times> siem_engine" where
  "fired_state rules now es = foldl (fired_step now) ([], siem_add_rules rules (make_siem 600 1000)) es"

lemma fired_run:
  assumes "list_all (\<lambda>e. session_key e = k \<and> se_timestamp e > now - 600) es" "length es \<le> 1000"
  shows "get_session_events k (snd (fired_state rules now es)) = es \<and>
    si_rules (snd (fired_state rules now es)) = rules \<and>
    si_window_seconds (snd (fired_state rules now es)) = 600 \<and>
    si_max_events (snd (fired_state rules now es)) = 1000 \<and>
    (es \<noteq> [] \<longrightarrow> set (fst (fired_state rules now es)) =
       {sl_rule_id r | r. r \<in> set rules \<and> siem_rule_evaluate now es r \<noteq> None})"
  using assms unfolding fired_state_def
proof (induction es rule: rev_induct)
  case Nil
  show ?case by (simp add: get_session_events_def siem_add_rules_def make_siem_def dget_or_def)
next
  case (snoc e es)
  let ?fe = "foldl (fired_step now) ([], siem_add_rules rules (make_siem 600 1000)) es"
  from snoc have IH: "get_session_events k (snd ?fe) = es" "si_rules (snd ?fe) = rules"
    "si_window_seconds (snd ?fe) = 600" "si_max_events (snd ?fe) = 1000"
    "es \<noteq> [] \<Longrightarrow> set (fst ?fe) = {sl_rule_id r | r. r \<in> set rules \<and> siem_rule_evaluate now es r \<noteq> None}"
    and key: "session_key e = k" by auto
  have events: "get_session_events k (snd (siem_ingest now now e (snd ?fe))) = es @ [e]"
    using snoc.prems IH(1,3,4) by (auto simp: get_after_ingest key list_all_iff intro!: expire_fresh)
  have new: "set (map sm_rule_id (fst (siem_ingest now now e (snd ?fe)))) =
      {sl_rule_id r | r. r \<in> set rules \<and> siem_rule_evaluate now (es @ [e]) r \<noteq> None}"
  proof (intro set_eqI iffI)
    fix x assume "x \<in> set (map sm_rule_id (fst (siem_ingest now now e (snd ?fe))))"
    then obtain m r where "x = sm_rule_id m" "r \<in> set rules" "siem_rule_evaluate now (es @ [e]) r = Some m"
      by (auto simp: ingest_matches key events IH)
    then show "x \<in> {sl_rule_id r | r. r \<in> set rules \<and> siem_rule_evaluate now (es @ [e]) r \<noteq> None}"
      by (auto simp: rule_evaluate_Some intro!: exI [of _ r])
  next
    fix x assume "x \<in> {sl_rule_id r | r. r \<in> set rules \<and> siem_rule_evaluate now (es @ [e]) r \<noteq> None}"
    then obtain m r where r: "x = sl_rule_id r" "r \<in> set rules" "siem_rule_evaluate now (es @ [e]) r = Some m"
      by auto
    then have "m \<in> set (fst (siem_ingest now now e (snd ?fe)))" "x = sm_rule_id m"
      by (auto simp: ingest_matches key events IH) (auto simp: rule_evaluate_Some)
    then show "x \<in> set (map sm_rule_id (fst (siem_ingest now now e (snd ?fe))))" by auto
  qed
  have old: "set (fst ?fe) \<subseteq> {sl_rule_id r | r. r \<in> set rules \<and> siem_rule_evaluate now (es @ [e]) r \<noteq> None}"
    using IH(5) by (cases "es = []") (auto, blast dest: match_is_repeated)
  show ?case
    using events IH(2-4) old new by (auto simp: fired_step_state fired_step_ids)
qed

lemma fired_rules_whole:
  assumes "list_all (\<lambda>e. session_key e = k \<and> se_timestamp e > now - 600) (events_from_sequence seq base_ts)"
    "lq_events seq \<noteq> []" "length (lq_events seq) \<le> 1000"
  shows "set (fired_rules rules base_ts now seq) =
    {sl_rule_id r | r. r \<in> set rules \<and> siem_rule_evaluate now (events_from_sequence seq base_ts) r \<noteq> None}"
proof -
  have "length (events_from_sequence seq base_ts) = length (lq_events seq)"
    by (simp add: events_from_sequence_def)
  with assms(2,3) have "events_from_sequence seq base_ts \<noteq> []" "length (events_from_sequence seq base_ts) \<le> 1000"
    by auto
  with fired_run [OF assms(1)] show ?thesis
    by (simp add: fired_rules_def fired_state_def fired_step_def)
qed

text \<open>The built-in conditions do not look at the clock, so a sequence can be moved in time.\<close>

definition move :: "rat \<Rightarrow> security_event \<Rightarrow> security_event" where
  "move d e = e\<lparr>se_timestamp := d + se_timestamp e\<rparr>"

definition timeless :: "siem_rule \<Rightarrow> bool" where
  "timeless r \<longleftrightarrow> (\<forall>c \<in> set (sl_conditions r). \<forall>d e. c (move d e) = c e)"

lemma move_timestamp [simp]: "se_timestamp (move d e) = d + se_timestamp e"
  by (simp add: move_def)

lemma greedy_map: "\<forall>c \<in> set cs. \<forall>e. c (f e) = c e \<Longrightarrow> greedy cs (map f es) = map_option (map f) (greedy cs es)"
  by (induction cs es rule: greedy.induct) (auto simp: option.map_comp comp_def)

lemma rule_evaluate_move:
  assumes "timeless r"
  shows "siem_rule_evaluate stamp (map (move d) es) r \<noteq> None \<longleftrightarrow> siem_rule_evaluate stamp' es r \<noteq> None"
proof -
  have "\<forall>c \<in> set (sl_conditions r). \<forall>e. c (move d e) = c e" using assms by (simp add: timeless_def)
  from greedy_map [OF this, of es] show ?thesis
    by (auto simp: siem_rule_evaluate_def last_map hd_map split: option.splits)
qed

lemma builtin_timeless: "r \<in> set BUILTIN_RULES \<Longrightarrow> timeless r"
  by (auto simp: BUILTIN_RULES_def RECON_TO_EXFIL_RULE_def INJECTION_THEN_ESCALATION_RULE_def
      SHADOW_SERVER_EXFIL_RULE_def PERSISTENT_ATTACKER_RULE_def INJECTION_THEN_EXFIL_RULE_def
      SENSITIVE_THEN_SHADOW_RULE_def timeless_def move_def is_recon_event_def is_sensitive_access_def
      is_exfil_attempt_def is_injection_attempt_def is_privilege_escalation_def
      is_server_trust_violation_def is_repeated_block_def findings_text_def)

lemma events_move: "events_from_sequence seq base_ts = map (move base_ts) (events_from_sequence seq 0)"
  by (auto simp: events_from_sequence_def mk_event_def move_def)

definition as_expected :: "labeled_sequence \<Rightarrow> bool" where
  "as_expected s \<longleftrightarrow> lq_events s \<noteq> [] \<and> length (lq_events s) \<le> 1000 \<and> lq_seq_id s \<noteq> [] \<and>
     list_all (\<lambda>ev. 0 \<le> or_default 0 (ev_offset ev)) (lq_events s) \<and>
     list_all (\<lambda>rid. rid \<in> set (map sl_rule_id BUILTIN_RULES)) (lq_expected_rules s) \<and>
     list_all (\<lambda>r. Option.is_none (siem_rule_evaluate 0 (events_from_sequence s 0) r) \<noteq>
       (sl_rule_id r \<in> set (lq_expected_rules s))) BUILTIN_RULES"

lemma fixtures_as_expected: "s \<in> set build_synthetic_dataset \<Longrightarrow> as_expected s"
proof -
  have "as_expected (malicious_sequences ! 0)" "as_expected (malicious_sequences ! 1)"
    "as_expected (malicious_sequences ! 2)" "as_expected (malicious_sequences ! 3)"
    "as_expected (malicious_sequences ! 4)" "as_expected (malicious_sequences ! 5)" by code_simp+
  then have "list_all as_expected malicious_sequences" by (simp add: malicious_sequences_def)
  moreover have "list_all as_expected benign_sequences" by code_simp
  ultimately show "s \<in> set build_synthetic_dataset \<Longrightarrow> as_expected s"
    by (auto simp: build_synthetic_dataset_def list_all_iff)
qed

lemma builtin_ids: "distinct (map sl_rule_id BUILTIN_RULES)"
  by code_simp

lemma fired_as_expected:
  assumes "as_expected s" "now < base_ts + 600"
  shows "set (fired_rules BUILTIN_RULES base_ts now s) = set (lq_expected_rules s)"
proof -
  have fresh: "session_key e = lq_seq_id s \<and> se_timestamp e > now - 600"
    if e: "e \<in> set (events_from_sequence s base_ts)" for e
  proof -
    from e obtain i ev where ev: "ev \<in> set (lq_events s)"
      "e = mk_event (lq_seq_id s) (or_default (of_nat i) (ev_offset ev)) base_ts ev"
      by (auto simp: events_from_sequence_def dest: set_zip_rightD)
    with assms(1) have "0 \<le> or_default 0 (ev_offset ev)" "lq_seq_id s \<noteq> []"
      by (auto simp: as_expected_def list_all_iff)
    with ev(2) assms(2) show ?thesis
      by (cases "ev_offset ev") (auto simp: mk_event_def session_key_def)
  qed
  have fires: "siem_rule_evaluate now (events_from_sequence s base_ts) r \<noteq> None \<longleftrightarrow> sl_rule_id r \<in> set (lq_expected_rules s)"
    if "r \<in> set BUILTIN_RULES" for r
    using that assms(1) rule_evaluate_move [OF builtin_timeless [OF that], of now base_ts "events_from_sequence s 0" 0]
    by (simp add: events_move [of s base_ts] as_expected_def list_all_iff Option.is_none_def)
  have known: "set (lq_expected_rules s) \<subseteq> sl_rule_id ` set BUILTIN_RULES"
    using assms(1) by (auto simp: as_expected_def list_all_iff)
  have "set (fired_rules BUILTIN_RULES base_ts now s) =
      {sl_rule_id r | r. r \<in> set BUILTIN_RULES \<and> siem_rule_evaluate now (events_from_sequence s base_ts) r \<noteq> None}"
    using fresh assms(1) by (intro fired_rules_whole [of "lq_seq_id s"]) (auto simp: list_all_iff as_expected_def)
  also have "\<dots> = {sl_rule_id r | r. r \<in> set BUILTIN_RULES \<and> sl_rule_id r \<in> set (lq_expected_rules s)}"
    using fires by (metis (no_types, lifting))
  also have "\<dots> = set (lq_expected_rules s)" using known by auto
  finally show ?thesis .
qed

section \<open>Results\<close>

text \<open>
  The report counts right: for rules with distinct ids the four counts of a rule are the numbers of
  sequences in the four cells, they add up to the size of the dataset, and precision and recall lie
  between 0 and 1.
\<close>

theorem confusion_counts_exact:
  assumes "distinct rule_ids" "rid \<in> set rule_ids"
  shows "\<exists>c. dget (confusion_counts fired rule_ids dataset) rid = Some c \<and>
    cf_tp c = length (filter (\<lambda>s. rid \<in> set (lq_expected_rules s) \<and> rid \<in> set (fired s)) dataset) \<and>
    cf_fp c = length (filter (\<lambda>s. rid \<notin> set (lq_expected_rules s) \<and> rid \<in> set (fired s)) dataset) \<and>
    cf_fn c = length (filter (\<lambda>s. rid \<in> set (lq_expected_rules s) \<and> rid \<notin> set (fired s)) dataset) \<and>
    cf_tp c + cf_fp c + cf_fn c + cf_tn c = length dataset \<and>
    fst (prf_of c) \<in> {0..1} \<and> fst (snd (prf_of c)) \<in> {0..1}"
proof -
  have "fst (prf_of c) \<in> {0..1} \<and> fst (snd (prf_of c)) \<in> {0..1}" for c
    using ratio_bounds [of "of_nat (cf_tp c)" "of_nat (cf_tp c + cf_fp c)"]
      ratio_bounds [of "of_nat (cf_tp c)" "of_nat (cf_tp c + cf_fn c)"]
    by (simp add: prf_of_def Let_def)
  with cells_total [of fired rid dataset] confusion_counts_get [OF assms, of fired dataset] show ?thesis
    by (intro exI [of _ "cells fired rid dataset"]) (simp add: cells_def cell_def)
qed

lemma confusion_counts_exact_witness:
  "\<exists>c. dget (confusion_counts lq_expected_rules [u ''COR-001'', u ''COR-002''] build_synthetic_dataset) (u ''COR-002'') = Some c \<and>
    cf_tp c + cf_fp c + cf_fn c + cf_tn c = length build_synthetic_dataset"
  using confusion_counts_exact [of "[u ''COR-001'', u ''COR-002'']" "u ''COR-002''" lq_expected_rules build_synthetic_dataset]
  by auto

text \<open>
  The committed figures hold whenever the run takes less than ten minutes: on the nine fixtures every
  built-in rule fires on exactly the sequence made for it, so each has one true positive, eight true
  negatives and precision, recall and F1 of one; in all six true positives and 48 true negatives.
\<close>

theorem fixture_figures:
  assumes "now < base_ts + 600"
  shows "pr_per_rule (run_precision_recall build_synthetic_dataset BUILTIN_RULES base_ts now) =
      map (\<lambda>r. (sl_rule_id r, \<lparr>cf_tp = 1, cf_fp = 0, cf_fn = 0, cf_tn = 8\<rparr>, 1, 1, 1)) BUILTIN_RULES \<and>
    pr_micro (run_precision_recall build_synthetic_dataset BUILTIN_RULES base_ts now) =
      (\<lparr>cf_tp = 6, cf_fp = 0, cf_fn = 0, cf_tn = 48\<rparr>, 1, 1, 1)"
proof -
  let ?fired = "fired_rules BUILTIN_RULES base_ts now"
  let ?ids = "map sl_rule_id BUILTIN_RULES"
  let ?one = "\<lparr>cf_tp = 1, cf_fp = 0, cf_fn = 0, cf_tn = 8\<rparr>"
  have same: "cells ?fired rid build_synthetic_dataset = cells lq_expected_rules rid build_synthetic_dataset" for rid
    using fired_as_expected [OF fixtures_as_expected assms]
    by (auto simp: cells_def cell_def intro!: arg_cong [of _ _ length] filter_cong)
  have "list_all (\<lambda>rid. cells lq_expected_rules rid build_synthetic_dataset = ?one) ?ids" by code_simp
  then have get: "dget_or (confusion_counts ?fired ?ids build_synthetic_dataset) rid zero_counts = ?one"
    if "rid \<in> set ?ids" for rid
    using confusion_counts_get [OF builtin_ids that, of ?fired build_synthetic_dataset] that same
    by (auto simp: list_all_iff)
  have one: "prf_of ?one = (1, 1, 1)" by (simp add: prf_of_def ratio_def)
  have per_rule: "foldl (\<lambda>d rid. dset rid (f rid) d) [] ?ids = map (\<lambda>rid. (rid, f rid)) ?ids" for f :: "pystr \<Rightarrow> 'x"
    by (simp add: BUILTIN_RULES_def RECON_TO_EXFIL_RULE_def INJECTION_THEN_ESCALATION_RULE_def
        SHADOW_SERVER_EXFIL_RULE_def PERSISTENT_ATTACKER_RULE_def INJECTION_THEN_EXFIL_RULE_def
        SENSITIVE_THEN_SHADOW_RULE_def)
  have sums: "sum_list (map (\<lambda>r. f (dget_or (confusion_counts ?fired ?ids build_synthetic_dataset) r zero_counts)) ?ids) =
      6 * f ?one" for f :: "confusion \<Rightarrow> nat"
  proof -
    have "map (\<lambda>r. f (dget_or (confusion_counts ?fired ?ids build_synthetic_dataset) r zero_counts)) ?ids =
        map (\<lambda>r. f ?one) ?ids"
      using get by (intro map_cong) auto
    moreover have "length ?ids = 6" by (simp add: BUILTIN_RULES_def)
    ultimately show ?thesis by (simp add: sum_list_replicate map_replicate_const)
  qed
  have "map (\<lambda>rid. (rid, dget_or (confusion_counts ?fired ?ids build_synthetic_dataset) rid zero_counts,
      prf_of (dget_or (confusion_counts ?fired ?ids build_synthetic_dataset) rid zero_counts))) ?ids =
      map (\<lambda>rid. (rid, ?one, 1, 1, 1)) ?ids"
    using get one by (intro map_cong) auto
  then show ?thesis
    unfolding run_precision_recall_def Let_def per_rule sums [of cf_tp] sums [of cf_fp] sums [of cf_fn] sums [of cf_tn]
    by (simp add: comp_def prf_of_def ratio_def)
qed

lemma fixture_figures_witness:
  "pr_micro (run_precision_recall build_synthetic_dataset BUILTIN_RULES 0 1) =
     (\<lparr>cf_tp = 6, cf_fp = 0, cf_fn = 0, cf_tn = 48\<rparr>, 1, 1, 1)"
  using fixture_figures [of 1 0] by simp

section \<open>Gaps\<close>

text \<open>The techniques not covered are looked for among those the rules refer to, so none is ever found.\<close>

lemma nothing_is_uncovered: "mx_not_covered (build_coverage_matrix elastic rules) = []"
proof -
  have "cv_source e \<in> {u ''correlation'', u ''elastic''}"
    if "e \<in> set (map correlation_entry rules @ map elastic_entry elastic)" for e
    using that by (auto simp: correlation_entry_def elastic_entry_def Let_def split: prod.splits)
  then have "filter (\<lambda>e. cv_technique_id e \<noteq> [] \<and> cv_source e \<in> {u ''correlation'', u ''elastic''})
      (map correlation_entry rules @ map elastic_entry elastic) =
    filter (\<lambda>e. cv_technique_id e \<noteq> []) (map correlation_entry rules @ map elastic_entry elastic)"
    by (intro filter_cong) auto
  then show ?thesis by (simp only: build_coverage_matrix_def Let_def coverage_matrix.simps) simp
qed

end
