(* ===== verification/ServiceConfig.thy ===== *)
theory ServiceConfig
  imports PyNumbers JsonDump
begin

text \<open>
  \<open>production/config.py\<close>: the configuration read from the environment (a list of variables), with the
  fail-fast check of a production deployment. A set of servers is the list of its distinct members.
\<close>

section \<open>State\<close>

type_synonym environ = "(pystr \<times> pystr) list"

record service_config =
  cg_listen_host :: pystr
  cg_listen_port :: int
  cg_shadow_mode :: bool
  cg_webhook_url :: "pystr option"
  cg_rate_limit_rpm :: int
  cg_circuit_breaker_threshold :: int
  cg_circuit_breaker_timeout :: pyfloat
  cg_log_level :: pystr
  cg_allowed_servers :: "pystr list"
  cg_max_payload_kb :: pyfloat
  cg_wal_path :: "pystr option"
  cg_audit_path :: "pystr option"
  cg_api_key :: "pystr option"
  cg_api_keys :: "pystr list"
  cg_allow_anonymous :: bool
  cg_trusted_proxy_cidrs :: "pystr list"
  cg_identity_enabled :: bool
  cg_identity_tenant_salt :: "pystr option"
  cg_identity_output :: "pystr option"
  cg_siem_enabled :: bool
  cg_siem_output :: "pystr option"
  cg_environment :: pystr

datatype config_complaint =
    AnonymousAllowed | ShadowModeOn | NoApiKey | ShortApiKey | NoTenantSalt | NoTelemetryOutput
  | NoWalPath | NoAuditPath | NoAllowedServers | RateLimitNotPositive | PayloadNotPositive | WebhookNotHttps

datatype config_error = InvalidNumber pystr | InvalidProduction "config_complaint list"

section \<open>Reading\<close>

definition env_or :: "environ \<Rightarrow> string \<Rightarrow> string \<Rightarrow> pystr" where
  "env_or env key d = dget_or env (u key) (u d)"

definition env_get :: "environ \<Rightarrow> string \<Rightarrow> pystr option" where
  "env_get env key = dget env (u key)"

definition env_flag :: "environ \<Rightarrow> string \<Rightarrow> bool" where
  "env_flag env key \<longleftrightarrow> py_lower (env_or env key ''false'') \<in> {u ''true'', u ''1'', u ''yes''}"

definition env_int :: "environ \<Rightarrow> string \<Rightarrow> string \<Rightarrow> config_error + int" where
  "env_int env key d = (case py_int 10 (env_or env key d) of None \<Rightarrow> Inl (InvalidNumber (u key)) | Some i \<Rightarrow> Inr i)"

definition env_float :: "environ \<Rightarrow> string \<Rightarrow> string \<Rightarrow> config_error + pyfloat" where
  "env_float env key d = (case py_float (env_or env key d) of None \<Rightarrow> Inl (InvalidNumber (u key)) | Some f \<Rightarrow> Inr f)"

definition parse_csv :: "pystr \<Rightarrow> pystr list" where
  "parse_csv s = filter (\<lambda>item. item \<noteq> []) (map py_strip (split_on 44 s))"

text \<open>Distinct elements in the order of their first occurrence.\<close>

fun first_distinct :: "'a list \<Rightarrow> 'a list \<Rightarrow> 'a list" where
  "first_distinct seen [] = []"
| "first_distinct seen (x # xs) =
    (if x \<in> set seen then first_distinct seen xs else x # first_distinct (x # seen) xs)"

definition parse_api_keys :: "pystr option \<Rightarrow> pystr \<Rightarrow> pystr list" where
  "parse_api_keys primary multiple =
     first_distinct [] ((case primary of None \<Rightarrow> []
       | Some p \<Rightarrow> if py_strip p \<noteq> [] then [py_strip p] else []) @ parse_csv multiple)"

definition parse_allowed_servers :: "pystr \<Rightarrow> pystr list" where
  "parse_allowed_servers s = (if py_strip s = [] then [] else remdups (parse_csv s))"

section \<open>The production check\<close>

definition missing :: "pystr option \<Rightarrow> bool" where
  "missing s \<longleftrightarrow> s = None \<or> s = Some []"

fun not_positive :: "pyfloat \<Rightarrow> bool" where
  "not_positive (Fin q) = (q \<le> 0)"
| "not_positive NegInf = True"
| "not_positive _ = False"

definition plain_http_webhook :: "service_config \<Rightarrow> bool" where
  "plain_http_webhook c \<longleftrightarrow> (case cg_webhook_url c of None \<Rightarrow> False
     | Some url \<Rightarrow> url \<noteq> [] \<and> \<not> starts_with (py_lower url) (u ''https://''))"

definition complaint :: "bool \<Rightarrow> config_complaint \<Rightarrow> config_complaint list" where
  "complaint c e = (if c then [e] else [])"

definition production_complaints :: "service_config \<Rightarrow> config_complaint list" where
  "production_complaints c =
     complaint (cg_allow_anonymous c) AnonymousAllowed @
     complaint (cg_shadow_mode c) ShadowModeOn @
     (if cg_api_keys c = [] then [NoApiKey]
      else complaint (list_ex (\<lambda>key. length key < 32) (cg_api_keys c)) ShortApiKey) @
     complaint (cg_identity_enabled c \<and> missing (cg_identity_tenant_salt c)) NoTenantSalt @
     complaint (cg_identity_enabled c \<and> missing (cg_identity_output c)) NoTelemetryOutput @
     complaint (missing (cg_wal_path c)) NoWalPath @
     complaint (missing (cg_audit_path c)) NoAuditPath @
     complaint (cg_allowed_servers c = []) NoAllowedServers @
     complaint (cg_rate_limit_rpm c \<le> 0) RateLimitNotPositive @
     complaint (not_positive (cg_max_payload_kb c)) PayloadNotPositive @
     complaint (plain_http_webhook c) WebhookNotHttps"

definition read_config :: "environ \<Rightarrow> config_error + service_config" where
  "read_config env =
     rbind (env_int env ''MCP_LISTEN_PORT'' ''8080'') (\<lambda>port.
     rbind (env_int env ''MCP_RATE_LIMIT_RPM'' ''1000'') (\<lambda>rpm.
     rbind (env_int env ''MCP_CIRCUIT_BREAKER_THRESHOLD'' ''5'') (\<lambda>threshold.
     rbind (env_float env ''MCP_CIRCUIT_BREAKER_TIMEOUT'' ''30'') (\<lambda>timeout.
     rbind (env_float env ''MCP_MAX_PAYLOAD_KB'' ''100'') (\<lambda>payload.
     Inr \<lparr>cg_listen_host = env_or env ''MCP_LISTEN_HOST'' ''127.0.0.1'', cg_listen_port = port,
       cg_shadow_mode = env_flag env ''MCP_SHADOW_MODE'', cg_webhook_url = env_get env ''MCP_WEBHOOK_URL'',
       cg_rate_limit_rpm = rpm, cg_circuit_breaker_threshold = threshold,
       cg_circuit_breaker_timeout = timeout, cg_log_level = map upper_cp (env_or env ''MCP_LOG_LEVEL'' ''INFO''),
       cg_allowed_servers = parse_allowed_servers (env_or env ''MCP_ALLOWED_SERVERS'' []),
       cg_max_payload_kb = payload, cg_wal_path = env_get env ''MCP_WAL_PATH'',
       cg_audit_path = env_get env ''MCP_AUDIT_PATH'', cg_api_key = env_get env ''MCP_API_KEY'',
       cg_api_keys = parse_api_keys (env_get env ''MCP_API_KEY'') (env_or env ''MCP_API_KEYS'' []),
       cg_allow_anonymous = env_flag env ''MCP_ALLOW_ANONYMOUS'',
       cg_trusted_proxy_cidrs = parse_csv (env_or env ''MCP_TRUSTED_PROXY_CIDRS'' []),
       cg_identity_enabled = env_flag env ''MCP_IDENTITY_TELEMETRY_ENABLED'',
       cg_identity_tenant_salt = env_get env ''MCP_IDENTITY_TELEMETRY_TENANT_SALT'',
       cg_identity_output = env_get env ''MCP_IDENTITY_TELEMETRY_OUTPUT'',
       cg_siem_enabled = env_flag env ''MCP_SIEM_ENABLED'', cg_siem_output = env_get env ''MCP_SIEM_OUTPUT'',
       cg_environment = py_lower (py_strip (env_or env ''MCP_ENV'' ''development''))\<rparr>)))))"

definition make_config :: "environ \<Rightarrow> config_error + service_config" where
  "make_config env = rbind (read_config env) (\<lambda>c.
     if cg_environment c = u ''production'' \<and> production_complaints c \<noteq> []
     then Inl (InvalidProduction (production_complaints c)) else Inr c)"

definition config_repr :: "service_config \<Rightarrow> pystr" where
  "config_repr c =
     u ''Config(listen_host='' @ cg_listen_host c @ u '', listen_port='' @ show_int (cg_listen_port c) @
     u '', shadow_mode='' @ (if cg_shadow_mode c then u ''True'' else u ''False'') @
     u '', rate_limit_rpm='' @ show_int (cg_rate_limit_rpm c) @ u '', log_level='' @ cg_log_level c @ u '')''"

section \<open>What a configuration guarantees\<close>

lemma first_distinct_props:
  "distinct (first_distinct seen xs) \<and> set (first_distinct seen xs) = set xs - set seen"
  by (induction xs arbitrary: seen) auto

lemma parse_csv_nonempty: "[] \<notin> set (parse_csv s)"
  by (simp add: parse_csv_def)

lemma api_keys_clean: "distinct (parse_api_keys p m) \<and> [] \<notin> set (parse_api_keys p m)"
proof -
  define ks where "ks = (case p of None \<Rightarrow> [] | Some q \<Rightarrow> if py_strip q \<noteq> [] then [py_strip q] else []) @ parse_csv m"
  have "[] \<notin> set ks" using parse_csv_nonempty [of m] by (auto simp: ks_def split: option.splits)
  moreover have "parse_api_keys p m = first_distinct [] ks" by (simp add: parse_api_keys_def ks_def)
  ultimately show ?thesis using first_distinct_props [of "[]" ks] by simp
qed

lemma complaint_Nil [simp]: "complaint c e = [] \<longleftrightarrow> \<not> c"
  by (simp add: complaint_def)

lemma read_config_keys:
  "read_config env = Inr c \<Longrightarrow> distinct (cg_api_keys c) \<and> [] \<notin> set (cg_api_keys c)"
  using api_keys_clean by (auto simp: read_config_def)

text \<open>
  A configuration that a production deployment starts with is safe: authentication is on and every key
  is at least 32 characters long and occurs once, decisions are enforced, both logs have a durable
  path, some server is approved, the request limit is positive, and alerts leave over HTTPS only.
\<close>

theorem production_config_safe:
  assumes "make_config env = Inr c" "cg_environment c = u ''production''"
  shows "\<not> cg_allow_anonymous c \<and> \<not> cg_shadow_mode c \<and>
    cg_api_keys c \<noteq> [] \<and> distinct (cg_api_keys c) \<and> list_all (\<lambda>k. 32 \<le> length k) (cg_api_keys c) \<and>
    \<not> missing (cg_wal_path c) \<and> \<not> missing (cg_audit_path c) \<and> cg_allowed_servers c \<noteq> [] \<and>
    0 < cg_rate_limit_rpm c \<and> \<not> plain_http_webhook c \<and>
    (cg_identity_enabled c \<longrightarrow> \<not> missing (cg_identity_tenant_salt c) \<and> \<not> missing (cg_identity_output c))"
proof -
  have c: "read_config env = Inr c" "production_complaints c = []"
    using assms by (auto simp: make_config_def split: if_splits)
  with read_config_keys [OF c(1)] show ?thesis
    by (auto simp: production_complaints_def list_ex_iff list_all_iff not_less split: if_splits)
qed

definition production_env :: "string \<Rightarrow> environ" where
  "production_env payload =
     [(u ''MCP_ENV'', u '' Production''), (u ''MCP_API_KEYS'', replicate 32 65 @ u '', '' @ replicate 40 66),
      (u ''MCP_WAL_PATH'', u ''/var/wal''), (u ''MCP_AUDIT_PATH'', u ''/var/audit''),
      (u ''MCP_ALLOWED_SERVERS'', u ''postmark''), (u ''MCP_MAX_PAYLOAD_KB'', u payload)]"

lemma production_env_starts:
  "case make_config (production_env ''64'') of Inl e \<Rightarrow> False
     | Inr c \<Rightarrow> cg_environment c = u ''production'' \<and> cg_max_payload_kb c = Fin 64"
  by code_simp

lemma production_config_safe_witness:
  "\<exists>c. make_config (production_env ''64'') = Inr c \<and> cg_environment c = u ''production'' \<and>
     \<not> cg_allow_anonymous c \<and> list_all (\<lambda>k. 32 \<le> length k) (cg_api_keys c)"
proof -
  obtain c where "make_config (production_env ''64'') = Inr c" "cg_environment c = u ''production''"
    using production_env_starts by (auto split: sum.splits)
  with production_config_safe [OF this] show ?thesis by blast
qed

text \<open>The defaults are closed: without a variable nobody is anonymous and there is no key to match.\<close>

lemma default_service_config:
  "case make_config [] of Inl e \<Rightarrow> False
     | Inr c \<Rightarrow> \<not> cg_allow_anonymous c \<and> \<not> cg_shadow_mode c \<and> cg_api_keys c = [] \<and> cg_allowed_servers c = []"
  by code_simp

section \<open>Gaps\<close>

text \<open>The payload limit may be \<open>nan\<close>: it is not less than or equal to zero, so production accepts it,
  and \<open>int(nan * 1024)\<close> then raises at every request with a body.\<close>

lemma nan_payload_accepted:
  "case make_config (production_env ''nan'') of Inl e \<Rightarrow> False
     | Inr c \<Rightarrow> cg_environment c = u ''production'' \<and> cg_max_payload_kb c = NaN"
  by code_simp

end
