(* ===== verification/ServiceMetrics.thy ===== *)
theory ServiceMetrics
  imports PyValues JsonDump
begin

text \<open>
  \<open>production/metrics.py\<close>: counters, the gauge of active requests, the histogram of durations and the
  Prometheus text. The lock makes every operation one step. Durations are rationals, bounds floats; \<open>fr\<close>
  is the text of a float.
\<close>

section \<open>State and operations\<close>

record metrics =
  me_bounds :: "pyfloat list"
  me_request_total :: nat
  me_error_total :: nat
  me_by_endpoint :: "(pystr \<times> nat) list"
  me_active :: int
  me_duration_sum :: rat
  me_duration_count :: nat
  me_buckets :: "nat list"
  me_circuit_states :: "(pystr \<times> pystr) list"

definition DEFAULT_BUCKETS :: "pyfloat list" where
  "DEFAULT_BUCKETS = map Fin [1 / 200, 1 / 100, 1 / 40, 1 / 20, 3 / 40, 1 / 10, 1 / 4, 1 / 2, 3 / 4, 1,
     5 / 2, 5, 15 / 2, 10] @ [PosInf]"

definition make_metrics :: "pyfloat list \<Rightarrow> metrics" where
  "make_metrics bounds =
     \<lparr>me_bounds = bounds, me_request_total = 0, me_error_total = 0, me_by_endpoint = [], me_active = 0,
      me_duration_sum = 0, me_duration_count = 0, me_buckets = replicate (length bounds) 0,
      me_circuit_states = []\<rparr>"

definition inc_request :: "pystr \<Rightarrow> metrics \<Rightarrow> metrics" where
  "inc_request endpoint m =
     m\<lparr>me_request_total := me_request_total m + 1,
       me_by_endpoint := (if endpoint \<noteq> [] then bump endpoint (me_by_endpoint m) else me_by_endpoint m)\<rparr>"

definition inc_error :: "metrics \<Rightarrow> metrics" where
  "inc_error m = m\<lparr>me_error_total := me_error_total m + 1\<rparr>"

definition inc_active :: "metrics \<Rightarrow> metrics" where
  "inc_active m = m\<lparr>me_active := me_active m + 1\<rparr>"

definition dec_active :: "metrics \<Rightarrow> metrics" where
  "dec_active m = m\<lparr>me_active := me_active m - 1\<rparr>"

fun within_bound :: "rat \<Rightarrow> pyfloat \<Rightarrow> bool" where
  "within_bound d (Fin q) = (d \<le> q)"
| "within_bound d PosInf = True"
| "within_bound d _ = False"

definition observe_duration :: "rat \<Rightarrow> metrics \<Rightarrow> metrics" where
  "observe_duration d m =
     m\<lparr>me_duration_sum := me_duration_sum m + d, me_duration_count := me_duration_count m + 1,
       me_buckets := map (\<lambda>(bound, n). if within_bound d bound then n + 1 else n)
         (zip (me_bounds m) (me_buckets m))\<rparr>"

definition set_circuit_state :: "pystr \<Rightarrow> pystr \<Rightarrow> metrics \<Rightarrow> metrics" where
  "set_circuit_state name state m = m\<lparr>me_circuit_states := dset name state (me_circuit_states m)\<rparr>"

definition get_active_requests :: "metrics \<Rightarrow> int" where
  "get_active_requests m = me_active m"

section \<open>The exposition\<close>

text \<open>The running total printed for each bucket.\<close>

fun running :: "nat \<Rightarrow> nat list \<Rightarrow> nat list" where
  "running n [] = []"
| "running n (k # ks) = (n + k) # running (n + k) ks"

definition bucket_line :: "(rat \<Rightarrow> pystr) \<Rightarrow> pyfloat \<Rightarrow> nat \<Rightarrow> pystr" where
  "bucket_line fr bound n =
     u ''mcp_request_duration_seconds_bucket{le='' @ [34] @
     (case bound of PosInf \<Rightarrow> u ''+Inf'' | Fin q \<Rightarrow> fr q | NegInf \<Rightarrow> u ''-inf'' | NaN \<Rightarrow> u ''nan'') @
     [34] @ u ''} '' @ show_nat n"

definition STATE_MAP :: "(pystr \<times> int) list" where
  "STATE_MAP = [(u ''closed'', 0), (u ''open'', 1), (u ''half_open'', 2)]"

definition labelled :: "string \<Rightarrow> string \<Rightarrow> pystr \<Rightarrow> pystr \<Rightarrow> pystr" where
  "labelled metric label value_text count_text =
     u metric @ [123] @ u label @ [61, 34] @ value_text @ [34, 125, 32] @ count_text"

definition metric_lines :: "(rat \<Rightarrow> pystr) \<Rightarrow> metrics \<Rightarrow> pystr list" where
  "metric_lines fr m =
     [u ''# HELP mcp_request_total Total number of requests.'', u ''# TYPE mcp_request_total counter'',
      u ''mcp_request_total '' @ show_nat (me_request_total m)] @
     map (\<lambda>(endpoint, n). labelled ''mcp_request_total'' ''endpoint'' endpoint (show_nat n))
       (sort_key fst (me_by_endpoint m)) @
     [u ''# HELP mcp_error_total Total number of errors.'', u ''# TYPE mcp_error_total counter'',
      u ''mcp_error_total '' @ show_nat (me_error_total m),
      u ''# HELP mcp_active_requests Current in-flight requests.'', u ''# TYPE mcp_active_requests gauge'',
      u ''mcp_active_requests '' @ show_int (me_active m),
      u ''# HELP mcp_request_duration_seconds Request duration histogram.'',
      u ''# TYPE mcp_request_duration_seconds histogram''] @
     map (\<lambda>(bound, n). bucket_line fr bound n) (zip (me_bounds m) (running 0 (me_buckets m))) @
     [u ''mcp_request_duration_seconds_sum '' @ fr (me_duration_sum m),
      u ''mcp_request_duration_seconds_count '' @ show_nat (me_duration_count m)] @
     (if me_circuit_states m \<noteq> [] then
        [u ''# HELP mcp_circuit_breaker_state Circuit breaker state per layer (0=closed, 1=open, 2=half_open).'',
         u ''# TYPE mcp_circuit_breaker_state gauge''] @
        map (\<lambda>(name, state). labelled ''mcp_circuit_breaker_state'' ''layer'' name
          (show_int (dget_or STATE_MAP state (- 1)))) (sort_key fst (me_circuit_states m))
      else []) @ [[]]"

definition expose :: "(rat \<Rightarrow> pystr) \<Rightarrow> metrics \<Rightarrow> pystr" where
  "expose fr m = join_with [10] (metric_lines fr m)"

section \<open>The counts\<close>

datatype metric_op = IncRequest pystr | IncError | IncActive | DecActive | Observe rat | SetCircuit pystr pystr

fun metric_step :: "metric_op \<Rightarrow> metrics \<Rightarrow> metrics" where
  "metric_step (IncRequest e) m = inc_request e m"
| "metric_step IncError m = inc_error m"
| "metric_step IncActive m = inc_active m"
| "metric_step DecActive m = dec_active m"
| "metric_step (Observe d) m = observe_duration d m"
| "metric_step (SetCircuit n s) m = set_circuit_state n s m"

definition run_metrics :: "metric_op list \<Rightarrow> metrics \<Rightarrow> metrics" where
  "run_metrics ops m = fold metric_step ops m"

definition observed :: "metric_op list \<Rightarrow> rat list" where
  "observed ops = List.map_filter (\<lambda>x. case x of Observe d \<Rightarrow> Some d | _ \<Rightarrow> None) ops"

definition requested :: "metric_op list \<Rightarrow> pystr list" where
  "requested ops = List.map_filter (\<lambda>x. case x of IncRequest e \<Rightarrow> Some e | _ \<Rightarrow> None) ops"

lemma observed_snoc: "observed (ops @ [x]) = observed ops @ (case x of Observe d \<Rightarrow> [d] | _ \<Rightarrow> [])"
  by (simp add: observed_def List.map_filter_def split: metric_op.split)

lemma requested_snoc: "requested (ops @ [x]) = requested ops @ (case x of IncRequest e \<Rightarrow> [e] | _ \<Rightarrow> [])"
  by (simp add: requested_def List.map_filter_def split: metric_op.split)

definition metrics_match :: "pyfloat list \<Rightarrow> metric_op list \<Rightarrow> metrics \<Rightarrow> bool" where
  "metrics_match bounds ops m \<longleftrightarrow> me_bounds m = bounds \<and>
     me_request_total m = length (requested ops) \<and>
     me_by_endpoint m = tally id (filter (\<lambda>e. e \<noteq> []) (requested ops)) \<and>
     me_error_total m = count_list ops IncError \<and>
     me_active m = int (count_list ops IncActive) - int (count_list ops DecActive) \<and>
     me_duration_sum m = sum_list (observed ops) \<and> me_duration_count m = length (observed ops) \<and>
     me_buckets m = map (\<lambda>bound. length (filter (\<lambda>d. within_bound d bound) (observed ops))) bounds"

lemma run_metrics_match: "metrics_match bounds ops (run_metrics ops (make_metrics bounds))"
proof (induction ops rule: rev_induct)
  case Nil
  show ?case
    by (simp add: metrics_match_def run_metrics_def make_metrics_def observed_def requested_def
        List.map_filter_def tally_def map_replicate_const)
next
  case (snoc x ops)
  have step: "run_metrics (ops @ [x]) m = metric_step x (run_metrics ops m)" for m
    by (simp add: run_metrics_def)
  show ?case
    using snoc unfolding step metrics_match_def observed_snoc requested_snoc
    by (cases x)
      (auto simp: inc_request_def inc_error_def inc_active_def dec_active_def observe_duration_def
        set_circuit_state_def zip_map2 zip_same_conv_map)
qed

text \<open>
  After any sequence of operations the counters say what happened: requests in all and per endpoint,
  errors, the requests that have begun and not ended, the number and the sum of the durations, and in
  each bucket the number of durations up to its bound.
\<close>

theorem metrics_count_history:
  "me_request_total (run_metrics ops (make_metrics bounds)) = length (requested ops) \<and>
   dget_or (me_by_endpoint (run_metrics ops (make_metrics bounds))) e 0 =
     (if e = [] then 0 else count_list (requested ops) e) \<and>
   me_error_total (run_metrics ops (make_metrics bounds)) = count_list ops IncError \<and>
   get_active_requests (run_metrics ops (make_metrics bounds)) =
     int (count_list ops IncActive) - int (count_list ops DecActive) \<and>
   me_duration_sum (run_metrics ops (make_metrics bounds)) = sum_list (observed ops) \<and>
   me_duration_count (run_metrics ops (make_metrics bounds)) = length (observed ops) \<and>
   me_buckets (run_metrics ops (make_metrics bounds)) =
     map (\<lambda>bound. length (filter (\<lambda>d. within_bound d bound) (observed ops))) bounds"
proof -
  have "length (filter (\<lambda>x. x = e) (filter (\<lambda>e. e \<noteq> []) rs)) = (if e = [] then 0 else count_list rs e)" for rs
    by (induction rs) auto
  with run_metrics_match [of bounds ops] show ?thesis
    by (simp add: metrics_match_def get_active_requests_def tally_count)
qed

section \<open>Gaps\<close>

text \<open>The buckets are cumulative already, and \<open>expose\<close> adds them up again: after one duration within
  every bound the \<open>+Inf\<close> bucket is printed as the number of buckets, while the count is one.\<close>

lemma running_Nil [simp]: "running n ks = [] \<longleftrightarrow> ks = []"
  by (cases ks) auto

lemma running_last: "ks \<noteq> [] \<Longrightarrow> last (running n ks) = n + sum_list ks"
  by (induction n ks rule: running.induct) auto

lemma inf_bucket_overcounts:
  assumes "list_all (within_bound d) bounds" "bounds \<noteq> []"
  shows "last (running 0 (me_buckets (observe_duration d (make_metrics bounds)))) = length bounds \<and>
    me_duration_count (observe_duration d (make_metrics bounds)) = 1"
proof -
  have "me_buckets (observe_duration d (make_metrics bounds)) = replicate (length bounds) 1"
    using assms(1)
    by (simp add: observe_duration_def make_metrics_def zip_replicate2 comp_def list_all_iff map_replicate_const
        cong: map_cong)
  with assms(2) show ?thesis
    by (simp add: running_last sum_list_replicate) (simp add: observe_duration_def make_metrics_def)
qed

lemma default_overcount:
  "last (running 0 (me_buckets (observe_duration (1 / 1000) (make_metrics DEFAULT_BUCKETS)))) = 15"
  using inf_bucket_overcounts [of "1 / 1000" DEFAULT_BUCKETS] by (simp add: DEFAULT_BUCKETS_def)

end
