(* ===== verification/GracefulStop.thy ===== *)
theory GracefulStop
  imports Prelude
begin

text \<open>
  \<open>production/shutdown.py\<close>: the count of requests in flight and the drain at shutdown. The polling loop
  runs against the readings of the monotonic clock and the counts it sees at each poll, both sequences;
  it is a partial function, since a clock that stands still would keep it polling for ever. Signal
  registration and logging are left out.
\<close>

section \<open>State\<close>

record shutdown =
  sd_drain_timeout :: rat
  sd_event :: bool
  sd_active_requests :: int

definition make_shutdown :: "rat \<Rightarrow> shutdown" where
  "make_shutdown drain_timeout = \<lparr>sd_drain_timeout = drain_timeout, sd_event = False, sd_active_requests = 0\<rparr>"

definition is_shutting_down :: "shutdown \<Rightarrow> bool" where
  "is_shutting_down s = sd_event s"

definition initiate_shutdown :: "shutdown \<Rightarrow> shutdown" where
  "initiate_shutdown s = s\<lparr>sd_event := True\<rparr>"

definition request_started :: "shutdown \<Rightarrow> shutdown" where
  "request_started s = s\<lparr>sd_active_requests := sd_active_requests s + 1\<rparr>"

definition request_finished :: "shutdown \<Rightarrow> shutdown" where
  "request_finished s = s\<lparr>sd_active_requests := sd_active_requests s - 1\<rparr>"

text \<open>What the other threads do between two polls.\<close>

datatype request_op = Started | Finished

fun request_step :: "request_op \<Rightarrow> shutdown \<Rightarrow> shutdown" where
  "request_step Started s = request_started s"
| "request_step Finished s = request_finished s"

definition run_requests :: "request_op list \<Rightarrow> shutdown \<Rightarrow> shutdown" where
  "run_requests ops s = fold request_step ops s"

section \<open>The drain\<close>

text \<open>Poll \<open>i\<close> reads the clock as \<open>clock (i + 1)\<close> and sees \<open>active i\<close> requests; \<open>clock 0\<close> sets the deadline.\<close>

partial_function (option) wait_loop :: "(nat \<Rightarrow> rat) \<Rightarrow> (nat \<Rightarrow> int) \<Rightarrow> rat \<Rightarrow> nat \<Rightarrow> bool option" where
  "wait_loop clock active deadline i =
    (if clock (Suc i) < deadline
     then (if active i = 0 then Some True else wait_loop clock active deadline (Suc i))
     else Some (active i = 0))"

definition wait_for_drain :: "(nat \<Rightarrow> rat) \<Rightarrow> (nat \<Rightarrow> int) \<Rightarrow> shutdown \<Rightarrow> bool option" where
  "wait_for_drain clock active s = wait_loop clock active (clock 0 + sd_drain_timeout s) 0"

text \<open>What poll \<open>i\<close> sees, when the threads do \<open>between j\<close> before poll \<open>j\<close>.\<close>

definition seen_at :: "(nat \<Rightarrow> request_op list) \<Rightarrow> shutdown \<Rightarrow> nat \<Rightarrow> int" where
  "seen_at between s i = sd_active_requests (run_requests (concat (map between [0..<Suc i])) s)"

text \<open>The callback is called whether or not the requests drained, and its exception is caught.\<close>

record shutdown_report =
  sp_drained :: bool
  sp_callback_called :: bool
  sp_callback_failed :: bool

definition execute_shutdown :: "(nat \<Rightarrow> rat) \<Rightarrow> (nat \<Rightarrow> request_op list) \<Rightarrow> (unit \<Rightarrow> bool) option \<Rightarrow> shutdown \<Rightarrow>
    (shutdown_report \<times> shutdown) option" where
  "execute_shutdown clock between callback s =
    (let s' = initiate_shutdown s
     in map_option (\<lambda>drained.
          (\<lparr>sp_drained = drained, sp_callback_called = (callback \<noteq> None),
            sp_callback_failed = (case callback of None \<Rightarrow> False | Some f \<Rightarrow> \<not> f ())\<rparr>, s'))
        (wait_for_drain clock (seen_at between s') s'))"

section \<open>The drain ends\<close>

lemma run_requests_active:
  "sd_active_requests (run_requests ops s) =
     sd_active_requests s + int (count_list ops Started) - int (count_list ops Finished)"
proof (induction ops rule: rev_induct)
  case Nil
  show ?case by (simp add: run_requests_def)
next
  case (snoc x ops)
  then show ?case
    by (cases x) (simp_all add: run_requests_def request_started_def request_finished_def)
qed

lemma run_requests_event: "sd_event (run_requests ops s) = sd_event s"
proof (induction ops rule: rev_induct)
  case Nil
  show ?case by (simp add: run_requests_def)
next
  case (snoc x ops)
  then show ?case
    by (cases x) (simp_all add: run_requests_def request_started_def request_finished_def)
qed

definition steady_clock :: "(nat \<Rightarrow> rat) \<Rightarrow> bool" where
  "steady_clock clock \<longleftrightarrow> clock 0 \<le> clock 1 \<and> (\<forall>i. clock (Suc i) + 1 / 10 \<le> clock (Suc (Suc i)))"

lemma wait_loop_ends:
  assumes "steady_clock clock" "deadline - clock (Suc i) \<le> of_nat k / 10"
  shows "\<exists>n \<ge> i. n \<le> i + k \<and> wait_loop clock active deadline i = Some (active n = 0) \<and>
    (\<forall>j. i \<le> j \<and> j < n \<longrightarrow> active j \<noteq> 0) \<and> (active n \<noteq> 0 \<longrightarrow> deadline \<le> clock (Suc n))"
  using assms(2)
proof (induction k arbitrary: i)
  case 0
  then show ?case by (intro exI [of _ i]) (simp add: wait_loop.simps [of clock active deadline i])
next
  case (Suc k)
  show ?case
  proof (cases "clock (Suc i) < deadline \<and> active i \<noteq> 0")
    case False
    then show ?thesis by (intro exI [of _ i]) (auto simp: wait_loop.simps [of clock active deadline i])
  next
    case True
    have "clock (Suc i) + 1 / 10 \<le> clock (Suc (Suc i))" using assms(1) by (simp add: steady_clock_def)
    with Suc.prems have "deadline - clock (Suc (Suc i)) \<le> of_nat k / 10" by (simp add: field_simps)
    from Suc.IH [OF this] obtain n where n: "n \<ge> Suc i" "n \<le> Suc i + k"
      "wait_loop clock active deadline (Suc i) = Some (active n = 0)"
      "\<forall>j. Suc i \<le> j \<and> j < n \<longrightarrow> active j \<noteq> 0" "active n \<noteq> 0 \<longrightarrow> deadline \<le> clock (Suc n)"
      by blast
    have "\<forall>j. i \<le> j \<and> j < n \<longrightarrow> active j \<noteq> 0"
      using n(4) True by (metis le_eq_less_or_eq less_eq_Suc_le)
    with n True show ?thesis
      by (intro exI [of _ n]) (auto simp: wait_loop.simps [of clock active deadline i])
  qed
qed

text \<open>
  Shutdown always ends. When every sleep lasts at least a tenth of a second, the drain returns after at
  most \<open>10 * drain_timeout\<close> polls, rounded up: with success at the first poll that sees as many requests
  finished as started, and with failure only when the deadline has passed.
\<close>

theorem drain_ends:
  assumes "steady_clock clock" "0 \<le> sd_drain_timeout s"
  shows "\<exists>n report. n \<le> nat \<lceil>10 * sd_drain_timeout s\<rceil> \<and>
    execute_shutdown clock between callback s = Some (report, initiate_shutdown s) \<and>
    (sp_drained report \<longleftrightarrow> sd_active_requests s + int (count_list (concat (map between [0..<Suc n])) Started) =
       int (count_list (concat (map between [0..<Suc n])) Finished)) \<and>
    (\<not> sp_drained report \<longrightarrow> clock 0 + sd_drain_timeout s \<le> clock (Suc n)) \<and>
    sp_callback_called report = (callback \<noteq> None)"
proof -
  let ?s = "initiate_shutdown s"
  let ?k = "nat \<lceil>10 * sd_drain_timeout s\<rceil>"
  have "10 * sd_drain_timeout s \<le> of_nat ?k"
    using assms(2) by (simp add: of_nat_nat)
  then have "sd_drain_timeout s \<le> of_nat ?k / 10" by simp
  then have "clock 0 + sd_drain_timeout ?s - clock (Suc 0) \<le> of_nat ?k / 10"
    using assms(1) by (simp add: initiate_shutdown_def steady_clock_def)
  from wait_loop_ends [OF assms(1) this, of "seen_at between ?s"] obtain n where
    "n \<le> ?k" "wait_for_drain clock (seen_at between ?s) ?s = Some (seen_at between ?s n = 0)"
    "seen_at between ?s n \<noteq> 0 \<longrightarrow> clock 0 + sd_drain_timeout s \<le> clock (Suc n)"
    by (auto simp: wait_for_drain_def initiate_shutdown_def)
  moreover have "seen_at between ?s n = 0 \<longleftrightarrow>
      sd_active_requests s + int (count_list (concat (map between [0..<Suc n])) Started) =
      int (count_list (concat (map between [0..<Suc n])) Finished)"
    by (auto simp: seen_at_def run_requests_active initiate_shutdown_def simp del: upt_Suc)
  ultimately show ?thesis
    by (intro exI [of _ n]) (simp add: execute_shutdown_def Let_def del: upt_Suc)
qed

lemma drain_ends_witness:
  "\<exists>n report. n \<le> nat \<lceil>10 * sd_drain_timeout (make_shutdown 30)\<rceil> \<and>
    execute_shutdown (\<lambda>i. of_nat i / 10) (\<lambda>i. [Started, Finished]) None (make_shutdown 30) =
      Some (report, initiate_shutdown (make_shutdown 30))"
proof -
  have "steady_clock (\<lambda>i. of_nat i / 10)" by (simp add: steady_clock_def field_simps)
  moreover have "0 \<le> sd_drain_timeout (make_shutdown 30)" by (simp add: make_shutdown_def)
  ultimately show ?thesis
    using drain_ends [of "\<lambda>i. of_nat i / 10" "make_shutdown 30" "\<lambda>i. [Started, Finished]" None] by blast
qed

section \<open>Gaps\<close>

text \<open>The server calls the drain inside its event loop, which therefore stands still: no handler can
  finish while it polls, so with a request in flight it always runs to the deadline and fails.\<close>

lemma blocked_loop_never_drains:
  assumes "steady_clock clock" "0 \<le> sd_drain_timeout s" "sd_active_requests s \<noteq> 0"
    "execute_shutdown clock (\<lambda>i. []) callback s = Some (report, s')"
  shows "\<not> sp_drained report"
  using drain_ends [OF assms(1,2), of "\<lambda>i. []" callback] assms(3,4)
  by (auto simp: map_replicate_const)

end
