(* ===== verification/Tracing.thy ===== *)
theory Tracing
  imports PyValues NdJson
begin

text \<open>
  \<open>production/tracing.py\<close>: spans, the tracer and the W3C \<open>traceparent\<close> header. Callers keep references
  to spans and change them after the tracer stored them, so spans live in a store and the tracer's deque
  holds their addresses. Random bytes, clock readings and the text of a second (\<open>gmtime\<close>) are arguments.
\<close>

section \<open>Spans\<close>

record span =
  sn_name :: pystr
  sn_trace_id :: pystr
  sn_span_id :: pystr
  sn_parent_span_id :: "pystr option"
  sn_start_time :: rat
  sn_end_time :: "rat option"
  sn_attributes :: pydict
  sn_status :: pystr

definition hex_of :: "pybytes \<Rightarrow> pystr" where
  "hex_of bs = concat (map (\<lambda>b. [hex_char (b div 16), hex_char (b mod 16)]) bs)"

definition make_span :: "pybytes \<Rightarrow> rat \<Rightarrow> pystr \<Rightarrow> pystr \<Rightarrow> pystr option \<Rightarrow> span" where
  "make_span random8 now name trace_id parent =
     \<lparr>sn_name = name, sn_trace_id = trace_id, sn_span_id = hex_of random8, sn_parent_span_id = parent,
      sn_start_time = now, sn_end_time = None, sn_attributes = [], sn_status = u ''OK''\<rparr>"

definition set_attribute :: "pystr \<Rightarrow> pyval \<Rightarrow> span \<Rightarrow> span" where
  "set_attribute key v s = s\<lparr>sn_attributes := dset key v (sn_attributes s)\<rparr>"

definition set_status :: "pystr \<Rightarrow> span \<Rightarrow> span" where
  "set_status status s = s\<lparr>sn_status := status\<rparr>"

definition span_end :: "rat \<Rightarrow> span \<Rightarrow> span" where
  "span_end now s = s\<lparr>sn_end_time := Some now\<rparr>"

text \<open>An end time of zero counts as not set in a truth test.\<close>

definition set_time :: "rat option \<Rightarrow> bool" where
  "set_time t \<longleftrightarrow> (case t of None \<Rightarrow> False | Some q \<Rightarrow> q \<noteq> 0)"

definition duration_ms :: "rat \<Rightarrow> span \<Rightarrow> rat" where
  "duration_ms now s =
    ((if set_time (sn_end_time s) then the (sn_end_time s) else now) - sn_start_time s) * 1000"

definition pad3 :: "nat \<Rightarrow> pystr" where
  "pad3 n = (let t = show_nat n in replicate (3 - length t) 48 @ t)"

definition format_time :: "(int \<Rightarrow> pystr) \<Rightarrow> rat \<Rightarrow> pystr" where
  "format_time gm t = gm \<lfloor>t\<rfloor> @ [46] @ pad3 (nat \<lfloor>(t - of_int \<lfloor>t\<rfloor>) * 1000\<rfloor>) @ [90]"

definition span_to_dict :: "(int \<Rightarrow> pystr) \<Rightarrow> rat \<Rightarrow> span \<Rightarrow> pydict" where
  "span_to_dict gm now s =
     [(u ''trace_id'', PStr (sn_trace_id s)), (u ''span_id'', PStr (sn_span_id s)), (u ''name'', PStr (sn_name s)),
      (u ''start_time'', PStr (format_time gm (sn_start_time s))),
      (u ''duration_ms'', PFloat (Fin (of_int (round_even (duration_ms now s * 1000)) / 1000))),
      (u ''status'', PStr (sn_status s)), (u ''attributes'', PDict (sn_attributes s))] @
     (case sn_parent_span_id s of None \<Rightarrow> []
      | Some p \<Rightarrow> if p \<noteq> [] then [(u ''parent_span_id'', PStr p)] else []) @
     (if set_time (sn_end_time s) then [(u ''end_time'', PStr (format_time gm (the (sn_end_time s))))] else [])"

definition span_to_json :: "(rat \<Rightarrow> pystr) \<Rightarrow> (int \<Rightarrow> pystr) \<Rightarrow> rat \<Rightarrow> span \<Rightarrow> pystr" where
  "span_to_json fr gm now s = dumps fr default_style (PDict (span_to_dict gm now s))"

section \<open>The tracer\<close>

record tracer =
  tc_service_name :: pystr
  tc_max_spans :: nat
  tc_store :: "span list"
  tc_spans :: "nat list"

definition make_tracer :: "pystr \<Rightarrow> nat \<Rightarrow> tracer" where
  "make_tracer service_name max_spans =
     \<lparr>tc_service_name = service_name, tc_max_spans = max_spans, tc_store = [], tc_spans = []\<rparr>"

definition start_trace :: "pybytes \<Rightarrow> pystr" where
  "start_trace random16 = hex_of random16"

definition start_span :: "pybytes \<Rightarrow> rat \<Rightarrow> pystr \<Rightarrow> pystr \<Rightarrow> pystr option \<Rightarrow> tracer \<Rightarrow> nat \<times> tracer" where
  "start_span random8 now name trace_id parent t =
    (let s = set_attribute (u ''service.name'') (PStr (tc_service_name t))
           (make_span random8 now name trace_id parent);
         a = length (tc_store t)
     in (a, t\<lparr>tc_store := tc_store t @ [s], tc_spans := last_n (tc_max_spans t) (tc_spans t @ [a])\<rparr>))"

definition update_span :: "nat \<Rightarrow> (span \<Rightarrow> span) \<Rightarrow> tracer \<Rightarrow> tracer" where
  "update_span a f t = t\<lparr>tc_store := (tc_store t)[a := f (tc_store t ! a)]\<rparr>"

definition end_span :: "rat \<Rightarrow> nat \<Rightarrow> tracer \<Rightarrow> tracer" where
  "end_span now a t = update_span a (span_end now) t"

definition get_completed_spans :: "tracer \<Rightarrow> span list" where
  "get_completed_spans t = filter (\<lambda>s. sn_end_time s \<noteq> None) (map ((!) (tc_store t)) (tc_spans t))"

definition clear_spans :: "tracer \<Rightarrow> tracer" where
  "clear_spans t = t\<lparr>tc_spans := []\<rparr>"

section \<open>The traceparent header\<close>

record traceparent =
  tp_version :: pystr
  tp_trace_id :: pystr
  tp_parent_span_id :: pystr
  tp_flags :: pystr

definition parse_traceparent :: "pystr \<Rightarrow> traceparent option" where
  "parse_traceparent header =
    (if header = [] then None
     else (case split_on 45 (py_strip header) of
         [version, trace_id, parent, flags] \<Rightarrow>
           if length trace_id \<noteq> 32 \<or> length parent \<noteq> 16 then None
           else Some \<lparr>tp_version = version, tp_trace_id = trace_id, tp_parent_span_id = parent, tp_flags = flags\<rparr>
       | _ \<Rightarrow> None))"

definition create_traceparent :: "pystr \<Rightarrow> pystr \<Rightarrow> bool \<Rightarrow> pystr" where
  "create_traceparent trace_id span_id sampled =
     u ''00-'' @ trace_id @ [45] @ span_id @ [45] @ (if sampled then u ''01'' else u ''00'')"

lemma hex_char_range: "n < 16 \<Longrightarrow> 48 \<le> hex_char n \<and> hex_char n \<le> 102 \<and> hex_char n \<noteq> 45"
  by (simp add: hex_char_def)

lemma hex_of_props:
  "list_all (\<lambda>b. b < 256) bs \<Longrightarrow> length (hex_of bs) = 2 * length bs \<and> 45 \<notin> set (hex_of bs)"
proof (induction bs)
  case Nil
  show ?case by (simp add: hex_of_def)
next
  case (Cons b bs)
  then have "b div 16 < 16" "b mod 16 < 16" by auto
  with hex_char_range [of "b div 16"] hex_char_range [of "b mod 16"] Cons show ?case
    by (simp add: hex_of_def)
qed

lemma parse_create:
  assumes "length tid = 32" "length sid = 16" "45 \<notin> set tid" "45 \<notin> set sid"
  shows "parse_traceparent (create_traceparent tid sid sampled) =
    Some \<lparr>tp_version = u ''00'', tp_trace_id = tid, tp_parent_span_id = sid,
      tp_flags = (if sampled then u ''01'' else u ''00'')\<rparr>"
proof -
  define flags where "flags = (if sampled then u ''01'' else u ''00'')"
  have flags: "45 \<notin> set flags" "flags \<noteq> []" "\<not> is_space (last flags)"
    by (auto simp: flags_def u_def is_space_def)
  have form: "create_traceparent tid sid sampled = [48, 48] @ 45 # tid @ 45 # sid @ 45 # flags"
    by (simp add: create_traceparent_def flags_def u_def)
  have "py_strip (create_traceparent tid sid sampled) = create_traceparent tid sid sampled"
    unfolding form using flags(2,3) by (intro py_strip_id) (simp add: is_space_def)
  moreover have "split_on 45 (create_traceparent tid sid sampled) = [[48, 48], tid, sid, flags]"
    unfolding form split_on_app using assms(3,4) flags(1) by (simp add: split_on_fresh split_on_app)
  ultimately show ?thesis
    using assms(1,2) unfolding parse_traceparent_def
    by (simp add: form flags_def [symmetric]) (simp add: u_def)
qed

text \<open>
  Trace contexts survive the hop to the next service: the header created for a trace and a span of
  this tracer, from any random bytes, is read back as that trace, that span as the parent, and the
  sampling flag.
\<close>

theorem traceparent_roundtrip:
  assumes "length random16 = 16" "length random8 = 8"
    "list_all (\<lambda>b. b < 256) random16" "list_all (\<lambda>b. b < 256) random8"
    "start_span random8 now name (start_trace random16) parent t = (a, t')"
  shows "parse_traceparent (create_traceparent (start_trace random16) (sn_span_id (tc_store t' ! a)) sampled) =
    Some \<lparr>tp_version = u ''00'', tp_trace_id = sn_trace_id (tc_store t' ! a),
      tp_parent_span_id = hex_of random8, tp_flags = (if sampled then u ''01'' else u ''00'')\<rparr>"
proof -
  have "sn_span_id (tc_store t' ! a) = hex_of random8" "sn_trace_id (tc_store t' ! a) = start_trace random16"
    using assms(5) by (auto simp: start_span_def make_span_def set_attribute_def nth_append Let_def)
  with parse_create [of "start_trace random16" "hex_of random8" sampled] hex_of_props [OF assms(3)]
    hex_of_props [OF assms(4)] assms(1,2)
  show ?thesis by (simp add: start_trace_def)
qed

lemma traceparent_roundtrip_witness:
  "\<exists>a t'. start_span (replicate 8 7) 0 (u ''GET /'') (start_trace (replicate 16 255)) None (make_tracer (u ''s'') 10) = (a, t') \<and>
    parse_traceparent (create_traceparent (start_trace (replicate 16 255)) (sn_span_id (tc_store t' ! a)) True) =
      Some \<lparr>tp_version = u ''00'', tp_trace_id = sn_trace_id (tc_store t' ! a),
        tp_parent_span_id = hex_of (replicate 8 7), tp_flags = u ''01''\<rparr>"
proof -
  obtain a t' where s: "start_span (replicate 8 7) 0 (u ''GET /'') (start_trace (replicate 16 255)) None
      (make_tracer (u ''s'') 10) = (a, t')" by fastforce
  show ?thesis
    using traceparent_roundtrip [OF _ _ _ _ s, of True] s by (auto simp: list_all_iff)
qed

text \<open>The deque never holds more than its bound, whatever is started and ended.\<close>

datatype trace_op = StartSpan pybytes rat pystr pystr "pystr option" | EndSpan rat nat

fun trace_step :: "trace_op \<Rightarrow> tracer \<Rightarrow> tracer" where
  "trace_step (StartSpan r now name tid parent) t = snd (start_span r now name tid parent t)"
| "trace_step (EndSpan now a) t = end_span now a t"

definition tracer_ok :: "tracer \<Rightarrow> bool" where
  "tracer_ok t \<longleftrightarrow> length (tc_spans t) \<le> tc_max_spans t \<and> (\<forall>a \<in> set (tc_spans t). a < length (tc_store t))"

lemma trace_step_ok: "tracer_ok t \<Longrightarrow> tracer_ok (trace_step x t)"
proof (cases x)
  case (StartSpan r now name tid parent)
  assume "tracer_ok t"
  then show ?thesis
    using set_last_n [of "tc_max_spans t" "tc_spans t @ [length (tc_store t)]"]
    by (fastforce simp: StartSpan tracer_ok_def start_span_def Let_def)
qed (simp add: tracer_ok_def end_span_def update_span_def)

lemma tracer_bounded: "tracer_ok (fold trace_step ops (make_tracer service n))"
  by (induction ops rule: rev_induct) (auto intro: trace_step_ok, simp add: tracer_ok_def make_tracer_def)

section \<open>Gaps\<close>

text \<open>The ids of a received header are not checked to be hexadecimal, nor the version: a carriage
  return inside a trace id is accepted, and the server copies the id into its response headers.\<close>

lemma bare_cr_accepted:
  "map_option tp_trace_id (parse_traceparent (u ''zz-'' @ 65 # 13 # replicate 30 65 @ u ''-'' @ replicate 16 48 @ u ''-zz'')) =
     Some (65 # 13 # replicate 30 65)"
  by code_simp

end
