(* ===== verification/Alerting.thy ===== *)
theory Alerting
  imports PyValues NdJson PyNet
begin

text \<open>
  \<open>production/alerting.py\<close>: webhook alerts for critical results, with a cooldown per set of findings. The
  time, its text and NFKC are arguments; posting runs in a thread of its own and its outcome is data.
\<close>

section \<open>State and operations\<close>

record alert_input =
  ai_risk_score :: int
  ai_findings :: "pystr list"
  ai_call_id :: "pystr option"

record alerting_hook =
  ah_webhook_url :: "pystr option"
  ah_risk_threshold :: int
  ah_cooldown_seconds :: rat
  ah_last_alert_times :: "(pystr \<times> rat) list"

definition make_alerting :: "pystr option \<Rightarrow> int \<Rightarrow> rat \<Rightarrow> alerting_hook" where
  "make_alerting url threshold cooldown =
     \<lparr>ah_webhook_url = url, ah_risk_threshold = threshold, ah_cooldown_seconds = cooldown,
      ah_last_alert_times = []\<rparr>"

definition findings_key :: "alert_input \<Rightarrow> pystr" where
  "findings_key r = join_with [44] (sort (ai_findings r))"

definition alert_text :: "alert_input \<Rightarrow> pystr" where
  "alert_text r = u ''*MCP Security Alert*'' @ [10] @ u ''Risk Score: '' @ show_int (ai_risk_score r) @ u ''/100'' @ [10] @
     u ''Call ID: '' @ (case ai_call_id r of None \<Rightarrow> u ''unknown'' | Some c \<Rightarrow> c) @ [10] @
     u ''Findings: '' @ join_with (u '', '') (ai_findings r)"

definition build_payload :: "pystr \<Rightarrow> alert_input \<Rightarrow> pydict" where
  "build_payload time_text r =
     [(u ''text'', PStr (u ''[CRITICAL] MCP Security Alert - Risk Score: '' @ show_int (ai_risk_score r))),
      (u ''blocks'', PList [PDict [(u ''type'', PStr (u ''section'')),
        (u ''text'', PDict [(u ''type'', PStr (u ''mrkdwn'')), (u ''text'', PStr (alert_text r))])]]),
      (u ''severity'', PStr (u ''critical'')), (u ''source'', PStr (u ''mcp-security-monitor'')),
      (u ''timestamp'', PStr time_text),
      (u ''call_id'', PStr (case ai_call_id r of None \<Rightarrow> u ''unknown'' | Some c \<Rightarrow> c)),
      (u ''risk_score'', PInt (ai_risk_score r)), (u ''findings'', PList (map PStr (ai_findings r)))]"

definition url_set :: "pystr option \<Rightarrow> bool" where
  "url_set url \<longleftrightarrow> url \<noteq> None \<and> url \<noteq> Some []"

text \<open>Whether an alert is fired; if so the thread sends \<open>build_payload\<close> of the result.\<close>

definition check_and_alert :: "rat \<Rightarrow> alert_input \<Rightarrow> alerting_hook \<Rightarrow> bool \<times> alerting_hook" where
  "check_and_alert now r ah =
    (if \<not> url_set (ah_webhook_url ah) then (False, ah)
     else if ai_risk_score r < ah_risk_threshold ah then (False, ah)
     else if now - dget_or (ah_last_alert_times ah) (findings_key r) 0 < ah_cooldown_seconds ah then (False, ah)
     else (True, ah\<lparr>ah_last_alert_times := dset (findings_key r) now (ah_last_alert_times ah)\<rparr>))"

text \<open>What a post does: nothing, an exception of the URL parser (which escapes the thread), a warning, or
  a request whose failure is only logged.\<close>

datatype delivery = NoWebhook | UrlRaised | HttpsRequired | Posted pystr pystr

definition local_hosts :: "pystr set" where
  "local_hosts = {u ''localhost'', u ''127.0.0.1'', u ''::1''}"

definition send_webhook :: "(pystr \<Rightarrow> pystr) \<Rightarrow> (rat \<Rightarrow> pystr) \<Rightarrow> pydict \<Rightarrow> alerting_hook \<Rightarrow> delivery" where
  "send_webhook nfkc fr payload ah =
    (case ah_webhook_url ah of
       None \<Rightarrow> NoWebhook
     | Some url \<Rightarrow>
         if url = [] then NoWebhook
         else (case urlparse nfkc url of
             None \<Rightarrow> UrlRaised
           | Some (scheme, netloc) \<Rightarrow>
               if scheme \<noteq> u ''https'' \<and> \<not> (scheme = u ''http'' \<and> hostname netloc \<in> Some ` local_hosts)
               then HttpsRequired
               else Posted url (dumps fr default_style (PDict payload))))"

section \<open>Spacing of alerts\<close>

text \<open>A history of results, and the alerts it fired, oldest first.\<close>

fun run_alerts :: "(rat \<times> alert_input) list \<Rightarrow> alerting_hook \<Rightarrow> (rat \<times> pystr) list \<times> alerting_hook" where
  "run_alerts [] ah = ([], ah)"
| "run_alerts ((now, r) # rs) ah =
    (let (fired, ah') = check_and_alert now r ah; (hist, ah'') = run_alerts rs ah'
     in (if fired then (now, findings_key r) # hist else hist, ah''))"

definition spaced :: "rat \<Rightarrow> (rat \<times> pystr) list \<Rightarrow> bool" where
  "spaced cooldown hist \<longleftrightarrow> sorted_wrt (\<lambda>a b. snd a = snd b \<longrightarrow> cooldown \<le> fst b - fst a) hist"

lemma check_params:
  "ah_cooldown_seconds (snd (check_and_alert now r ah)) = ah_cooldown_seconds ah"
  by (simp add: check_and_alert_def)

lemma run_alerts_after:
  assumes "0 \<le> ah_cooldown_seconds ah" "a \<in> set (fst (run_alerts rs ah))"
    "dget (ah_last_alert_times ah) (snd a) = Some t"
  shows "ah_cooldown_seconds ah \<le> fst a - t"
  using assms
proof (induction rs arbitrary: ah t)
  case (Cons x rs)
  obtain now r where x: "x = (now, r)" by fastforce
  obtain fired ah' where c: "check_and_alert now r ah = (fired, ah')" by fastforce
  have same: "ah_cooldown_seconds ah' = ah_cooldown_seconds ah" using check_params [of now r ah] c by simp
  show ?case
  proof (cases "fired \<and> snd a = findings_key r")
    case False
    then have "dget (ah_last_alert_times ah') (snd a) = Some t"
      using c Cons.prems(3) by (auto simp: check_and_alert_def split: if_splits)
    moreover have "a \<in> set (fst (run_alerts rs ah'))"
      using Cons.prems(2) False x c by (auto simp: Let_def split: prod.splits if_splits)
    ultimately show ?thesis using Cons.IH [of ah' t] Cons.prems(1) same by simp
  next
    case True
    with c Cons.prems(3) have now: "ah_cooldown_seconds ah \<le> now - t"
      and last: "dget (ah_last_alert_times ah') (snd a) = Some now"
      by (auto simp: check_and_alert_def split: if_splits)
    from Cons.prems(2) x c True consider "a = (now, findings_key r)" | "a \<in> set (fst (run_alerts rs ah'))"
      by (auto simp: Let_def split: prod.splits if_splits)
    then show ?thesis
    proof cases
      case 2
      from Cons.IH [OF _ this last] Cons.prems(1) same now show ?thesis by simp
    qed (use now in simp)
  qed
qed simp

lemma run_alerts_spaced: "0 \<le> ah_cooldown_seconds ah \<Longrightarrow> spaced (ah_cooldown_seconds ah) (fst (run_alerts rs ah))"
proof (induction rs arbitrary: ah)
  case Nil
  show ?case by (simp add: spaced_def)
next
  case (Cons x rs)
  obtain now r where x: "x = (now, r)" by fastforce
  obtain fired ah' where c: "check_and_alert now r ah = (fired, ah')" by fastforce
  have same: "ah_cooldown_seconds ah' = ah_cooldown_seconds ah" using check_params [of now r ah] c by simp
  from Cons have IH: "spaced (ah_cooldown_seconds ah) (fst (run_alerts rs ah'))" by (metis same)
  have "ah_cooldown_seconds ah \<le> fst b - now"
    if "fired" "b \<in> set (fst (run_alerts rs ah'))" "findings_key r = snd b" for b
  proof -
    have "dget (ah_last_alert_times ah') (snd b) = Some now"
      using c that(1,3) by (auto simp: check_and_alert_def split: if_splits)
    from run_alerts_after [OF _ that(2) this] Cons.prems same show ?thesis by simp
  qed
  with IH show ?case
    by (auto simp: x c Let_def spaced_def split: prod.splits)
qed

lemma last_time_fired:
  "dget (ah_last_alert_times (snd (run_alerts rs ah))) k =
     (case filter (\<lambda>a. snd a = k) (fst (run_alerts rs ah)) of
        [] \<Rightarrow> dget (ah_last_alert_times ah) k | as \<Rightarrow> Some (fst (last as)))"
proof (induction rs arbitrary: ah)
  case (Cons x rs)
  obtain now r where x: "x = (now, r)" by fastforce
  obtain fired ah' where c: "check_and_alert now r ah = (fired, ah')" by fastforce
  show ?case
    using Cons.IH [of ah'] c
    by (cases fired) (auto simp: x Let_def check_and_alert_def split: prod.splits if_splits list.splits)
qed simp

lemma run_alerts_params:
  "ah_webhook_url (snd (run_alerts rs ah)) = ah_webhook_url ah \<and>
   ah_risk_threshold (snd (run_alerts rs ah)) = ah_risk_threshold ah \<and>
   ah_cooldown_seconds (snd (run_alerts rs ah)) = ah_cooldown_seconds ah"
proof (induction rs arbitrary: ah)
  case (Cons x rs)
  obtain now r where x: "x = (now, r)" by fastforce
  obtain fired ah' where c: "check_and_alert now r ah = (fired, ah')" by fastforce
  show ?case
    using Cons.IH [of ah'] c by (auto simp: x Let_def check_and_alert_def split: prod.splits if_splits)
qed simp

text \<open>
  Alert floods are bounded and no first alert is lost. Two alerts with the same findings are at least the
  cooldown apart, whatever the results; and after any history a result fires exactly when a webhook is
  configured, its risk reaches the threshold, and the last alert with its findings (at time zero when
  there was none) is at least the cooldown old.
\<close>

theorem alerts_spaced:
  assumes "0 \<le> cooldown"
  shows "spaced cooldown (fst (run_alerts rs (make_alerting url threshold cooldown))) \<and>
    (fst (check_and_alert now r (snd (run_alerts rs (make_alerting url threshold cooldown)))) \<longleftrightarrow>
       url_set url \<and> threshold \<le> ai_risk_score r \<and>
       cooldown \<le> now - last (0 # map fst (filter (\<lambda>a. snd a = findings_key r)
         (fst (run_alerts rs (make_alerting url threshold cooldown))))))"
proof -
  let ?ah = "make_alerting url threshold cooldown"
  have "dget_or (ah_last_alert_times (snd (run_alerts rs ?ah))) (findings_key r) 0 =
      last (0 # map fst (filter (\<lambda>a. snd a = findings_key r) (fst (run_alerts rs ?ah))))"
    using last_time_fired [of rs ?ah "findings_key r"]
    by (auto simp: dget_or_def make_alerting_def last_map split: list.splits)
  then show ?thesis
    using run_alerts_spaced [of ?ah rs] run_alerts_params [of rs ?ah] assms
    by (simp add: check_and_alert_def not_less) (simp add: make_alerting_def not_less)
qed

definition critical :: alert_input where
  "critical = \<lparr>ai_risk_score = 95, ai_findings = [u ''hidden_recipient''], ai_call_id = None\<rparr>"

lemma alerts_spaced_witness:
  "spaced 60 (fst (run_alerts [(100, critical), (130, critical)] (make_alerting (Some (u ''https://h'')) 80 60))) \<and>
   \<not> fst (check_and_alert 150 critical (snd (run_alerts [(100, critical), (130, critical)]
     (make_alerting (Some (u ''https://h'')) 80 60))))"
  using alerts_spaced [of 60 "[(100, critical), (130, critical)]" "Some (u ''https://h'')" 80 150 critical]
  by (simp add: critical_def check_and_alert_def make_alerting_def url_set_def findings_key_def)

text \<open>An alert leaves the machine only over HTTPS.\<close>

lemma webhook_needs_https:
  "send_webhook nfkc fr payload ah = Posted url body \<Longrightarrow>
    \<exists>scheme netloc. urlparse nfkc url = Some (scheme, netloc) \<and>
      (scheme = u ''https'' \<or> scheme = u ''http'' \<and> hostname netloc \<in> Some ` local_hosts)"
  by (auto simp: send_webhook_def split: option.splits if_splits)

section \<open>Gaps\<close>

text \<open>The cooldown is per set of findings, not per finding: one more finding makes a new key.\<close>

lemma extra_finding_evades_cooldown:
  "fst (check_and_alert 101 (critical\<lparr>ai_findings := [u ''hidden_recipient'', u ''x'']\<rparr>)
     (snd (check_and_alert 100 critical (make_alerting (Some (u ''https://h'')) 80 60))))"
  by code_simp

end
