(* ===== verification/GatewayClient.thy ===== *)
theory GatewayClient
  imports NdJson PyNet Utf8
begin

text \<open>
  \<open>client.py\<close>: the client that scans every call of a tool with the gateway before the tool runs. The
  gateway is a function from the request to the outcome of the HTTP exchange; \<open>rl\<close> is the recursion
  limit of the JSON reader, NFKC and the text of floats are parameters. The message of \<open>ToolBlocked\<close> is
  left out.
\<close>

section \<open>State\<close>

record gateway_client =
  gc_base_url :: pystr
  gc_timeout :: rat
  gc_api_key :: "pystr option"
  gc_fail_closed :: bool

datatype client_error = BadEndpoint | BadTimeout

definition make_client :: "(pystr \<Rightarrow> pystr) \<Rightarrow> pystr \<Rightarrow> rat \<Rightarrow> pystr option \<Rightarrow> bool \<Rightarrow> client_error + gateway_client" where
  "make_client nfkc base_url timeout api_key fail_closed =
    (let normalized = rev (dropWhile (\<lambda>c. c = 47) (rev base_url))
     in case urlparse nfkc normalized of
          None \<Rightarrow> Inl BadEndpoint
        | Some (scheme, netloc) \<Rightarrow>
            if scheme \<notin> {u ''http'', u ''https''} \<or> netloc = [] then Inl BadEndpoint
            else if timeout \<le> 0 then Inl BadTimeout
            else Inr \<lparr>gc_base_url = normalized, gc_timeout = timeout, gc_api_key = api_key,
              gc_fail_closed = fail_closed\<rparr>)"

section \<open>Scanning\<close>

record scan_request =
  sq_url :: pystr
  sq_headers :: "(pystr \<times> pystr) list"
  sq_body :: pystr

text \<open>How the exchange ends: an HTTP error status, a failure of the transport, or the bytes of a
  successful response.\<close>

datatype http_outcome = HttpStatusError int | TransportFailure | HttpBody pybytes

definition denial_verdict :: "int \<Rightarrow> bool \<Rightarrow> pydict" where
  "denial_verdict code fail_closed =
     [(u ''call_id'', PNone), (u ''allowed'', PBool False), (u ''blocked_by_layer'', PInt 0),
      (u ''risk_score'', PInt 100), (u ''enforcement_action'', PStr (u ''block'')), (u ''layer_results'', PList []),
      (u ''http_status'', PInt code), (u ''gateway_denial'', PBool True), (u ''fail_closed'', PBool fail_closed)]"

definition server_error_verdict :: "int \<Rightarrow> bool \<Rightarrow> pydict" where
  "server_error_verdict code fail_closed =
     [(u ''call_id'', PNone), (u ''allowed'', PBool (\<not> fail_closed)),
      (u ''blocked_by_layer'', if fail_closed then PInt 0 else PNone),
      (u ''risk_score'', PInt (if fail_closed then 100 else 0)),
      (u ''enforcement_action'', PStr (if fail_closed then u ''block'' else u ''allow'')),
      (u ''layer_results'', PList []), (u ''http_status'', PInt code),
      (u ''transport_error'', PStr (u ''gateway_server_error'')), (u ''fail_closed'', PBool fail_closed)]"

definition unavailable_verdict :: "bool \<Rightarrow> pydict" where
  "unavailable_verdict fail_closed =
     [(u ''call_id'', PNone), (u ''allowed'', PBool (\<not> fail_closed)),
      (u ''blocked_by_layer'', if fail_closed then PInt 0 else PNone), (u ''risk_score'', PInt 0),
      (u ''enforcement_action'', PStr (if fail_closed then u ''block'' else u ''allow'')),
      (u ''layer_results'', PList []), (u ''transport_error'', PStr (u ''gateway_unavailable'')),
      (u ''fail_closed'', PBool fail_closed)]"

definition scan_request_of :: "(rat \<Rightarrow> pystr) \<Rightarrow> gateway_client \<Rightarrow> pydict \<Rightarrow> scan_request" where
  "scan_request_of fr gc tool_call =
     \<lparr>sq_url = gc_base_url gc @ u ''/api/scan'',
      sq_headers = [(u ''Content-Type'', u ''application/json'')] @
        (case gc_api_key gc of None \<Rightarrow> []
         | Some key \<Rightarrow> if key \<noteq> [] then [(u ''X-API-Key'', key)] else []),
      sq_body = dumps fr default_style (PDict tool_call)\<rparr>"

text \<open>The payload of a response, unless it is no JSON object; a too deep one raises \<open>RecursionError\<close>,
  which \<open>scan\<close> does not catch.\<close>

datatype reply = ReplyObject pydict | ReplyInvalid | ReplyTooDeep

definition read_reply :: "nat \<Rightarrow> pybytes \<Rightarrow> reply" where
  "read_reply rl bs =
    (case utf8_strict bs of
       None \<Rightarrow> ReplyInvalid
     | Some s \<Rightarrow> (case loads_text plain_hook rl s of
           Inl RecursionError \<Rightarrow> ReplyTooDeep
         | Inl e \<Rightarrow> ReplyInvalid
         | Inr (PDict d) \<Rightarrow> ReplyObject d
         | Inr v \<Rightarrow> ReplyInvalid))"

definition scan :: "nat \<Rightarrow> (rat \<Rightarrow> pystr) \<Rightarrow> (scan_request \<Rightarrow> http_outcome) \<Rightarrow> gateway_client \<Rightarrow> pydict \<Rightarrow> unit + pydict" where
  "scan rl fr gateway gc tool_call =
    (case gateway (scan_request_of fr gc tool_call) of
       HttpStatusError code \<Rightarrow>
         Inr (if 400 \<le> code \<and> code < 500 then denial_verdict code (gc_fail_closed gc)
              else server_error_verdict code (gc_fail_closed gc))
     | TransportFailure \<Rightarrow> Inr (unavailable_verdict (gc_fail_closed gc))
     | HttpBody bs \<Rightarrow> (case read_reply rl bs of
           ReplyObject d \<Rightarrow> Inr d
         | ReplyInvalid \<Rightarrow> Inr (unavailable_verdict (gc_fail_closed gc))
         | ReplyTooDeep \<Rightarrow> Inl ()))"

section \<open>Guarding a tool\<close>

text \<open>The call of a guarded function: it raises, or the function runs with these arguments.\<close>

datatype guard_result = Raised | Blocked pydict | Runs "pyval list" pydict

definition guarded_call :: "pystr \<Rightarrow> pydict \<Rightarrow> pydict" where
  "guarded_call fn_name kwargs =
    (let rest = dpop (u ''tool_name'') kwargs
     in [(u ''name'', dget_or kwargs (u ''tool_name'') (PStr fn_name)),
         (u ''server_id'', dget_or rest (u ''server_id'') (PStr (u ''unknown''))),
         (u ''arguments'', PDict (filter (\<lambda>(k, v). k \<noteq> u ''server_id'') rest))])"

definition guard :: "nat \<Rightarrow> (rat \<Rightarrow> pystr) \<Rightarrow> (scan_request \<Rightarrow> http_outcome) \<Rightarrow> gateway_client \<Rightarrow> pystr \<Rightarrow>
    pyval list \<Rightarrow> pydict \<Rightarrow> guard_result" where
  "guard rl fr gateway gc fn_name args kwargs =
    (case scan rl fr gateway gc (guarded_call fn_name kwargs) of
       Inl _ \<Rightarrow> Raised
     | Inr verdict \<Rightarrow>
         if \<not> truthy (dget_or verdict (u ''allowed'') (PBool False)) then Blocked verdict
         else Runs args (dpop (u ''tool_name'') kwargs))"

section \<open>The tool runs only when it may\<close>

definition approves :: "nat \<Rightarrow> http_outcome \<Rightarrow> bool" where
  "approves rl w \<longleftrightarrow> (\<exists>bs d. w = HttpBody bs \<and> read_reply rl bs = ReplyObject d \<and>
     truthy (dget_or d (u ''allowed'') (PBool False)))"

definition unavailable :: "nat \<Rightarrow> http_outcome \<Rightarrow> bool" where
  "unavailable rl w \<longleftrightarrow> w = TransportFailure \<or> (\<exists>code. w = HttpStatusError code \<and> \<not> (400 \<le> code \<and> code < 500)) \<or>
     (\<exists>bs. w = HttpBody bs \<and> read_reply rl bs = ReplyInvalid)"

lemma verdict_allowed [simp]:
  "dget_or (denial_verdict code fc) (u ''allowed'') v = PBool False"
  "dget_or (server_error_verdict code fc) (u ''allowed'') v = PBool (\<not> fc)"
  "dget_or (unavailable_verdict fc) (u ''allowed'') v = PBool (\<not> fc)"
  by (simp_all add: denial_verdict_def server_error_verdict_def unavailable_verdict_def dget_or_def)

text \<open>
  Fail closed. A guarded tool runs exactly when the gateway answered its scan with a JSON object whose
  \<open>allowed\<close> is true, or when the client was told to fail open and the gateway was unavailable; an HTTP
  denial blocks in either mode.
\<close>

theorem guard_runs_iff:
  "(\<exists>a k. guard rl fr gateway gc fn_name args kwargs = Runs a k) \<longleftrightarrow>
     approves rl (gateway (scan_request_of fr gc (guarded_call fn_name kwargs))) \<or>
     \<not> gc_fail_closed gc \<and> unavailable rl (gateway (scan_request_of fr gc (guarded_call fn_name kwargs)))"
proof (cases "gateway (scan_request_of fr gc (guarded_call fn_name kwargs))")
  case (HttpStatusError code)
  then show ?thesis by (auto simp: guard_def scan_def approves_def unavailable_def)
next
  case TransportFailure
  then show ?thesis by (auto simp: guard_def scan_def approves_def unavailable_def)
next
  case (HttpBody bs)
  then show ?thesis
    by (cases "read_reply rl bs") (auto simp: guard_def scan_def approves_def unavailable_def)
qed

section \<open>Gaps\<close>

text \<open>Positional arguments reach the tool but are no part of the scanned call.\<close>

lemma positional_arguments_unscanned:
  "guard rl fr gateway gc fn_name args kwargs = Runs a k \<Longrightarrow>
   guard rl fr gateway gc fn_name args' kwargs = Runs args' k"
  by (auto simp: guard_def split: sum.splits if_splits)

end
