(* ===== verification/IdentityTelemetry.thy ===== *)
theory IdentityTelemetry
  imports NdJson PyNet
begin

text \<open>
  \<open>production/identity_telemetry.py\<close>: the source of a request (the socket peer, or the forwarded address
  behind a trusted proxy), its fingerprints, and the event and envelope built from them. \<open>hm\<close> is the
  hexadecimal HMAC-SHA256 of a key and a message; an exception (\<open>ValueError\<close>, \<open>TypeError\<close>) is \<open>Inl ()\<close>.
  Header text is ASCII, so \<open>isdigit\<close> is about ASCII digits.
\<close>

section \<open>Addresses\<close>

text \<open>An IPv6 address keeps its scope id.\<close>

datatype source_addr = Src4 nat | Src6 nat "pystr option"

fun show_hex :: "nat \<Rightarrow> pystr" where
  "show_hex n = (if n < 16 then [hex_char n] else show_hex (n div 16) @ [hex_char (n mod 16)])"

declare show_hex.simps [simp del]

definition ip4_text :: "nat \<Rightarrow> pystr" where
  "ip4_text n = join_with [46] (map show_nat [n div 2 ^ 24 mod 256, n div 2 ^ 16 mod 256, n div 2 ^ 8 mod 256, n mod 256])"

definition hextets_of :: "nat \<Rightarrow> nat list" where
  "hextets_of n = map (\<lambda>i. n div 65536 ^ i mod 65536) (rev [0..<8])"

text \<open>The first longest run of zeros: its start and its length.\<close>

fun zero_run :: "nat list \<Rightarrow> nat" where
  "zero_run (0 # hs) = Suc (zero_run hs)"
| "zero_run _ = 0"

definition best_run :: "nat list \<Rightarrow> nat \<times> nat" where
  "best_run hs = fold (\<lambda>i best. if snd best < zero_run (drop i hs) then (i, zero_run (drop i hs)) else best)
     [0..<length hs] (0, 0)"

definition compress_hextets :: "nat list \<Rightarrow> pystr list" where
  "compress_hextets hs =
    (let (start, run) = best_run hs; texts = map show_hex hs
     in if run > 1
        then (if start = 0 then [[]] else []) @ take start texts @ [[]] @ drop (start + run) texts @
             (if start + run = length hs then [[]] else [])
        else texts)"

definition ip6_text :: "nat \<Rightarrow> pystr" where
  "ip6_text n = join_with [58] (compress_hextets (hextets_of n))"

fun addr_text :: "source_addr \<Rightarrow> pystr" where
  "addr_text (Src4 n) = ip4_text n"
| "addr_text (Src6 n scope) = ip6_text n @ (case scope of None \<Rightarrow> [] | Some s \<Rightarrow> [37] @ s)"

definition parse_addr_text :: "pystr \<Rightarrow> source_addr option" where
  "parse_addr_text s =
    (case ip_address s of
       None \<Rightarrow> None
     | Some (IPv4 n) \<Rightarrow> Some (Src4 n)
     | Some (IPv6 n) \<Rightarrow> Some (Src6 n (if 37 \<in> set s then Some (snd (split1 37 s)) else None)))"

definition unmap :: "source_addr \<Rightarrow> source_addr" where
  "unmap a = (case a of Src6 n scope \<Rightarrow> (case ipv4_mapped n of Some m \<Rightarrow> Src4 m | None \<Rightarrow> a) | Src4 n \<Rightarrow> a)"

section \<open>Normalisation\<close>

text \<open>The form without \<open>for=\<close> and quotes.\<close>

definition bare_source :: "pystr \<Rightarrow> pystr" where
  "bare_source s =
    (let raw = py_strip s;
         raw = (if starts_with (py_lower raw) (u ''for='') then py_strip (drop 4 raw) else raw)
     in if length raw \<ge> 2 \<and> hd raw = 34 \<and> last raw = 34 then py_strip (butlast (tl raw)) else raw)"

definition all_digits :: "pystr \<Rightarrow> bool" where
  "all_digits s \<longleftrightarrow> s \<noteq> [] \<and> list_all is_digit s"

text \<open>The host part of a bracketed form, or of an address with a port.\<close>

definition source_host :: "pystr \<Rightarrow> unit + pystr" where
  "source_host raw =
    (if starts_with raw [91] then
       (let (host, suffix) = split1 93 (tl raw)
        in if 93 \<notin> set (tl raw) \<or> host = [] then Inl ()
           else if suffix \<noteq> [] \<and> \<not> (hd suffix = 58 \<and> all_digits (tl suffix)) then Inl ()
           else Inr host)
     else if count_list raw 58 = 1 \<and> 46 \<in> set raw \<and> all_digits (snd (split1 58 raw))
       then Inr (fst (split1 58 raw))
     else Inr raw)"

definition normalize_source_ip :: "pystr \<Rightarrow> unit + source_addr" where
  "normalize_source_ip s =
    (let raw = bare_source s
     in if py_strip s = [] then Inl ()
        else if py_lower raw \<in> {u ''unknown'', u ''_hidden''} \<or> starts_with raw (u ''_'') then Inl ()
        else rbind (source_host raw) (\<lambda>host.
          case parse_addr_text host of None \<Rightarrow> Inl () | Some a \<Rightarrow> Inr (unmap a)))"

section \<open>Networks\<close>

text \<open>A network: its family, its address and the number of its free bits.\<close>

datatype ip_range = Net4 "nat \<times> nat" | Net6 "nat \<times> nat"

definition prefix_length :: "nat \<Rightarrow> pystr \<Rightarrow> nat option" where
  "prefix_length most s = (if all_digits s \<and> digits_val s \<le> most then Some (digits_val s) else None)"

text \<open>A dotted mask: ones followed by zeros, or as a host mask zeros followed by ones.\<close>

definition mask_length :: "nat \<Rightarrow> nat option" where
  "mask_length m =
    (case filter (\<lambda>p. m = 2 ^ 32 - 2 ^ (32 - p)) [0..<33] of
       p # _ \<Rightarrow> Some p
     | [] \<Rightarrow> (case filter (\<lambda>p. m = 2 ^ (32 - p) - 1) [0..<33] of p # _ \<Rightarrow> Some p | [] \<Rightarrow> None))"

definition masked :: "nat \<Rightarrow> nat \<Rightarrow> nat" where
  "masked n free = n div 2 ^ free * 2 ^ free"

definition net4 :: "pystr \<Rightarrow> pystr option \<Rightarrow> ip_range option" where
  "net4 addr netmask =
    (case ipv4_parse addr of
       None \<Rightarrow> None
     | Some n \<Rightarrow> map_option (\<lambda>p. Net4 (masked n (32 - p), 32 - p))
         (case netmask of
            None \<Rightarrow> Some 32
          | Some m \<Rightarrow> (case prefix_length 32 m of
                Some p \<Rightarrow> Some p
              | None \<Rightarrow> Option.bind (ipv4_parse m) mask_length)))"

definition net6 :: "pystr \<Rightarrow> pystr option \<Rightarrow> ip_range option" where
  "net6 addr netmask =
    (case ipv6_parse addr of
       None \<Rightarrow> None
     | Some n \<Rightarrow> map_option (\<lambda>p. Net6 (masked n (128 - p), 128 - p))
         (case netmask of None \<Rightarrow> Some 128 | Some m \<Rightarrow> prefix_length 128 m))"

definition ip_network :: "pystr \<Rightarrow> ip_range option" where
  "ip_network s =
    (case split_on 47 s of
       [addr] \<Rightarrow> (case net4 addr None of Some n \<Rightarrow> Some n | None \<Rightarrow> net6 addr None)
     | [addr, netmask] \<Rightarrow> (case net4 addr (Some netmask) of Some n \<Rightarrow> Some n | None \<Rightarrow> net6 addr (Some netmask))
     | _ \<Rightarrow> None)"

fun parse_networks :: "pystr list \<Rightarrow> unit + ip_range list" where
  "parse_networks [] = Inr []"
| "parse_networks (cidr # cidrs) =
    (if py_strip cidr = [] then parse_networks cidrs
     else (case ip_network (py_strip cidr) of
         None \<Rightarrow> Inl ()
       | Some net \<Rightarrow> rbind (parse_networks cidrs) (\<lambda>nets. Inr (net # nets))))"

fun in_network :: "source_addr \<Rightarrow> ip_range \<Rightarrow> bool" where
  "in_network (Src4 n) (Net4 net) = in_net n net"
| "in_network (Src6 n scope) (Net6 net) = in_net n net"
| "in_network _ _ = False"

definition resolve_source_ip :: "pystr \<Rightarrow> pystr option \<Rightarrow> pystr list \<Rightarrow> unit + source_addr" where
  "resolve_source_ip peer_address forwarded_for trusted_proxy_cidrs =
     rbind (normalize_source_ip peer_address) (\<lambda>peer.
     rbind (parse_networks trusted_proxy_cidrs) (\<lambda>nets.
       (case forwarded_for of
          Some fwd \<Rightarrow>
            if list_ex (in_network peer) nets \<and> fwd \<noteq> []
            then normalize_source_ip (py_strip (fst (split1 44 fwd))) else Inr peer
        | None \<Rightarrow> Inr peer)))"

section \<open>Fingerprints\<close>

type_synonym hmac_fn = "pybytes \<Rightarrow> pybytes \<Rightarrow> pystr"

definition is_hex_digit :: "nat \<Rightarrow> bool" where
  "is_hex_digit c \<longleftrightarrow> hex_val c \<noteq> None"

fun bytes_of_hex :: "pystr \<Rightarrow> pybytes" where
  "bytes_of_hex (a # b # s) = (16 * the (hex_val a) + the (hex_val b)) # bytes_of_hex s"
| "bytes_of_hex _ = []"

text \<open>A salt of 64 hexadecimal digits stands for 32 bytes.\<close>

definition tenant_salt_key :: "pystr \<Rightarrow> unit + pybytes" where
  "tenant_salt_key salt =
    (let val = py_strip salt
     in if length val = 64 \<and> list_all is_hex_digit val then Inr (bytes_of_hex val)
        else (case utf8_encode val of
            None \<Rightarrow> Inl ()
          | Some key \<Rightarrow> if key = [] then Inl () else Inr key))"

definition fingerprint_value :: "hmac_fn \<Rightarrow> pystr \<Rightarrow> pystr \<Rightarrow> unit + pystr" where
  "fingerprint_value hm val salt =
    (if val = [] then Inl ()
     else rbind (tenant_salt_key salt) (\<lambda>key.
       case utf8_encode val of None \<Rightarrow> Inl () | Some msg \<Rightarrow> Inr (take 32 (hm key msg))))"

text \<open>The address, its network and its block as they are fingerprinted: \<open>/24\<close> and \<open>/16\<close>, or \<open>/64\<close> and \<open>/48\<close>.\<close>

fun network_text :: "source_addr \<Rightarrow> nat \<Rightarrow> pystr" where
  "network_text (Src4 n) p = ip4_text (masked n (32 - p)) @ [47] @ show_nat p"
| "network_text (Src6 n scope) p = ip6_text (masked n (128 - p)) @ [47] @ show_nat p"

fun fingerprinted :: "source_addr \<Rightarrow> pystr \<times> pystr \<times> pystr \<times> pystr" where
  "fingerprinted (Src4 n) =
     (u ''v4'', addr_text (Src4 n), network_text (Src4 n) 24, network_text (Src4 n) 16)"
| "fingerprinted (Src6 n scope) =
     (u ''v6'', addr_text (Src6 n scope), network_text (Src6 n scope) 64, network_text (Src6 n scope) 48)"

definition derive_ip_fingerprints :: "hmac_fn \<Rightarrow> source_addr \<Rightarrow> pystr \<Rightarrow> unit + pydict" where
  "derive_ip_fingerprints hm source_ip salt =
     rbind (normalize_source_ip (addr_text source_ip)) (\<lambda>address.
     (let (family, exact, network, block) = fingerprinted address
      in rbind (fingerprint_value hm exact salt) (\<lambda>fp.
         rbind (fingerprint_value hm network salt) (\<lambda>net_fp.
         rbind (fingerprint_value hm block salt) (\<lambda>block_fp.
           Inr [(u ''ip_fp'', PStr fp), (u ''ip_net_fp'', PStr net_fp), (u ''ip_block_fp'', PStr block_fp),
             (u ''ip_family'', PStr family)])))))"

section \<open>Events and envelopes\<close>

definition MAX_INT32 :: int where "MAX_INT32 = 2147483647"

definition non_negative_int :: "int \<Rightarrow> unit + unit" where
  "non_negative_int n = (if n < 0 \<or> n > MAX_INT32 then Inl () else Inr ())"

definition cost_ok :: "pyval \<Rightarrow> bool" where
  "cost_ok cost = (case cost of
     PNone \<Rightarrow> True | PInt i \<Rightarrow> 0 \<le> i | PFloat (Fin q) \<Rightarrow> 0 \<le> q | _ \<Rightarrow> False)"

record event_args =
  ev_ts :: pystr
  ev_credential :: pystr
  ev_endpoint :: pystr
  ev_tokens_in :: int
  ev_tokens_out :: int
  ev_latency_ms :: int
  ev_status :: int
  ev_source_ip :: source_addr
  ev_cost :: pyval

definition build_event :: "hmac_fn \<Rightarrow> pystr \<Rightarrow> event_args \<Rightarrow> unit + pydict" where
  "build_event hm salt a =
    (if 84 \<notin> set (ev_ts a) \<or> ev_credential a = [] \<or> ev_endpoint a = [] \<or> length (ev_endpoint a) > 500 then Inl ()
     else rbind (non_negative_int (ev_tokens_in a)) (\<lambda>_.
       rbind (non_negative_int (ev_tokens_out a)) (\<lambda>_.
       rbind (non_negative_int (ev_latency_ms a)) (\<lambda>_.
       rbind (non_negative_int (ev_status a)) (\<lambda>_.
       if \<not> cost_ok (ev_cost a) then Inl ()
       else rbind (derive_ip_fingerprints hm (ev_source_ip a) salt) (\<lambda>ip_fields.
         rbind (fingerprint_value hm (ev_credential a) salt) (\<lambda>key_fp.
         Inr ([(u ''ts'', PStr (ev_ts a)), (u ''key_fp'', PStr key_fp), (u ''endpoint'', PStr (ev_endpoint a)),
               (u ''tokens_in'', PInt (ev_tokens_in a)), (u ''tokens_out'', PInt (ev_tokens_out a)),
               (u ''latency_ms'', PInt (ev_latency_ms a)), (u ''status'', PInt (ev_status a))] @
              ip_fields @ [(u ''cost'', ev_cost a)]))))))))"

definition event_fingerprint :: "hmac_fn \<Rightarrow> pystr \<Rightarrow> pystr \<Rightarrow> unit + pystr" where
  "event_fingerprint hm event_id salt =
    (if event_id = [] then Inl () else fingerprint_value hm (u ''evt:'' @ event_id) salt)"

definition is_event_fp :: "pystr \<Rightarrow> bool" where
  "is_event_fp v \<longleftrightarrow> length v = 32 \<and> list_all (\<lambda>c. is_digit c \<or> 97 \<le> c \<and> c \<le> 102) v"

definition build_envelope :: "pydict list \<Rightarrow> pystr list \<Rightarrow> unit + pydict" where
  "build_envelope events event_fps =
    (if events = [] \<or> length events \<noteq> length event_fps \<or> \<not> list_all is_event_fp event_fps then Inl ()
     else Inr [(u ''schema_version'', PInt 1), (u ''client'', PStr (u ''mcp-gateway/1.0.0'')),
       (u ''backfill'', PBool False), (u ''events'', PList (map PDict events)),
       (u ''event_fps'', PList (map PStr event_fps))])"

definition build_single_event_envelope :: "hmac_fn \<Rightarrow> pystr \<Rightarrow> pydict \<Rightarrow> pystr \<Rightarrow> unit + pydict" where
  "build_single_event_envelope hm salt event event_id =
     rbind (event_fingerprint hm event_id salt) (\<lambda>fp. build_envelope [event] [fp])"

end
