(* ===== verification/AddressText.thy ===== *)
theory AddressText
  imports IdentityTelemetry
begin

text \<open>
  The texts of addresses that \<open>identity_telemetry.py\<close> fingerprints: what \<open>ipaddress\<close> prints is read back
  as the same address, so two sources share the fingerprint of a network exactly when they are in it.
\<close>

section \<open>IPv4\<close>

lemma split_join:
  "xs \<noteq> [] \<Longrightarrow> list_all (\<lambda>x. sep \<notin> set x) xs \<Longrightarrow> split_on sep (join_with [sep] xs) = xs"
proof (induction xs)
  case (Cons x xs)
  show ?case
  proof (cases "xs = []")
    case True
    with Cons.prems show ?thesis by (simp add: split_on_fresh)
  next
    case False
    then have "join_with [sep] (x # xs) = x @ sep # join_with [sep] xs" by (simp add: join_with_Cons)
    with Cons False show ?thesis by (simp only: split_on_app) (simp add: split_on_fresh)
  qed
qed simp

lemma octet: "k < 256 \<Longrightarrow> parse_octet (show_nat k) = Some k"
  using show_nat_digits [of k] show_nat_head [of k] show_nat_length [of 3 k]
  by (cases "k = 0") (simp_all add: parse_octet_def digits_val_show show_nat.simps [of 0] digits_val_def [of "[48]"])

lemma digits_plain: "c \<in> set (show_nat k) \<Longrightarrow> is_digit c"
  using show_nat_digits [of k] by (simp add: list_all_iff)

lemma bytes_of_word: "n < 2 ^ 32 \<Longrightarrow>
  256 * (256 * (256 * (n div 2 ^ 24 mod 256) + n div 2 ^ 16 mod 256) + n div 2 ^ 8 mod 256) + n mod 256 = (n :: nat)"
proof -
  assume "n < 2 ^ 32"
  then have "n div 256 div 256 div 256 < 256" by (simp add: div_mult2_eq [symmetric] less_mult_imp_div_less)
  then show ?thesis
    by (simp add: div_mult2_eq [of n "65536" 256, simplified] div_mult2_eq [of n 256 256, simplified])
qed

lemma ip4_roundtrip:
  assumes "n < 2 ^ 32"
  shows "ipv4_parse (ip4_text n) = Some n"
proof -
  let ?os = "[n div 2 ^ 24 mod 256, n div 2 ^ 16 mod 256, n div 2 ^ 8 mod 256, n mod 256]"
  have s: "split_on 46 (ip4_text n) = map show_nat ?os"
    unfolding ip4_text_def
    by (rule split_join) (auto simp: list_all_iff is_digit_def dest!: digits_plain)
  have "47 \<notin> set (ip4_text n)"
    by (auto simp: ip4_text_def is_digit_def dest!: digits_plain)
  then have "ipv4_parse (ip4_text n) = Some (256 * (256 * (256 * (n div 2 ^ 24 mod 256) + n div 2 ^ 16 mod 256) +
      n div 2 ^ 8 mod 256) + n mod 256)"
    unfolding ipv4_parse_def s by (simp add: octet)
  then show ?thesis unfolding bytes_of_word [OF assms] .
qed

section \<open>IPv6\<close>

lemma hex_value_snoc:
  "hex_value (s @ [c]) m = (case hex_value s m of None \<Rightarrow> None | Some k \<Rightarrow> map_option (\<lambda>d. 16 * k + d) (hex_val c))"
  by (induction s arbitrary: m) (auto split: option.splits)

definition hexish :: "nat \<Rightarrow> bool" where
  "hexish c \<longleftrightarrow> is_digit c \<or> 97 \<le> c \<and> c \<le> 102"

lemma hex_char_hexish: "n < 16 \<Longrightarrow> hexish (hex_char n)"
  by (simp add: hexish_def hex_char_def is_digit_def)

lemma show_hex_props:
  "hex_value (show_hex n) 0 = Some n \<and> list_all hexish (show_hex n) \<and> show_hex n \<noteq> []"
proof (induction n rule: show_hex.induct)
  case (1 n)
  show ?case
  proof (cases "n < 16")
    case True
    then show ?thesis by (simp add: show_hex.simps [of n] hex_val_char hex_char_hexish)
  next
    case False
    with 1 show ?thesis by (simp add: show_hex.simps [of n] hex_value_snoc hex_val_char hex_char_hexish)
  qed
qed

lemma show_hex_length: "0 < k \<Longrightarrow> n < 16 ^ k \<Longrightarrow> length (show_hex n) \<le> k"
proof (induction k arbitrary: n)
  case (Suc k)
  show ?case
  proof (cases "n < 16")
    case False
    with Suc.prems have "0 < k" by (cases k) auto
    moreover have "n div 16 < 16 ^ k" using Suc.prems(2) by (simp add: less_mult_imp_div_less mult.commute)
    ultimately show ?thesis using Suc.IH [of "n div 16"] False by (simp add: show_hex.simps [of n])
  qed (simp add: show_hex.simps [of n])
qed simp

lemma hextet: "h < 65536 \<Longrightarrow> parse_hextet (show_hex h) = Some h"
  using show_hex_length [of 4 h] show_hex_props [of h] by (simp add: parse_hextet_def)

lemma parts_value_hex:
  "list_all (\<lambda>h. h < 65536) hs \<Longrightarrow>
   parts_value (map (\<lambda>h. Hextets (show_hex h)) hs) n = Some (foldl (\<lambda>n h. 65536 * n + h) n hs)"
  by (induction hs arbitrary: n) (simp_all add: part_value_def hextet)

lemma foldl_base:
  "foldl (\<lambda>m h. B * m + h) acc (map (\<lambda>i. n div B ^ i mod B) (rev [0..<k])) = acc * B ^ k + n mod (B :: nat) ^ k"
proof (induction k arbitrary: acc)
  case (Suc k)
  have "n mod B ^ Suc k = B ^ k * (n div B ^ k mod B) + n mod B ^ k"
    by (simp only: power_Suc2 mod_mult2_eq)
  with Suc show ?case by (simp add: algebra_simps)
qed simp

lemma hextets_value: "n < 2 ^ 128 \<Longrightarrow> foldl (\<lambda>m h. 65536 * m + h) 0 (hextets_of n) = n"
proof -
  assume "n < 2 ^ 128"
  then have "n mod 65536 ^ 8 = n" by simp
  then show ?thesis unfolding hextets_of_def foldl_base by simp
qed

lemma hextets_small: "list_all (\<lambda>h. h < 65536) (hextets_of n)" "length (hextets_of n) = 8"
  by (simp_all add: hextets_of_def list_all_iff)

lemma zero_run_spec: "zero_run hs \<le> length hs \<and> take (zero_run hs) hs = replicate (zero_run hs) 0"
  by (induction hs rule: zero_run.induct) auto

lemma best_run_spec:
  assumes "best_run hs = (s, r)"
  shows "s + r \<le> length hs \<and> hs = take s hs @ replicate r 0 @ drop (s + r) hs"
proof -
  let ?f = "\<lambda>i best. if snd best < zero_run (drop i hs) then (i, zero_run (drop i hs)) else best"
  define P where "P = (\<lambda>(s, r). s + r \<le> length hs \<and> take r (drop s hs) = replicate r (0 :: nat))"
  have "P (fold ?f is (0, 0))" if "list_all (\<lambda>i. i < length hs) is" for "is"
    using that
  proof (induction "is" rule: rev_induct)
    case (snoc i "is")
    then show ?case using zero_run_spec [of "drop i hs"] by (auto simp: P_def split: prod.splits)
  qed (simp add: P_def)
  from this [of "[0..<length hs]"] have "P (s, r)"
    using assms by (simp add: best_run_def list_all_iff)
  then have "s + r \<le> length hs" "take r (drop s hs) = replicate r 0" by (simp_all add: P_def)
  moreover have "hs = take s hs @ take r (drop s hs) @ drop (s + r) hs"
    by (metis add.commute append_take_drop_id drop_drop)
  ultimately show ?thesis by simp
qed

definition hexes :: "pystr list \<Rightarrow> bool" where
  "hexes ts \<longleftrightarrow> list_all (\<lambda>t. t \<noteq> [] \<and> list_all hexish t) ts"

lemma hexes_show: "hexes (map show_hex hs)"
  using show_hex_props by (simp add: hexes_def list_all_iff)

lemma hexes_not_empty: "hexes ts \<Longrightarrow> i < length ts \<Longrightarrow> ts ! i \<noteq> []"
  by (auto simp: hexes_def list_all_length)

lemma filter_upt_one: "a \<le> c \<Longrightarrow> c < b \<Longrightarrow> filter (\<lambda>i. i = c) [a..<b] = [c]"
proof -
  assume "a \<le> c" "c < b"
  then have "[a..<b] = [a..<c] @ c # [Suc c..<b]"
    by (metis le_add_diff_inverse less_imp_le_nat upt_add_eq_append upt_conv_Cons)
  then show ?thesis by (simp add: filter_empty_conv)
qed

text \<open>Exactly one empty part between the first and the last.\<close>

lemma inner_empties_middle:
  assumes "hexes pre" "hexes post"
  shows "inner_empties (a # map Hextets pre @ Hextets [] # map Hextets post @ [b]) = [Suc (length pre)]"
proof -
  let ?ps = "a # map Hextets pre @ Hextets [] # map Hextets post @ [b]"
  have e: "part_empty (?ps ! i) \<longleftrightarrow> i = Suc (length pre)" if "i \<in> set [1..<length ?ps - 1]" for i
  proof (cases i)
    case (Suc j)
    have "j < length pre \<or> j = length pre \<or> (\<exists>k. j = Suc (length pre + k) \<and> k < length post)"
      using that Suc less_iff_Suc_add [of "length pre" j] by force
    then show ?thesis
      using Suc assms by (auto simp: nth_append hexes_not_empty part_empty_def)
  next
    case 0
    with that show ?thesis by (simp only: set_upt atLeastLessThan_iff) simp
  qed
  then have "inner_empties ?ps = filter (\<lambda>i. i = Suc (length pre)) [1..<length ?ps - 1]"
    unfolding inner_empties_def by (rule filter_cong [OF refl])
  also have "\<dots> = [Suc (length pre)]" by (rule filter_upt_one) simp_all
  finally show ?thesis .
qed

definition hex_parts :: "nat list \<Rightarrow> ip6_part list" where
  "hex_parts hs = map (\<lambda>h. Hextets (show_hex h)) hs"

lemma hex_parts_simps [simp]:
  "hex_parts [] = []" "hex_parts (h # hs) = Hextets (show_hex h) # hex_parts hs"
  "hex_parts (xs @ ys) = hex_parts xs @ hex_parts ys" "length (hex_parts hs) = length hs"
  by (simp_all add: hex_parts_def)

lemma hex_parts_value:
  "list_all (\<lambda>h. h < 65536) hs \<Longrightarrow> parts_value (hex_parts hs) n = Some (foldl (\<lambda>n h. 65536 * n + h) n hs)"
  unfolding hex_parts_def by (rule parts_value_hex)

lemma hex_part_not_empty [simp]: "\<not> part_empty (Hextets (show_hex h))"
  using show_hex_props [of h] by (simp add: part_empty_def)

lemma empty_part [simp]: "part_empty (Hextets [])"
  by (simp add: part_empty_def)

lemma inner_hex_parts:
  "inner_empties (a # hex_parts xs @ Hextets [] # hex_parts ys @ [b]) = [Suc (length xs)]"
  using inner_empties_middle [OF hexes_show hexes_show, of a xs ys b] by (simp add: hex_parts_def comp_def)

lemma compressed_value:
  assumes "list_all (\<lambda>h. h < 65536) (xs @ ys)" "length xs + length ys \<le> 6"
  shows "ip6_value ((if xs = [] then [Hextets []] else []) @ hex_parts xs @ [Hextets []] @ hex_parts ys @
      (if ys = [] then [Hextets []] else [])) =
    Some (foldl (\<lambda>n h. 65536 * n + h) (foldl (\<lambda>n h. 65536 * n + h) 0 xs * 65536 ^ (8 - (length xs + length ys))) ys)"
proof -
  have v: "parts_value (hex_parts xs) n = Some (foldl (\<lambda>n h. 65536 * n + h) n xs)"
    "parts_value (hex_parts ys) n = Some (foldl (\<lambda>n h. 65536 * n + h) n ys)" for n
    using assms(1) by (simp_all add: hex_parts_value)
  consider "xs = []" "ys = []" | b zs where "xs = []" "ys = zs @ [b]" | a ws where "xs = a # ws" "ys = []"
    | a ws b zs where "xs = a # ws" "ys = zs @ [b]"
    by (cases xs; cases ys rule: rev_cases) auto
  then show ?thesis
  proof cases
    case 1
    have "ip6_value [Hextets [], Hextets [], Hextets []] = Some 0" by code_simp
    with 1 show ?thesis by simp
  next
    case 2
    then show ?thesis
      using assms(2) v(2) [of 0] inner_hex_parts [of "Hextets []" "[]" zs "Hextets (show_hex b)"]
      by (simp add: ip6_value_def)
  next
    case 3
    then show ?thesis
      using assms(2) v(1) [of 0] inner_hex_parts [of "Hextets (show_hex a)" ws "[]" "Hextets []"]
      by (simp add: ip6_value_def)
  next
    case 4
    then show ?thesis
      using assms(2) v(1) [of 0] v(2) inner_hex_parts [of "Hextets (show_hex a)" ws zs "Hextets (show_hex b)"]
      by (simp add: ip6_value_def)
  qed
qed

lemma plain_value:
  assumes "list_all (\<lambda>h. h < 65536) hs" "length hs = 8"
  shows "ip6_value (hex_parts hs) = Some (foldl (\<lambda>n h. 65536 * n + h) 0 hs)"
proof -
  have "inner_empties (hex_parts hs) = []"
    using assms(2) by (auto simp: inner_empties_def hex_parts_def filter_empty_conv)
  moreover have "\<not> part_empty (hd (hex_parts hs))" "\<not> part_empty (last (hex_parts hs))"
    using assms(2) by (cases hs; simp add: hex_parts_def last_map)+
  ultimately show ?thesis using assms by (simp add: ip6_value_def hex_parts_value)
qed

lemma foldl_zeros: "foldl (\<lambda>n h. 65536 * n + h) m (replicate r 0) = m * 65536 ^ r" for m :: nat
  by (induction r arbitrary: m) (simp_all add: algebra_simps)

lemma compressed_parts:
  assumes "list_all (\<lambda>h. h < 65536) hs" "length hs = 8"
  shows "ip6_value (map Hextets (compress_hextets hs)) = Some (foldl (\<lambda>n h. 65536 * n + h) 0 hs)"
    and "3 \<le> length (compress_hextets hs)" and "list_all (list_all hexish) (compress_hextets hs)"
proof -
  obtain s r where sr: "best_run hs = (s, r)" by fastforce
  note b = best_run_spec [OF sr]
  let ?xs = "take s hs" and ?ys = "drop (s + r) hs"
  have hex: "list_all (list_all hexish) (map show_hex zs)" for zs
    using show_hex_props by (simp add: list_all_iff)
  then have hex': "list_all (list_all hexish) (take k (map show_hex zs))" "list_all (list_all hexish) (drop k (map show_hex zs))" for k zs
    by (simp_all add: take_map drop_map)
  have "ip6_value (map Hextets (compress_hextets hs)) = Some (foldl (\<lambda>n h. 65536 * n + h) 0 hs) \<and>
    3 \<le> length (compress_hextets hs)"
  proof (cases "r > 1")
    case False
    then have "map Hextets (compress_hextets hs) = hex_parts hs" "length (compress_hextets hs) = 8"
      using assms(2) sr by (simp_all add: compress_hextets_def hex_parts_def comp_def)
    with plain_value [OF assms] show ?thesis by simp
  next
    case True
    have lens: "length ?xs = s" "length ?ys = 8 - (s + r)" using b assms(2) by simp_all
    have empty: "?xs = [] \<longleftrightarrow> s = 0" "?ys = [] \<longleftrightarrow> s + r = 8"
      using lens b assms(2) by auto
    have parts: "map Hextets (compress_hextets hs) = (if ?xs = [] then [Hextets []] else []) @ hex_parts ?xs @
        [Hextets []] @ hex_parts ?ys @ (if ?ys = [] then [Hextets []] else [])"
      using True sr assms(2) unfolding empty
      by (simp add: compress_hextets_def hex_parts_def comp_def take_map drop_map)
    have small: "list_all (\<lambda>h. h < 65536) (?xs @ ?ys)"
      using assms(1) by (auto simp: list_all_iff dest: in_set_takeD in_set_dropD)
    have "length ?xs + length ?ys \<le> 6" using lens b True assms(2) by simp
    from compressed_value [OF small this] have "ip6_value (map Hextets (compress_hextets hs)) =
        Some (foldl (\<lambda>n h. 65536 * n + h) (foldl (\<lambda>n h. 65536 * n + h) 0 ?xs * 65536 ^ (8 - (length ?xs + length ?ys))) ?ys)"
      unfolding parts .
    also have "8 - (length ?xs + length ?ys) = r" using lens b True assms(2) by simp
    also have "foldl (\<lambda>n h. 65536 * n + h) (foldl (\<lambda>n h. 65536 * n + h) 0 ?xs * 65536 ^ r) ?ys =
        foldl (\<lambda>n h. 65536 * n + h) 0 (?xs @ replicate r 0 @ ?ys)"
      by (simp only: foldl_append foldl_zeros)
    also have "?xs @ replicate r 0 @ ?ys = hs" using b by simp
    finally have "ip6_value (map Hextets (compress_hextets hs)) = Some (foldl (\<lambda>n h. 65536 * n + h) 0 hs)" .
    moreover have "length (map Hextets (compress_hextets hs)) =
        (if s = 0 then 1 else 0) + s + 1 + (8 - (s + r)) + (if s + r = 8 then 1 else 0)"
      unfolding parts empty using lens by simp
    then have "length (map Hextets (compress_hextets hs)) \<ge> 3"
      using b [THEN conjunct1] assms(2) by (cases "s = 0"; cases "s + r = 8") simp_all
    ultimately show ?thesis by simp
  qed
  then show "ip6_value (map Hextets (compress_hextets hs)) = Some (foldl (\<lambda>n h. 65536 * n + h) 0 hs)"
    "3 \<le> length (compress_hextets hs)" by simp_all
  show "list_all (list_all hexish) (compress_hextets hs)"
    using hex hex' by (simp add: compress_hextets_def sr Let_def)
qed

lemma join_chars: "c \<in> set (join_with sep xs) \<Longrightarrow> c \<in> set sep \<or> (\<exists>x \<in> set xs. c \<in> set x)"
  by (induction sep xs rule: join_with.induct) auto

lemma ip6_chars: "c \<in> set (ip6_text n) \<Longrightarrow> hexish c \<or> c = 58"
  using join_chars [of c "[58]" "compress_hextets (hextets_of n)"]
    compressed_parts(3) [OF hextets_small, of n]
  by (auto simp: ip6_text_def list_all_iff)

lemma ip6_not_in: "\<not> hexish c \<Longrightarrow> c \<noteq> 58 \<Longrightarrow> c \<notin> set (ip6_text n)"
  using ip6_chars by blast

lemma ip6_roundtrip:
  assumes "n < 2 ^ 128"
  shows "ipv6_parse (ip6_text n) = Some n" "ipv4_parse (ip6_text n) = None" "58 \<in> set (ip6_text n)"
proof -
  let ?L = "compress_hextets (hextets_of n)"
  note c = compressed_parts [OF hextets_small, of n]
  have chars: "58 \<notin> set x \<and> 46 \<notin> set x" if "x \<in> set ?L" for x
  proof -
    have "\<forall>c \<in> set x. hexish c" using c(3) that by (simp add: list_all_iff)
    then show ?thesis by (force simp: hexish_def is_digit_def)
  qed
  have "split_on 58 (ip6_text n) = ?L"
    unfolding ip6_text_def
  proof (rule split_join)
    show "?L \<noteq> []" using c(2) by auto
    show "list_all (\<lambda>x. 58 \<notin> set x) ?L" using chars by (simp add: list_all_iff)
  qed
  moreover have "46 \<notin> set (last ?L)"
  proof -
    have "last ?L \<in> set ?L" using c(2) by (intro last_in_set) auto
    with chars show ?thesis by blast
  qed
  ultimately have parts: "ip6_parts (ip6_text n) = Some (map Hextets ?L)"
    using c(2) by (simp add: ip6_parts_def)
  have no: "47 \<notin> set (ip6_text n)" "37 \<notin> set (ip6_text n)" "46 \<notin> set (ip6_text n)"
    by (rule ip6_not_in; simp add: hexish_def is_digit_def)+
  show colon: "58 \<in> set (ip6_text n)"
  proof (rule ccontr)
    assume "58 \<notin> set (ip6_text n)"
    with \<open>split_on 58 (ip6_text n) = ?L\<close> have "?L = [ip6_text n]" by (simp add: split_on_fresh)
    with c(2) show False by simp
  qed
  then have "ip6_text n \<noteq> []" by auto
  moreover have "split1 37 (ip6_text n) = (ip6_text n, [])" using no(2) by (simp add: split1_none)
  ultimately show "ipv6_parse (ip6_text n) = Some n"
    using parts c(1) hextets_value [OF assms] no by (simp add: ipv6_parse_def)
  show "ipv4_parse (ip6_text n) = None"
    using split_on_fresh [OF no(3)] by (simp add: ipv4_parse_def)
qed

section \<open>Sources\<close>

text \<open>Addresses as the gateway keeps them: in range, no mapped IPv4, no scope id.\<close>

fun canonical_source :: "source_addr \<Rightarrow> bool" where
  "canonical_source (Src4 n) = (n < 2 ^ 32)"
| "canonical_source (Src6 n scope) = (n < 2 ^ 128 \<and> ipv4_mapped n = None \<and> scope = None)"

lemma ip4_chars: "c \<in> set (ip4_text n) \<Longrightarrow> is_digit c \<or> c = 46"
  by (auto simp: ip4_text_def dest!: digits_plain)

lemma addr_chars: "canonical_source a \<Longrightarrow> c \<in> set (addr_text a) \<Longrightarrow> hexish c \<or> c = 58 \<or> c = 46"
  using ip4_chars ip6_chars by (cases a) (auto simp: hexish_def)

lemma addr_text_not_empty: "canonical_source a \<Longrightarrow> addr_text a \<noteq> []"
  using ip6_roundtrip(3) show_nat_digits by (cases a) (force simp: ip4_text_def)+

lemma no_prefix: "c \<notin> set s \<Longrightarrow> c \<in> set p \<Longrightarrow> \<not> starts_with s p"
  by (auto simp: starts_with_iff)

lemma lower_not_mem:
  assumes "\<And>c. c \<in> set s \<Longrightarrow> hexish c \<or> c = 58 \<or> c = 46" "\<not> (hexish d \<or> d = 58 \<or> d = 46)"
  shows "d \<notin> set s" "d \<notin> set (py_lower s)"
proof -
  show "d \<notin> set s" using assms by blast
  have "lower_cp c = c" if "hexish c \<or> c = 58 \<or> c = 46" for c
    using that by (auto simp: hexish_def is_digit_def lower_cp_def)
  then have "map lower_cp s = s" using assms(1) by (intro map_idI) blast
  then show "d \<notin> set (py_lower s)" using assms by (auto simp: py_lower_def)
qed

lemma bare_addr: "canonical_source a \<Longrightarrow> bare_source (addr_text a) = addr_text a \<and> py_strip (addr_text a) = addr_text a"
proof -
  assume a: "canonical_source a"
  let ?t = "addr_text a"
  note no = lower_not_mem [of ?t, OF addr_chars [OF a]]
  have nonempty: "?t \<noteq> []" by (rule addr_text_not_empty [OF a])
  have "\<not> is_space c" if "c \<in> set ?t" for c
    using addr_chars [OF a that] by (auto simp: hexish_def is_digit_def is_space_def)
  with nonempty have strip: "py_strip ?t = ?t" by (intro py_strip_id) simp
  have "111 \<notin> set (py_lower ?t)" by (rule no(2)) (simp_all add: hexish_def is_digit_def)
  moreover have "111 \<in> set (u ''for='')" by (simp add: u_def)
  ultimately have "\<not> starts_with (py_lower ?t) (u ''for='')" by (rule no_prefix)
  moreover have "34 \<notin> set ?t" by (rule no(1)) (simp_all add: hexish_def is_digit_def)
  then have "hd ?t \<noteq> 34" using nonempty by (metis hd_in_set)
  ultimately show ?thesis using strip by (simp add: bare_source_def Let_def)
qed

lemma host_addr: "canonical_source a \<Longrightarrow> source_host (addr_text a) = Inr (addr_text a)"
proof -
  assume a: "canonical_source a"
  have "91 \<notin> set (addr_text a)"
    by (rule lower_not_mem(1) [OF addr_chars [OF a]]) (simp_all add: hexish_def is_digit_def)
  then have "\<not> starts_with (addr_text a) [91]" by (rule no_prefix) simp
  moreover have "\<not> (count_list (addr_text a) 58 = 1 \<and> 46 \<in> set (addr_text a))"
  proof (cases a)
    case (Src4 n)
    then have "58 \<notin> set (addr_text a)" by (auto simp: is_digit_def dest!: ip4_chars)
    then show ?thesis by (simp add: count_list_0_iff)
  next
    case (Src6 n scope)
    with a show ?thesis using ip6_not_in [of 46 n] by (auto simp: hexish_def is_digit_def)
  qed
  ultimately show ?thesis by (auto simp: source_host_def)
qed

lemma normalize_addr: "canonical_source a \<Longrightarrow> normalize_source_ip (addr_text a) = Inr a"
proof -
  assume a: "canonical_source a"
  let ?t = "addr_text a"
  note no = lower_not_mem(2) [of ?t, OF addr_chars [OF a]]
  have p: "parse_addr_text ?t = Some a"
  proof (cases a)
    case (Src4 n)
    with a ip4_roundtrip show ?thesis by (simp add: parse_addr_text_def ip_address_def)
  next
    case (Src6 n scope)
    moreover have "37 \<notin> set (ip6_text n)" by (rule ip6_not_in) (simp_all add: hexish_def is_digit_def)
    ultimately show ?thesis using a ip6_roundtrip [of n] by (simp add: parse_addr_text_def ip_address_def)
  qed
  have "unmap a = a" using a by (cases a) (simp_all add: unmap_def)
  moreover have "110 \<notin> set (py_lower ?t)" by (rule no) (simp_all add: hexish_def is_digit_def)
  then have "py_lower ?t \<noteq> u ''unknown''" by (force simp: u_def)
  moreover have "104 \<notin> set (py_lower ?t)" by (rule no) (simp_all add: hexish_def is_digit_def)
  then have "py_lower ?t \<noteq> u ''_hidden''" by (force simp: u_def)
  moreover have "95 \<notin> set ?t"
    by (rule lower_not_mem(1) [OF addr_chars [OF a]]) (simp_all add: hexish_def is_digit_def)
  then have "\<not> starts_with ?t (u ''_'')" by (rule no_prefix) (simp add: u_def)
  ultimately show ?thesis
    using bare_addr [OF a] host_addr [OF a] addr_text_not_empty [OF a] p by (simp add: normalize_source_ip_def Let_def)
qed

lemma addr_text_inj: "canonical_source a \<Longrightarrow> canonical_source b \<Longrightarrow> addr_text a = addr_text b \<longleftrightarrow> a = b"
  using normalize_addr by (metis sum.inject(2))

section \<open>Networks\<close>

text \<open>Two sources in one network: the given number of leading bits agree, for IPv4 and for IPv6.\<close>

fun same_network :: "nat \<Rightarrow> nat \<Rightarrow> source_addr \<Rightarrow> source_addr \<Rightarrow> bool" where
  "same_network p4 p6 (Src4 m) (Src4 n) = (m div 2 ^ (32 - p4) = n div 2 ^ (32 - p4))"
| "same_network p4 p6 (Src6 m s) (Src6 n t) = (m div 2 ^ (128 - p6) = n div 2 ^ (128 - p6))"
| "same_network p4 p6 _ _ = False"

lemma masked_le: "masked n k \<le> n"
  by (simp add: masked_def div_times_less_eq_dividend)

lemma masked_eq: "masked m k = masked n k \<longleftrightarrow> m div 2 ^ k = n div 2 ^ k"
  by (simp add: masked_def)

lemma ip4_inj: "m < 2 ^ 32 \<Longrightarrow> n < 2 ^ 32 \<Longrightarrow> ip4_text m = ip4_text n \<longleftrightarrow> m = n"
  using ip4_roundtrip by (metis option.inject)

lemma ip6_inj: "m < 2 ^ 128 \<Longrightarrow> n < 2 ^ 128 \<Longrightarrow> ip6_text m = ip6_text n \<longleftrightarrow> m = n"
  using ip6_roundtrip(1) by (metis option.inject)

fun network_of :: "nat \<Rightarrow> nat \<Rightarrow> source_addr \<Rightarrow> pystr" where
  "network_of p4 p6 (Src4 n) = network_text (Src4 n) p4"
| "network_of p4 p6 (Src6 n s) = network_text (Src6 n s) p6"

lemma colon_in_network: "canonical_source a \<Longrightarrow> 58 \<in> set (network_of p4 p6 a) \<longleftrightarrow> (case a of Src4 n \<Rightarrow> False | Src6 n s \<Rightarrow> True)"
proof (cases a)
  case (Src4 n)
  have "58 \<notin> set (ip4_text m)" "58 \<notin> set (show_nat m)" for m
    by (auto simp: is_digit_def dest!: ip4_chars digits_plain)
  with Src4 show ?thesis by simp
next
  case (Src6 n s)
  assume "canonical_source a"
  with Src6 have "masked n (128 - p6) < 2 ^ 128" using masked_le [of n "128 - p6"] by simp
  with ip6_roundtrip(3) Src6 show ?thesis by simp
qed

lemma network_of_eq:
  assumes "canonical_source a" "canonical_source b"
  shows "network_of p4 p6 a = network_of p4 p6 b \<longleftrightarrow> same_network p4 p6 a b"
proof (cases a; cases b)
  fix m n assume "a = Src4 m" "b = Src4 n"
  with assms show ?thesis
    using masked_le [of m "32 - p4"] masked_le [of n "32 - p4"] by (simp add: ip4_inj masked_eq)
next
  fix m n s t assume "a = Src6 m s" "b = Src6 n t"
  with assms show ?thesis
    using masked_le [of m "128 - p6"] masked_le [of n "128 - p6"] by (simp add: ip6_inj masked_eq)
next
  fix m n s assume ab: "a = Src4 m" "b = Src6 n s"
  with colon_in_network [OF assms(1), of p4 p6] colon_in_network [OF assms(2), of p4 p6]
  have "58 \<notin> set (network_of p4 p6 a)" "58 \<in> set (network_of p4 p6 b)" by simp_all
  then have "network_of p4 p6 a \<noteq> network_of p4 p6 b" by metis
  with ab show ?thesis by simp
next
  fix m n s assume ab: "a = Src6 n s" "b = Src4 m"
  with colon_in_network [OF assms(1), of p4 p6] colon_in_network [OF assms(2), of p4 p6]
  have "58 \<in> set (network_of p4 p6 a)" "58 \<notin> set (network_of p4 p6 b)" by simp_all
  then have "network_of p4 p6 a \<noteq> network_of p4 p6 b" by metis
  with ab show ?thesis by simp
qed

text \<open>
  C40: What is fingerprinted identifies the source and its networks. The printed address is read back as the
  same address; and two sources are fingerprinted as the same address, network or block exactly when they
  are the same address, share their first 24 (IPv6: 64) bits, or share their first 16 (48) bits, so an
  IPv4 source is never confused with an IPv6 one.
\<close>

theorem fingerprints_group_sources:
  assumes "canonical_source a" "canonical_source b"
    and "fingerprinted a = (fam, exact, network, block)" "fingerprinted b = (fam', exact', network', block')"
  shows "normalize_source_ip exact = Inr a \<and> (exact = exact' \<longleftrightarrow> a = b) \<and>
    (network = network' \<longleftrightarrow> same_network 24 64 a b) \<and> (block = block' \<longleftrightarrow> same_network 16 48 a b)"
proof -
  have f: "fingerprinted x = ((case x of Src4 n \<Rightarrow> u ''v4'' | Src6 n s \<Rightarrow> u ''v6''), addr_text x,
      network_of 24 64 x, network_of 16 48 x)" for x
    by (cases x) simp_all
  have "exact = addr_text a" "exact' = addr_text b" "network = network_of 24 64 a" "network' = network_of 24 64 b"
    "block = network_of 16 48 a" "block' = network_of 16 48 b"
    using assms(3,4) unfolding f by simp_all
  with normalize_addr [OF assms(1)] addr_text_inj [OF assms(1,2)] network_of_eq [OF assms(1,2)] show ?thesis
    by simp
qed

lemma fingerprints_group_sources_witness:
  "(case (fingerprinted (Src4 3232235777), fingerprinted (Src4 3232235778)) of
     ((fam, exact, network, block), (fam', exact', network', block')) \<Rightarrow>
       exact \<noteq> exact' \<and> network = network' \<and> normalize_source_ip exact = Inr (Src4 3232235777))"
proof -
  have c: "canonical_source (Src4 3232235777)" "canonical_source (Src4 3232235778)" by simp_all
  obtain fam exact network block where a: "fingerprinted (Src4 3232235777) = (fam, exact, network, block)"
    by (metis prod_cases4)
  obtain fam' exact' network' block' where b: "fingerprinted (Src4 3232235778) = (fam', exact', network', block')"
    by (metis prod_cases4)
  from fingerprints_group_sources [OF c a b] show ?thesis unfolding a b by simp
qed

text \<open>The header is believed only from a trusted proxy.\<close>

lemma untrusted_header_ignored:
  assumes "normalize_source_ip peer = Inr p" "parse_networks cidrs = Inr nets" "\<not> list_ex (in_network p) nets"
  shows "resolve_source_ip peer forwarded_for cidrs = Inr p"
  using assms by (simp add: resolve_source_ip_def split: option.splits)

end
