(* ===== verification/HttpRequest.thy ===== *)
theory HttpRequest
  imports PyNumbers
begin

text \<open>
  The request reader of \<open>production/server.py\<close> (\<open>_handle_connection\<close> up to the body). A connection is
  the bytes the client sends, and whether it then stalls (a timeout) or closes. \<open>readline\<close> is that of
  \<open>asyncio\<close> with its limit of 64 KiB.
\<close>

section \<open>Reading from the connection\<close>

record client_stream =
  cx_bytes :: pybytes
  cx_stalls :: bool

text \<open>Why reading stops: a response with an error, or the connection is closed without one (a timeout,
  a reset, or an exception that is only logged).\<close>

datatype stop = Respond int string | Hangup

definition LINE_LIMIT :: nat where
  "LINE_LIMIT = 2 ^ 16"

text \<open>\<open>await wait_for(reader.readline(), ...)\<close>: a line with its newline, or what is left at the end.\<close>

definition readline :: "client_stream \<Rightarrow> stop + pybytes \<times> client_stream" where
  "readline cx =
    (let bs = cx_bytes cx; pre = takeWhile (\<lambda>b. b \<noteq> 10) bs
     in if length pre < length bs
        then (if length pre > LINE_LIMIT then Inl Hangup
              else Inr (pre @ [10], cx\<lparr>cx_bytes := drop (Suc (length pre)) bs\<rparr>))
        else if length bs > LINE_LIMIT \<or> cx_stalls cx then Inl Hangup
        else Inr (bs, cx\<lparr>cx_bytes := []\<rparr>))"

definition read_exactly :: "nat \<Rightarrow> client_stream \<Rightarrow> stop + pybytes \<times> client_stream" where
  "read_exactly n cx =
    (if n \<le> length (cx_bytes cx) then Inr (take n (cx_bytes cx), cx\<lparr>cx_bytes := drop n (cx_bytes cx)\<rparr>)
     else Inl Hangup)"

definition check :: "bool \<Rightarrow> stop \<Rightarrow> stop + unit" where
  "check c s = (if c then Inr () else Inl s)"

lemma check_eq [simp]: "check c s = Inr x \<longleftrightarrow> c" "check c s = Inl t \<longleftrightarrow> \<not> c \<and> t = s"
  by (auto simp: check_def)

definition is_ascii :: "pybytes \<Rightarrow> bool" where
  "is_ascii bs \<longleftrightarrow> list_all (\<lambda>b. b < 128) bs"

text \<open>\<open>compare_digest\<close> raises on strings that are not ASCII.\<close>

definition compare_digest :: "pystr \<Rightarrow> pystr \<Rightarrow> unit + bool" where
  "compare_digest a b = (if is_ascii a \<and> is_ascii b then Inr (a = b) else Inl ())"

section \<open>The request line\<close>

definition MAX_REQUEST_LINE_BYTES :: nat where "MAX_REQUEST_LINE_BYTES = 8 * 1024"
definition MAX_HEADER_LINE_BYTES :: nat where "MAX_HEADER_LINE_BYTES = 8 * 1024"
definition MAX_HEADER_BYTES :: nat where "MAX_HEADER_BYTES = 32 * 1024"
definition MAX_HEADER_COUNT :: nat where "MAX_HEADER_COUNT = 100"

definition path_ok :: "pystr \<Rightarrow> bool" where
  "path_ok path \<longleftrightarrow> starts_with path (u ''/'') \<and> \<not> starts_with path (u ''//'') \<and> \<not> contains path (u ''://'')"

definition parse_request_line :: "pybytes \<Rightarrow> stop + pystr \<times> pystr" where
  "parse_request_line line =
     rbind (check (line \<noteq> []) Hangup) (\<lambda>_.
     rbind (check (length line \<le> MAX_REQUEST_LINE_BYTES \<and> ends_with line [10])
       (Respond 414 ''Request line too long'')) (\<lambda>_.
     rbind (check (is_ascii line) (Respond 400 ''Invalid request line'')) (\<lambda>_.
     (case py_words (py_strip line) of
        [raw_method, path, http_version] \<Rightarrow>
          (let verb = map upper_cp raw_method
           in rbind (check (verb \<in> {u ''GET'', u ''POST''}) (Respond 405 ''Method not allowed'')) (\<lambda>_.
              rbind (check (http_version \<in> {u ''HTTP/1.0'', u ''HTTP/1.1''})
                (Respond 505 ''HTTP version not supported'')) (\<lambda>_.
              rbind (check (path_ok path) (Respond 400 ''Invalid request target'')) (\<lambda>_.
              Inr (verb, path)))))
      | _ \<Rightarrow> Inl (Respond 400 ''Bad request'')))))"

section \<open>Headers\<close>

type_synonym headers = "(pystr \<times> pystr) list"

definition framing_headers :: "pystr set" where
  "framing_headers = {u ''content-length'', u ''transfer-encoding''}"

text \<open>One header line that is not the empty line, given the headers so far.\<close>

definition header_field :: "pybytes \<Rightarrow> headers \<Rightarrow> stop + pystr \<times> pystr" where
  "header_field line hs =
     rbind (check (is_ascii line) (Respond 400 ''Invalid header encoding'')) (\<lambda>_.
     (let header_str = rev (dropWhile (\<lambda>c. c = 13 \<or> c = 10) (rev line))
      in rbind (check (58 \<in> set header_str) (Respond 400 ''Malformed header'')) (\<lambda>_.
         (let (key, val) = split1 58 header_str; name = py_lower (py_strip key)
          in rbind (check (name \<noteq> [] \<and> \<not> list_ex is_space name) (Respond 400 ''Malformed header name'')) (\<lambda>_.
             rbind (check (\<not> (name \<in> framing_headers \<and> has_key hs name))
               (Respond 400 ''Ambiguous request framing'')) (\<lambda>_.
             Inr (name, py_strip val)))))))"

text \<open>The loop: how many more lines are allowed, the bytes so far, the headers so far.\<close>

definition header_line :: "client_stream \<Rightarrow> stop + pybytes \<times> client_stream" where
  "header_line cx =
     rbind (readline cx) (\<lambda>(line, cx').
     rbind (check (line \<noteq> []) (Respond 400 ''Unexpected EOF in headers'')) (\<lambda>_.
     rbind (check (length line \<le> MAX_HEADER_LINE_BYTES) (Respond 431 ''Header line too large'')) (\<lambda>_.
     Inr (line, cx'))))"

fun read_headers :: "nat \<Rightarrow> nat \<Rightarrow> headers \<Rightarrow> client_stream \<Rightarrow> stop + headers \<times> client_stream" where
  "read_headers 0 so_far hs cx =
     rbind (header_line cx) (\<lambda>_. Inl (Respond 431 ''Request headers too large''))"
| "read_headers (Suc left) so_far hs cx =
     rbind (header_line cx) (\<lambda>(line, cx').
     rbind (check (so_far + length line \<le> MAX_HEADER_BYTES) (Respond 431 ''Request headers too large'')) (\<lambda>_.
     if line \<in> {[13, 10], [10]} then Inr (hs, cx')
     else rbind (header_field line hs) (\<lambda>(name, val).
       read_headers left (so_far + length line) (dset name val hs) cx')))"

section \<open>The request\<close>

record http_request =
  hr_method :: pystr
  hr_path :: pystr
  hr_headers :: headers
  hr_body :: pybytes

text \<open>\<open>int(max_payload_kb * 1024)\<close>, which raises on \<open>nan\<close> and the infinities.\<close>

fun max_body_bytes :: "pyfloat \<Rightarrow> int option" where
  "max_body_bytes (Fin q) = Some (py_trunc (q * 1024))"
| "max_body_bytes _ = None"

definition read_body :: "pyfloat \<Rightarrow> pystr \<Rightarrow> headers \<Rightarrow> client_stream \<Rightarrow> stop + pybytes \<times> client_stream" where
  "read_body max_kb verb hs cx =
     rbind (check (\<not> has_key hs (u ''transfer-encoding'')) (Respond 400 ''Transfer-Encoding unsupported'')) (\<lambda>_.
     (case py_int 10 (dget_or hs (u ''content-length'') (u ''0'')) of
        None \<Rightarrow> Inl (Respond 400 ''Invalid Content-Length'')
      | Some n \<Rightarrow>
          rbind (check (0 \<le> n) (Respond 400 ''Invalid Content-Length'')) (\<lambda>_.
          rbind (check (\<not> (verb = u ''GET'' \<and> n \<noteq> 0)) (Respond 400 ''GET body not supported'')) (\<lambda>_.
          if 0 < n then
            (case max_body_bytes max_kb of
               None \<Rightarrow> Inl Hangup
             | Some limit \<Rightarrow>
                 rbind (check (n \<le> limit) (Respond 413 ''Payload too large'')) (\<lambda>_. read_exactly (nat n) cx))
          else Inr ([], cx)))))"

definition read_request :: "pyfloat \<Rightarrow> client_stream \<Rightarrow> stop + http_request" where
  "read_request max_kb cx =
     rbind (readline cx) (\<lambda>(line, cx1).
     rbind (parse_request_line line) (\<lambda>(verb, path).
     rbind (read_headers MAX_HEADER_COUNT 0 [] cx1) (\<lambda>(hs, cx2).
     rbind (read_body max_kb verb hs cx2) (\<lambda>(body, cx3).
     Inr \<lparr>hr_method = verb, hr_path = path, hr_headers = hs, hr_body = body\<rparr>))))"

section \<open>Framing\<close>

lemma readline_split:
  "readline cx = Inr (line, cx') \<Longrightarrow> cx_bytes cx = line @ cx_bytes cx'"
proof -
  assume r: "readline cx = Inr (line, cx')"
  let ?bs = "cx_bytes cx"
  let ?pre = "takeWhile (\<lambda>b. b \<noteq> 10) ?bs"
  have "?bs = ?pre @ [10] @ drop (Suc (length ?pre)) ?bs" if "length ?pre < length ?bs"
  proof -
    have "?bs ! length ?pre = 10" using nth_length_takeWhile [OF that] by simp
    with id_take_nth_drop [OF that] show ?thesis by (simp flip: takeWhile_eq_take)
  qed
  with r show ?thesis by (auto simp: readline_def Let_def split: if_splits)
qed

text \<open>The lines of the header block and the fields they give.\<close>

definition field_of :: "pybytes \<Rightarrow> pystr \<times> pystr" where
  "field_of line = (let (key, val) = split1 58 (rev (dropWhile (\<lambda>c. c = 13 \<or> c = 10) (rev line)))
     in (py_lower (py_strip key), py_strip val))"

definition gather :: "headers \<Rightarrow> pybytes list \<Rightarrow> headers" where
  "gather hs lines = foldl (\<lambda>d line. dset (fst (field_of line)) (snd (field_of line)) d) hs lines"

lemma header_field_Inr:
  "header_field line hs = Inr (name, val) \<Longrightarrow>
    (name, val) = field_of line \<and> (name \<in> framing_headers \<longrightarrow> \<not> has_key hs name)"
  by (auto simp: header_field_def field_of_def Let_def split: prod.splits)

lemma read_headers_lines:
  "read_headers left so_far hs cx = Inr (hs', cx') \<Longrightarrow>
    \<exists>lines blank. cx_bytes cx = concat lines @ blank @ cx_bytes cx' \<and> blank \<in> {[13, 10], [10]} \<and>
      hs' = gather hs lines \<and> length lines < left \<and> so_far + length (concat lines @ blank) \<le> MAX_HEADER_BYTES \<and>
      (\<forall>name \<in> framing_headers. (if has_key hs name then 1 else 0) +
        length (filter (\<lambda>line. fst (field_of line) = name) lines) \<le> (1 :: nat))"
proof (induction left arbitrary: so_far hs cx)
  case 0
  then show ?case by (auto simp: read_headers.simps(1))
next
  case (Suc left)
  obtain line cx1 where line: "readline cx = Inr (line, cx1)"
    "so_far + length line \<le> MAX_HEADER_BYTES"
    using Suc.prems by (auto simp: read_headers.simps(2) header_line_def)
  show ?case
  proof (cases "line \<in> {[13, 10], [10]}")
    case True
    with Suc.prems line have "hs' = hs" "cx' = cx1"
      by (auto simp: read_headers.simps(2) header_line_def)
    with True line readline_split [OF line(1)] show ?thesis
      by (intro exI [of _ "[]"] exI [of _ line]) (auto simp: gather_def)
  next
    case False
    with Suc.prems line obtain name val where f: "header_field line hs = Inr (name, val)"
      "read_headers left (so_far + length line) (dset name val hs) cx1 = Inr (hs', cx')"
      by (auto simp: read_headers.simps(2) header_line_def)
    note hf = header_field_Inr [OF f(1)]
    from Suc.IH [OF f(2)] obtain lines blank where l: "cx_bytes cx1 = concat lines @ blank @ cx_bytes cx'"
      "blank \<in> {[13, 10], [10]}" "hs' = gather (dset name val hs) lines" "length lines < left"
      "so_far + length line + length (concat lines @ blank) \<le> MAX_HEADER_BYTES"
      "\<forall>n \<in> framing_headers. (if has_key (dset name val hs) n then 1 else 0) +
        length (filter (\<lambda>line. fst (field_of line) = n) lines) \<le> (1 :: nat)" by blast
    have once: "(if has_key hs n then 1 else 0) +
        length (filter (\<lambda>line. fst (field_of line) = n) (line # lines)) \<le> (1 :: nat)"
      if "n \<in> framing_headers" for n
      using bspec [OF l(6) that] hf that by (cases "n = name") (auto simp: prod_eq_iff split: if_splits)
    have "hs' = gather hs (line # lines)"
      using l(3) hf by (simp add: gather_def prod_eq_iff)
    with l readline_split [OF line(1)] once show ?thesis
      by (intro exI [of _ "line # lines"] exI [of _ blank]) auto
  qed
qed

lemma gather_fresh:
  "length (filter (\<lambda>line. fst (field_of line) = name) lines) = 0 \<Longrightarrow> dget (gather hs lines) name = dget hs name"
  by (induction lines arbitrary: hs) (auto simp: gather_def split: if_splits)

lemma gather_get:
  "dget (gather [] lines) name = map_option (\<lambda>line. snd (field_of line))
     (let own = filter (\<lambda>line. fst (field_of line) = name) lines in if own = [] then None else Some (last own))"
proof (induction lines rule: rev_induct)
  case Nil
  show ?case by (simp add: gather_def)
next
  case (snoc line lines)
  have "gather [] (lines @ [line]) = dset (fst (field_of line)) (snd (field_of line)) (gather [] lines)"
    by (simp add: gather_def)
  with snoc show ?case by (auto simp: Let_def)
qed

lemma read_body_Inr:
  assumes "read_body max_kb verb hs cx = Inr (body, cx')"
  shows "cx_bytes cx = body @ cx_bytes cx'"
    "dget hs (u ''transfer-encoding'') = None"
    "py_int 10 (dget_or hs (u ''content-length'') (u ''0'')) = Some (int (length body))"
    "body \<noteq> [] \<Longrightarrow> verb \<noteq> u ''GET''"
    "body \<noteq> [] \<Longrightarrow> \<exists>limit. max_body_bytes max_kb = Some limit \<and> int (length body) \<le> limit"
  using assms
  by (auto simp: read_body_def read_exactly_def has_key_def split: option.splits if_splits)

text \<open>
  C12: An accepted request is framed in one way only. The bytes are the request line, at most a hundred header
  lines of at most 32 KiB with the blank line, and the body; there is no \<open>Transfer-Encoding\<close> line and at
  most one \<open>Content-Length\<close> line, whose number is the length of the body (zero without one), which
  is within the configured limit; a GET has no body; and the path is local to the server.
\<close>

theorem request_framing:
  assumes "read_request max_kb cx = Inr req"
  shows "\<exists>line lines blank rest. cx_bytes cx = line @ concat lines @ blank @ hr_body req @ rest \<and>
    parse_request_line line = Inr (hr_method req, hr_path req) \<and> path_ok (hr_path req) \<and>
    hr_method req \<in> {u ''GET'', u ''POST''} \<and>
    blank \<in> {[13, 10], [10]} \<and> length lines < 100 \<and> length (concat lines @ blank) \<le> 32768 \<and>
    hr_headers req = gather [] lines \<and>
    filter (\<lambda>l. fst (field_of l) = u ''transfer-encoding'') lines = [] \<and>
    (case filter (\<lambda>l. fst (field_of l) = u ''content-length'') lines of
       [] \<Rightarrow> hr_body req = []
     | [l] \<Rightarrow> py_int 10 (snd (field_of l)) = Some (int (length (hr_body req)))
     | _ \<Rightarrow> False) \<and>
    (hr_body req \<noteq> [] \<longrightarrow> hr_method req = u ''POST'' \<and>
       (\<exists>limit. max_body_bytes max_kb = Some limit \<and> int (length (hr_body req)) \<le> limit))"
proof -
  obtain line cx1 verb path hs cx2 body cx3 where r:
    "readline cx = Inr (line, cx1)" "parse_request_line line = Inr (verb, path)"
    "read_headers MAX_HEADER_COUNT 0 [] cx1 = Inr (hs, cx2)" "read_body max_kb verb hs cx2 = Inr (body, cx3)"
    "req = \<lparr>hr_method = verb, hr_path = path, hr_headers = hs, hr_body = body\<rparr>"
    using assms by (auto simp: read_request_def)
  from read_headers_lines [OF r(3)] obtain lines blank where l:
    "cx_bytes cx1 = concat lines @ blank @ cx_bytes cx2" "blank \<in> {[13, 10], [10]}" "hs = gather [] lines"
    "length lines < 100" "length (concat lines @ blank) \<le> 32768"
    "\<forall>name \<in> framing_headers. length (filter (\<lambda>line. fst (field_of line) = name) lines) \<le> 1"
    by (auto simp: MAX_HEADER_COUNT_def MAX_HEADER_BYTES_def has_key_def)
  note b = read_body_Inr [OF r(4)]
  have line: "path_ok path" "verb \<in> {u ''GET'', u ''POST''}"
    using r(2) by (auto simp: parse_request_line_def Let_def split: list.splits)
  have te: "filter (\<lambda>l. fst (field_of l) = u ''transfer-encoding'') lines = []"
    using b(2) gather_get [of lines "u ''transfer-encoding''"] l(3) by (auto simp: Let_def split: if_splits)
  let ?cl = "filter (\<lambda>l. fst (field_of l) = u ''content-length'') lines"
  have "length ?cl \<le> 1" using l(6) by (simp add: framing_headers_def)
  then consider "?cl = []" | h where "?cl = [h]" by (cases ?cl) auto
  then have cl: "case ?cl of [] \<Rightarrow> body = [] | [h] \<Rightarrow> py_int 10 (snd (field_of h)) = Some (int (length body)) | _ \<Rightarrow> False"
  proof cases
    case 1
    then have "dget hs (u ''content-length'') = None" using gather_get [of lines "u ''content-length''"] l(3) by simp
    moreover have "py_int 10 (u ''0'') = Some 0" by code_simp
    ultimately show ?thesis using 1 b(3) by (simp add: dget_or_def)
  next
    case 2
    then have "dget hs (u ''content-length'') = Some (snd (field_of h))"
      using gather_get [of lines "u ''content-length''"] l(3) by simp
    then show ?thesis using 2 b(3) by (simp add: dget_or_def)
  qed
  have "cx_bytes cx = line @ concat lines @ blank @ body @ cx_bytes cx3"
    using readline_split [OF r(1)] l(1) b(1) by simp
  moreover have "body \<noteq> [] \<Longrightarrow> verb = u ''POST''" using b(4) line(2) by auto
  moreover have sel: "hr_body req = body" "hr_method req = verb" "hr_path req = path" "hr_headers req = hs"
    using r(5) by simp_all
  ultimately show ?thesis
    using r(2) l(2-5) line te cl b(5) unfolding sel
    by (rule_tac exI [of _ line], rule_tac exI [of _ lines], rule_tac exI [of _ blank],
        rule_tac exI [of _ "cx_bytes cx3"]) simp
qed

definition crlf :: pystr where
  "crlf = [13, 10]"

definition sample_stream :: client_stream where
  "sample_stream = \<lparr>cx_bytes = u ''post /api/scan HTTP/1.1'' @ crlf @ u ''Content-Length: 2'' @ crlf @ crlf @ u ''{}'',
     cx_stalls = True\<rparr>"

lemma sample_request:
  "read_request (Fin 100) sample_stream =
     Inr \<lparr>hr_method = u ''POST'', hr_path = u ''/api/scan'', hr_headers = [(u ''content-length'', u ''2'')],
       hr_body = u ''{}''\<rparr>"
  by code_simp

lemma request_framing_witness:
  "\<exists>line lines blank rest. cx_bytes sample_stream = line @ concat lines @ blank @ u ''{}'' @ rest \<and>
     length lines < 100 \<and> length (concat lines @ blank) \<le> 32768"
  using request_framing [OF sample_request] by auto

section \<open>Gaps\<close>

text \<open>The length is read by \<open>int\<close>, so forms that other HTTP parsers refuse or read differently are
  accepted, and white space before the colon of a header is dropped.\<close>

lemma lenient_content_length:
  "py_int 10 (u ''1_0'') = Some 10" "py_int 10 (u ''+5'') = Some 5" "py_int 10 (u ''-0'') = Some 0"
  "field_of (u ''Content-Length : 2'') = (u ''content-length'', u ''2'')"
  by code_simp+

end
