(* ===== verification/IdentityDelivery.thy ===== *)
theory IdentityDelivery
  imports IdentityTelemetry Utf8 PyNumbers
begin

text \<open>
  \<open>production/identity_shipper.py\<close> with \<open>identity_transport.py\<close>: the worker that posts the queued
  envelopes in order and keeps its place in a cursor file. What the endpoint answers, and where the worker
  is stopped, is data of a run. An exception is \<open>Inl ()\<close>; \<open>rl\<close> is the recursion limit, \<open>fr\<close> the text of a
  float.
\<close>

section \<open>Files\<close>

record outbox =
  dl_queue :: "pybytes option"
  dl_cursor :: "pystr option"
  dl_received :: "pydict list"

text \<open>The last field is the other side: the envelopes that the endpoint answered with a success.\<close>

definition compact_style :: dump_style where
  "compact_style = \<lparr>ds_spaced = False, ds_sorted = False\<rparr>"

definition envelope_line :: "(rat \<Rightarrow> pystr) \<Rightarrow> pydict \<Rightarrow> pystr" where
  "envelope_line fr envelope = dumps fr compact_style (PDict envelope) @ [10]"

text \<open>The gateway's append of an envelope.\<close>

definition enqueue :: "(rat \<Rightarrow> pystr) \<Rightarrow> pydict \<Rightarrow> outbox \<Rightarrow> outbox" where
  "enqueue fr envelope d =
    (case utf8_encode (envelope_line fr envelope) of
       None \<Rightarrow> d
     | Some line \<Rightarrow> d\<lparr>dl_queue := Some ((case dl_queue d of None \<Rightarrow> [] | Some q \<Rightarrow> q) @ line)\<rparr>)"

definition read_cursor :: "pystr option \<Rightarrow> unit + nat" where
  "read_cursor cursor =
    (case cursor of
       None \<Rightarrow> Inr 0
     | Some txt \<Rightarrow>
         if py_strip txt = [] then Inr 0
         else (case py_int 10 (py_strip txt) of
             None \<Rightarrow> Inl ()
           | Some i \<Rightarrow> if i < 0 then Inl () else Inr (nat i)))"

definition write_cursor :: "nat \<Rightarrow> outbox \<Rightarrow> outbox" where
  "write_cursor offset d = d\<lparr>dl_cursor := Some (show_nat offset @ [10])\<rparr>"

text \<open>The record at the offset and the offset after it; \<open>None\<close> when no whole line is there.\<close>

definition read_next_envelope :: "nat \<Rightarrow> pybytes option \<Rightarrow> nat \<Rightarrow> unit + (pydict \<times> nat) option" where
  "read_next_envelope rl queue offset =
    (case queue of
       None \<Rightarrow> Inr None
     | Some q \<Rightarrow>
         if offset > length q then Inl ()
         else (let line = takeWhile (\<lambda>b. b \<noteq> 10) (drop offset q)
           in if offset + length line = length q then Inr None
              else (case utf8_strict line of
                  None \<Rightarrow> Inl ()
                | Some txt \<Rightarrow> (case loads_text plain_hook rl (txt @ [10]) of
                      Inr (PDict envelope) \<Rightarrow> Inr (Some (envelope, offset + length line + 1))
                    | _ \<Rightarrow> Inl ()))))"

section \<open>The worker\<close>

text \<open>What becomes of the post of a record: a status that is handled, a failure of the transport, or a
  status after which the cursor is not written (the process dies, or the write fails).\<close>

datatype post_fate = Answers int | TransportFails | Unsaved int

datatype run_end = Delivered nat | RunError

definition success :: "int \<Rightarrow> bool" where
  "success status \<longleftrightarrow> 200 \<le> status \<and> status < 300"

definition received :: "int \<Rightarrow> pydict \<Rightarrow> outbox \<Rightarrow> outbox" where
  "received status envelope d =
     (if success status then d\<lparr>dl_received := dl_received d @ [envelope]\<rparr> else d)"

definition within_max :: "int option \<Rightarrow> nat \<Rightarrow> bool" where
  "within_max max_records delivered =
     (case max_records of None \<Rightarrow> True | Some m \<Rightarrow> int delivered < m)"

lemma read_next_bounds:
  "read_next_envelope rl (Some q) offset = Inr (Some (envelope, next')) \<Longrightarrow> offset < next' \<and> next' \<le> length q"
proof -
  assume r: "read_next_envelope rl (Some q) offset = Inr (Some (envelope, next'))"
  let ?line = "takeWhile (\<lambda>b. b \<noteq> 10) (drop offset q)"
  have "length ?line \<le> length q - offset" using length_takeWhile_le [of _ "drop offset q"] by simp
  with r show ?thesis
    by (auto simp: read_next_envelope_def Let_def split: if_splits option.splits sum.splits pyval.splits)
qed

function deliver_loop :: "nat \<Rightarrow> int option \<Rightarrow> (nat \<Rightarrow> post_fate) \<Rightarrow> pybytes \<Rightarrow> nat \<Rightarrow> nat \<Rightarrow> outbox \<Rightarrow> run_end \<times> outbox" where
  "deliver_loop rl max_records fates q offset delivered d =
    (if \<not> within_max max_records delivered then (Delivered delivered, d)
     else (case read_next_envelope rl (Some q) offset of
         Inl _ \<Rightarrow> (RunError, d)
       | Inr None \<Rightarrow> (Delivered delivered, d)
       | Inr (Some (envelope, next_offset)) \<Rightarrow>
           (case fates delivered of
              TransportFails \<Rightarrow> (RunError, d)
            | Unsaved status \<Rightarrow> (RunError, received status envelope d)
            | Answers status \<Rightarrow>
                if \<not> success status then (RunError, d)
                else deliver_loop rl max_records fates q next_offset (Suc delivered)
                  (write_cursor next_offset (received status envelope d)))))"
  by pat_completeness auto
termination
  by (relation "measure (\<lambda>(rl, m, f, q, offset, n, d). length q - offset)") (auto dest: read_next_bounds)

declare deliver_loop.simps [simp del]

text \<open>\<open>post_envelope\<close> raises before it posts when the endpoint is not HTTPS or the token is empty.\<close>

definition may_post :: "pystr \<Rightarrow> pystr \<Rightarrow> bool" where
  "may_post endpoint bearer_token \<longleftrightarrow> starts_with endpoint (u ''https://'') \<and> bearer_token \<noteq> []"

definition deliver_available :: "nat \<Rightarrow> pystr \<Rightarrow> pystr \<Rightarrow> int option \<Rightarrow> (nat \<Rightarrow> post_fate) \<Rightarrow> outbox \<Rightarrow> run_end \<times> outbox" where
  "deliver_available rl endpoint bearer_token max_records fates d =
    (if (case max_records of None \<Rightarrow> False | Some m \<Rightarrow> m \<le> 0) then (RunError, d)
     else (case read_cursor (dl_cursor d) of
         Inl _ \<Rightarrow> (RunError, d)
       | Inr offset \<Rightarrow> (case dl_queue d of
             None \<Rightarrow> (Delivered 0, d)
           | Some q \<Rightarrow> deliver_loop rl max_records
               (if may_post endpoint bearer_token then fates else (\<lambda>i. TransportFails)) q offset 0 d)))"

text \<open>\<open>run_forever\<close>: after a run, how long to sleep (if at all) and the next back-off.\<close>

definition after_run :: "rat \<Rightarrow> rat \<Rightarrow> run_end \<Rightarrow> rat \<Rightarrow> rat option \<times> rat" where
  "after_run poll_seconds max_backoff result backoff =
    (case result of
       Delivered n \<Rightarrow> if n > 0 then (None, poll_seconds) else (Some poll_seconds, poll_seconds)
     | RunError \<Rightarrow> (Some backoff, min max_backoff (max poll_seconds (backoff * 2))))"

section \<open>Every event arrives, in order\<close>

text \<open>Each record of a prefix, a positive number of times.\<close>

fun copies :: "nat list \<Rightarrow> 'a list \<Rightarrow> 'a list" where
  "copies (n # ns) (e # es) = replicate n e @ copies ns es"
| "copies _ _ = []"

lemma copies_snoc:
  "length ns < length es \<Longrightarrow> copies (ns @ [n]) es = copies ns es @ replicate n (es ! length ns)"
proof (induction ns arbitrary: es)
  case Nil
  then show ?case by (cases es) simp_all
next
  case (Cons m ns)
  then show ?case by (cases es) simp_all
qed

lemma copies_more: "length ns \<le> length es \<Longrightarrow> copies ns (es @ fs) = copies ns es"
  by (induction ns es rule: copies.induct) auto

lemma copies_again:
  "length ns < length es \<Longrightarrow> copies (ns @ [Suc n]) es = copies (ns @ [n]) es @ [es ! length ns]"
  by (simp add: copies_snoc replicate_append_same)

section \<open>Lines of the queue\<close>

definition queue_bytes :: "(rat \<Rightarrow> pystr) \<Rightarrow> pydict list \<Rightarrow> pybytes" where
  "queue_bytes fr es = concat (map (envelope_line fr) es)"

lemma queue_bytes_simps [simp]:
  "queue_bytes fr [] = []" "queue_bytes fr (es @ fs) = queue_bytes fr es @ queue_bytes fr fs"
  "queue_bytes fr (e # es) = envelope_line fr e @ queue_bytes fr es"
  by (simp_all add: queue_bytes_def)

text \<open>What the gateway queues: it can be printed and read back.\<close>

definition queueable :: "rat set \<Rightarrow> nat \<Rightarrow> pydict \<Rightarrow> bool" where
  "queueable F rl e \<longleftrightarrow> printable F (PDict e) \<and> depth (PDict e) \<le> rl"

lemma line_ascii:
  assumes "repr_law fr F" "queueable F rl e"
  shows "list_all (\<lambda>c. 32 \<le> c \<and> c < 128) (dumps fr compact_style (PDict e))"
proof -
  have "ascii_text (print_val fr compact_style (PDict e))"
    using ascii_print [OF assms(1), of "PDict e"] assms(2) by (simp add: queueable_def)
  then show ?thesis
    by (auto simp: dumps_def compact_style_def ascii_text_def elim!: list.pred_mono_strong)
qed

lemma loads_line:
  assumes "repr_law fr F" "queueable F rl e"
  shows "loads_text plain_hook rl (envelope_line fr e) = Inr (PDict e)"
proof -
  have e: "printable F (PDict e)" "depth (PDict e) \<le> rl" using assms(2) by (simp_all add: queueable_def)
  let ?t = "print_val fr compact_style (PDict e)"
  have line: "envelope_line fr e = ?t @ [10]"
    by (simp add: envelope_line_def dumps_def compact_style_def)
  obtain c ds where c: "?t = c # ds" "\<not> json_ws c" using print_head [OF assms(1) e(1)] by blast
  have "c \<noteq> 65279" using ascii_print [OF assms(1) e(1), of compact_style] c(1) by simp
  moreover have "jvalue plain_hook (Suc (2 * length (?t @ [10]))) rl (?t @ [10]) = Inr (PDict e, [10])"
    by (rule value_scan [OF assms(1) e]) (simp_all add: at_end_def)
  moreover have "skip_ws [10] = []" by (simp add: skip_ws_def json_ws_def)
  moreover have "skip_ws (?t @ [10]) = ?t @ [10]" "\<not> starts_with (?t @ [10]) [65279]"
    unfolding c(1) using c(2) \<open>c \<noteq> 65279\<close> by (simp_all add: skip_ws_head)
  ultimately show ?thesis unfolding line loads_text_Inr by metis
qed

lemma read_next_line:
  assumes "repr_law fr F" "queueable F rl e"
  shows "read_next_envelope rl (Some (b @ envelope_line fr e @ rest)) (length b) =
    Inr (Some (e, length (b @ envelope_line fr e)))"
proof -
  let ?t = "dumps fr compact_style (PDict e)"
  note a = line_ascii [OF assms]
  have "takeWhile (\<lambda>c. c \<noteq> 10) (?t @ 10 # rest) = ?t"
    using a by (subst takeWhile_append2) (auto simp: list_all_iff)
  moreover have "utf8_strict ?t = Some ?t"
    using a by (intro utf8_strict_ascii) (auto simp: list_all_iff)
  moreover have "loads_text plain_hook rl (?t @ [10]) = Inr (PDict e)"
    using loads_line [OF assms] by (simp add: envelope_line_def)
  ultimately show ?thesis by (simp add: read_next_envelope_def envelope_line_def)
qed

lemma read_next_end: "read_next_envelope rl (Some q) (length q) = Inr None"
  by (simp add: read_next_envelope_def)

lemma enqueue_queue:
  assumes "repr_law fr F" "queueable F rl e"
  shows "enqueue fr e d = d\<lparr>dl_queue := Some ((case dl_queue d of None \<Rightarrow> [] | Some q \<Rightarrow> q) @ envelope_line fr e)\<rparr>"
proof -
  have "list_all (\<lambda>c. c < 128) (envelope_line fr e)"
    using line_ascii [OF assms] by (auto simp: envelope_line_def list_all_iff)
  then show ?thesis by (simp add: enqueue_def utf8_encode_ascii)
qed

text \<open>The cursor is read as the number it was written as.\<close>

lemma us_digits_decimal:
  "list_all is_digit ds \<Longrightarrow> ds \<noteq> [] \<Longrightarrow> us_digits (base_digit 10) ds = Some (map (\<lambda>c. c - 48) ds)"
proof (induction "base_digit 10" ds rule: us_digits.induct)
  case (3 c d s)
  then show ?case by (auto simp: base_digit_def decimal_value_def is_digit_def)
qed (simp_all add: base_digit_def decimal_value_def)

lemma digits_not_space:
  assumes "list_all is_digit ds" "ds \<noteq> []"
  shows "\<not> is_space (hd ds) \<and> \<not> is_space (last ds)"
proof -
  have "\<not> is_space c" if "c \<in> set ds" for c
    using assms(1) that by (auto simp: list_all_iff is_digit_def is_space_def)
  with assms(2) show ?thesis by simp
qed

lemma py_int_show:
  assumes "length (show_nat n) \<le> 4300"
  shows "py_int 10 (show_nat n) = Some (int n)"
proof -
  let ?s = "show_nat n"
  have d: "list_all is_digit ?s" "?s \<noteq> []" using show_nat_digits by auto
  note ends = digits_not_space [OF d]
  have "py_strip ?s = ?s" using ends by (intro py_strip_id) simp
  moreover have "hd ?s \<noteq> 45 \<and> hd ?s \<noteq> 43" using d by (cases ?s) (auto simp: is_digit_def)
  then have "\<not> starts_with ?s [45]" "\<not> starts_with ?s [43]" using d by (cases ?s; simp)+
  moreover have "foldl (\<lambda>n d. 10 * n + d) 0 (map (\<lambda>c. c - 48) ?s) = digits_val ?s"
    by (simp add: digits_val_def foldl_map)
  ultimately show ?thesis
    using us_digits_decimal [OF d] assms by (simp add: py_int_def strip_prefix16_def Let_def digits_val_show)
qed

lemma read_written_cursor:
  assumes "length (show_nat n) \<le> 4300"
  shows "read_cursor (dl_cursor (write_cursor n d)) = Inr n"
proof -
  let ?s = "show_nat n"
  have d: "list_all is_digit ?s" "?s \<noteq> []" using show_nat_digits by auto
  note ends = digits_not_space [OF d]
  have "\<not> is_space (hd (?s @ [10]))" "is_space 10" using ends d by (simp_all add: is_space_def)
  then have "py_strip (?s @ [10]) = py_rstrip ?s"
    using d by (cases ?s) (simp_all add: py_strip_def py_lstrip_def py_rstrip_def)
  also have "\<dots> = py_strip ?s" using ends d by (cases ?s) (simp_all add: py_strip_def py_lstrip_def)
  also have "\<dots> = ?s" using ends by (intro py_strip_id) simp
  finally have "py_strip (?s @ [10]) = ?s" .
  with py_int_show [OF assms] d show ?thesis by (simp add: read_cursor_def write_cursor_def)
qed

text \<open>Python reads back integers of at most 4300 digits, so the queue has to stay below this size.\<close>

definition queue_limit :: nat where
  "queue_limit = 10 ^ 4300"

lemma queue_limit_digits: "n < queue_limit \<Longrightarrow> length (show_nat n) \<le> 4300"
  unfolding queue_limit_def by (rule show_nat_length) (rule zero_less_numeral)

section \<open>The worker keeps its place\<close>

text \<open>The queue holds \<open>es\<close>, the cursor is behind the first \<open>k\<close> of them, and the endpoint has received a
  prefix, each record at least once: the first \<open>k\<close>, and perhaps the next, whose cursor was not written.\<close>

definition in_place :: "(rat \<Rightarrow> pystr) \<Rightarrow> pydict list \<Rightarrow> nat \<Rightarrow> nat list \<Rightarrow> outbox \<Rightarrow> bool" where
  "in_place fr es k ns d \<longleftrightarrow>
     (case dl_queue d of None \<Rightarrow> [] | Some q \<Rightarrow> q) = queue_bytes fr es \<and>
     read_cursor (dl_cursor d) = Inr (length (queue_bytes fr (take k es))) \<and>
     dl_received d = copies ns es \<and> list_all ((<) 0) ns \<and>
     k \<le> length ns \<and> length ns \<le> Suc k \<and> length ns \<le> length es"

lemma in_place_received:
  assumes "in_place fr es k ns d" "k < length es" "success s"
  shows "\<exists>ns'. length ns' = Suc k \<and> in_place fr es k ns' (received s (es ! k) d)"
proof (cases "length ns = k")
  case True
  with assms show ?thesis
    by (intro exI [of _ "ns @ [1]"]) (simp add: in_place_def received_def copies_snoc)
next
  case False
  then have "length ns = Suc k" using assms(1) by (simp add: in_place_def)
  then obtain ms m where ms: "ns = ms @ [m]" "length ms = k" by (cases ns rule: rev_cases) auto
  with assms show ?thesis
    by (intro exI [of _ "ms @ [Suc m]"]) (simp add: in_place_def received_def copies_again)
qed

lemma in_place_cursor:
  assumes "in_place fr es k ns d" "length ns = Suc k" "length (queue_bytes fr es) < queue_limit"
  shows "in_place fr es (Suc k) ns (write_cursor (length (queue_bytes fr (take (Suc k) es))) d)"
proof -
  have "length (queue_bytes fr (take (Suc k) es)) \<le> length (queue_bytes fr (take (Suc k) es @ drop (Suc k) es))"
    by (simp only: queue_bytes_simps length_append le_add1)
  then have "length (queue_bytes fr (take (Suc k) es)) < queue_limit"
    using assms(3) by (simp del: queue_bytes_simps)
  then have "length (show_nat (length (queue_bytes fr (take (Suc k) es)))) \<le> 4300"
    by (rule queue_limit_digits)
  from read_written_cursor [OF this] assms(1,2) show ?thesis
    by (simp add: in_place_def write_cursor_def)
qed

lemma loop_in_place:
  assumes law: "repr_law fr F" and es: "list_all (queueable F rl) es"
    and small: "length (queue_bytes fr es) < queue_limit" and q: "q = queue_bytes fr es"
  shows "in_place fr es k ns d \<Longrightarrow> k \<le> length es \<Longrightarrow>
    \<exists>k' ns'. k \<le> k' \<and> in_place fr es k' ns'
      (snd (deliver_loop rl most fates q (length (queue_bytes fr (take k es))) n d)) \<and>
    ((\<forall>i. \<exists>s. fates i = Answers s \<and> success s) \<longrightarrow> most = None \<longrightarrow> k' = length es \<and>
      fst (deliver_loop rl most fates q (length (queue_bytes fr (take k es))) n d) = Delivered (n + (length es - k)))"
proof (induction "length es - k" arbitrary: k ns d n)
  case 0
  then have k: "k = length es" by simp
  have "read_next_envelope rl (Some q) (length (queue_bytes fr es)) = Inr None"
    using q read_next_end by simp
  then have "deliver_loop rl most fates q (length (queue_bytes fr (take k es))) n d = (Delivered n, d)"
    using k by (simp add: deliver_loop.simps)
  with 0 k show ?case by auto
next
  case (Suc m)
  let ?off = "length (queue_bytes fr (take k es))"
  let ?next = "length (queue_bytes fr (take (Suc k) es))"
  have k: "k < length es" using Suc.hyps(2) by simp
  then have split: "queue_bytes fr es = queue_bytes fr (take k es) @ envelope_line fr (es ! k) @ queue_bytes fr (drop (Suc k) es)"
    using arg_cong [OF id_take_nth_drop [OF k], of "queue_bytes fr"] by simp
  have "queueable F rl (es ! k)" using es k by (simp add: list_all_length)
  from read_next_line [OF law this, of "queue_bytes fr (take k es)" "queue_bytes fr (drop (Suc k) es)"]
  have r: "read_next_envelope rl (Some q) ?off = Inr (Some (es ! k, ?next))"
    using split q k by (simp add: take_Suc_conv_app_nth)
  show ?case
  proof (cases "within_max most n \<and> (\<exists>s. fates n = Answers s \<and> success s)")
    case True
    then obtain s where s: "fates n = Answers s" "success s" by blast
    from in_place_received [OF Suc.prems(1) k s(2)] obtain ns' where
      "length ns' = Suc k" "in_place fr es k ns' (received s (es ! k) d)" by blast
    with in_place_cursor [OF _ _ small] have
      IP: "in_place fr es (Suc k) ns' (write_cursor ?next (received s (es ! k) d))" by blast
    moreover have "m = length es - Suc k" "Suc k \<le> length es" using Suc.hyps(2) k by simp_all
    ultimately obtain k' ns'' where IH: "Suc k \<le> k'"
      "in_place fr es k' ns'' (snd (deliver_loop rl most fates q ?next (Suc n) (write_cursor ?next (received s (es ! k) d))))"
      "(\<forall>i. \<exists>s. fates i = Answers s \<and> success s) \<longrightarrow> most = None \<longrightarrow> k' = length es \<and>
        fst (deliver_loop rl most fates q ?next (Suc n) (write_cursor ?next (received s (es ! k) d)))
          = Delivered (Suc n + (length es - Suc k))"
      using Suc.hyps(1) by blast
    moreover have "deliver_loop rl most fates q ?off n d =
        deliver_loop rl most fates q ?next (Suc n) (write_cursor ?next (received s (es ! k) d))"
      using True s r by (subst deliver_loop.simps) simp
    ultimately show ?thesis using k by (intro exI [of _ k'] exI [of _ ns'']) auto
  next
    case False
    have "\<exists>ns'. in_place fr es k ns' (snd (deliver_loop rl most fates q ?off n d))"
    proof (cases "within_max most n")
      case True
      show ?thesis
      proof (cases "fates n")
        case (Unsaved s)
        with r True have "snd (deliver_loop rl most fates q ?off n d) = received s (es ! k) d"
          by (subst deliver_loop.simps) simp
        with in_place_received [OF Suc.prems(1) k] Suc.prems(1) show ?thesis
          by (cases "success s") (auto simp: received_def)
      next
        case (Answers s)
        with False True r have "snd (deliver_loop rl most fates q ?off n d) = d"
          by (subst deliver_loop.simps) simp
        with Suc.prems(1) show ?thesis by auto
      next
        case TransportFails
        with True r have "snd (deliver_loop rl most fates q ?off n d) = d"
          by (subst deliver_loop.simps) simp
        with Suc.prems(1) show ?thesis by auto
      qed
    next
      case False
      then have "snd (deliver_loop rl most fates q ?off n d) = d" by (subst deliver_loop.simps) simp
      with Suc.prems(1) show ?thesis by auto
    qed
    moreover have "most \<noteq> None \<or> \<not> (\<forall>i. \<exists>s. fates i = Answers s \<and> success s)"
      using False by (cases most) (auto simp: within_max_def)
    ultimately show ?thesis by blast
  qed
qed

datatype delivery_op = Enqueue pydict | Work "int option" "nat \<Rightarrow> post_fate"

fun delivery_step :: "nat \<Rightarrow> (rat \<Rightarrow> pystr) \<Rightarrow> pystr \<Rightarrow> pystr \<Rightarrow> delivery_op \<Rightarrow> outbox \<Rightarrow> outbox" where
  "delivery_step rl fr endpoint token (Enqueue e) d = enqueue fr e d"
| "delivery_step rl fr endpoint token (Work max_records fates) d =
     snd (deliver_available rl endpoint token max_records fates d)"

definition run_delivery :: "nat \<Rightarrow> (rat \<Rightarrow> pystr) \<Rightarrow> pystr \<Rightarrow> pystr \<Rightarrow> delivery_op list \<Rightarrow> outbox" where
  "run_delivery rl fr endpoint token ops =
     fold (delivery_step rl fr endpoint token) ops \<lparr>dl_queue = None, dl_cursor = None, dl_received = []\<rparr>"

definition enqueued :: "delivery_op list \<Rightarrow> pydict list" where
  "enqueued ops = List.map_filter (\<lambda>x. case x of Enqueue e \<Rightarrow> Some e | _ \<Rightarrow> None) ops"

lemma enqueued_snoc: "enqueued (ops @ [x]) = enqueued ops @ (case x of Enqueue e \<Rightarrow> [e] | _ \<Rightarrow> [])"
  by (simp add: enqueued_def List.map_filter_def split: delivery_op.split)

lemma enqueue_in_place:
  assumes "repr_law fr F" "queueable F rl e" "in_place fr es k ns d" "k \<le> length es"
  shows "in_place fr (es @ [e]) k ns (enqueue fr e d)"
  using assms by (simp add: in_place_def enqueue_queue copies_more split: option.splits)

lemma available_in_place:
  assumes "repr_law fr F" "list_all (queueable F rl) es" "length (queue_bytes fr es) < queue_limit"
    and "in_place fr es k ns d"
  shows "\<exists>k' ns'. in_place fr es k' ns' (snd (deliver_available rl endpoint token most fates d)) \<and>
    (may_post endpoint token \<longrightarrow> most = None \<longrightarrow> (\<forall>i. \<exists>s. fates i = Answers s \<and> success s) \<longrightarrow> k' = length es \<and>
      fst (deliver_available rl endpoint token most fates d) = Delivered (length es - k))"
proof -
  have k: "k \<le> length es" using assms(4) by (auto simp: in_place_def)
  have c: "read_cursor (dl_cursor d) = Inr (length (queue_bytes fr (take k es)))"
    using assms(4) by (simp add: in_place_def)
  let ?fates = "if may_post endpoint token then fates else (\<lambda>i. TransportFails)"
  consider "case most of None \<Rightarrow> False | Some m \<Rightarrow> m \<le> 0"
    | "\<not> (case most of None \<Rightarrow> False | Some m \<Rightarrow> m \<le> 0)" "dl_queue d = None"
    | q where "\<not> (case most of None \<Rightarrow> False | Some m \<Rightarrow> m \<le> 0)" "dl_queue d = Some q"
    by (cases "dl_queue d") auto
  then show ?thesis
  proof cases
    case 1
    with assms(4) show ?thesis by (auto simp: deliver_available_def split: option.splits)
  next
    case 2
    then have "es = []"
      using assms(4) by (cases es) (auto simp: in_place_def envelope_line_def)
    with 2 c assms(4) k show ?thesis by (auto simp: deliver_available_def)
  next
    case 3
    then have "q = queue_bytes fr es" using assms(4) by (simp add: in_place_def)
    from loop_in_place [OF assms(1-3) this assms(4) k, of most ?fates 0] 3 c
    show ?thesis by (cases "may_post endpoint token") (auto simp: deliver_available_def)
  qed
qed

lemma history_in_place:
  assumes "repr_law fr F"
  shows "list_all (queueable F rl) (enqueued ops) \<Longrightarrow> length (queue_bytes fr (enqueued ops)) < queue_limit \<Longrightarrow>
    \<exists>k ns. in_place fr (enqueued ops) k ns (run_delivery rl fr endpoint token ops)"
proof (induction ops rule: rev_induct)
  case Nil
  show ?case
    by (intro exI [of _ 0] exI [of _ "[]"]) (simp add: in_place_def run_delivery_def enqueued_def List.map_filter_def read_cursor_def)
next
  case (snoc x ops)
  then obtain k ns where ip: "in_place fr (enqueued ops) k ns (run_delivery rl fr endpoint token ops)"
    by (auto simp: enqueued_snoc)
  have k: "k \<le> length (enqueued ops)" using ip by (auto simp: in_place_def)
  have run: "run_delivery rl fr endpoint token (ops @ [x]) =
      delivery_step rl fr endpoint token x (run_delivery rl fr endpoint token ops)"
    by (simp add: run_delivery_def)
  show ?case
  proof (cases x)
    case (Enqueue e)
    with snoc.prems(1) enqueue_in_place [OF assms _ ip k, of rl e] run show ?thesis
      by (auto simp: enqueued_snoc)
  next
    case (Work most fates)
    with snoc.prems available_in_place [OF assms _ _ ip, of rl endpoint token most fates] run show ?thesis
      by (auto simp: enqueued_snoc)
  qed
qed

text \<open>
  C17: At-least-once delivery. Whatever the worker and the endpoint did (refusals, failures of the transport,
  runs that ended between an answer and the cursor), the endpoint has received the events in the order in
  which they were queued, each of a prefix at least once and nothing else; the cursor is behind that prefix
  or behind all but its last event; and the next run that nothing disturbs delivers every event that the
  cursor has not passed.
\<close>

theorem telemetry_arrives:
  assumes "repr_law fr F" "list_all (queueable F rl) (enqueued ops)"
    and "length (queue_bytes fr (enqueued ops)) < queue_limit" "may_post endpoint token"
    and "\<And>i. success (answer i)"
  shows "\<exists>k ns. in_place fr (enqueued ops) k ns (run_delivery rl fr endpoint token ops) \<and>
    fst (deliver_available rl endpoint token None (\<lambda>i. Answers (answer i)) (run_delivery rl fr endpoint token ops)) =
      Delivered (length (enqueued ops) - k) \<and>
    (\<exists>ns'. in_place fr (enqueued ops) (length (enqueued ops)) ns'
      (run_delivery rl fr endpoint token (ops @ [Work None (\<lambda>i. Answers (answer i))])))"
proof -
  obtain k ns where ip: "in_place fr (enqueued ops) k ns (run_delivery rl fr endpoint token ops)"
    using history_in_place [OF assms(1-3)] by blast
  have run: "run_delivery rl fr endpoint token (ops @ [Work None (\<lambda>i. Answers (answer i))]) =
      snd (deliver_available rl endpoint token None (\<lambda>i. Answers (answer i)) (run_delivery rl fr endpoint token ops))"
    by (simp add: run_delivery_def)
  from available_in_place [OF assms(1-3) ip, of endpoint token None "\<lambda>i. Answers (answer i)"] assms(4,5) ip run
  show ?thesis by auto
qed

definition sample_envelope :: pydict where
  "sample_envelope = [(u ''backfill'', PBool False)]"

lemma telemetry_arrives_witness:
  "\<exists>k ns. in_place half_repr [sample_envelope] k ns (run_delivery 5 half_repr (u ''https://v'') (u ''t'')
      [Enqueue sample_envelope, Work None (\<lambda>i. Unsaved 200)]) \<and>
    (\<exists>ns'. in_place half_repr [sample_envelope] 1 ns' (run_delivery 5 half_repr (u ''https://v'') (u ''t'')
      [Enqueue sample_envelope, Work None (\<lambda>i. Unsaved 200), Work None (\<lambda>i. Answers 204)]))"
proof -
  let ?ops = "[Enqueue sample_envelope, Work None (\<lambda>i. Unsaved 200)]"
  have e: "enqueued ?ops = [sample_envelope]" by (simp add: enqueued_def List.map_filter_def)
  have p: "queueable {1 / 2} 5 sample_envelope"
    by (simp add: queueable_def sample_envelope_def plain_text_def u_def is_surrogate_def)
  have "length (envelope_line half_repr sample_envelope) = 19" by code_simp
  moreover have "(19 :: nat) < 10 ^ 2" by simp
  moreover have "(10 :: nat) ^ 2 \<le> queue_limit" unfolding queue_limit_def by (rule power_increasing) simp_all
  ultimately have small: "length (queue_bytes half_repr [sample_envelope]) < queue_limit" by simp
  have "may_post (u ''https://v'') (u ''t'')" by code_simp
  from telemetry_arrives [OF half_repr_law, of 5 ?ops, unfolded e, OF _ small this, of "\<lambda>i. 204"] p
  show ?thesis by (auto simp: success_def)
qed

text \<open>The pauses between runs stay between the poll interval and the largest back-off.\<close>

lemma backoff_bounded:
  assumes "poll \<le> most" "poll \<le> backoff" "backoff \<le> most" "after_run poll most r backoff = (pause, backoff')"
  shows "poll \<le> backoff' \<and> backoff' \<le> most \<and> (case pause of None \<Rightarrow> True | Some t \<Rightarrow> poll \<le> t \<and> t \<le> most)"
  using assms by (auto simp: after_run_def split: run_end.splits if_splits)

end
