(* ===== verification/ProductionServer.thy ===== *)
theory ProductionServer
  imports HttpRequest ServiceConfig ServiceMetrics GracefulStop Tracing Alerting IdentityDelivery
    SecurityMonitor WriteAheadLog CircuitBreaker TokenBucket
begin

text \<open>
  \<open>production/server.py\<close>: the HTTP server that puts the monitor behind authentication, rate limit,
  write-ahead log, circuit breaker, alerts, metrics, tracing and the export of events. One request is one
  function from the server's state; the handlers do not await, so requests do not interleave inside it.
  What the clocks, the random generator, \<open>uuid4\<close>, the disk and the socket give a request is the record
  \<open>request_io\<close>. The log lines are left out.
\<close>

section \<open>State\<close>

record server_env =
  se_monitor :: monitor_env
  se_rl :: nat
  se_iso8601 :: "rat \<Rightarrow> pystr"
  se_tempdir :: pystr
  se_writable :: "pystr \<Rightarrow> bool"

record request_io =
  ri_peer :: pystr
  ri_rate_now :: rat
  ri_start :: rat
  ri_end :: rat
  ri_wall_start :: rat
  ri_span_start :: rat
  ri_span_end :: rat
  ri_trace_random :: pybytes
  ri_span_random :: pybytes
  ri_event_id :: pystr
  ri_wal_time :: rat
  ri_wal_torn :: "nat option"
  ri_call_id :: pystr
  ri_append :: append_io
  ri_looks :: "rat \<times> rat \<times> rat"
  ri_alert_now :: rat
  ri_time_text :: pystr
  ri_siem_fails :: bool
  ri_queue_fails :: bool

text \<open>The last two say whether writing the event files fails; \<open>ri_wal_torn\<close> is how much of the line reached
  the write-ahead log when its write fails; \<open>ri_looks\<close> are the readings of the circuit breaker's clock.\<close>

record gateway_server =
  gs_config :: service_config
  gs_wal :: wal
  gs_monitor :: security_monitor
  gs_rate_limiter :: rate_limiter
  gs_metrics :: metrics
  gs_tracer :: tracer
  gs_alerting :: alerting_hook
  gs_call_breaker :: circuit_breaker
  gs_output_breaker :: circuit_breaker
  gs_shutdown :: shutdown
  gs_siem :: "pystr option"
  gs_queue :: outbox

text \<open>\<open>__init__\<close>. A timeout or a payload limit that is no number is outside the model.\<close>

definition make_server :: "service_config \<Rightarrow> rat \<Rightarrow> wal \<Rightarrow> audit_log \<Rightarrow> gateway_server option" where
  "make_server c now w audit =
    (case (cg_max_payload_kb c, cg_circuit_breaker_timeout c) of
       (Fin max_kb, Fin timeout) \<Rightarrow>
         Some \<lparr>gs_config = c, gs_wal = w,
           gs_monitor = make_security_monitor (set (cg_allowed_servers c)) audit max_kb False,
           gs_rate_limiter = make_rate_limiter (cg_rate_limit_rpm c) None now,
           gs_metrics = make_metrics DEFAULT_BUCKETS,
           gs_tracer = make_tracer (u ''mcp-security-monitor'') 10000,
           gs_alerting = make_alerting (cg_webhook_url c) 80 60,
           gs_call_breaker = make_circuit_breaker (u ''inspect_call'') (cg_circuit_breaker_threshold c) timeout,
           gs_output_breaker = make_circuit_breaker (u ''inspect_output'') (cg_circuit_breaker_threshold c) timeout,
           gs_shutdown = make_shutdown 30, gs_siem = None,
           gs_queue = \<lparr>dl_queue = None, dl_cursor = None, dl_received = []\<rparr>\<rparr>
     | _ \<Rightarrow> None)"

text \<open>A response body: JSON or plain text. A handler raises (\<open>Inl ()\<close>) or answers.\<close>

datatype response_body = JsonBody pydict | TextBody pystr

type_synonym answer = "int \<times> response_body"

definition error_body :: "string \<Rightarrow> response_body" where
  "error_body msg = JsonBody [(u ''error'', PStr (u msg))]"

definition se_hash :: "server_env \<Rightarrow> hash_env" where
  "se_hash env = me_hash (se_monitor env)"

section \<open>Authorisation\<close>

fun match_keys :: "pystr \<Rightarrow> pystr list \<Rightarrow> unit + pystr option" where
  "match_keys supplied [] = Inr None"
| "match_keys supplied (configured # keys) =
     rbind (compare_digest supplied configured) (\<lambda>same.
       if same then Inr (Some supplied) else match_keys supplied keys)"

definition match_api_key :: "headers \<Rightarrow> service_config \<Rightarrow> unit + pystr option" where
  "match_api_key hs c =
    (let supplied = dget_or hs (u ''x-api-key'') []
     in if supplied = [] then Inr None else match_keys supplied (cg_api_keys c))"

text \<open>The answer of a refused request, with its count in the metrics.\<close>

definition count_error :: "gateway_server \<Rightarrow> gateway_server" where
  "count_error s = s\<lparr>gs_metrics := inc_error (gs_metrics s)\<rparr>"

definition authorize :: "headers \<Rightarrow> gateway_server \<Rightarrow> (unit + answer option) \<times> gateway_server" where
  "authorize hs s =
    (if cg_allow_anonymous (gs_config s) then (Inr None, s)
     else if cg_api_keys (gs_config s) = []
       then (Inr (Some (503, error_body ''MCP_API_KEY is not configured'')), count_error s)
     else (case match_api_key hs (gs_config s) of
         Inl e \<Rightarrow> (Inl e, s)
       | Inr None \<Rightarrow> (Inr (Some (401, error_body ''Unauthorized'')), count_error s)
       | Inr (Some key) \<Rightarrow> (Inr None, s)))"

section \<open>The write-ahead record\<close>

definition wal_event :: "hash_env \<Rightarrow> request_io \<Rightarrow> pystr \<Rightarrow> pybytes \<Rightarrow> pystr \<Rightarrow> pystr \<Rightarrow> audit_entry" where
  "wal_event he io path body trace_id span_id =
     \<lparr>ae_entry_id = PStr (ri_event_id io), ae_timestamp = PFloat (Fin (ri_wal_time io)),
      ae_event_type = PStr (u ''production_request_received''),
      ae_data = PDict [(u ''path'', PStr path), (u ''body_sha256'', PStr (he_sha256 he body)),
        (u ''body_bytes'', PInt (int (length body))), (u ''trace_id'', PStr trace_id), (u ''span_id'', PStr span_id)],
      ae_prev_hash = PStr (replicate 64 48), ae_entry_hash = PStr []\<rparr>"

definition record_wal_event :: "hash_env \<Rightarrow> request_io \<Rightarrow> pystr \<Rightarrow> pybytes \<Rightarrow> pystr \<Rightarrow> pystr \<Rightarrow> gateway_server \<Rightarrow>
    (unit + unit) \<times> gateway_server" where
  "record_wal_event he io path body trace_id span_id s =
    (let entry = wal_event he io path body trace_id span_id
     in case compute_hash he None entry of
          Inl e \<Rightarrow> (Inl (), s)
        | Inr h \<Rightarrow>
            (let signed = entry\<lparr>ae_entry_hash := PStr h\<rparr>
             in case ri_wal_torn io of
                  Some n \<Rightarrow> (Inl (), s\<lparr>gs_wal := torn_write he signed n (gs_wal s)\<rparr>)
                | None \<Rightarrow> (Inr (), s\<lparr>gs_wal := wal_write he signed (gs_wal s)\<rparr>)))"

section \<open>Inspections\<close>

text \<open>The body as JSON; what \<open>loads\<close> raises that the handlers catch is a 400, its digit limit is not.\<close>

datatype body_read = BodyValue pyval | BodyInvalid string | BodyRaises

definition read_json_body :: "nat \<Rightarrow> pybytes \<Rightarrow> body_read" where
  "read_json_body rl body =
    (case utf8_strict body of
       None \<Rightarrow> BodyInvalid ''UnicodeDecodeError''
     | Some txt \<Rightarrow> (case loads_text plain_hook rl txt of
           Inr v \<Rightarrow> BodyValue v
         | Inl RecursionError \<Rightarrow> BodyInvalid ''RecursionError''
         | Inl JSONDecodeError \<Rightarrow> BodyInvalid ''JSONDecodeError''
         | Inl e \<Rightarrow> BodyRaises))"

text \<open>The dictionary that the monitor returns.\<close>

definition result_dict :: "monitor_env \<Rightarrow> monitor_result \<Rightarrow> pydict" where
  "result_dict me res =
     [(u ''decision'', PStr (decision_value (mr_decision res))), (u ''allowed'', PBool (mr_allowed res)),
      (u ''risk_score'', PInt (mr_risk_score res)),
      (u ''findings'', PList (map (\<lambda>f. PStr (me_render me (Inl f))) (mr_findings res))),
      (u ''call_id'', PStr (mr_call_id res)),
      (u ''detector_errors'', PList (map (\<lambda>e. PStr (me_render me (Inr e))) (mr_detector_errors res)))]"

definition monitor_answer :: "monitor_env \<Rightarrow> (audit_exn + monitor_result) \<times> security_monitor \<Rightarrow>
    (unit + pydict) \<times> security_monitor" where
  "monitor_answer me r = (case r of (Inl e, sm) \<Rightarrow> (Inl (), sm) | (Inr res, sm) \<Rightarrow> (Inr (result_dict me res), sm))"

text \<open>\<open>inspect_call\<close> of a value that is no object raises \<open>AttributeError\<close> and leaves the monitor as it was.\<close>

definition call_action :: "monitor_env \<Rightarrow> request_io \<Rightarrow> pyval \<Rightarrow> (security_monitor, unit, pydict) action" where
  "call_action me io v sm =
    (case v of
       PDict tool_call \<Rightarrow> monitor_answer me (monitor_inspect_call me (ri_append io) (ri_call_id io) tool_call sm)
     | _ \<Rightarrow> (Inl (), sm))"

definition output_action :: "monitor_env \<Rightarrow> request_io \<Rightarrow> pyval \<Rightarrow> pyval \<Rightarrow> (security_monitor, unit, pydict) action" where
  "output_action me io tool_name output sm =
     monitor_answer me (monitor_inspect_output me (ri_append io) (ri_call_id io) tool_name output sm)"

definition fail_closed_result :: "pydict" where
  "fail_closed_result =
     [(u ''allowed'', PBool False), (u ''risk_score'', PInt 100),
      (u ''findings'', PList [PStr (u ''circuit_breaker_open_fail_closed'')])]"

definition call_fallback :: "(security_monitor, unit, pydict) action" where
  "call_fallback sm = (Inr (fail_closed_result @ [(u ''call_id'', PStr (u ''circuit-open''))]), sm)"

definition output_fallback :: "pyval \<Rightarrow> (security_monitor, unit, pydict) action" where
  "output_fallback tool_name sm = (Inr (fail_closed_result @ [(u ''tool_name'', tool_name)]), sm)"

text \<open>The call through a circuit breaker, on the server's monitor.\<close>

definition guarded :: "request_io \<Rightarrow> (security_monitor, unit, pydict) action \<Rightarrow> (security_monitor, unit, pydict) action \<Rightarrow>
    circuit_breaker \<Rightarrow> security_monitor \<Rightarrow> ((unit call_exn + pydict) \<times> security_monitor) \<times> circuit_breaker" where
  "guarded io func fallback cb sm =
    (case ri_looks io of (now1, now2, now3) \<Rightarrow> cb_call now1 now2 now3 func (Some fallback) cb sm)"

definition shadowed :: "service_config \<Rightarrow> pydict \<Rightarrow> pydict" where
  "shadowed c result =
    (if cg_shadow_mode c
     then dset (u ''shadow_mode'') (PBool True) (dset (u ''allowed'') (PBool True) result) else result)"

definition text_of :: "pyval \<Rightarrow> pystr" where
  "text_of v = (case v of PStr s \<Rightarrow> s | _ \<Rightarrow> [])"

definition alert_of :: "pydict \<Rightarrow> alert_input" where
  "alert_of result =
     \<lparr>ai_risk_score = (case dget result (u ''risk_score'') of Some (PInt i) \<Rightarrow> i | _ \<Rightarrow> 0),
      ai_findings = (case dget result (u ''findings'') of Some (PList fs) \<Rightarrow> map text_of fs | _ \<Rightarrow> []),
      ai_call_id = map_option text_of (dget result (u ''call_id''))\<rparr>"

definition send_alert :: "request_io \<Rightarrow> pydict \<Rightarrow> gateway_server \<Rightarrow> gateway_server" where
  "send_alert io result s =
     s\<lparr>gs_alerting := snd (check_and_alert (ri_alert_now io) (alert_of result) (gs_alerting s))\<rparr>"

definition with_trace :: "pystr \<Rightarrow> pystr \<Rightarrow> pydict \<Rightarrow> pydict" where
  "with_trace trace_id span_id result =
     dset (u ''span_id'') (PStr span_id) (dset (u ''trace_id'') (PStr trace_id) result)"

definition server_siem_event :: "request_io \<Rightarrow> pydict \<Rightarrow> pystr \<Rightarrow> pystr \<Rightarrow> pydict" where
  "server_siem_event io result trace_id span_id =
     [(u ''@timestamp'', PStr (ri_time_text io)), (u ''event_type'', PStr (u ''tool_call_inspected'')),
      (u ''allowed'', dget_or result (u ''allowed'') PNone),
      (u ''decision'', PStr (if dget result (u ''allowed'') = Some (PBool False) then u ''block'' else u ''allow'')),
      (u ''risk_score'', dget_or result (u ''risk_score'') PNone),
      (u ''findings'', dget_or result (u ''findings'') (PList [])),
      (u ''detector'', dget_or result (u ''detector'') PNone), (u ''call_id'', dget_or result (u ''call_id'') PNone),
      (u ''trace_id'', PStr trace_id), (u ''span_id'', PStr span_id)]"

definition write_siem_event :: "hash_env \<Rightarrow> request_io \<Rightarrow> pydict \<Rightarrow> pystr \<Rightarrow> pystr \<Rightarrow> gateway_server \<Rightarrow> gateway_server" where
  "write_siem_event he io result trace_id span_id s =
    (if \<not> cg_siem_enabled (gs_config s) \<or> missing (cg_siem_output (gs_config s)) \<or> ri_siem_fails io then s
     else s\<lparr>gs_siem := Some (append_text (gs_siem s)
       (json_line (he_repr he) (PDict (server_siem_event io result trace_id span_id))))\<rparr>)"

definition handle_inspect_call :: "server_env \<Rightarrow> request_io \<Rightarrow> pybytes \<Rightarrow> pystr \<Rightarrow> pystr \<Rightarrow> gateway_server \<Rightarrow>
    (unit + answer) \<times> gateway_server" where
  "handle_inspect_call env io body trace_id span_id s =
    (case read_json_body (se_rl env) body of
       BodyRaises \<Rightarrow> (Inl (), s)
     | BodyInvalid name \<Rightarrow> (Inr (400, error_body (''Invalid JSON: '' @ name)), s)
     | BodyValue v \<Rightarrow>
         (case guarded io (call_action (se_monitor env) io v) call_fallback (gs_call_breaker s) (gs_monitor s) of
            ((r, sm), cb) \<Rightarrow>
              (let s1 = s\<lparr>gs_monitor := sm, gs_call_breaker := cb\<rparr>
               in case r of
                    Inl e \<Rightarrow> (Inr (500, error_body ''Internal processing error''), s1)
                  | Inr result \<Rightarrow>
                      (let result1 = shadowed (gs_config s) result;
                           result2 = with_trace trace_id span_id result1
                       in (Inr (200, JsonBody result2),
                           write_siem_event (se_hash env) io result2 trace_id span_id (send_alert io result1 s1))))))"

definition handle_inspect_output :: "server_env \<Rightarrow> request_io \<Rightarrow> pybytes \<Rightarrow> pystr \<Rightarrow> pystr \<Rightarrow> gateway_server \<Rightarrow>
    (unit + answer) \<times> gateway_server" where
  "handle_inspect_output env io body trace_id span_id s =
    (case read_json_body (se_rl env) body of
       BodyRaises \<Rightarrow> (Inl (), s)
     | BodyInvalid name \<Rightarrow> (Inr (400, error_body (''Invalid JSON: '' @ name)), s)
     | BodyValue (PDict payload) \<Rightarrow>
         (let tool_name = dget_or payload (u ''tool_name'') (PStr []);
              output = dget_or payload (u ''output'') (PDict [])
          in case guarded io (output_action (se_monitor env) io tool_name output) (output_fallback tool_name)
                 (gs_output_breaker s) (gs_monitor s) of
               ((r, sm), cb) \<Rightarrow>
                 (let s1 = s\<lparr>gs_monitor := sm, gs_output_breaker := cb\<rparr>
                  in case r of
                       Inl e \<Rightarrow> (Inr (500, error_body ''Internal processing error''), s1)
                     | Inr result \<Rightarrow>
                         (let result1 = shadowed (gs_config s) result
                          in (Inr (200, JsonBody (with_trace trace_id span_id result1)), send_alert io result1 s1))))
     | BodyValue v \<Rightarrow> (Inl (), s))"

section \<open>The operational endpoints\<close>

definition handle_health :: "request_io \<Rightarrow> answer" where
  "handle_health io = (200, JsonBody [(u ''status'', PStr (u ''healthy'')), (u ''timestamp'', PStr (ri_time_text io))])"

text \<open>\<open>os.path.dirname\<close> on POSIX: up to the last slash, without trailing slashes unless it has nothing else.\<close>

definition dirname :: "pystr \<Rightarrow> pystr" where
  "dirname path =
    (let head = rev (dropWhile (\<lambda>c. c \<noteq> 47) (rev path)); bare = rev (dropWhile (\<lambda>c. c = 47) (rev head))
     in if bare = [] then head else bare)"

definition path_or :: "server_env \<Rightarrow> pystr option \<Rightarrow> string \<Rightarrow> pystr" where
  "path_or env path name = (if missing path then se_tempdir env @ [47] @ u name else the path)"

definition parent_writable :: "server_env \<Rightarrow> pystr \<Rightarrow> bool" where
  "parent_writable env path = se_writable env (if dirname path = [] then u ''.'' else dirname path)"

definition not_ready :: "string \<Rightarrow> answer" where
  "not_ready label = (503, JsonBody [(u ''status'', PStr (u ''not_ready'')),
     (u ''reason'', PStr (u label @ u '' directory not writable''))])"

definition handle_ready :: "server_env \<Rightarrow> gateway_server \<Rightarrow> answer" where
  "handle_ready env s =
    (if \<not> parent_writable env (path_or env (cg_wal_path (gs_config s)) ''mcp_monitor_wal.jsonl'') then not_ready ''WAL''
     else if \<not> parent_writable env (path_or env (cg_audit_path (gs_config s)) ''mcp_monitor_audit.jsonl'')
       then not_ready ''audit''
     else (200, JsonBody [(u ''status'', PStr (u ''ready''))]))"

fun state_value :: "circuit_state \<Rightarrow> pystr" where
  "state_value CLOSED = u ''closed''"
| "state_value OPEN = u ''open''"
| "state_value HALF_OPEN = u ''half_open''"

definition handle_metrics :: "server_env \<Rightarrow> request_io \<Rightarrow> gateway_server \<Rightarrow> answer \<times> gateway_server" where
  "handle_metrics env io s =
    (let (now1, now2, now3) = ri_looks io;
         (st1, cb1) = cb_read_state now1 (gs_call_breaker s);
         (st2, cb2) = cb_read_state now2 (gs_output_breaker s);
         m = set_circuit_state (u ''inspect_output'') (state_value st2)
           (set_circuit_state (u ''inspect_call'') (state_value st1) (gs_metrics s))
     in ((200, TextBody (expose (he_repr (se_hash env)) m)),
         s\<lparr>gs_call_breaker := cb1, gs_output_breaker := cb2, gs_metrics := m\<rparr>))"

section \<open>Routing\<close>

definition INSPECTION_PATHS :: "pystr set" where
  "INSPECTION_PATHS = {u ''/v1/inspect_call'', u ''/v1/inspect_output'', u ''/api/scan''}"

definition is_inspection :: "http_request \<Rightarrow> bool" where
  "is_inspection req \<longleftrightarrow> hr_method req = u ''POST'' \<and> hr_path req \<in> INSPECTION_PATHS"

definition effective_path :: "pystr \<Rightarrow> pystr" where
  "effective_path path = (if path = u ''/api/scan'' then u ''/v1/inspect_call'' else path)"

text \<open>The rest of a request that needs the key: when it is refused or raises, \<open>k\<close> does not run.\<close>

definition authorized :: "headers \<Rightarrow> (gateway_server \<Rightarrow> (unit + answer) \<times> gateway_server) \<Rightarrow> gateway_server \<Rightarrow>
    (unit + answer) \<times> gateway_server" where
  "authorized hs k s =
    (case authorize hs s of
       (Inl e, s1) \<Rightarrow> (Inl e, s1)
     | (Inr (Some refusal), s1) \<Rightarrow> (Inr refusal, s1)
     | (Inr None, s1) \<Rightarrow> k s1)"

definition inspect_request :: "server_env \<Rightarrow> request_io \<Rightarrow> http_request \<Rightarrow> pystr \<Rightarrow> pystr \<Rightarrow> gateway_server \<Rightarrow>
    (unit + answer) \<times> gateway_server" where
  "inspect_request env io req trace_id span_id s =
    (let path = effective_path (hr_path req)
     in case record_wal_event (se_hash env) io path (hr_body req) trace_id span_id s of
          (Inl e, s1) \<Rightarrow> (Inl e, s1)
        | (Inr _, s1) \<Rightarrow>
            if path = u ''/v1/inspect_call'' then handle_inspect_call env io (hr_body req) trace_id span_id s1
            else handle_inspect_output env io (hr_body req) trace_id span_id s1)"

definition route :: "server_env \<Rightarrow> request_io \<Rightarrow> http_request \<Rightarrow> pystr \<Rightarrow> pystr \<Rightarrow> gateway_server \<Rightarrow>
    (unit + answer) \<times> gateway_server" where
  "route env io req trace_id span_id s =
    (if hr_method req = u ''GET'' \<and> hr_path req = u ''/v1/health'' then (Inr (handle_health io), s)
     else if hr_method req = u ''GET'' \<and> hr_path req = u ''/v1/ready'' then (Inr (handle_ready env s), s)
     else if hr_method req = u ''GET'' \<and> hr_path req = u ''/v1/metrics''
       then authorized (hr_headers req) (\<lambda>s1. let (a, s2) = handle_metrics env io s1 in (Inr a, s2)) s
     else if is_inspection req
       then authorized (hr_headers req) (inspect_request env io req trace_id span_id) s
     else (Inr (404, error_body ''Not found''), s))"

section \<open>One request\<close>

definition RATE_LIMIT_EXEMPT_PATHS :: "pystr set" where
  "RATE_LIMIT_EXEMPT_PATHS = {u ''/v1/health'', u ''/v1/ready'', u ''/v1/metrics''}"

text \<open>The trace of a request: its trace id and the caller's span.\<close>

definition trace_of :: "request_io \<Rightarrow> headers \<Rightarrow> pystr \<times> pystr option" where
  "trace_of io hs =
    (case parse_traceparent (dget_or hs (u ''traceparent'') []) of
       Some tp \<Rightarrow> (tp_trace_id tp, Some (tp_parent_span_id tp))
     | None \<Rightarrow> (start_trace (ri_trace_random io), None))"

definition opened :: "request_io \<Rightarrow> http_request \<Rightarrow> gateway_server \<Rightarrow> (pystr \<times> nat) \<times> gateway_server" where
  "opened io req s =
    (let (trace_id, parent) = trace_of io (hr_headers req);
         (a, tr) = start_span (ri_span_random io) (ri_span_start io) (hr_method req @ [32] @ hr_path req)
           trace_id parent (gs_tracer s)
     in ((trace_id, a), s\<lparr>gs_shutdown := request_started (gs_shutdown s),
          gs_metrics := inc_request (hr_path req) (inc_active (gs_metrics s)), gs_tracer := tr\<rparr>))"

text \<open>The answer after the handler, with the span's attributes and the error count.\<close>

definition settled :: "nat \<Rightarrow> (unit + answer) \<times> gateway_server \<Rightarrow> answer \<times> gateway_server" where
  "settled a r =
    (case r of
       (Inr (status, body), s) \<Rightarrow>
         (let s1 = s\<lparr>gs_tracer := update_span a (set_attribute (u ''http.status_code'') (PInt status)) (gs_tracer s)\<rparr>
          in ((status, body), if status \<ge> 400
               then count_error (s1\<lparr>gs_tracer := update_span a (set_status (u ''ERROR'')) (gs_tracer s1)\<rparr>) else s1))
     | (Inl _, s) \<Rightarrow>
         ((500, error_body ''Internal server error''),
          count_error (s\<lparr>gs_tracer := update_span a (set_status (u ''ERROR'')) (gs_tracer s)\<rparr>)))"

definition finish_request :: "request_io \<Rightarrow> nat \<Rightarrow> gateway_server \<Rightarrow> gateway_server" where
  "finish_request io a s =
     s\<lparr>gs_tracer := end_span (ri_span_end io) a (gs_tracer s),
       gs_metrics := dec_active (observe_duration (ri_end io - ri_start io) (gs_metrics s)),
       gs_shutdown := request_finished (gs_shutdown s)\<rparr>"

section \<open>Identity telemetry\<close>

definition telemetry_envelope :: "server_env \<Rightarrow> request_io \<Rightarrow> http_request \<Rightarrow> pystr \<Rightarrow> int \<Rightarrow> pystr \<Rightarrow> service_config \<Rightarrow>
    unit + pydict" where
  "telemetry_envelope env io req credential status event_id c =
    (case cg_identity_tenant_salt c of
       None \<Rightarrow> Inl ()
     | Some salt \<Rightarrow>
         rbind (resolve_source_ip (ri_peer io) (dget (hr_headers req) (u ''x-forwarded-for'')) (cg_trusted_proxy_cidrs c)) (\<lambda>source_ip.
         rbind (build_event (he_hmac (se_hash env)) salt
           \<lparr>ev_ts = se_iso8601 env (ri_wall_start io), ev_credential = credential,
            ev_endpoint = effective_path (hr_path req), ev_tokens_in = 0, ev_tokens_out = 0,
            ev_latency_ms = max 0 (round_even ((ri_end io - ri_start io) * 1000)), ev_status = status,
            ev_source_ip = source_ip, ev_cost = PNone\<rparr>) (\<lambda>event.
         build_single_event_envelope (he_hmac (se_hash env)) salt event event_id)))"

definition write_identity_event :: "server_env \<Rightarrow> request_io \<Rightarrow> http_request \<Rightarrow> pystr \<Rightarrow> int \<Rightarrow> pystr \<Rightarrow> gateway_server \<Rightarrow> gateway_server" where
  "write_identity_event env io req credential status event_id s =
    (if missing (cg_identity_tenant_salt (gs_config s)) \<or> missing (cg_identity_output (gs_config s)) \<or> ri_peer io = [] then s
     else (case telemetry_envelope env io req credential status event_id (gs_config s) of
         Inl e \<Rightarrow> s
       | Inr envelope \<Rightarrow>
           if ri_queue_fails io then s
           else s\<lparr>gs_queue := enqueue (he_repr (se_hash env)) envelope (gs_queue s)\<rparr>))"

text \<open>After the handler; it raises when the key cannot be compared, and then no response is sent.\<close>

definition identity_telemetry :: "server_env \<Rightarrow> request_io \<Rightarrow> http_request \<Rightarrow> int \<Rightarrow> gateway_server \<Rightarrow> unit + gateway_server" where
  "identity_telemetry env io req status s =
    (if cg_identity_enabled (gs_config s) \<and> is_inspection req then
       rbind (match_api_key (hr_headers req) (gs_config s)) (\<lambda>credential.
         case credential of
           None \<Rightarrow> Inr s
         | Some key \<Rightarrow> Inr (write_identity_event env io req key status (ri_event_id io) s))
     else Inr s)"

section \<open>Serving\<close>

text \<open>What the client sees: a response with its extra headers, or a connection closed without one.\<close>

datatype served = Sent int response_body headers | Dropped

definition trace_headers :: "pystr \<Rightarrow> pystr \<Rightarrow> headers" where
  "trace_headers trace_id span_id =
     [(u ''X-Trace-Id'', trace_id), (u ''X-Span-Id'', span_id), (u ''traceparent'', create_traceparent trace_id span_id True)]"

text \<open>The whole of an accepted request: the gates before the route, the route, and what follows it.\<close>

definition process_request :: "server_env \<Rightarrow> request_io \<Rightarrow> http_request \<Rightarrow> gateway_server \<Rightarrow> served \<times> gateway_server" where
  "process_request env io req s =
    (let ((trace_id, a), s1) = opened io req s;
         span_id = hex_of (ri_span_random io);
         ((status, body), s2) = settled a (route env io req trace_id span_id s1);
         s3 = finish_request io a s2
     in case identity_telemetry env io req status s3 of
          Inl e \<Rightarrow> (Dropped, s3)
        | Inr s4 \<Rightarrow> (Sent status body (trace_headers trace_id span_id), s4))"

definition serve_request :: "server_env \<Rightarrow> request_io \<Rightarrow> http_request \<Rightarrow> gateway_server \<Rightarrow> served \<times> gateway_server" where
  "serve_request env io req s =
    (if is_shutting_down (gs_shutdown s) then (Sent 503 (error_body ''Server shutting down'') [], s)
     else if hr_path req \<in> RATE_LIMIT_EXEMPT_PATHS then process_request env io req s
     else (case rl_allow (ri_rate_now io) (gs_rate_limiter s) of
         (True, rl) \<Rightarrow> process_request env io req (s\<lparr>gs_rate_limiter := rl\<rparr>)
       | (False, rl) \<Rightarrow> (Sent 429 (error_body ''Rate limit exceeded'') [], count_error (s\<lparr>gs_rate_limiter := rl\<rparr>))))"

definition serve_connection :: "server_env \<Rightarrow> request_io \<Rightarrow> client_stream \<Rightarrow> gateway_server \<Rightarrow> served \<times> gateway_server" where
  "serve_connection env io cx s =
    (case read_request (cg_max_payload_kb (gs_config s)) cx of
       Inl (Respond status msg) \<Rightarrow> (Sent status (error_body msg) [], s)
     | Inl Hangup \<Rightarrow> (Dropped, s)
     | Inr req \<Rightarrow> serve_request env io req s)"

text \<open>\<open>_graceful_shutdown\<close>: the shutdown with \<open>_flush_wal\<close> as its callback, which checkpoints the log.\<close>

definition graceful_shutdown :: "(nat \<Rightarrow> rat) \<Rightarrow> (nat \<Rightarrow> request_op list) \<Rightarrow> gateway_server \<Rightarrow>
    (shutdown_report \<times> gateway_server) option" where
  "graceful_shutdown clock between s =
     map_option (\<lambda>(report, sd). (report, s\<lparr>gs_shutdown := sd, gs_wal := wal_checkpoint (gs_wal s)\<rparr>))
       (execute_shutdown clock between (Some (\<lambda>_. True)) (gs_shutdown s))"

definition STATUS_MESSAGES :: "(int \<times> string) list" where
  "STATUS_MESSAGES = [(200, ''OK''), (400, ''Bad Request''), (404, ''Not Found''), (405, ''Method Not Allowed''),
     (413, ''Payload Too Large''), (414, ''URI Too Long''), (429, ''Too Many Requests''),
     (431, ''Request Header Fields Too Large''), (500, ''Internal Server Error''), (503, ''Service Unavailable''),
     (505, ''HTTP Version Not Supported'')]"

text \<open>The bytes of a response; \<open>None\<close> when its text cannot be encoded.\<close>

definition response_bytes :: "hash_env \<Rightarrow> int \<Rightarrow> response_body \<Rightarrow> headers \<Rightarrow> pybytes option" where
  "response_bytes he status body extra =
    (let (txt, kind) = (case body of
           TextBody t \<Rightarrow> (t, u ''text/plain; charset=utf-8'')
         | JsonBody d \<Rightarrow> (dumps (he_repr he) default_style (PDict d), u ''application/json''))
     in Option.bind (utf8_encode txt) (\<lambda>body_bytes.
        map_option (\<lambda>head. head @ body_bytes) (utf8_encode (join_with crlf
          ([u ''HTTP/1.1 '' @ show_int status @ [32] @ u (dget_or STATUS_MESSAGES status ''Unknown''),
            u ''Content-Type: '' @ kind, u ''Content-Length: '' @ show_nat (length body_bytes), u ''Connection: close''] @
           map (\<lambda>(k, v). k @ u '': '' @ v) extra) @ crlf @ crlf))))"

section \<open>What every request keeps\<close>

lemma count_error_fields [simp]:
  "gs_config (count_error s) = gs_config s" "gs_wal (count_error s) = gs_wal s"
  "gs_monitor (count_error s) = gs_monitor s" "gs_shutdown (count_error s) = gs_shutdown s"
  "gs_call_breaker (count_error s) = gs_call_breaker s" "gs_output_breaker (count_error s) = gs_output_breaker s"
  "me_active (gs_metrics (count_error s)) = me_active (gs_metrics s)" "gs_queue (count_error s) = gs_queue s"
  "gs_siem (count_error s) = gs_siem s" "gs_tracer (count_error s) = gs_tracer s" "gs_rate_limiter (count_error s) = gs_rate_limiter s"
  by (simp_all add: count_error_def inc_error_def)

lemma siem_fields [simp]:
  "gs_config (write_siem_event he io result tid sid s) = gs_config s"
  "gs_wal (write_siem_event he io result tid sid s) = gs_wal s"
  "gs_monitor (write_siem_event he io result tid sid s) = gs_monitor s"
  "gs_shutdown (write_siem_event he io result tid sid s) = gs_shutdown s"
  "gs_rate_limiter (write_siem_event he io result tid sid s) = gs_rate_limiter s"
  "gs_metrics (write_siem_event he io result tid sid s) = gs_metrics s"
  "gs_tracer (write_siem_event he io result tid sid s) = gs_tracer s"
  "gs_queue (write_siem_event he io result tid sid s) = gs_queue s"
  "gs_call_breaker (write_siem_event he io result tid sid s) = gs_call_breaker s"
  "gs_output_breaker (write_siem_event he io result tid sid s) = gs_output_breaker s"
  by (simp_all add: write_siem_event_def)

lemma alert_fields [simp]:
  "gs_config (send_alert io result s) = gs_config s"
  "gs_wal (send_alert io result s) = gs_wal s"
  "gs_monitor (send_alert io result s) = gs_monitor s"
  "gs_shutdown (send_alert io result s) = gs_shutdown s"
  "gs_rate_limiter (send_alert io result s) = gs_rate_limiter s"
  "gs_metrics (send_alert io result s) = gs_metrics s"
  "gs_tracer (send_alert io result s) = gs_tracer s"
  "gs_queue (send_alert io result s) = gs_queue s"
  "gs_call_breaker (send_alert io result s) = gs_call_breaker s"
  "gs_output_breaker (send_alert io result s) = gs_output_breaker s"
  by (simp_all add: send_alert_def)

definition same_books :: "gateway_server \<Rightarrow> gateway_server \<Rightarrow> bool" where
  "same_books s s' \<longleftrightarrow> gs_config s' = gs_config s \<and> gs_shutdown s' = gs_shutdown s \<and>
     gs_rate_limiter s' = gs_rate_limiter s \<and> me_active (gs_metrics s') = me_active (gs_metrics s) \<and>
     gs_tracer s' = gs_tracer s \<and> gs_queue s' = gs_queue s \<and>
     sm_shadow_mode (gs_monitor s') = sm_shadow_mode (gs_monitor s) \<and>
     sm_max_payload_kb (gs_monitor s') = sm_max_payload_kb (gs_monitor s)"

lemma same_books_refl [simp]: "same_books s s"
  by (simp add: same_books_def)

lemma count_error_books [simp]: "same_books s (count_error s)"
  by (simp add: same_books_def)

lemma log_result_params:
  "log_result env io ev tool_name res sm = (r, sm') \<Longrightarrow>
    sm_shadow_mode sm' = sm_shadow_mode sm \<and> sm_max_payload_kb sm' = sm_max_payload_kb sm"
  by (auto simp: log_result_def Let_def split: prod.splits)

lemma inspect_call_params:
  "monitor_inspect_call env io call_id call sm = (r, sm') \<Longrightarrow>
    sm_shadow_mode sm' = sm_shadow_mode sm \<and> sm_max_payload_kb sm' = sm_max_payload_kb sm"
  by (auto simp: monitor_inspect_call_def Let_def case_prod_unfold dest!: log_result_params)

lemma inspect_output_params:
  "monitor_inspect_output env io call_id tool_name out sm = (r, sm') \<Longrightarrow>
    sm_shadow_mode sm' = sm_shadow_mode sm \<and> sm_max_payload_kb sm' = sm_max_payload_kb sm"
  by (auto simp: monitor_inspect_output_def Let_def case_prod_unfold dest!: log_result_params)

text \<open>An action keeps the monitor's parameters.\<close>

definition keeps_params :: "(security_monitor, unit, pydict) action \<Rightarrow> bool" where
  "keeps_params f \<longleftrightarrow> (\<forall>sm. sm_shadow_mode (snd (f sm)) = sm_shadow_mode sm \<and>
     sm_max_payload_kb (snd (f sm)) = sm_max_payload_kb sm)"

lemma actions_keep_params:
  "keeps_params (call_action me io v)" "keeps_params (output_action me io tn out)"
  "keeps_params call_fallback" "keeps_params (output_fallback tn)"
proof -
  have m: "snd (monitor_answer me r) = snd r" for r
    by (simp add: monitor_answer_def split: prod.splits sum.splits)
  show "keeps_params (call_action me io v)"
    using inspect_call_params by (auto simp: keeps_params_def call_action_def m split: pyval.splits) (metis prod.collapse)+
  show "keeps_params (output_action me io tn out)"
    using inspect_output_params by (auto simp: keeps_params_def output_action_def m) (metis prod.collapse)+
qed (simp_all add: keeps_params_def call_fallback_def output_fallback_def)

text \<open>What a guarded call comes to: the fallback, or the function's result or exception.\<close>

lemma guarded_cases:
  assumes "guarded io f (\<lambda>w. (Inr fb, w)) cb sm = ((r, sm'), cb')"
  obtains (tripped) "fst (cb_read_state (fst (ri_looks io)) cb) = OPEN" "r = Inr fb" "sm' = sm"
  | (ran) x where "fst (cb_read_state (fst (ri_looks io)) cb) \<noteq> OPEN" "f sm = (Inr x, sm')" "r = Inr x"
  | (failed) e where "fst (cb_read_state (fst (ri_looks io)) cb) \<noteq> OPEN" "f sm = (Inl e, sm')"
      "r = Inr fb \<or> isl r"
proof -
  obtain now1 now2 now3 where l: "ri_looks io = (now1, now2, now3)" by (cases "ri_looks io")
  obtain st cb1 where st: "cb_read_state now1 cb = (st, cb1)" by fastforce
  obtain st' cb3 where st': "cb_read_state now3 (cb_on_failure now2 cb1) = (st', cb3)" by fastforce
  note g = assms [unfolded guarded_def l prod.case cb_call_def Let_def st]
  consider "st = OPEN" | x w where "st \<noteq> OPEN" "f sm = (Inr x, w)" | e w where "st \<noteq> OPEN" "f sm = (Inl e, w)"
    by (cases "f sm"; cases "fst (f sm)") auto
  then show thesis
  proof cases
    case 1
    with g l st tripped show thesis by (simp add: raises_as_def)
  next
    case 2
    with g l st ran show thesis by simp
  next
    case 3
    with g l st st' failed show thesis by (cases "st' = OPEN") (auto simp: raises_as_def)
  qed
qed

lemma guarded_params:
  assumes "keeps_params f" "guarded io f (\<lambda>w. (Inr fb, w)) cb sm = ((r, sm'), cb')"
  shows "sm_shadow_mode sm' = sm_shadow_mode sm \<and> sm_max_payload_kb sm' = sm_max_payload_kb sm"
  using assms(2)
proof (cases rule: guarded_cases)
  case (ran x)
  with assms(1) show ?thesis unfolding keeps_params_def by (metis snd_conv)
next
  case (failed e)
  with assms(1) show ?thesis unfolding keeps_params_def by (metis snd_conv)
qed simp

lemma fallbacks:
  "call_fallback = (\<lambda>w. (Inr (fail_closed_result @ [(u ''call_id'', PStr (u ''circuit-open''))]), w))"
  "output_fallback tn = (\<lambda>w. (Inr (fail_closed_result @ [(u ''tool_name'', tn)]), w))"
  by (simp_all add: call_fallback_def output_fallback_def fun_eq_iff)

lemma fallback_allowed: "dget (fail_closed_result @ xs) (u ''allowed'') = Some (PBool False)"
  by (simp add: fail_closed_result_def)

lemma final_allowed:
  "dget (with_trace tid sid (shadowed c result)) (u ''allowed'') =
     (if cg_shadow_mode c then Some (PBool True) else dget result (u ''allowed''))"
  by (simp add: with_trace_def shadowed_def)

lemma result_allowed: "dget (result_dict me res) (u ''allowed'') = Some (PBool (mr_allowed res))"
  by (simp add: result_dict_def)

section \<open>Inspections in the server\<close>

text \<open>What the detectors have to say for the body to be allowed.\<close>

definition approved :: "server_env \<Rightarrow> request_io \<Rightarrow> http_request \<Rightarrow> gateway_server \<Rightarrow> bool" where
  "approved env io req s \<longleftrightarrow>
    (case read_json_body (se_rl env) (hr_body req) of
       BodyValue (PDict d) \<Rightarrow>
         if effective_path (hr_path req) = u ''/v1/inspect_call''
         then fst (cb_read_state (fst (ri_looks io)) (gs_call_breaker s)) \<noteq> OPEN \<and>
           \<not> isl (fst (monitor_inspect_call (se_monitor env) (ri_append io) (ri_call_id io) d (gs_monitor s))) \<and>
           (call_clean (se_monitor env) d (gs_monitor s) \<or>
            sm_shadow_mode (gs_monitor s) \<and> detector_failed (se_monitor env) d (gs_monitor s))
         else fst (cb_read_state (fst (ri_looks io)) (gs_output_breaker s)) \<noteq> OPEN \<and>
           (case fst (monitor_inspect_output (se_monitor env) (ri_append io) (ri_call_id io)
               (dget_or d (u ''tool_name'') (PStr [])) (dget_or d (u ''output'') (PDict [])) (gs_monitor s)) of
              Inl e \<Rightarrow> False
            | Inr res \<Rightarrow> mr_allowed res)
     | _ \<Rightarrow> False)"

lemma approved_cong:
  assumes "gs_monitor s' = gs_monitor s" "gs_call_breaker s' = gs_call_breaker s" "gs_output_breaker s' = gs_output_breaker s"
  shows "approved env io req s' = approved env io req s"
  unfolding approved_def assms ..

lemma handle_call_cases:
  assumes "handle_inspect_call env io (hr_body req) tid sid s = (r, s')"
  shows "gs_wal s' = gs_wal s \<and> same_books s s' \<and>
    (\<forall>body. effective_path (hr_path req) = u ''/v1/inspect_call'' \<longrightarrow> r = Inr (200, JsonBody body) \<longrightarrow>
      dget body (u ''allowed'') = Some (PBool (cg_shadow_mode (gs_config s) \<or> approved env io req s)))"
proof (cases "read_json_body (se_rl env) (hr_body req)")
  case (BodyValue v)
  let ?f = "call_action (se_monitor env) io v"
  obtain r1 sm cb where g: "guarded io ?f call_fallback (gs_call_breaker s) (gs_monitor s) = ((r1, sm), cb)"
    by (metis prod.collapse)
  note params = guarded_params [OF actions_keep_params(1) g [unfolded fallbacks(1)]]
  have keeps: "gs_wal s' = gs_wal s \<and> same_books s s'"
    using assms BodyValue g params
    by (auto simp: handle_inspect_call_def Let_def same_books_def split: sum.splits)
  have "dget body (u ''allowed'') = Some (PBool (cg_shadow_mode (gs_config s) \<or> approved env io req s))"
    if path: "effective_path (hr_path req) = u ''/v1/inspect_call''" and r: "r = Inr (200, JsonBody body)" for body
  proof -
    from assms BodyValue g r obtain result where
      result: "r1 = Inr result" "body = with_trace tid sid (shadowed (gs_config s) result)"
      by (auto simp: handle_inspect_call_def Let_def split: sum.splits)
    have "dget result (u ''allowed'') = Some (PBool (approved env io req s))"
      using g [unfolded fallbacks(1)]
    proof (cases rule: guarded_cases)
      case tripped
      then have "dget result (u ''allowed'') = Some (PBool False)" using result(1) fallback_allowed by auto
      with tripped BodyValue path show ?thesis by (simp add: approved_def split: pyval.splits)
    next
      case (ran x)
      then obtain d where d: "v = PDict d" by (auto simp: call_action_def split: pyval.splits)
      with ran obtain res where m: "monitor_inspect_call (se_monitor env) (ri_append io) (ri_call_id io) d (gs_monitor s)
          = (Inr res, sm)" "x = result_dict (se_monitor env) res"
        by (auto simp: call_action_def monitor_answer_def split: prod.splits sum.splits)
      from monitor_allows_core [OF m(1)] ran result BodyValue path d m show ?thesis
        by (simp add: approved_def result_allowed)
    next
      case (failed e)
      with result have "result = fail_closed_result @ [(u ''call_id'', PStr (u ''circuit-open''))]" by auto
      moreover have "\<not> approved env io req s"
        using failed BodyValue path
        by (auto simp: approved_def call_action_def monitor_answer_def split: pyval.splits prod.splits sum.splits)
      ultimately show ?thesis by (simp add: fallback_allowed)
    qed
    then show ?thesis by (simp add: result(2) final_allowed)
  qed
  with keeps show ?thesis by blast
qed (use assms in \<open>auto simp: handle_inspect_call_def\<close>)

lemma handle_output_cases:
  assumes "handle_inspect_output env io (hr_body req) tid sid s = (r, s')"
  shows "gs_wal s' = gs_wal s \<and> same_books s s' \<and>
    (\<forall>body. effective_path (hr_path req) \<noteq> u ''/v1/inspect_call'' \<longrightarrow> r = Inr (200, JsonBody body) \<longrightarrow>
      dget body (u ''allowed'') = Some (PBool (cg_shadow_mode (gs_config s) \<or> approved env io req s)))"
proof (cases "\<exists>d. read_json_body (se_rl env) (hr_body req) = BodyValue (PDict d)")
  case True
  then obtain d where v: "read_json_body (se_rl env) (hr_body req) = BodyValue (PDict d)" by blast
  let ?tn = "dget_or d (u ''tool_name'') (PStr [])" and ?out = "dget_or d (u ''output'') (PDict [])"
  let ?f = "output_action (se_monitor env) io ?tn ?out"
  obtain r1 sm cb where g: "guarded io ?f (output_fallback ?tn) (gs_output_breaker s) (gs_monitor s) = ((r1, sm), cb)"
    by (metis prod.collapse)
  note params = guarded_params [OF actions_keep_params(2) g [unfolded fallbacks(2)]]
  have keeps: "gs_wal s' = gs_wal s \<and> same_books s s'"
    using assms v g params
    by (auto simp: handle_inspect_output_def Let_def same_books_def split: sum.splits)
  have "dget body (u ''allowed'') = Some (PBool (cg_shadow_mode (gs_config s) \<or> approved env io req s))"
    if path: "effective_path (hr_path req) \<noteq> u ''/v1/inspect_call''" and r: "r = Inr (200, JsonBody body)" for body
  proof -
    from assms v g r obtain result where
      result: "r1 = Inr result" "body = with_trace tid sid (shadowed (gs_config s) result)"
      by (auto simp: handle_inspect_output_def Let_def split: sum.splits)
    have "dget result (u ''allowed'') = Some (PBool (approved env io req s))"
      using g [unfolded fallbacks(2)]
    proof (cases rule: guarded_cases)
      case tripped
      then have "dget result (u ''allowed'') = Some (PBool False)" using result(1) fallback_allowed by auto
      with tripped v path show ?thesis by (simp add: approved_def)
    next
      case (ran x)
      then obtain res where "monitor_inspect_output (se_monitor env) (ri_append io) (ri_call_id io) ?tn ?out (gs_monitor s)
          = (Inr res, sm)" "x = result_dict (se_monitor env) res"
        by (auto simp: output_action_def monitor_answer_def split: prod.splits sum.splits)
      with ran result v path show ?thesis by (simp add: approved_def result_allowed)
    next
      case (failed e)
      with result have "result = fail_closed_result @ [(u ''tool_name'', ?tn)]" by auto
      moreover have "\<not> approved env io req s"
        using failed v path
        by (auto simp: approved_def output_action_def monitor_answer_def split: prod.splits sum.splits)
      ultimately show ?thesis by (simp add: fallback_allowed)
    qed
    then show ?thesis by (simp add: result(2) final_allowed)
  qed
  with keeps show ?thesis by blast
next
  case False
  with assms show ?thesis by (auto simp: handle_inspect_output_def split: body_read.splits pyval.splits)
qed

section \<open>Authorised and recorded\<close>

definition may_inspect :: "service_config \<Rightarrow> headers \<Rightarrow> bool" where
  "may_inspect c hs \<longleftrightarrow> cg_allow_anonymous c \<or> (\<exists>key \<in> set (cg_api_keys c). key \<noteq> [] \<and> dget hs (u ''x-api-key'') = Some key)"

lemma match_keys_Some: "match_keys supplied keys = Inr (Some k) \<Longrightarrow> k = supplied \<and> supplied \<in> set keys"
  by (induction keys) (auto simp: compare_digest_def split: if_splits)

lemma authorize_cases:
  assumes "authorize hs s = (r, s1)"
  obtains (granted) "r = Inr None" "s1 = s" "may_inspect (gs_config s) hs"
  | (refused) status msg where "r = Inr (Some (status, error_body msg))" "s1 = count_error s" "status \<noteq> 200"
  | (raised) "isl r" "s1 = s"
proof -
  have "\<exists>key \<in> set (cg_api_keys (gs_config s)). key \<noteq> [] \<and> dget hs (u ''x-api-key'') = Some key"
    if "match_api_key hs (gs_config s) = Inr (Some k)" for k
    using that by (auto simp: match_api_key_def Let_def dget_or_def dest!: match_keys_Some split: if_splits option.splits)
  with assms granted refused raised show thesis
    by (fastforce simp: authorize_def may_inspect_def split: if_splits sum.splits option.splits)
qed

text \<open>The record that stands in the write-ahead log before the body is looked at.\<close>

definition wal_recorded :: "server_env \<Rightarrow> request_io \<Rightarrow> http_request \<Rightarrow> wal \<Rightarrow> wal \<Rightarrow> bool" where
  "wal_recorded env io req w w' \<longleftrightarrow> (\<exists>tid sid h. w' = wal_write (se_hash env)
     ((wal_event (se_hash env) io (effective_path (hr_path req)) (hr_body req) tid sid)\<lparr>ae_entry_hash := PStr h\<rparr>) w)"

text \<open>A request that leaves the monitor and the log alone, and does not answer with a verdict.\<close>

definition answer_verdict :: "(unit + answer) \<Rightarrow> pydict option" where
  "answer_verdict r = (case r of
     Inr (status, JsonBody body) \<Rightarrow> if status = 200 \<and> has_key body (u ''allowed'') then Some body else None
   | _ \<Rightarrow> None)"

lemma error_no_verdict [simp]: "answer_verdict (Inr (status, error_body msg)) = None"
  by (simp add: answer_verdict_def error_body_def has_key_def)

lemma no_verdict [simp]: "answer_verdict (Inl e) = None"
  by (simp add: answer_verdict_def)

lemma inspect_request_cases:
  assumes "inspect_request env io req tid sid s = (r, s')"
  shows "same_books s s' \<and>
    (gs_monitor s' \<noteq> gs_monitor s \<or> answer_verdict r \<noteq> None \<longrightarrow> wal_recorded env io req (gs_wal s) (gs_wal s')) \<and>
    (\<forall>body. answer_verdict r = Some body \<longrightarrow>
      dget body (u ''allowed'') = Some (PBool (cg_shadow_mode (gs_config s) \<or> approved env io req s)))"
proof -
  let ?path = "effective_path (hr_path req)"
  obtain w s1 where w: "record_wal_event (se_hash env) io ?path (hr_body req) tid sid s = (w, s1)" by fastforce
  have s1: "same_books s s1" "gs_monitor s1 = gs_monitor s" "gs_call_breaker s1 = gs_call_breaker s"
    "gs_output_breaker s1 = gs_output_breaker s"
    using w by (auto simp: record_wal_event_def Let_def same_books_def split: sum.splits option.splits)
  show ?thesis
  proof (cases w)
    case (Inl e)
    with assms w have "r = Inl e" "s' = s1" by (simp_all add: inspect_request_def)
    with s1 show ?thesis by simp
  next
    case (Inr x)
    then obtain h where "gs_wal s1 = wal_write (se_hash env)
        ((wal_event (se_hash env) io ?path (hr_body req) tid sid)\<lparr>ae_entry_hash := PStr h\<rparr>) (gs_wal s)"
      using w by (auto simp: record_wal_event_def Let_def split: sum.splits option.splits)
    then have rec: "wal_recorded env io req (gs_wal s) (gs_wal s1)"
      unfolding wal_recorded_def by (rule_tac exI [of _ tid], rule_tac exI [of _ sid], rule_tac exI [of _ h])
    have app: "approved env io req s1 = approved env io req s"
      using s1(2-4) by (rule approved_cong)
    have h: "(if ?path = u ''/v1/inspect_call'' then handle_inspect_call env io (hr_body req) tid sid s1
        else handle_inspect_output env io (hr_body req) tid sid s1) = (r, s')"
      using assms w Inr by (simp add: inspect_request_def)
    have "gs_wal s' = gs_wal s1 \<and> same_books s1 s' \<and> (\<forall>body. r = Inr (200, JsonBody body) \<longrightarrow>
        dget body (u ''allowed'') = Some (PBool (cg_shadow_mode (gs_config s1) \<or> approved env io req s1)))"
      using h handle_call_cases [of env io req tid sid s1 r s'] handle_output_cases [of env io req tid sid s1 r s']
      by (auto split: if_splits)
    with rec s1 app show ?thesis
      by (auto simp: same_books_def answer_verdict_def split: sum.splits prod.splits response_body.splits if_splits)
  qed
qed

lemma route_cases:
  assumes "route env io req tid sid s = (r, s')"
  shows "same_books s s' \<and>
    (gs_monitor s' \<noteq> gs_monitor s \<or> answer_verdict r \<noteq> None \<longrightarrow>
       is_inspection req \<and> may_inspect (gs_config s) (hr_headers req) \<and> wal_recorded env io req (gs_wal s) (gs_wal s')) \<and>
    (\<forall>body. answer_verdict r = Some body \<longrightarrow>
      dget body (u ''allowed'') = Some (PBool (cg_shadow_mode (gs_config s) \<or> approved env io req s)))"
proof -
  let ?get = "\<lambda>p. hr_method req = u ''GET'' \<and> hr_path req = u p"
  consider "?get ''/v1/health''" | "\<not> ?get ''/v1/health''" "?get ''/v1/ready''"
    | "\<not> ?get ''/v1/health''" "\<not> ?get ''/v1/ready''" "?get ''/v1/metrics''"
    | "\<not> ?get ''/v1/health''" "\<not> ?get ''/v1/ready''" "\<not> ?get ''/v1/metrics''" "is_inspection req"
    | "\<not> ?get ''/v1/health''" "\<not> ?get ''/v1/ready''" "\<not> ?get ''/v1/metrics''" "\<not> is_inspection req"
    by blast
  then show ?thesis
  proof cases
    case 1
    with assms show ?thesis by (auto simp: route_def handle_health_def answer_verdict_def has_key_def)
  next
    case 2
    with assms show ?thesis
      by (auto simp: route_def handle_ready_def not_ready_def answer_verdict_def has_key_def split: if_splits)
  next
    case 3
    then have "authorized (hr_headers req) (\<lambda>s1. let (a, s2) = handle_metrics env io s1 in (Inr a, s2)) s = (r, s')"
      using assms unfolding route_def by (simp only: if_False if_True simp_thms)
    then show ?thesis
      by (auto simp: authorized_def handle_metrics_def answer_verdict_def same_books_def set_circuit_state_def Let_def
          error_body_def has_key_def split: prod.splits sum.splits option.splits if_splits elim!: authorize_cases)
  next
    case 4
    then have a: "authorized (hr_headers req) (inspect_request env io req tid sid) s = (r, s')"
      using assms unfolding route_def by (simp only: if_False if_True simp_thms)
    obtain q s1 where q: "authorize (hr_headers req) s = (q, s1)" by fastforce
    from q show ?thesis
    proof (cases rule: authorize_cases)
      case granted
      with a q have "inspect_request env io req tid sid s = (r, s')" by (simp add: authorized_def)
      from inspect_request_cases [OF this] granted 4 show ?thesis by blast
    next
      case (refused status msg)
      with a q have "r = Inr (status, error_body msg)" "s' = count_error s" by (auto simp: authorized_def)
      then show ?thesis by simp
    next
      case raised
      with a q have "isl r" "s' = s" by (auto simp: authorized_def split: sum.splits)
      then show ?thesis by (cases r) simp_all
    qed
  next
    case 5
    then have "r = Inr (404, error_body ''Not found'')" "s' = s"
      using assms unfolding route_def by (simp_all only: if_False simp_thms prod.inject)
    then show ?thesis by simp
  qed
qed

lemma opened_fields:
  assumes "opened io req s = ((tid, a), s1)"
  shows "gs_config s1 = gs_config s" "gs_monitor s1 = gs_monitor s" "gs_wal s1 = gs_wal s"
    "gs_call_breaker s1 = gs_call_breaker s" "gs_output_breaker s1 = gs_output_breaker s"
    "gs_shutdown s1 = request_started (gs_shutdown s)" "me_active (gs_metrics s1) = me_active (gs_metrics s) + 1"
    "gs_rate_limiter s1 = gs_rate_limiter s" "gs_queue s1 = gs_queue s"
    "a = length (tc_store (gs_tracer s))" "length (tc_spans (gs_tracer s1)) \<le> tc_max_spans (gs_tracer s)"
    "tc_max_spans (gs_tracer s1) = tc_max_spans (gs_tracer s)"
  using assms
  by (auto simp: opened_def Let_def inc_request_def inc_active_def start_span_def split: prod.splits)

lemma update_span_fields [simp]:
  "tc_spans (update_span a f t) = tc_spans t" "tc_max_spans (update_span a f t) = tc_max_spans t"
  by (simp_all add: update_span_def)

lemma settled_fields:
  assumes "settled a (r, s) = ((status, body), s')"
  shows "gs_config s' = gs_config s" "gs_monitor s' = gs_monitor s" "gs_wal s' = gs_wal s"
    "gs_shutdown s' = gs_shutdown s" "me_active (gs_metrics s') = me_active (gs_metrics s)"
    "gs_rate_limiter s' = gs_rate_limiter s" "gs_queue s' = gs_queue s"
    "tc_spans (gs_tracer s') = tc_spans (gs_tracer s)" "tc_max_spans (gs_tracer s') = tc_max_spans (gs_tracer s)"
    "(if isl r then (status, body) = (500, error_body ''Internal server error'') else r = Inr (status, body))"
  using assms by (auto simp: settled_def Let_def split: sum.splits prod.splits if_splits)

lemma finish_fields:
  "gs_config (finish_request io a s) = gs_config s" "gs_monitor (finish_request io a s) = gs_monitor s"
  "gs_wal (finish_request io a s) = gs_wal s" "gs_shutdown (finish_request io a s) = request_finished (gs_shutdown s)"
  "me_active (gs_metrics (finish_request io a s)) = me_active (gs_metrics s) - 1"
  "gs_rate_limiter (finish_request io a s) = gs_rate_limiter s" "gs_queue (finish_request io a s) = gs_queue s"
  "tc_spans (gs_tracer (finish_request io a s)) = tc_spans (gs_tracer s)"
  "tc_max_spans (gs_tracer (finish_request io a s)) = tc_max_spans (gs_tracer s)"
  by (simp_all add: finish_request_def dec_active_def observe_duration_def end_span_def)

lemma identity_event_fields [simp]:
  "gs_config (write_identity_event env io req key status eid s) = gs_config s"
  "gs_wal (write_identity_event env io req key status eid s) = gs_wal s"
  "gs_monitor (write_identity_event env io req key status eid s) = gs_monitor s"
  "gs_shutdown (write_identity_event env io req key status eid s) = gs_shutdown s"
  "gs_rate_limiter (write_identity_event env io req key status eid s) = gs_rate_limiter s"
  "gs_metrics (write_identity_event env io req key status eid s) = gs_metrics s"
  "gs_tracer (write_identity_event env io req key status eid s) = gs_tracer s"
  by (simp_all add: write_identity_event_def split: sum.splits)

lemma telemetry_fields:
  "identity_telemetry env io req status s = Inr s' \<Longrightarrow> s' = s \<or> (\<exists>key eid. s' = write_identity_event env io req key status eid s)"
  by (auto simp: identity_telemetry_def split: if_splits option.splits)

lemma active_balanced: "request_finished (request_started sd) = sd"
  by (simp add: request_finished_def request_started_def)

text \<open>The verdict in what the client receives.\<close>

definition sent_verdict :: "served \<Rightarrow> pydict option" where
  "sent_verdict out = (case out of
     Sent status (JsonBody body) hs \<Rightarrow> if status = 200 \<and> has_key body (u ''allowed'') then Some body else None
   | _ \<Rightarrow> None)"

lemma process_request_cases:
  assumes "process_request env io req s = (out, s')"
  shows "gs_config s' = gs_config s \<and> gs_shutdown s' = gs_shutdown s \<and> gs_rate_limiter s' = gs_rate_limiter s \<and>
    me_active (gs_metrics s') = me_active (gs_metrics s) \<and>
    sm_shadow_mode (gs_monitor s') = sm_shadow_mode (gs_monitor s) \<and>
    tc_max_spans (gs_tracer s') = tc_max_spans (gs_tracer s) \<and>
    length (tc_spans (gs_tracer s')) \<le> tc_max_spans (gs_tracer s) \<and>
    (gs_monitor s' \<noteq> gs_monitor s \<or> sent_verdict out \<noteq> None \<longrightarrow>
       is_inspection req \<and> may_inspect (gs_config s) (hr_headers req) \<and> wal_recorded env io req (gs_wal s) (gs_wal s')) \<and>
    (\<forall>body. sent_verdict out = Some body \<longrightarrow>
      dget body (u ''allowed'') = Some (PBool (cg_shadow_mode (gs_config s) \<or> approved env io req s)))"
proof -
  obtain tid a s1 where o: "opened io req s = ((tid, a), s1)" by (metis prod.collapse)
  note of = opened_fields [OF o]
  let ?sid = "hex_of (ri_span_random io)"
  obtain r s2 where r: "route env io req tid ?sid s1 = (r, s2)" by fastforce
  obtain status body s3 where t: "settled a (r, s2) = ((status, body), s3)" by (metis prod.collapse)
  note tf = settled_fields [OF t]
  note rc = route_cases [OF r]
  have app: "approved env io req s1 = approved env io req s"
    using of(2,4,5) by (rule approved_cong)
  have out: "gs_config s' = gs_config s3 \<and> gs_shutdown s' = request_finished (gs_shutdown s3) \<and>
      gs_rate_limiter s' = gs_rate_limiter s3 \<and> me_active (gs_metrics s') = me_active (gs_metrics s3) - 1 \<and>
      gs_monitor s' = gs_monitor s3 \<and> gs_wal s' = gs_wal s3 \<and> tc_spans (gs_tracer s') = tc_spans (gs_tracer s3) \<and>
      tc_max_spans (gs_tracer s') = tc_max_spans (gs_tracer s3) \<and>
      (out = Dropped \<or> (\<exists>hs. out = Sent status body hs))"
    using assms o r t finish_fields [of io a s3]
    by (auto simp: process_request_def Let_def split: sum.splits dest!: telemetry_fields)
  have v: "sent_verdict out = Some b \<Longrightarrow> answer_verdict r = Some b" for b
    using out tf(10) by (cases r) (auto simp: sent_verdict_def answer_verdict_def error_body_def split: response_body.splits if_splits)
  show ?thesis
    using out of tf rc v app active_balanced by (auto simp: same_books_def)
qed

lemma serve_request_cases:
  assumes "serve_request env io req s = (out, s')"
  shows "gs_config s' = gs_config s \<and> gs_shutdown s' = gs_shutdown s \<and>
    me_active (gs_metrics s') = me_active (gs_metrics s) \<and>
    sm_shadow_mode (gs_monitor s') = sm_shadow_mode (gs_monitor s) \<and>
    tc_max_spans (gs_tracer s') = tc_max_spans (gs_tracer s) \<and>
    (length (tc_spans (gs_tracer s)) \<le> tc_max_spans (gs_tracer s) \<longrightarrow>
       length (tc_spans (gs_tracer s')) \<le> tc_max_spans (gs_tracer s)) \<and>
    (gs_monitor s' \<noteq> gs_monitor s \<or> sent_verdict out \<noteq> None \<longrightarrow> \<not> is_shutting_down (gs_shutdown s) \<and>
       is_inspection req \<and> may_inspect (gs_config s) (hr_headers req) \<and> wal_recorded env io req (gs_wal s) (gs_wal s')) \<and>
    (\<forall>body. sent_verdict out = Some body \<longrightarrow>
      dget body (u ''allowed'') = Some (PBool (cg_shadow_mode (gs_config s) \<or> approved env io req s)))"
proof -
  have rl: "approved env io req (s\<lparr>gs_rate_limiter := l\<rparr>) = approved env io req s" for l
    by (rule approved_cong) simp_all
  have e: "sent_verdict (Sent status (error_body msg) hs) = None" for status msg hs
    by (simp add: sent_verdict_def error_body_def has_key_def)
  consider "is_shutting_down (gs_shutdown s)"
    | "\<not> is_shutting_down (gs_shutdown s)" "process_request env io req s = (out, s')"
    | l where "\<not> is_shutting_down (gs_shutdown s)" "process_request env io req (s\<lparr>gs_rate_limiter := l\<rparr>) = (out, s')"
    | l where "out = Sent 429 (error_body ''Rate limit exceeded'') []" "s' = count_error (s\<lparr>gs_rate_limiter := l\<rparr>)"
    using assms by (auto simp: serve_request_def split: if_splits prod.splits bool.splits)
  then show ?thesis
  proof cases
    case 1
    with assms e show ?thesis by (auto simp: serve_request_def)
  next
    case 2
    from process_request_cases [OF 2(2)] 2(1) show ?thesis by blast
  next
    case 3
    from process_request_cases [OF 3(2)] 3(1) rl show ?thesis by simp
  next
    case 4
    with e show ?thesis by simp
  qed
qed

lemma serve_connection_cases:
  assumes "serve_connection env io cx s = (out, s')"
  obtains (request) req where "read_request (cg_max_payload_kb (gs_config s)) cx = Inr req" "serve_request env io req s = (out, s')"
  | (refused) "s' = s" "sent_verdict out = None"
proof (cases "read_request (cg_max_payload_kb (gs_config s)) cx")
  case (Inl e)
  with assms refused show thesis
    by (cases e) (auto simp: serve_connection_def sent_verdict_def error_body_def has_key_def)
next
  case (Inr req)
  with assms request show thesis by (simp add: serve_connection_def)
qed

text \<open>
  C1: No inspection without authority and record, and no verdict but the detectors'. When a connection changes
  the monitor, or is answered with a verdict, it carried a well-framed POST to an inspection endpoint, the
  server was not shutting down, access was open to anybody or the request had a configured key, and the
  write-ahead log was appended the record of this very request; and a verdict allows exactly when the
  deployment only observes, or the circuit was closed and the detectors approved the body.
\<close>

theorem verdicts_are_guarded:
  assumes "serve_connection env io cx s = (out, s')" "gs_monitor s' \<noteq> gs_monitor s \<or> sent_verdict out \<noteq> None"
  shows "\<exists>req. read_request (cg_max_payload_kb (gs_config s)) cx = Inr req \<and> is_inspection req \<and>
    \<not> is_shutting_down (gs_shutdown s) \<and> may_inspect (gs_config s) (hr_headers req) \<and>
    wal_recorded env io req (gs_wal s) (gs_wal s') \<and>
    (\<forall>body. sent_verdict out = Some body \<longrightarrow>
      dget body (u ''allowed'') = Some (PBool (cg_shadow_mode (gs_config s) \<or> approved env io req s)))"
  using assms(1)
proof (cases rule: serve_connection_cases)
  case (request req)
  from serve_request_cases [OF request(2)] request(1) assms(2) show ?thesis by blast
next
  case refused
  with assms(2) show ?thesis by simp
qed

section \<open>A run of the server\<close>

fun serve_all :: "server_env \<Rightarrow> (request_io \<times> client_stream) list \<Rightarrow> gateway_server \<Rightarrow> served list \<times> gateway_server" where
  "serve_all env [] s = ([], s)"
| "serve_all env ((io, cx) # rest) s =
    (let (out, s1) = serve_connection env io cx s; (outs, s2) = serve_all env rest s1 in (out # outs, s2))"

definition settled_server :: "service_config \<Rightarrow> gateway_server \<Rightarrow> bool" where
  "settled_server c s \<longleftrightarrow> gs_config s = c \<and> sd_active_requests (gs_shutdown s) = 0 \<and> \<not> is_shutting_down (gs_shutdown s) \<and>
     sd_drain_timeout (gs_shutdown s) = 30 \<and> me_active (gs_metrics s) = 0 \<and> \<not> sm_shadow_mode (gs_monitor s) \<and>
     tc_max_spans (gs_tracer s) = 10000 \<and> length (tc_spans (gs_tracer s)) \<le> 10000"

lemma connection_settled:
  assumes "serve_connection env io cx s = (out, s')" "settled_server c s"
  shows "settled_server c s'"
  using assms(1)
proof (cases rule: serve_connection_cases)
  case (request req)
  from serve_request_cases [OF request(2)] assms(2) show ?thesis by (auto simp: settled_server_def)
qed (use assms(2) in simp)

lemma serve_all_settled: "settled_server c s \<Longrightarrow> settled_server c (snd (serve_all env conns s))"
proof (induction conns arbitrary: s)
  case (Cons conn rest)
  obtain io cx where conn: "conn = (io, cx)" by fastforce
  obtain out s1 where s1: "serve_connection env io cx s = (out, s1)" by fastforce
  have "snd (serve_all env (conn # rest) s) = snd (serve_all env rest s1)"
    by (simp add: conn s1 case_prod_unfold Let_def)
  with Cons.IH [OF connection_settled [OF s1 Cons.prems]] show ?case by simp
qed simp

text \<open>
  C38: What holds of a server at every moment between requests, whatever its clients send and whatever fails:
  the configuration it started with, no request counted as in flight in the gauge or in the shutdown's
  counter (so a shutdown then drains at its first look and checkpoints the log), a monitor that enforces, and at most ten thousand
  spans in memory.
\<close>

theorem server_settles:
  assumes "make_server c now w audit = Some s" "serve_all env conns s = (outs, s')"
    and "clock 1 < clock 0 + 30" "between 0 = []"
  shows "settled_server c s' \<and>
    (\<exists>s''. graceful_shutdown clock between s' =
      Some (\<lparr>sp_drained = True, sp_callback_called = True, sp_callback_failed = False\<rparr>, s'') \<and>
      is_shutting_down (gs_shutdown s'') \<and> gs_wal s'' = wal_checkpoint (gs_wal s'))"
proof -
  have "settled_server c s"
    using assms(1)
    by (auto simp: make_server_def settled_server_def make_shutdown_def is_shutting_down_def make_metrics_def
        make_security_monitor_def make_tracer_def split: pyfloat.splits)
  with serve_all_settled [of c s env conns] assms(2) have s': "settled_server c s'" by simp
  then have "wait_for_drain clock (seen_at between (initiate_shutdown (gs_shutdown s'))) (initiate_shutdown (gs_shutdown s')) = Some True"
    using assms(3,4)
    by (subst wait_for_drain_def, subst wait_loop.simps)
       (simp add: settled_server_def initiate_shutdown_def seen_at_def run_requests_def)
  with s' show ?thesis
    by (simp add: graceful_shutdown_def execute_shutdown_def Let_def is_shutting_down_def initiate_shutdown_def)
qed

section \<open>A served inspection\<close>

definition sample_server_env :: server_env where
  "sample_server_env = \<lparr>se_monitor = sample_monitor_env, se_rl = 9, se_iso8601 = (\<lambda>t. u ''T''),
     se_tempdir = u ''/tmp'', se_writable = (\<lambda>p. True)\<rparr>"

definition sample_io :: request_io where
  "sample_io = \<lparr>ri_peer = u ''192.0.2.1'', ri_rate_now = 1, ri_start = 1, ri_end = 2, ri_wall_start = 1,
     ri_span_start = 1, ri_span_end = 2, ri_trace_random = replicate 16 7, ri_span_random = replicate 8 9,
     ri_event_id = u ''e'', ri_wal_time = 1 / 2, ri_wal_torn = None, ri_call_id = u ''c'',
     ri_append = (u ''id'', 1 / 2, None), ri_looks = (1, 1, 1), ri_alert_now = 1, ri_time_text = u ''now'',
     ri_siem_fails = False, ri_queue_fails = False\<rparr>"

definition keyed_config :: service_config where
  "keyed_config = projr (make_config [(u ''MCP_API_KEY'', u ''k''), (u ''MCP_ALLOWED_SERVERS'', u ''a'')])"

definition sample_server :: gateway_server where
  "sample_server = the (make_server keyed_config 0 (wal_open None) empty_log)"

definition post :: "string \<Rightarrow> string \<Rightarrow> string \<Rightarrow> client_stream" where
  "post path key body = \<lparr>cx_bytes = u ''POST '' @ u path @ u '' HTTP/1.1'' @ crlf @
     u ''X-API-Key: '' @ u key @ crlf @ u ''Content-Length: '' @ show_nat (length body) @ crlf @ crlf @ u body,
     cx_stalls = False\<rparr>"

lemma served_sample:
  "sent_verdict (fst (serve_connection sample_server_env sample_io (post ''/api/scan'' ''k'' ''{}'') sample_server)) \<noteq> None"
  by code_simp

lemma verdicts_are_guarded_witness:
  "\<exists>req. read_request (cg_max_payload_kb (gs_config sample_server)) (post ''/api/scan'' ''k'' ''{}'') = Inr req \<and>
     is_inspection req \<and> may_inspect (gs_config sample_server) (hr_headers req)"
proof -
  obtain out s' where s: "serve_connection sample_server_env sample_io (post ''/api/scan'' ''k'' ''{}'') sample_server = (out, s')"
    by fastforce
  with served_sample have "gs_monitor s' \<noteq> gs_monitor sample_server \<or> sent_verdict out \<noteq> None" by simp
  from verdicts_are_guarded [OF s this] show ?thesis by blast
qed

lemma server_settles_witness:
  "\<exists>s outs s'. make_server keyed_config 0 (wal_open None) empty_log = Some s \<and>
     serve_all sample_server_env [(sample_io, post ''/api/scan'' ''k'' ''{}'')] s = (outs, s') \<and> settled_server keyed_config s'"
proof -
  have "make_server keyed_config 0 (wal_open None) empty_log \<noteq> None" by code_simp
  then obtain s where s: "make_server keyed_config 0 (wal_open None) empty_log = Some s" by blast
  obtain outs s' where r: "serve_all sample_server_env [(sample_io, post ''/api/scan'' ''k'' ''{}'')] s = (outs, s')"
    by fastforce
  from server_settles [OF s r, of of_nat "\<lambda>i. []"] s r show ?thesis by auto
qed

section \<open>Gaps\<close>

text \<open>A refused request is counted as two errors: by \<open>_authorize\<close> and by the caller of \<open>_route\<close>.\<close>

lemma refusal_counted_twice:
  "me_error_total (gs_metrics (snd (serve_connection sample_server_env sample_io
     (post ''/api/scan'' ''x'' ''{}'') sample_server))) = 2"
  by code_simp

text \<open>A JSON body that is no object makes \<open>inspect_call\<close> raise, which counts as a failure of the monitor:
  as many of them as the threshold open the circuit for everybody.\<close>

lemma cb_read_count: "cb_failure_count (snd (cb_read_state now cb)) = cb_failure_count cb"
  by (simp add: cb_read_state_def)

lemma list_body_is_a_failure:
  assumes "read_json_body (se_rl env) body = BodyValue (PList vs)"
    and "fst (cb_read_state (fst (ri_looks io)) (gs_call_breaker s)) \<noteq> OPEN"
  shows "cb_failure_count (gs_call_breaker (snd (handle_inspect_call env io body tid sid s))) =
    cb_failure_count (gs_call_breaker s) + 1"
proof -
  obtain now1 now2 now3 where l: "ri_looks io = (now1, now2, now3)" by (cases "ri_looks io")
  obtain st cb1 where st: "cb_read_state now1 (gs_call_breaker s) = (st, cb1)" by fastforce
  obtain st' cb3 where st': "cb_read_state now3 (cb_on_failure now2 cb1) = (st', cb3)" by fastforce
  have "cb_failure_count cb3 = cb_failure_count (gs_call_breaker s) + 1"
    using cb_read_count [of now1 "gs_call_breaker s"] cb_read_count [of now3 "cb_on_failure now2 cb1"] st st'
    by (simp add: cb_on_failure_def Let_def split: if_splits)
  then show ?thesis
    using assms l st st'
    by (cases "st' = OPEN") (simp_all add: handle_inspect_call_def guarded_def cb_call_def call_action_def
        call_fallback_def raises_as_def Let_def)
qed

text \<open>A configured key that is not ASCII makes the comparison raise for the keys behind it.\<close>

lemma key_behind_non_ascii_raises: "match_keys (u ''k'') [[233], u ''k''] = Inl ()"
  by code_simp

end
