(* ===== verification/RealtimeRules.thy ===== *)
theory RealtimeRules
  imports InlineProxy
begin

text \<open>
  The proxy rules of \<open>server/realtime.py\<close> (\<open>_build_defense\<close>): their patterns, their conditions on a
  call, and the fourteen rules. \<open>st\<close> is \<open>str\<close> on values that are no strings. A condition raises when the
  arguments are no object and it asks for one of them.
\<close>

section \<open>Texts in the arguments\<close>

fun all_string_values :: "pyval \<Rightarrow> pystr list" where
  "all_string_values (PStr s) = [s]"
| "all_string_values (PDict d) = concat (map (\<lambda>(k, v). all_string_values v) d)"
| "all_string_values (PList vs) = concat (map all_string_values vs)"
| "all_string_values v = []"

definition str_of :: "(pyval \<Rightarrow> pystr) \<Rightarrow> pyval \<Rightarrow> pystr" where
  "str_of st v = (case v of PStr s \<Rightarrow> s | _ \<Rightarrow> st v)"

definition call_args :: "pydict \<Rightarrow> pyval" where
  "call_args call = dget_or call (u ''arguments'') (PDict [])"

text \<open>\<open>args.get(key, default)\<close>.\<close>

definition arg_or :: "pyval \<Rightarrow> string \<Rightarrow> pyval \<Rightarrow> layer_exn + pyval" where
  "arg_or args key def_val = (case args of PDict d \<Rightarrow> Inr (dget_or d (u key) def_val) | _ \<Rightarrow> Inl AttributeErr)"

text \<open>\<open>str(args.get(key, ""))\<close>.\<close>

definition arg_text :: "(pyval \<Rightarrow> pystr) \<Rightarrow> pyval \<Rightarrow> string \<Rightarrow> layer_exn + pystr" where
  "arg_text st args key = rbind (arg_or args key (PStr [])) (\<lambda>v. Inr (str_of st v))"

section \<open>Percent decoding\<close>

text \<open>UTF-8 with the \<open>replace\<close> handler: each maximal part of an ill-formed sequence is one \<open>U+FFFD\<close>.\<close>

definition sequence_length :: "nat \<Rightarrow> nat" where
  "sequence_length a =
    (if 194 \<le> a \<and> a < 224 then 2 else if 224 \<le> a \<and> a < 240 then 3 else if 240 \<le> a \<and> a < 245 then 4 else 0)"

definition second_byte_ok :: "nat \<Rightarrow> nat \<Rightarrow> bool" where
  "second_byte_ok a b \<longleftrightarrow>
     (if a = 224 then 160 else if a = 240 then 144 else 128) \<le> b \<and>
     b < (if a = 237 then 160 else if a = 244 then 144 else 192)"

definition part_length :: "nat \<Rightarrow> nat list \<Rightarrow> nat" where
  "part_length a s =
    (if sequence_length a = 0 then 1
     else (case s of [] \<Rightarrow> 1
        | b # s' \<Rightarrow> if \<not> second_byte_ok a b then 1
            else 2 + length (takeWhile (\<lambda>c. 128 \<le> c \<and> c < 192) (take (sequence_length a - 2) s'))))"

definition sequence_value :: "nat \<Rightarrow> nat list \<Rightarrow> nat" where
  "sequence_value a s = foldl (\<lambda>n b. n * 64 + (b - 128))
     (a - (if sequence_length a = 2 then 192 else if sequence_length a = 3 then 224 else 240)) s"

function utf8_replace :: "pybytes \<Rightarrow> pystr" where
  "utf8_replace [] = []"
| "utf8_replace (a # s) =
    (if a < 128 then a # utf8_replace s
     else (let n = part_length a s
       in (if n = sequence_length a then sequence_value a (take (n - 1) s) else 65533) #
            utf8_replace (drop (n - 1) s)))"
  by pat_completeness auto
termination
  by (relation "measure length") auto

fun unquote_bytes :: "pystr \<Rightarrow> pybytes" where
  "unquote_bytes (c # a # b # s) =
    (if c = 37 then (case (hex_val a, hex_val b) of
         (Some x, Some y) \<Rightarrow> (16 * x + y) # unquote_bytes s
       | _ \<Rightarrow> 37 # unquote_bytes (a # b # s))
     else c # unquote_bytes (a # b # s))"
| "unquote_bytes s = s"

text \<open>\<open>urllib.parse.unquote\<close>: the ASCII runs of the text are decoded one by one.\<close>

function unquote_runs :: "pystr \<Rightarrow> pystr" where
  "unquote_runs [] = []"
| "unquote_runs (c # s) =
    (if c < 128
     then utf8_replace (unquote_bytes (takeWhile (\<lambda>c. c < 128) (c # s))) @ unquote_runs (dropWhile (\<lambda>c. c < 128) (c # s))
     else c # unquote_runs s)"
  by pat_completeness auto
termination
  by (relation "measure length") (auto simp: less_Suc_eq_le length_dropWhile_le)

definition unquote :: "pystr \<Rightarrow> pystr" where
  "unquote s = (if 37 \<in> set s then unquote_runs s else s)"

section \<open>The patterns\<close>

definition digits1 :: rx where "digits1 = plus1 digit_cls"
definition nonspace :: rx where "nonspace = Cls True [CSpace]"
definition alnum :: rx where "alnum = Cls False [Rg 65 90, Rg 97 122, Rg 48 57]"
definition one_word :: "string list \<Rightarrow> rx" where "one_word ws = alts (map lit ws)"
definition dot_parts :: "rx list \<Rightarrow> rx" where "dot_parts rs = seqs (concat (map (\<lambda>r. [lit ''.'', r]) rs))"

definition SSRF_PATTERNS :: "rx list" where
  "SSRF_PATTERNS = [
     Seq (lit ''169.254'') (dot_parts [digits1, digits1]),
     Seq (lit ''127.0.0'') (dot_parts [digits1]),
     Seq (lit ''10'') (dot_parts [digits1, digits1, digits1]),
     Seq (lit ''172'') (dot_parts
       [alts [Seq (lit ''1'') (Cls False [Rg 54 57]), Seq (lit ''2'') digit_cls, Seq (lit ''3'') (Cls False [Rg 48 49])],
        digits1, digits1]),
     Seq (lit ''192.168'') (dot_parts [digits1, digits1]),
     lit ''0.0.0.0'', lit ''localhost'', lit ''[::1]'', lit ''metadata.google.internal'']"

definition DOT_DOT_SLASH :: rx where
  "DOT_DOT_SLASH = Seq (lit ''..'') (Cls False [Rg 47 47, Rg 92 92])"

definition ENCODED_DOTS :: rx where
  "ENCODED_DOTS = Seq (lit ''%2e%2e'') (Cls False [Rg 47 47, Rg 92 92, Rg 37 37])"

definition SHELL_COMMAND :: rx where
  "SHELL_COMMAND = seqs [Cls False [Rg 59 59, Rg 124 124, Rg 38 38, Rg 96 96, Rg 36 36], star sp,
     one_word [''rm'', ''curl'', ''wget'', ''nc'', ''cat'', ''chmod'', ''sudo'', ''bash'', ''sh'', ''python'']]"

definition BACKTICKS :: rx where
  "BACKTICKS = seqs [chr 96, plus1 (Cls True [Rg 96 96]), chr 96]"

definition COMMAND_CHAIN :: rx where
  "COMMAND_CHAIN = seqs [lit '';'', star sp, one_word [''rm'', ''curl'', ''wget'', ''nc'', ''cat''], sp]"

definition colon_or_equals :: rx where "colon_or_equals = Cls False [Rg 58 58, Rg 61 61]"

definition CREDENTIAL_PATTERNS :: "rx list" where
  "CREDENTIAL_PATTERNS = [
     seqs [lit ''AWS_SECRET'', star (Cls False [Rg 95 95, Rg 65 90]), lit ''='', plus1 nonspace],
     Seq (lit ''GITHUB_TOKEN='') (plus1 nonspace),
     Seq (lit ''ghp_'') (least 36 alnum),
     Seq (lit ''sk-'') (least 32 alnum),
     Seq (lit ''AKIA'') (upto 16 16 (Cls False [Rg 48 57, Rg 65 90])),
     seqs [lit ''password'', star sp, colon_or_equals, star sp, least 8 nonspace],
     seqs [lit ''api'', opt (Cls False [Rg 95 95, Rg 45 45]), lit ''key'', star sp, colon_or_equals, star sp,
       least 10 nonspace],
     seqs [lit ''-----BEGIN '', opt (one_word [''RSA '', ''EC '']), lit ''PRIVATE KEY-----'']]"

definition PYTHON_OBJECT :: rx where "PYTHON_OBJECT = lit ''!!python/object''"
definition PICKLE_WORD :: rx where "PICKLE_WORD = one_word [''pickle'', ''marshal'', ''shelve'']"
definition PICKLE_FILE :: rx where
  "PICKLE_FILE = seqs [lit ''.'', one_word [''pkl'', ''pickle'', ''marshal''], AtEnd]"

definition ENV_GREP :: rx where
  "ENV_GREP = seqs [one_word [''env'', ''printenv'', ''set''], star sp, lit ''|'', star dot, lit ''grep'', star dot,
     one_word [''SECRET'', ''TOKEN'', ''KEY'', ''PASSWORD'', ''CRED'']]"

definition SECRET_VARIABLE :: rx where
  "SECRET_VARIABLE = seqs [lit ''$'', opt (lit ''{''), star (Cls False [Rg 65 90, Rg 95 95]),
     one_word [''SECRET'', ''TOKEN'', ''KEY'', ''PASSWORD'']]"

definition PROMPT_PATTERNS :: "rx list" where
  "PROMPT_PATTERNS = [
     seqs [lit ''ignore'', plus1 sp, opt (Seq (lit ''all'') (plus1 sp)), lit ''previous'', plus1 sp, lit ''instructions''],
     seqs [lit ''system'', plus1 sp, lit ''override''],
     seqs [lit ''you'', plus1 sp, lit ''are'', plus1 sp, lit ''now'', plus1 sp, lit ''DAN''],
     seqs [lit ''reveal'', plus1 sp, opt (Seq (lit ''your'') (plus1 sp)),
       alts [seqs [lit ''system'', plus1 sp, lit ''prompt''], seqs [lit ''api'', star sp, lit ''key'']]],
     seqs [lit ''<system>'', star dot, lit ''</system>''],
     seqs [lit ''<'', star sp, opt (lit ''/''), lit ''system'', star sp, lit ''>''],
     seqs [lit ''new'', plus1 sp, lit ''instruction'', opt (lit ''s''), star sp, lit '':''],
     lit ''jailbreak'',
     seqs [lit ''bypass'', plus1 sp, one_word [''safety'', ''filter'', ''restriction'']]]"

definition ATTACKER_DOMAINS :: "rx list" where
  "ATTACKER_DOMAINS = [lit ''@evil.com'', lit ''@attacker'', lit ''@malicious'', lit ''@bad.com'', lit ''@hack'',
     seqs [lit ''.'', one_word [''tk'', ''ml'', ''ga'', ''cf'', ''gq'', ''club'', ''xyz'', ''top'', ''buzz''], WordB]]"

definition PII_COLUMNS :: rx where
  "PII_COLUMNS = one_word [''ssn'', ''social_security'', ''credit_card'', ''card_number'', ''cvv'', ''password'', ''secret'']"

definition octal :: rx where "octal = Cls False [Rg 48 55]"

definition PRIVILEGE_PATTERNS :: "rx list" where
  "PRIVILEGE_PATTERNS = [
     Seq (lit ''sudo'') (plus1 sp),
     seqs [lit ''chmod'', plus1 sp, star octal, Cls False [Rg 52 55], star octal, sp],
     seqs [lit ''chown'', plus1 sp, lit ''root''],
     lit ''--privileged'', lit ''setuid'']"

definition TRUSTED_INDEX :: rx where "TRUSTED_INDEX = one_word [''pypi.org'', ''npmjs.com'', ''registry.npmjs'']"
definition WEB_SCHEME :: rx where "WEB_SCHEME = seqs [lit ''http'', opt (lit ''s''), lit ''://'']"

definition SUSPICIOUS_TLD :: rx where
  "SUSPICIOUS_TLD = seqs [lit ''.'', one_word [''xyz'', ''tk'', ''ml'', ''ga'', ''cf'', ''gq'', ''club'', ''top'', ''buzz''], AtEnd]"

section \<open>The conditions\<close>

text \<open>\<open>re.search(pattern, text, re.IGNORECASE)\<close>, and without the flag.\<close>

definition finds :: "ucd \<Rightarrow> rx \<Rightarrow> pystr \<Rightarrow> bool" where
  "finds uc pat s \<longleftrightarrow> rx_search (env_of uc True) pat s"

definition finds_exact :: "ucd \<Rightarrow> rx \<Rightarrow> pystr \<Rightarrow> bool" where
  "finds_exact uc pat s \<longleftrightarrow> rx_search (env_of uc False) pat s"

definition finds_any :: "ucd \<Rightarrow> rx list \<Rightarrow> pystr \<Rightarrow> bool" where
  "finds_any uc pats s \<longleftrightarrow> list_ex (\<lambda>pat. finds uc pat s) pats"

definition is_ssrf :: "ucd \<Rightarrow> (pyval \<Rightarrow> pystr) \<Rightarrow> pydict \<Rightarrow> layer_exn + bool" where
  "is_ssrf uc st call =
    (let args = call_args call
     in rbind (arg_text st args ''url'') (\<lambda>a. rbind (arg_text st args ''path'') (\<lambda>b.
        rbind (arg_text st args ''endpoint'') (\<lambda>c. Inr (finds_any uc SSRF_PATTERNS (a @ b @ c))))))"

definition is_path_traversal :: "ucd \<Rightarrow> pydict \<Rightarrow> layer_exn + bool" where
  "is_path_traversal uc call =
     Inr (list_ex (\<lambda>val. finds_exact uc DOT_DOT_SLASH (unquote val) \<or> finds uc ENCODED_DOTS val)
       (all_string_values (call_args call)))"

definition is_command_injection :: "ucd \<Rightarrow> pydict \<Rightarrow> layer_exn + bool" where
  "is_command_injection uc call =
     Inr (list_ex (\<lambda>val. finds uc SHELL_COMMAND val \<or> finds_exact uc BACKTICKS val \<or> finds uc COMMAND_CHAIN val)
       (all_string_values (call_args call)))"

definition has_credential_patterns :: "ucd \<Rightarrow> pydict \<Rightarrow> layer_exn + bool" where
  "has_credential_patterns uc call =
     Inr (list_ex (finds_any uc CREDENTIAL_PATTERNS) (all_string_values (call_args call)))"

text \<open>The loop over the texts: a text that names a serialisation module makes the condition look at the
  URL, which \<open>re.search\<close> refuses when it is no string.\<close>

fun deserialization_loop :: "ucd \<Rightarrow> pyval \<Rightarrow> pystr list \<Rightarrow> layer_exn + bool" where
  "deserialization_loop uc args [] =
     rbind (arg_or args ''format'' (PStr [])) (\<lambda>fmt.
       if fmt = PStr (u ''pickle'')
       then rbind (arg_or args ''trust_remote'' PNone) (\<lambda>trust. Inr (truthy trust)) else Inr False)"
| "deserialization_loop uc args (val # vals) =
    (if finds_exact uc PYTHON_OBJECT val then Inr True
     else if finds uc PICKLE_WORD val
     then rbind (arg_or args ''url'' (PStr [])) (\<lambda>url.
       (case url of
          PStr s \<Rightarrow>
            if finds uc PICKLE_FILE s
            then rbind (arg_or args ''trust_remote'' (PBool False)) (\<lambda>trust.
              if truthy trust then Inr True else deserialization_loop uc args vals)
            else deserialization_loop uc args vals
        | _ \<Rightarrow> Inl TypeErr))
     else deserialization_loop uc args vals)"

definition is_deserialization_attack :: "ucd \<Rightarrow> pydict \<Rightarrow> layer_exn + bool" where
  "is_deserialization_attack uc call =
     deserialization_loop uc (call_args call) (all_string_values (call_args call))"

definition is_env_harvest :: "ucd \<Rightarrow> (pyval \<Rightarrow> pystr) \<Rightarrow> pydict \<Rightarrow> layer_exn + bool" where
  "is_env_harvest uc st call =
     rbind (arg_text st (call_args call) ''command'') (\<lambda>cmd.
       Inr (finds uc ENV_GREP cmd \<or> finds uc SECRET_VARIABLE cmd))"

definition is_large_payload :: "pydict \<Rightarrow> layer_exn + bool" where
  "is_large_payload call = Inr (list_ex (\<lambda>val. length val > 50000) (all_string_values (call_args call)))"

definition is_prompt_injection :: "ucd \<Rightarrow> pydict \<Rightarrow> layer_exn + bool" where
  "is_prompt_injection uc call = Inr (list_ex (finds_any uc PROMPT_PATTERNS) (all_string_values (call_args call)))"

definition KNOWN_SERVERS :: "pystr list" where
  "KNOWN_SERVERS = map u [''postmark'', ''email'', ''sendgrid'', ''smtp'', ''vault'', ''openai'', ''search'',
     ''database'', ''webhook'', ''calc'', ''system'', ''filesystem'', ''api'', ''proxy'', ''network'', ''auth'',
     ''ml-pipeline'', ''storage'', ''package-manager'']"

definition is_rogue_server :: "pydict \<Rightarrow> layer_exn + bool" where
  "is_rogue_server call =
    (let server_id = dget_or call (u ''server_id'') (PStr [])
     in if \<not> hashable server_id then Inl TypeErr
        else Inr (\<not> in_strs server_id (set KNOWN_SERVERS) \<and> truthy server_id))"

definition is_email_to_attacker :: "ucd \<Rightarrow> pydict \<Rightarrow> layer_exn + bool" where
  "is_email_to_attacker uc call = Inr (list_ex (finds_any uc ATTACKER_DOMAINS) (all_string_values (call_args call)))"

definition is_pii_query :: "ucd \<Rightarrow> (pyval \<Rightarrow> pystr) \<Rightarrow> pydict \<Rightarrow> layer_exn + bool" where
  "is_pii_query uc st call =
    (let args = call_args call
     in rbind (arg_text st args ''sql'') (\<lambda>a. rbind (arg_text st args ''query'') (\<lambda>b.
          Inr (finds uc PII_COLUMNS (a @ b)))))"

definition is_privileged_call :: "ucd \<Rightarrow> (pyval \<Rightarrow> pystr) \<Rightarrow> pydict \<Rightarrow> layer_exn + bool" where
  "is_privileged_call uc st call =
    (let args = call_args call
     in if list_ex (finds_any uc PRIVILEGE_PATTERNS) (all_string_values args) then Inr True
        else rbind (arg_text st args ''run_as'') (\<lambda>run_as. Inr (py_lower run_as = u ''root'')))"

definition is_supply_chain_attack :: "ucd \<Rightarrow> (pyval \<Rightarrow> pystr) \<Rightarrow> pydict \<Rightarrow> layer_exn + bool" where
  "is_supply_chain_attack uc st call =
    (let args = call_args call
     in rbind (arg_text st args ''source'') (\<lambda>a. rbind (arg_text st args ''index_url'') (\<lambda>b.
          let source = a @ b
          in Inr (source \<noteq> [] \<and> \<not> finds_exact uc TRUSTED_INDEX source \<and> finds_exact uc WEB_SCHEME source))))"

definition is_dns_tunneling :: "ucd \<Rightarrow> (pyval \<Rightarrow> pystr) \<Rightarrow> pydict \<Rightarrow> layer_exn + bool" where
  "is_dns_tunneling uc st call =
     rbind (arg_text st (call_args call) ''domain'') (\<lambda>domain.
       Inr (finds uc SUSPICIOUS_TLD domain \<or> length domain > 50))"

section \<open>The rules\<close>

definition block_rule_of :: "string \<Rightarrow> string \<Rightarrow> rx \<Rightarrow> int \<Rightarrow> (pydict \<Rightarrow> layer_exn + bool) \<Rightarrow> proxy_rule" where
  "block_rule_of name description tool_pattern priority condition =
     \<lparr>pr_name = u name, pr_description = u description, pr_tool_pattern = tool_pattern, pr_action = ActBlock,
      pr_condition = Some condition, pr_priority = priority, pr_fields_to_redact = []\<rparr>"

definition any_tool :: rx where "any_tool = star dot"

definition tool_family :: "string list \<Rightarrow> rx" where
  "tool_family names = Seq (one_word names) (lit ''.'')"

definition ssrf_block :: "ucd \<Rightarrow> (pyval \<Rightarrow> pystr) \<Rightarrow> proxy_rule" where
  "ssrf_block uc st = block_rule_of ''ssrf_block'' ''Block SSRF to internal/cloud metadata IPs''
     any_tool 90 (is_ssrf uc st)"

definition path_traversal_block :: "ucd \<Rightarrow> proxy_rule" where
  "path_traversal_block uc = block_rule_of ''path_traversal_block'' ''Block directory traversal attacks''
     any_tool 88 (is_path_traversal uc)"

definition command_injection_block :: "ucd \<Rightarrow> proxy_rule" where
  "command_injection_block uc = block_rule_of ''command_injection_block'' ''Block OS command injection patterns''
     any_tool 89 (is_command_injection uc)"

definition credential_exfil_block :: "ucd \<Rightarrow> proxy_rule" where
  "credential_exfil_block uc = block_rule_of ''credential_exfil_block'' ''Block credential/secret exfiltration''
     (tool_family [''email'', ''webhook'', ''http'', ''api'']) 92 (has_credential_patterns uc)"

definition deserialization_block :: "ucd \<Rightarrow> proxy_rule" where
  "deserialization_block uc = block_rule_of ''deserialization_block'' ''Block unsafe deserialization patterns''
     any_tool 87 (is_deserialization_attack uc)"

definition env_credential_harvest_block :: "ucd \<Rightarrow> (pyval \<Rightarrow> pystr) \<Rightarrow> proxy_rule" where
  "env_credential_harvest_block uc st = block_rule_of ''env_credential_harvest_block'' ''Block credential harvesting via env commands''
     (tool_family [''shell'', ''exec'', ''system'', ''cmd'']) 91 (is_env_harvest uc st)"

definition large_payload_block :: proxy_rule where
  "large_payload_block = block_rule_of ''large_payload_block'' ''Block oversized payloads (>50KB) indicating data exfil''
     (tool_family [''webhook'', ''http'', ''api'']) 70 is_large_payload"

definition prompt_injection_block :: "ucd \<Rightarrow> proxy_rule" where
  "prompt_injection_block uc = block_rule_of ''prompt_injection_block'' ''Block prompt injection attempts''
     any_tool 93 (is_prompt_injection uc)"

definition rogue_server_block :: proxy_rule where
  "rogue_server_block = block_rule_of ''rogue_server_block'' ''Block calls from unregistered MCP servers''
     any_tool 95 is_rogue_server"

definition email_attacker_domain_block :: "ucd \<Rightarrow> proxy_rule" where
  "email_attacker_domain_block uc = block_rule_of ''email_attacker_domain_block'' ''Block email to known malicious domains''
     (tool_family [''email'', ''smtp'', ''sendgrid'', ''postmark'']) 85 (is_email_to_attacker uc)"

definition pii_query_block :: "ucd \<Rightarrow> (pyval \<Rightarrow> pystr) \<Rightarrow> proxy_rule" where
  "pii_query_block uc st = block_rule_of ''pii_query_block'' ''Block queries selecting PII/sensitive columns''
     (tool_family [''db'', ''database'', ''sql'']) 80 (is_pii_query uc st)"

definition privilege_escalation_block :: "ucd \<Rightarrow> (pyval \<Rightarrow> pystr) \<Rightarrow> proxy_rule" where
  "privilege_escalation_block uc st = block_rule_of ''privilege_escalation_block'' ''Block privilege escalation attempts''
     any_tool 94 (is_privileged_call uc st)"

definition supply_chain_block :: "ucd \<Rightarrow> (pyval \<Rightarrow> pystr) \<Rightarrow> proxy_rule" where
  "supply_chain_block uc st = block_rule_of ''supply_chain_block'' ''Block package installs from untrusted sources''
     (tool_family [''pip'', ''npm'', ''yarn'', ''package'']) 82 (is_supply_chain_attack uc st)"

definition dns_tunneling_block :: "ucd \<Rightarrow> (pyval \<Rightarrow> pystr) \<Rightarrow> proxy_rule" where
  "dns_tunneling_block uc st = block_rule_of ''dns_tunneling_block'' ''Block suspicious DNS queries (tunneling)''
     (tool_family [''dns'', ''resolve'']) 78 (is_dns_tunneling uc st)"

text \<open>In the order they are added.\<close>

definition REALTIME_RULES :: "ucd \<Rightarrow> (pyval \<Rightarrow> pystr) \<Rightarrow> proxy_rule list" where
  "REALTIME_RULES uc st = [
     ssrf_block uc st, path_traversal_block uc, command_injection_block uc, credential_exfil_block uc,
     deserialization_block uc, env_credential_harvest_block uc st, large_payload_block,
     prompt_injection_block uc, rogue_server_block, email_attacker_domain_block uc, pii_query_block uc st,
     privilege_escalation_block uc st, supply_chain_block uc st, dns_tunneling_block uc st]"

lemmas realtime_rule_defs = block_rule_of_def ssrf_block_def path_traversal_block_def command_injection_block_def
  credential_exfil_block_def deserialization_block_def env_credential_harvest_block_def large_payload_block_def
  prompt_injection_block_def rogue_server_block_def email_attacker_domain_block_def pii_query_block_def
  privilege_escalation_block_def supply_chain_block_def dns_tunneling_block_def

end
