(* ===== verification/RealtimeDefense.thy ===== *)
theory RealtimeDefense
  imports RealtimeRules FiveLayer
begin

text \<open>
  The defence that \<open>server/realtime.py\<close> builds when it is imported (\<open>_build_defense\<close>): the five layers
  with their rules and policies, and what it lets through.
\<close>

section \<open>The policies\<close>

definition REALTIME_PORTS :: "int set" where "REALTIME_PORTS = {443, 80}"

definition realtime_server_policy :: "pystr \<Rightarrow> server_policy" where
  "realtime_server_policy sid = (default_policy sid)\<lparr>
     sp_allowed_destinations := {u ''api.postmarkapp.com'', u ''smtp.postmarkapp.com''},
     sp_allowed_ports := REALTIME_PORTS, sp_allow_subprocess := False\<rparr>"

definition ALLOWED_HOSTS :: "pystr set" where
  "ALLOWED_HOSTS = {u ''api.postmarkapp.com'', u ''smtp.postmarkapp.com'', u ''api.sendgrid.com'', u ''api.openai.com''}"

definition DEFAULT_SERVERS :: egress_rule where
  "DEFAULT_SERVERS = \<lparr>gr_name = u ''default_servers'', gr_description = u ''Allow known API endpoints only'',
     gr_server_pattern = any_tool, gr_allowed_domains = ALLOWED_HOSTS, gr_allowed_ips = {},
     gr_allowed_ports = REALTIME_PORTS,
     gr_blocked_domains = {u ''giftshop.club'', u ''evil.com'', u ''attacker-domain.tk'', u ''evil-collector.ngrok.io'',
       u ''darkweb.onion'', u ''attacker-dns.xyz'', u ''evil-pypi.com''},
     gr_blocked_ips = {u ''185.234.72.15'', u ''169.254.169.254'', u ''127.0.0.1'', u ''10.0.0.1''},
     gr_max_payload_bytes = 50000\<rparr>"

definition build_defense :: "ucd \<Rightarrow> (pyval \<Rightarrow> pystr) \<Rightarrow> five_layer" where
  "build_defense uc st = make_five_layer
     (with_rules (REALTIME_RULES uc st) (make_inline_proxy None 50 30 ActAllow))
     (fold (\<lambda>sid. register_policy (realtime_server_policy sid)) KNOWN_SERVERS make_kernel_monitor)
     (make_semantic_analyzer (7 / 10))
     (add_egress_rule DEFAULT_SERVERS (make_egress_policy True))
     (set KNOWN_SERVERS)"

section \<open>The configuration stays\<close>

definition deployed :: "ucd \<Rightarrow> (pyval \<Rightarrow> pystr) \<Rightarrow> five_layer \<Rightarrow> bool" where
  "deployed uc st f \<longleftrightarrow>
     fl_known_servers f = set KNOWN_SERVERS \<and> ip_inspector (fl_proxy f) = None \<and>
     ip_block_threshold (fl_proxy f) = 50 \<and> ip_quarantine_threshold (fl_proxy f) = 30 \<and>
     ip_rules (fl_proxy f) = sort_key (\<lambda>r. - pr_priority r) (REALTIME_RULES uc st) \<and>
     sa_sensitivity (fl_semantic f) = 7 / 10 \<and>
     gp_default_deny (fl_egress f) \<and> gp_rules (fl_egress f) = [DEFAULT_SERVERS]"

lemma built_deployed: "deployed uc st (build_defense uc st)"
  by (simp add: deployed_def build_defense_def make_five_layer_def with_rules_sorted make_semantic_analyzer_def
      add_egress_rule_def make_egress_policy_def) (simp add: make_inline_proxy_def)

lemma record_decision_params [simp]:
  "ip_inspector (record_decision d ip) = ip_inspector ip" "ip_block_threshold (record_decision d ip) = ip_block_threshold ip"
  "ip_quarantine_threshold (record_decision d ip) = ip_quarantine_threshold ip" "ip_rules (record_decision d ip) = ip_rules ip"
  by (simp_all add: record_decision_def Let_def split: proxy_action.splits option.splits)

lemma intercept_keeps:
  assumes "intercept uc cid call ip = (out, ip')"
  shows "ip_inspector ip' = ip_inspector ip \<and> ip_block_threshold ip' = ip_block_threshold ip \<and>
    ip_quarantine_threshold ip' = ip_quarantine_threshold ip \<and> ip_rules ip' = ip_rules ip"
  using assms by (auto simp: intercept_def Let_def split: sum.splits option.splits prod.splits)

lemma analyze_keeps: "analyze_call uc args sa = (out, sa') \<Longrightarrow> sa_sensitivity sa' = sa_sensitivity sa"
  by (auto simp: analyze_call_def Let_def split: sum.splits)

lemma layer5_keeps:
  "layer5 uc sid args ep = (out, ep') \<Longrightarrow> gp_default_deny ep' = gp_default_deny ep \<and> gp_rules ep' = gp_rules ep"
  by (auto simp: layer5_def egress_evaluate_def Let_def split: pyval.splits sum.splits prod.splits option.splits if_splits)

lemma give_verdict_keeps: "deployed uc st (snd (give_verdict cid ok l rs risk f)) \<longleftrightarrow> deployed uc st f"
  by (simp add: give_verdict_def deployed_def Let_def)

lemma deployed_proxy:
  "deployed uc st f \<Longrightarrow> intercept uc cid call (fl_proxy f) = (out1, prx) \<Longrightarrow> deployed uc st (f\<lparr>fl_proxy := prx\<rparr>)"
  using intercept_keeps [of uc cid call "fl_proxy f" out1 prx] by (simp add: deployed_def)

lemma deployed_semantic:
  "deployed uc st f \<Longrightarrow> analyze_call uc args (fl_semantic f) = (out2, sa) \<Longrightarrow> deployed uc st (f\<lparr>fl_semantic := sa\<rparr>)"
  using analyze_keeps [of uc args "fl_semantic f" out2 sa] by (simp add: deployed_def)

lemma deployed_egress:
  "deployed uc st f \<Longrightarrow> layer5 uc sid args (fl_egress f) = (out3, ep) \<Longrightarrow> deployed uc st (f\<lparr>fl_egress := ep\<rparr>)"
  using layer5_keeps [of uc sid args "fl_egress f" out3 ep] by (simp add: deployed_def)

lemma last_layers_keeps:
  assumes "deployed uc st f"
  shows "deployed uc st (snd (last_layers uc cid call rs risk f))"
proof -
  let ?args = "dget_or call (u ''arguments'') (PDict [])" and ?sid = "dget_or call (u ''server_id'') (PStr [])"
  obtain o2 sa where a: "analyze_call uc ?args (fl_semantic f) = (o2, sa)" by fastforce
  note d2 = deployed_semantic [OF assms a]
  obtain o3 ep where e: "layer5 uc ?sid ?args (fl_egress (f\<lparr>fl_semantic := sa\<rparr>)) = (o3, ep)" by fastforce
  note d3 = deployed_egress [OF d2 e]
  show ?thesis
    using d2 d3 e by (auto simp: last_layers_def a Let_def give_verdict_keeps split: sum.splits option.splits prod.splits
        simp del: five_layer.update_convs)
qed

lemma evaluate_keeps:
  assumes "deployed uc st f"
  shows "deployed uc st (snd (evaluate_call uc fr cid pid call f))"
proof -
  obtain o1 prx where i: "intercept uc pid call (fl_proxy f) = (o1, prx)" by fastforce
  note d1 = deployed_proxy [OF assms i]
  show ?thesis
    using assms d1 last_layers_keeps [OF d1]
    by (auto simp: evaluate_call_def i Let_def give_verdict_keeps split: sum.splits bool.splits)
qed

section \<open>What the rules object to\<close>

lemma star_search: "rx_search env (star r) s"
proof -
  have "p \<in> set (rounds True f n p)" for f n p by (cases n) (simp_all add: Let_def)
  then have "ends env (star r) p \<noteq> []" for p by (simp add: Let_def) (metis empty_iff empty_set)
  then show ?thesis unfolding rx_search_def by (cases s) (simp_all del: ends.simps)
qed

lemma any_tool_search [simp]: "rx_search env any_tool s"
  by (simp add: any_tool_def star_search)

lemma rules_block: "r \<in> set (REALTIME_RULES uc st) \<Longrightarrow> pr_action r = ActBlock"
  by (auto simp: REALTIME_RULES_def realtime_rule_defs)

definition objects :: "ucd \<Rightarrow> (pyval \<Rightarrow> pystr) \<Rightarrow> pydict \<Rightarrow> pystr \<Rightarrow> bool" where
  "objects uc st call name \<longleftrightarrow> list_ex (rule_applies uc call name) (REALTIME_RULES uc st)"

lemma deployed_intercept:
  assumes "deployed uc st f" "intercept uc pid call (fl_proxy f) = (Inr pd, prx)"
  shows "\<exists>name. dget_or call (u ''name'') (PStr []) = PStr name \<and>
    pd_action pd = (if objects uc st call name then ActBlock else ActAllow)"
proof -
  note d = assms(1) [unfolded deployed_def]
  have mem: "set (ip_rules (fl_proxy f)) = set (REALTIME_RULES uc st)" using d by simp
  have "REALTIME_RULES uc st \<noteq> []" by (simp add: REALTIME_RULES_def)
  with mem have ne: "ip_rules (fl_proxy f) \<noteq> []" by (metis empty_set set_empty)
  from assms(2) ne obtain name x where name: "dget_or call (u ''name'') (PStr []) = PStr name"
    and x: "first_rule uc call name (ip_rules (fl_proxy f)) = Inr x"
    by (auto simp: intercept_def check_rules_def split: sum.splits pyval.splits if_splits)
  show ?thesis
  proof (cases x)
    case None
    with first_rule_find [OF x] have "List.find (rule_applies uc call name) (ip_rules (fl_proxy f)) = None" by simp
    then have "\<not> objects uc st call name"
      unfolding objects_def list_ex_iff find_None_iff mem by blast
    with assms(2) name x None d show ?thesis
      by (auto simp: intercept_def check_rules_def threshold_action_def Let_def)
  next
    case (Some r)
    with first_rule_find [OF x] have "List.find (rule_applies uc call name) (ip_rules (fl_proxy f)) = Some r" by simp
    then have r: "r \<in> set (REALTIME_RULES uc st)" "rule_applies uc call name r"
      unfolding mem [symmetric] by (metis find_Some_iff nth_mem)+
    then have "objects uc st call name" by (auto simp: objects_def list_ex_iff)
    with assms(2) name x Some rules_block [OF r(1)] show ?thesis
      by (auto simp: intercept_def check_rules_def rule_decision_def Let_def)
  qed
qed

section \<open>Where a call may go\<close>

definition may_reach :: "pyval \<Rightarrow> pydict \<Rightarrow> bool" where
  "may_reach server_id args \<longleftrightarrow>
    (let dest = dget_or args (u ''url'') (dget_or args (u ''destination'') (PStr []))
     in \<not> truthy dest \<or>
        (is_str server_id \<and> in_strs dest ALLOWED_HOSTS \<and> in_ints (dget_or args (u ''port'') (PInt 443)) REALTIME_PORTS))"

lemma hosts_not_blocked:
  "in_strs v ALLOWED_HOSTS \<Longrightarrow> \<not> in_strs v (gr_blocked_domains DEFAULT_SERVERS) \<and> \<not> in_strs v (gr_blocked_ips DEFAULT_SERVERS) \<and>
    hashable v"
  by (cases v) (auto simp: ALLOWED_HOSTS_def DEFAULT_SERVERS_def)

lemma in_ints_hashable: "in_ints v A \<Longrightarrow> hashable v"
  by (cases v) auto

lemma default_servers_rule:
  "apply_rule dest port 0 DEFAULT_SERVERS = Inr (Some (True, reason)) \<longleftrightarrow>
     reason = MatchesAllowRule \<and> in_strs dest ALLOWED_HOSTS \<and> in_ints port REALTIME_PORTS"
proof -
  have "gr_allowed_domains DEFAULT_SERVERS = ALLOWED_HOSTS" "gr_allowed_ips DEFAULT_SERVERS = {}"
    "gr_allowed_ports DEFAULT_SERVERS = REALTIME_PORTS" "ALLOWED_HOSTS \<noteq> {}" "REALTIME_PORTS \<noteq> {}"
    by (simp_all add: DEFAULT_SERVERS_def ALLOWED_HOSTS_def REALTIME_PORTS_def)
  moreover have "\<not> in_strs dest {}" by simp
  ultimately show ?thesis
    using hosts_not_blocked [of dest] in_ints_hashable [of port REALTIME_PORTS]
    by (auto simp: apply_rule_def Let_def DEFAULT_SERVERS_def [THEN arg_cong, of gr_max_payload_bytes])
qed

lemma one_rule:
  assumes "gp_default_deny ep" "gp_rules ep = [r]" "\<And>s. rule_matches uc s r"
  shows "fst (case egress_evaluate uc (PStr s) dest port 0 ep of
      (Inl exc, ep') \<Rightarrow> (Inl (EgressExn exc), ep')
    | (Inr d, ep') \<Rightarrow> (Inr (if gd_allowed d then None else Some (gd_reason d)), ep')) =
    (case apply_rule dest port 0 r of Inl exc \<Rightarrow> Inl (EgressExn exc)
     | Inr None \<Rightarrow> Inr (Some (NoAllowRuleMatched True))
     | Inr (Some (ok, reason)) \<Rightarrow> Inr (if ok then None else Some reason))"
  using assms by (simp add: egress_evaluate_def matching_rules_def Let_def split: sum.splits option.splits)

lemma layer5_dest:
  assumes "truthy (dget_or args (u ''url'') (dget_or args (u ''destination'') (PStr [])))"
  shows "layer5 uc sid (PDict args) ep =
    (case egress_evaluate uc sid (dget_or args (u ''url'') (dget_or args (u ''destination'') (PStr [])))
        (dget_or args (u ''port'') (PInt 443)) 0 ep of
      (Inl exc, ep') \<Rightarrow> (Inl (EgressExn exc), ep')
    | (Inr d, ep') \<Rightarrow> (Inr (if gd_allowed d then None else Some (gd_reason d)), ep'))"
  using assms by (simp add: layer5_def Let_def)

lemma deployed_layer5:
  assumes "deployed uc st f"
  shows "fst (layer5 uc sid (PDict args) (fl_egress f)) = Inr None \<longleftrightarrow> may_reach sid args"
proof -
  let ?dest = "dget_or args (u ''url'') (dget_or args (u ''destination'') (PStr []))"
  let ?port = "dget_or args (u ''port'') (PInt 443)"
  have ep: "gp_default_deny (fl_egress f)" "gp_rules (fl_egress f) = [DEFAULT_SERVERS]"
    using assms by (simp_all add: deployed_def)
  have match: "rule_matches uc s DEFAULT_SERVERS" for s by (simp add: rule_matches_def DEFAULT_SERVERS_def)
  show ?thesis
  proof (cases "truthy ?dest \<and> is_str sid")
    case True
    then obtain s where s: "sid = PStr s" by (cases sid) auto
    obtain out where out: "apply_rule ?dest ?port 0 DEFAULT_SERVERS = out" by blast
    have allow: "out = Inr (Some (True, r)) \<longleftrightarrow> r = MatchesAllowRule \<and> may_reach sid args" for r
      using True default_servers_rule [of ?dest ?port r] by (simp add: out may_reach_def Let_def)
    have five: "fst (layer5 uc sid (PDict args) (fl_egress f)) =
        (case out of Inl exc \<Rightarrow> Inl (EgressExn exc)
         | Inr None \<Rightarrow> Inr (Some (NoAllowRuleMatched True))
         | Inr (Some (ok, reason)) \<Rightarrow> Inr (if ok then None else Some reason))"
      unfolding layer5_dest [OF True [THEN conjunct1]] s one_rule [OF ep match] out ..
    show ?thesis
    proof (cases "\<exists>r. out = Inr (Some (True, r))")
      case True
      then obtain r where r: "out = Inr (Some (True, r))" by blast
      with allow have "may_reach sid args" by blast
      with five r show ?thesis by simp
    next
      case False
      with allow have "\<not> may_reach sid args" by blast
      moreover from False have "fst (layer5 uc sid (PDict args) (fl_egress f)) \<noteq> Inr None"
        unfolding five by (simp split: sum.splits option.splits)
      ultimately show ?thesis by simp
    qed
  next
    case False
    then consider "\<not> truthy ?dest" | "truthy ?dest" "\<not> is_str sid" by blast
    then show ?thesis
    proof cases
      case 2
      then have "matching_rules uc [DEFAULT_SERVERS] sid = Inl TypeErr" by (cases sid) (simp_all add: matching_rules_def)
      then have "fst (egress_evaluate uc sid ?dest ?port 0 (fl_egress f)) = Inl TypeErr"
        by (simp add: egress_evaluate_def ep Let_def)
      with 2 show ?thesis unfolding layer5_dest [OF 2(1)] may_reach_def Let_def
        by (auto split: prod.splits sum.splits)
    qed (simp add: layer5_def may_reach_def Let_def)
  qed
qed

section \<open>What the defence lets through\<close>

definition clears :: "ucd \<Rightarrow> (pyval \<Rightarrow> pystr) \<Rightarrow> (rat \<Rightarrow> pystr) \<Rightarrow> pydict \<Rightarrow> semantic_analyzer \<Rightarrow> bool" where
  "clears uc st fr call sa \<longleftrightarrow>
    (\<exists>name args. dget_or call (u ''name'') (PStr []) = PStr name \<and>
       dget_or call (u ''arguments'') (PDict []) = PDict args \<and>
       \<not> objects uc st call name \<and> layer3_passed fr (PDict args) \<and>
       (\<exists>found. fst (analyze_call uc (PDict args) sa) = Inr (False, found)) \<and>
       may_reach (dget_or call (u ''server_id'') (PStr [])) args)"

definition named_server :: "pydict \<Rightarrow> bool" where
  "named_server call \<longleftrightarrow>
    (let server_id = dget_or call (u ''server_id'') (PStr [])
     in in_strs server_id (set KNOWN_SERVERS) \<or> hashable server_id \<and> \<not> truthy server_id)"

lemma deployed_layer1:
  "deployed uc st f \<Longrightarrow> layer1_passed f (dget_or call (u ''server_id'') (PStr [])) = Inr True \<longleftrightarrow> named_server call"
proof -
  assume "deployed uc st f"
  moreover have "KNOWN_SERVERS \<noteq> []" by (simp add: KNOWN_SERVERS_def)
  ultimately show ?thesis
    using in_strs_hashable [of "dget_or call (u ''server_id'') (PStr [])" "set KNOWN_SERVERS"]
    by (auto simp: deployed_def layer1_passed_def named_server_def Let_def)
qed

lemma deployed_allows:
  assumes "deployed uc st f" "evaluate_call uc fr cid pid call f = (Inr v, f')"
  shows "fv_allowed v \<longleftrightarrow> named_server call \<and> clears uc st fr call (fl_semantic f)"
proof -
  let ?args = "dget_or call (u ''arguments'') (PDict [])"
  have agree: "fv_allowed v \<longleftrightarrow> layers_agree uc fr pid call f" using evaluate_decides [OF assms(2)] by simp
  show ?thesis
  proof (cases "named_server call")
    case False
    with agree deployed_layer1 [OF assms(1), of call] show ?thesis by (simp add: layers_agree_def Let_def)
  next
    case True
    with deployed_layer1 [OF assms(1), of call]
    have l1: "layer1_passed f (dget_or call (u ''server_id'') (PStr [])) = Inr True" by simp
    obtain out prx where i: "intercept uc pid call (fl_proxy f) = (out, prx)" by fastforce
    with assms(2) l1 obtain pd where pd: "out = Inr pd"
      by (cases out) (auto simp: evaluate_call_def Let_def)
    from deployed_intercept [OF assms(1) i [unfolded pd]] obtain name
      where name: "dget_or call (u ''name'') (PStr []) = PStr name"
        and act: "pd_action pd = (if objects uc st call name then ActBlock else ActAllow)" by blast
    have "layers_agree uc fr pid call f \<longleftrightarrow> clears uc st fr call (fl_semantic f)"
    proof (cases ?args)
      case (PDict args)
      then show ?thesis using l1 i pd name act deployed_layer5 [OF assms(1)]
        by (simp add: layers_agree_def clears_def Let_def)
    qed (auto simp: layers_agree_def clears_def layer5_def Let_def)
    with agree True show ?thesis by simp
  qed
qed

section \<open>Gaps\<close>

text \<open>A call of a known server whose arguments are no object and no text makes a condition raise: the call
  is refused with an error, without a verdict.\<close>

lemma null_arguments_raise:
  assumes "deployed uc st f" "call = [(u ''name'', PStr (u ''add'')), (u ''server_id'', PStr (u ''calc'')), (u ''arguments'', PNone)]"
  shows "fst (evaluate_call uc fr cid pid call f) = Inl (ProxyExn (ConditionErr AttributeErr))"
proof -
  have named: "in_strs (PStr (u ''calc'')) (set KNOWN_SERVERS)" by (simp add: KNOWN_SERVERS_def)
  have "rogue_server_block \<in> set (REALTIME_RULES uc st)" by (simp add: REALTIME_RULES_def)
  have "sort_key (\<lambda>r. - pr_priority r) (REALTIME_RULES uc st) =
      rogue_server_block # privilege_escalation_block uc st #
      drop 2 (sort_key (\<lambda>r. - pr_priority r) (REALTIME_RULES uc st))"
    by (simp add: REALTIME_RULES_def realtime_rule_defs)
  then obtain rs where rules: "ip_rules (fl_proxy f) = rogue_server_block # privilege_escalation_block uc st # rs"
    using assms(1) unfolding deployed_def by metis
  have "first_rule uc call (u ''add'') (ip_rules (fl_proxy f)) = Inl (ConditionErr AttributeErr)"
    using named unfolding rules
    by (simp add: assms(2) realtime_rule_defs is_rogue_server_def is_privileged_call_def call_args_def arg_text_def arg_or_def Let_def)
  moreover have "layer1_passed f (PStr (u ''calc'')) = Inr True"
    using deployed_layer1 [OF assms(1), of call] named by (simp add: assms(2) named_server_def)
  ultimately show ?thesis by (simp add: evaluate_call_def intercept_def check_rules_def assms(2) Let_def)
qed

end
