(* ===== verification/RealtimeStats.thy ===== *)
theory RealtimeStats
  imports RealtimeDefense
begin

text \<open>
  The events and the running statistics of \<open>server/realtime.py\<close>. Times and latencies are rationals; the
  time a layer takes is an argument (\<open>lat\<close>). \<open>rp\<close> is \<open>repr\<close>.
\<close>

section \<open>Events\<close>

record sec_event =
  sv_source :: pystr
  sv_timestamp :: rat
  sv_attack_name :: pyval
  sv_category :: pystr
  sv_severity :: pystr
  sv_tool_name :: pyval
  sv_server_id :: pyval
  sv_blocked :: bool
  sv_blocked_by_layer :: "nat option"
  sv_risk_score :: int
  sv_decision_latency :: rat
  sv_layer_latency :: "(nat \<times> rat) list"
  sv_findings :: "pystr list"

text \<open>\<open>round(q, n)\<close>.\<close>

definition round_digits :: "nat \<Rightarrow> rat \<Rightarrow> rat" where
  "round_digits n q = of_int (round_even (q * 10 ^ n)) / 10 ^ n"

text \<open>The texts of findings, as the layers write them.\<close>

fun proxy_reason_text :: "proxy_reason \<Rightarrow> pystr" where
  "proxy_reason_text (RuleApplied name description) = u ''rule:'' @ name @ u '':'' @ description"
| "proxy_reason_text (InspectorFinding s) = s"
| "proxy_reason_text (OverBlockThreshold risk threshold) =
     u ''risk_score '' @ show_int risk @ u '' >= block_threshold '' @ show_int threshold"
| "proxy_reason_text (OverQuarantineThreshold risk threshold) =
     u ''risk_score '' @ show_int risk @ u '' >= quarantine_threshold '' @ show_int threshold"

fun egress_reason_text :: "(pyval \<Rightarrow> pystr) \<Rightarrow> egress_reason \<Rightarrow> pystr" where
  "egress_reason_text st (NoMatchingRules deny) =
     u ''no_matching_rules'' @ (if deny then u '': default_deny'' else u '': default_allow'')"
| "egress_reason_text st (ExplicitlyBlocked v) =
     u ''destination '' @ [39] @ str_of st v @ [39] @ u '' is explicitly blocked''"
| "egress_reason_text st (PayloadExceeds n m) =
     u ''payload '' @ show_int n @ u ''B exceeds max '' @ show_int m @ u ''B''"
| "egress_reason_text st MatchesAllowRule = u ''matches allow rule''"
| "egress_reason_text st (NoAllowRuleMatched deny) =
     u ''no_allow_rule_matched'' @ (if deny then u '': default_deny'' else [])"

fun finding_text :: "(pyval \<Rightarrow> pystr) \<Rightarrow> (pyval \<Rightarrow> pystr) \<Rightarrow> layer_finding \<Rightarrow> pystr" where
  "finding_text st rp (UnregisteredServer sid) = u ''unregistered (shadow) server: '' @ rp sid"
| "finding_text st rp (ProxyReason r) = proxy_reason_text r"
| "finding_text st rp SpawnIntent = u ''process-spawn intent detected in tool arguments''"
| "finding_text st rp (SemanticReason s) = s"
| "finding_text st rp (EgressReason r) = egress_reason_text st r"

definition verdict_findings :: "(pyval \<Rightarrow> pystr) \<Rightarrow> (pyval \<Rightarrow> pystr) \<Rightarrow> five_verdict \<Rightarrow> pystr list" where
  "verdict_findings st rp v = concat (map (\<lambda>r. map (finding_text st rp) (lr_findings r)) (fv_layer_results v))"

definition has_word :: "pystr \<Rightarrow> string list \<Rightarrow> bool" where
  "has_word s ws \<longleftrightarrow> list_ex (\<lambda>w. contains s (u w)) ws"

definition classify_category :: "(pyval \<Rightarrow> pystr) \<Rightarrow> (pyval \<Rightarrow> pystr) \<Rightarrow> pydict \<Rightarrow> five_verdict \<Rightarrow> pystr" where
  "classify_category st rp call v =
    (let name = py_lower (str_of st (dget_or call (u ''name'') (PStr [])));
         findings = py_lower (join_with [32] (verdict_findings st rp v))
     in if has_word findings [''bcc'', ''recipient''] then u ''email_exfiltration''
        else if has_word findings [''ssrf'', ''metadata''] then u ''ssrf''
        else if has_word findings [''injection'', ''ignore''] then u ''prompt_injection''
        else if has_word findings [''credential'', ''secret'', ''token''] then u ''credential_exfiltration''
        else if has_word findings [''traversal''] then u ''path_traversal''
        else if has_word findings [''command'', ''shell''] then u ''command_injection''
        else if has_word findings [''pii'', ''ssn''] then u ''pii_exposure''
        else if has_word name [''email'', ''smtp''] then u ''email''
        else if has_word name [''db'', ''sql''] then u ''database''
        else u ''tool_call'')"

definition severity_from_risk :: "int \<Rightarrow> pystr" where
  "severity_from_risk risk =
    (if risk \<ge> 80 then u ''CRITICAL'' else if risk \<ge> 50 then u ''HIGH'' else if risk \<ge> 25 then u ''MEDIUM''
     else u ''LOW'')"

text \<open>The event of a scan (the first half of \<open>_broadcast_scan\<close>).\<close>

definition event_of :: "(pyval \<Rightarrow> pystr) \<Rightarrow> (pyval \<Rightarrow> pystr) \<Rightarrow> (nat \<Rightarrow> rat) \<Rightarrow> rat \<Rightarrow> pystr \<Rightarrow> pydict \<Rightarrow>
    five_verdict \<Rightarrow> sec_event" where
  "event_of st rp lat now source call v =
    (let layer_latency_ms = map (\<lambda>r. (lr_layer r, round_digits 3 (lat (lr_layer r)))) (fv_layer_results v)
     in \<lparr>sv_source = source, sv_timestamp = now,
         sv_attack_name = dget_or call (u ''name'') (PStr (u ''tool call'')),
         sv_category = classify_category st rp call v, sv_severity = severity_from_risk (fv_total_risk_score v),
         sv_tool_name = dget_or call (u ''name'') (PStr (u ''unknown'')),
         sv_server_id = dget_or call (u ''server_id'') (PStr (u ''unknown'')),
         sv_blocked = (\<not> fv_allowed v), sv_blocked_by_layer = fv_blocked_by_layer v,
         sv_risk_score = fv_total_risk_score v,
         sv_decision_latency = round_digits 3 (sum_list (map snd layer_latency_ms)),
         sv_layer_latency = layer_latency_ms, sv_findings = take 3 (verdict_findings st rp v)\<rparr>)"

section \<open>Statistics\<close>

record realtime_stats =
  rs_total :: nat
  rs_blocked :: nat
  rs_allowed :: nat
  rs_by_layer :: "(nat \<times> nat) list"
  rs_by_category :: "(pystr \<times> nat) list"
  rs_by_severity :: "(pystr \<times> nat) list"
  rs_source_counts :: "(pystr \<times> nat) list"
  rs_by_server :: "(pystr \<times> nat) list"
  rs_by_tool :: "(pystr \<times> nat) list"
  rs_latencies :: "rat list"
  rs_start :: rat
  rs_eps :: rat
  rs_recent_eps :: "rat list"
  rs_window :: "rat list"
  rs_recent :: "sec_event list"

definition make_realtime_stats :: "rat \<Rightarrow> realtime_stats" where
  "make_realtime_stats now = \<lparr>rs_total = 0, rs_blocked = 0, rs_allowed = 0,
     rs_by_layer = [(1, 0), (2, 0), (3, 0), (4, 0), (5, 0)], rs_by_category = [],
     rs_by_severity = [(u ''CRITICAL'', 0), (u ''HIGH'', 0), (u ''MEDIUM'', 0), (u ''LOW'', 0)],
     rs_source_counts = [(u ''external'', 0), (u ''demo'', 0)], rs_by_server = [], rs_by_tool = [],
     rs_latencies = [], rs_start = now, rs_eps = 0, rs_recent_eps = [], rs_window = [], rs_recent = []\<rparr>"

definition record_event :: "(pyval \<Rightarrow> pystr) \<Rightarrow> rat \<Rightarrow> sec_event \<Rightarrow> realtime_stats \<Rightarrow> realtime_stats" where
  "record_event st now e s =
    (let source = (if has_key (rs_source_counts s) (sv_source e) then sv_source e else u ''external'');
         window = dropWhile (\<lambda>t. now - t > 5) (rs_window s @ [now]);
         eps = of_nat (length window) / 5;
         recent = e # rs_recent s
     in \<lparr>rs_total = Suc (rs_total s),
         rs_blocked = (if sv_blocked e then Suc (rs_blocked s) else rs_blocked s),
         rs_allowed = (if sv_blocked e then rs_allowed s else Suc (rs_allowed s)),
         rs_by_layer = (case sv_blocked_by_layer e of None \<Rightarrow> rs_by_layer s
           | Some l \<Rightarrow> if l \<noteq> 0 \<and> has_key (rs_by_layer s) l then bump l (rs_by_layer s) else rs_by_layer s),
         rs_by_category = bump (sv_category e) (rs_by_category s),
         rs_by_severity = (if has_key (rs_by_severity s) (sv_severity e)
           then bump (sv_severity e) (rs_by_severity s) else rs_by_severity s),
         rs_source_counts = bump source (rs_source_counts s),
         rs_by_server = bump (str_of st (sv_server_id e)) (rs_by_server s),
         rs_by_tool = bump (str_of st (sv_tool_name e)) (rs_by_tool s),
         rs_latencies = last_n 500 (rs_latencies s @ [round_digits 3 (sv_decision_latency e)]),
         rs_start = rs_start s, rs_eps = eps,
         rs_recent_eps = last_n 60 (rs_recent_eps s @ [round_digits 2 eps]),
         rs_window = window,
         rs_recent = (if length recent > 200 then butlast recent else recent)\<rparr>)"

definition percentile :: "rat list \<Rightarrow> rat \<Rightarrow> rat" where
  "percentile samples p =
    (if samples = [] then 0
     else (let ordered = sort samples;
               index = min (length ordered - 1) (nat \<lfloor>of_nat (length ordered - 1) * p\<rfloor>)
           in round_digits 3 (ordered ! index)))"

record stats_view =
  sn_total :: nat
  sn_blocked :: nat
  sn_allowed :: nat
  sn_detection_rate :: rat
  sn_eps :: rat
  sn_by_layer :: "(nat \<times> nat) list"
  sn_by_category :: "(pystr \<times> nat) list"
  sn_by_severity :: "(pystr \<times> nat) list"
  sn_source_counts :: "(pystr \<times> nat) list"
  sn_by_server :: "(pystr \<times> nat) list"
  sn_by_tool :: "(pystr \<times> nat) list"
  sn_samples :: nat
  sn_p50 :: rat
  sn_p95 :: rat
  sn_p99 :: rat
  sn_recent_eps :: "rat list"
  sn_traffic_mode :: pystr
  sn_uptime :: rat

definition traffic_mode :: "bool \<Rightarrow> pystr" where
  "traffic_mode demo = (if demo then u ''demo'' else u ''external'')"

definition stats_snapshot :: "bool \<Rightarrow> rat \<Rightarrow> realtime_stats \<Rightarrow> stats_view" where
  "stats_snapshot demo now s =
     \<lparr>sn_total = rs_total s, sn_blocked = rs_blocked s, sn_allowed = rs_allowed s,
      sn_detection_rate = round_digits 1 (percent (rs_blocked s) (rs_total s)), sn_eps = round_digits 2 (rs_eps s),
      sn_by_layer = rs_by_layer s, sn_by_category = rs_by_category s, sn_by_severity = rs_by_severity s,
      sn_source_counts = rs_source_counts s, sn_by_server = rs_by_server s, sn_by_tool = rs_by_tool s,
      sn_samples = length (rs_latencies s), sn_p50 = percentile (rs_latencies s) (1 / 2),
      sn_p95 = percentile (rs_latencies s) (95 / 100), sn_p99 = percentile (rs_latencies s) (99 / 100),
      sn_recent_eps = last_n 60 (rs_recent_eps s), sn_traffic_mode = traffic_mode demo,
      sn_uptime = round_digits 1 (now - rs_start s)\<rparr>"

section \<open>The figures add up\<close>

definition total_of :: "('k \<times> nat) list \<Rightarrow> nat" where
  "total_of d = sum_list (map snd d)"

lemma total_bump: "total_of (bump k d) = Suc (total_of d)"
proof -
  have "total_of (dset k n d) + dget_or d k 0 = total_of d + n" for n
    by (induction d) (auto simp: total_of_def dget_or_def split: option.splits)
  from this [of "Suc (dget_or d k 0)"] show ?thesis by (simp add: bump_def)
qed

lemma has_key_bump [simp]: "has_key (bump k d) j \<longleftrightarrow> j = k \<or> has_key d j"
  by (simp add: bump_def)

lemma severities: "severity_from_risk risk \<in> {u ''CRITICAL'', u ''HIGH'', u ''MEDIUM'', u ''LOW''}"
  by (simp add: severity_from_risk_def)

definition stats_ok :: "realtime_stats \<Rightarrow> bool" where
  "stats_ok s \<longleftrightarrow>
     rs_total s = rs_blocked s + rs_allowed s \<and> total_of (rs_by_layer s) = rs_blocked s \<and>
     total_of (rs_by_category s) = rs_total s \<and> total_of (rs_by_severity s) = rs_total s \<and>
     total_of (rs_source_counts s) = rs_total s \<and> total_of (rs_by_server s) = rs_total s \<and>
     total_of (rs_by_tool s) = rs_total s \<and>
     length (rs_latencies s) = min 500 (rs_total s) \<and> length (rs_recent_eps s) = min 60 (rs_total s) \<and>
     length (rs_recent s) = min 200 (rs_total s) \<and> length (rs_window s) \<le> rs_total s"

definition stats_keys :: "realtime_stats \<Rightarrow> bool" where
  "stats_keys s \<longleftrightarrow> (\<forall>l \<in> {1, 2, 3, 4, 5}. has_key (rs_by_layer s) l) \<and>
     (\<forall>k \<in> {u ''CRITICAL'', u ''HIGH'', u ''MEDIUM'', u ''LOW''}. has_key (rs_by_severity s) k)"

text \<open>What the event of a verdict satisfies: a severity of the four, and a layer exactly when it blocks.\<close>

definition event_ok :: "sec_event \<Rightarrow> bool" where
  "event_ok e \<longleftrightarrow> sv_severity e \<in> {u ''CRITICAL'', u ''HIGH'', u ''MEDIUM'', u ''LOW''} \<and>
     (case sv_blocked_by_layer e of None \<Rightarrow> \<not> sv_blocked e | Some l \<Rightarrow> sv_blocked e \<and> l \<in> {1, 2, 3, 4, 5})"

lemma made_stats: "stats_ok (make_realtime_stats now) \<and> stats_keys (make_realtime_stats now)"
  by (simp add: stats_ok_def stats_keys_def make_realtime_stats_def total_of_def has_key_iff)

lemma recent_length:
  "length xs = min 200 n \<Longrightarrow> length (if length (e # xs) > 200 then butlast (e # xs) else e # xs) = min 200 (Suc n)"
  by (auto simp: min_def split: if_splits)

lemma kept_length: "length xs = min k n \<Longrightarrow> length (last_n k (xs @ [x])) = min k (Suc n)"
  by (auto simp: min_def)

lemma window_length: "length (dropWhile P (xs @ [x])) \<le> Suc (length xs)"
  using length_dropWhile_le [of P "xs @ [x]"] by simp

lemma record_event_ok:
  assumes "stats_ok s" "stats_keys s" "event_ok e"
  shows "stats_ok (record_event st now e s) \<and> stats_keys (record_event st now e s)"
proof -
  have sev: "has_key (rs_by_severity s) (sv_severity e)" using assms(2,3) by (auto simp: stats_keys_def event_ok_def)
  have layer: "total_of (rs_by_layer (record_event st now e s)) = rs_blocked (record_event st now e s)"
  proof (cases "sv_blocked_by_layer e")
    case None
    with assms(1,3) show ?thesis by (simp add: record_event_def Let_def stats_ok_def event_ok_def)
  next
    case (Some l)
    with assms(2,3) have "sv_blocked e" "l \<noteq> 0" "has_key (rs_by_layer s) l"
      by (auto simp: event_ok_def stats_keys_def)
    with assms(1) Some show ?thesis by (simp add: record_event_def Let_def stats_ok_def total_bump)
  qed
  have win: "length (rs_window (record_event st now e s)) \<le> Suc (rs_total s)"
    using window_length [of "\<lambda>t. now - t > 5" "rs_window s" now] assms(1)
    by (simp add: record_event_def Let_def stats_ok_def)
  have counts: "rs_total (record_event st now e s) = Suc (rs_total s)"
    "rs_total (record_event st now e s) = rs_blocked (record_event st now e s) + rs_allowed (record_event st now e s)"
    "total_of (rs_by_category (record_event st now e s)) = Suc (rs_total s)"
    "total_of (rs_by_severity (record_event st now e s)) = Suc (rs_total s)"
    "total_of (rs_source_counts (record_event st now e s)) = Suc (rs_total s)"
    "total_of (rs_by_server (record_event st now e s)) = Suc (rs_total s)"
    "total_of (rs_by_tool (record_event st now e s)) = Suc (rs_total s)"
    using assms(1) sev by (simp_all add: record_event_def Let_def stats_ok_def total_bump)
  have "length (rs_latencies (record_event st now e s)) = min 500 (Suc (rs_total s))"
    "length (rs_recent_eps (record_event st now e s)) = min 60 (Suc (rs_total s))"
    "length (rs_recent (record_event st now e s)) = min 200 (Suc (rs_total s))"
    using kept_length [of "rs_latencies s" 500 "rs_total s"] kept_length [of "rs_recent_eps s" 60 "rs_total s"]
      recent_length [of "rs_recent s" "rs_total s" e] assms(1)
    unfolding record_event_def Let_def realtime_stats.simps stats_ok_def by blast+
  with counts layer win have "stats_ok (record_event st now e s)" by (simp add: stats_ok_def)
  moreover have "stats_keys (record_event st now e s)"
    using assms(2) by (auto simp: stats_keys_def record_event_def Let_def split: option.splits)
  ultimately show ?thesis ..
qed

lemma event_fields [simp]:
  "sv_severity (event_of st rp lat now source call v) = severity_from_risk (fv_total_risk_score v)"
  "sv_blocked_by_layer (event_of st rp lat now source call v) = fv_blocked_by_layer v"
  "sv_blocked (event_of st rp lat now source call v) \<longleftrightarrow> \<not> fv_allowed v"
  by (simp_all add: event_of_def Let_def)

lemma event_of_ok:
  assumes "blames_last v"
  shows "event_ok (event_of st rp lat now source call v)"
proof -
  from assms have "map lr_layer (fv_layer_results v) = take (length (fv_layer_results v)) [1, 2, 3, 4, 5]"
    by (simp add: blames_last_def Let_def)
  from arg_cong [OF this, of length] have "length (fv_layer_results v) \<le> 5" by simp
  moreover have "n \<in> {1, 2, 3, 4, 5}" if "n \<le> 5" "n \<noteq> 0" for n :: nat using that by auto
  ultimately have layer: "length (fv_layer_results v) \<noteq> 0 \<Longrightarrow> length (fv_layer_results v) \<in> {1, 2, 3, 4, 5}" by blast
  show ?thesis
  proof (cases "fv_allowed v")
    case True
    with assms severities show ?thesis unfolding event_ok_def event_fields by (simp add: blames_last_def Let_def)
  next
    case False
    with assms have "fv_blocked_by_layer v = Some (length (fv_layer_results v))" "length (fv_layer_results v) \<noteq> 0"
      by (simp_all add: blames_last_def Let_def)
    with False layer severities show ?thesis unfolding event_ok_def event_fields by simp
  qed
qed

section \<open>Percentiles\<close>

text \<open>Before rounding, the percentile is one of the samples; the share of samples up to it is at least
  \<open>p\<close> of all but one.\<close>

lemma sorted_prefix: "sorted xs \<Longrightarrow> i < length xs \<Longrightarrow> Suc i \<le> length (filter (\<lambda>x. x \<le> xs ! i) xs)"
proof -
  assume "sorted xs" "i < length xs"
  then have "filter (\<lambda>x. x \<le> xs ! i) (take (Suc i) xs) = take (Suc i) xs"
    by (auto simp: filter_id_conv in_set_conv_nth sorted_iff_nth_mono)
  moreover have "length (filter (\<lambda>x. x \<le> xs ! i) (take (Suc i) xs)) \<le> length (filter (\<lambda>x. x \<le> xs ! i) xs)"
    by (metis append_take_drop_id filter_append le_add1 length_append)
  ultimately show ?thesis using \<open>i < length xs\<close> by simp
qed

lemma floor_less: "0 \<le> x \<Longrightarrow> x < of_nat (Suc (nat \<lfloor>x\<rfloor>))" for x :: rat
  by (simp add: add.commute) linarith

lemma percentile_rank:
  assumes "samples \<noteq> []" "0 \<le> p" "p \<le> 1"
  obtains x where "x \<in> set samples" "percentile samples p = round_digits 3 x"
    "of_nat (length samples - 1) * p < of_nat (length (filter (\<lambda>y. y \<le> x) samples))"
proof -
  let ?o = "sort samples" and ?n = "length samples"
  let ?k = "nat \<lfloor>of_nat (?n - 1) * p\<rfloor>"
  have n: "0 < ?n" using assms(1) by simp
  have "of_nat (?n - 1) * p \<le> of_nat (?n - 1)" using assms(3) by (simp add: mult_left_le)
  then have k: "?k \<le> ?n - 1" by linarith
  then have "?k < length ?o" unfolding length_sort using n by linarith
  then have mem: "?o ! ?k \<in> set samples" by (metis nth_mem set_sort)
  have val: "percentile samples p = round_digits 3 (?o ! ?k)"
    using assms(1) k by (simp add: percentile_def min_def Let_def)
  have "Suc ?k \<le> length (filter (\<lambda>y. y \<le> ?o ! ?k) ?o)"
    by (rule sorted_prefix [OF sorted_sort \<open>?k < length ?o\<close>])
  then have "Suc ?k \<le> length (filter (\<lambda>y. y \<le> ?o ! ?k) samples)"
    by (simp add: filter_sort)
  then have a: "of_nat (Suc ?k) \<le> (of_nat (length (filter (\<lambda>y. y \<le> ?o ! ?k) samples)) :: rat)"
    by (simp only: of_nat_le_iff)
  have b: "of_nat (?n - 1) * p < of_nat (Suc ?k)" by (rule floor_less) (use assms(2) in simp)
  show ?thesis by (rule that [OF mem val order.strict_trans2 [OF b a]])
qed

end
