(* ===== verification/RealtimeServer.thy ===== *)
theory RealtimeServer
  imports RealtimeStats HttpRequest Utf8
begin

text \<open>
  The service of \<open>server/realtime.py\<close>: settings, key and rate checks, the body limit, the sockets of the
  dashboards, and the routes. FastAPI is a parameter: a request comes with its parsed body (\<open>rq_json\<close>), and
  the framework refuses a body that is no JSON before, and one that is no object after the key check.
  Requests are handled one after the other; while an event is sent to the dashboards, sockets come and go.
\<close>

section \<open>Settings\<close>

record realtime_settings =
  rz_env :: pystr
  rz_api_key :: pystr
  rz_max_body :: int
  rz_rpm :: int
  rz_max_ws :: int

datatype settings_exn = NotANumber | ShortKey | BodyLimit | RateLimit | SocketLimit

definition env_text :: "(pystr \<Rightarrow> pystr option) \<Rightarrow> string \<Rightarrow> string \<Rightarrow> pystr" where
  "env_text environ name def_val = (case environ (u name) of None \<Rightarrow> u def_val | Some v \<Rightarrow> v)"

definition env_number :: "(pystr \<Rightarrow> pystr option) \<Rightarrow> string \<Rightarrow> string \<Rightarrow> settings_exn + int" where
  "env_number environ name def_val =
     (case py_int 10 (env_text environ name def_val) of None \<Rightarrow> Inl NotANumber | Some n \<Rightarrow> Inr n)"

definition setting :: "bool \<Rightarrow> settings_exn \<Rightarrow> settings_exn + unit" where
  "setting bad exc = (if bad then Inl exc else Inr ())"

definition read_settings :: "(pystr \<Rightarrow> pystr option) \<Rightarrow> settings_exn + realtime_settings" where
  "read_settings environ =
    (let env = py_lower (py_strip (env_text environ ''MCP_REALTIME_ENV'' ''development''));
         key = env_text environ ''MCP_REALTIME_API_KEY'' ''''
     in rbind (env_number environ ''MCP_REALTIME_MAX_BODY_BYTES'' ''131072'') (\<lambda>body.
        rbind (env_number environ ''MCP_REALTIME_RATE_LIMIT_RPM'' ''120'') (\<lambda>rpm.
        rbind (env_number environ ''MCP_REALTIME_MAX_WS_CONNECTIONS'' ''32'') (\<lambda>ws.
        rbind (setting (env = u ''production'' \<and> length key < 32) ShortKey) (\<lambda>_.
        rbind (setting (body < 1024 \<or> body > 1024 * 1024) BodyLimit) (\<lambda>_.
        rbind (setting (rpm < 1 \<or> rpm > 10000) RateLimit) (\<lambda>_.
        rbind (setting (ws < 1 \<or> ws > 1024) SocketLimit) (\<lambda>_.
        Inr \<lparr>rz_env = env, rz_api_key = key, rz_max_body = body, rz_rpm = rpm, rz_max_ws = ws\<rparr>))))))))"

section \<open>State\<close>

text \<open>\<open>rt_pending\<close>: the sockets whose handshake has passed the checks and is being accepted.\<close>

record realtime =
  rt_settings :: realtime_settings
  rt_windows :: "(pystr \<times> rat list) list"
  rt_defense :: five_layer
  rt_stats :: realtime_stats
  rt_active :: "nat list"
  rt_pending :: "nat list"
  rt_demo :: bool

definition start_realtime :: "ucd \<Rightarrow> (pyval \<Rightarrow> pystr) \<Rightarrow> (pystr \<Rightarrow> pystr option) \<Rightarrow> rat \<Rightarrow> settings_exn + realtime" where
  "start_realtime uc st environ now =
     rbind (read_settings environ) (\<lambda>z.
       Inr \<lparr>rt_settings = z, rt_windows = [], rt_defense = build_defense uc st, rt_stats = make_realtime_stats now,
         rt_active = [], rt_pending = [], rt_demo = (env_text environ ''MCP_DEMO_MODE'' ''0'' = u ''1'')\<rparr>)"

section \<open>Keys and rates\<close>

definition auth_required :: "realtime_settings \<Rightarrow> bool" where
  "auth_required z \<longleftrightarrow> rz_env z = u ''production'' \<or> rz_api_key z \<noteq> []"

definition consume_rate :: "int \<Rightarrow> pystr \<Rightarrow> rat \<Rightarrow> (pystr \<times> rat list) list \<Rightarrow> bool \<times> (pystr \<times> rat list) list" where
  "consume_rate rpm identity now ws =
    (let bucket = filter (\<lambda>ts. ts > now - 60) (dget_or ws identity [])
     in if int (length bucket) \<ge> rpm then (False, dset identity bucket ws)
        else (True, dset identity (bucket @ [now]) ws))"

datatype auth = Granted | Denied int string | AuthRaised

definition require_api_key :: "headers \<Rightarrow> pystr option \<Rightarrow> rat \<Rightarrow> realtime \<Rightarrow> auth \<times> realtime" where
  "require_api_key hs peer now s =
    (let z = rt_settings s; supplied = dget_or hs (u ''x-api-key'') []
     in if \<not> auth_required z then (Granted, s)
        else if length (rz_api_key z) < 32 then (Denied 503 ''Realtime API authentication is not configured'', s)
        else if supplied = [] then (Denied 401 ''Unauthorized'', s)
        else (case compare_digest supplied (rz_api_key z) of
            Inl _ \<Rightarrow> (AuthRaised, s)
          | Inr False \<Rightarrow> (Denied 401 ''Unauthorized'', s)
          | Inr True \<Rightarrow>
              (let identity = (case peer of None \<Rightarrow> u ''unknown'' | Some host \<Rightarrow> host);
                   (ok, ws) = consume_rate (rz_rpm z) identity now (rt_windows s)
               in (if ok then Granted else Denied 429 ''Rate limit exceeded'', s\<lparr>rt_windows := ws\<rparr>))))"

section \<open>The sockets of the dashboards\<close>

text \<open>\<open>broadcast\<close>: one send after the other over the list, by index, as \<open>for\<close> does. Each send succeeds or
  fails, and while it waits other tasks may add or remove sockets; after the sends listed all the rest
  succeed. At the end the sockets that failed are removed, which raises when one is gone already.\<close>

datatype ws_change = Joins nat | Leaves nat

fun apply_change :: "ws_change \<Rightarrow> nat list \<Rightarrow> nat list" where
  "apply_change (Joins w) active = active @ [w]"
| "apply_change (Leaves w) active = remove1 w active"

fun send_all :: "nat \<Rightarrow> (bool \<times> ws_change list) list \<Rightarrow> nat list \<Rightarrow> nat list \<Rightarrow> nat list \<times> nat list" where
  "send_all i [] active dead = (active, dead)"
| "send_all i ((ok, changes) # sends) active dead =
    (if i < length active
     then send_all (Suc i) sends (fold apply_change changes active) (if ok then dead else dead @ [active ! i])
     else (active, dead))"

fun remove_dead :: "nat list \<Rightarrow> nat list \<Rightarrow> bool \<times> nat list" where
  "remove_dead [] active = (True, active)"
| "remove_dead (w # dead) active = (if w \<in> set active then remove_dead dead (remove1 w active) else (False, active))"

definition broadcast :: "(bool \<times> ws_change list) list \<Rightarrow> nat list \<Rightarrow> bool \<times> nat list" where
  "broadcast sends active = (case send_all 0 sends active [] of (active', dead) \<Rightarrow> remove_dead dead active')"

datatype ws_reply = WsClose nat | WsAccept | WsRaised | WsStats stats_view | WsSnapshot stats_view "sec_event list" | WsSilent

definition ws_handshake :: "nat \<Rightarrow> headers \<Rightarrow> realtime \<Rightarrow> ws_reply \<times> realtime" where
  "ws_handshake w hs s =
    (let z = rt_settings s; supplied = dget_or hs (u ''x-api-key'') [];
         denied = (if \<not> auth_required z then Inr False
           else if length (rz_api_key z) < 32 \<or> supplied = [] then Inr True
           else rbind (compare_digest supplied (rz_api_key z)) (\<lambda>same. Inr (\<not> same)))
     in case denied of
          Inl _ \<Rightarrow> (WsRaised, s)
        | Inr True \<Rightarrow> (WsClose 1008, s)
        | Inr False \<Rightarrow>
            if int (length (rt_active s)) \<ge> rz_max_ws z then (WsClose 1013, s)
            else (WsAccept, s\<lparr>rt_pending := rt_pending s @ [w]\<rparr>))"

definition ws_accepted :: "nat \<Rightarrow> rat \<Rightarrow> realtime \<Rightarrow> ws_reply \<times> realtime" where
  "ws_accepted w now s =
    (let s1 = s\<lparr>rt_active := rt_active s @ [w], rt_pending := remove1 w (rt_pending s)\<rparr>
     in (WsSnapshot (stats_snapshot (rt_demo s) now (rt_stats s)) (take 60 (rs_recent (rt_stats s))), s1))"

definition ws_disconnect :: "nat \<Rightarrow> realtime \<Rightarrow> realtime" where
  "ws_disconnect w s = s\<lparr>rt_active := remove1 w (rt_active s)\<rparr>"

definition ws_text :: "nat \<Rightarrow> pystr \<Rightarrow> rat \<Rightarrow> realtime \<Rightarrow> ws_reply \<times> realtime" where
  "ws_text w data now s =
    (case utf8_encode data of
       None \<Rightarrow> (WsSilent, ws_disconnect w s)
     | Some bs \<Rightarrow>
         if length bs > 64 then (WsClose 1009, s)
         else if data = u ''stats'' then (WsStats (stats_snapshot (rt_demo s) now (rt_stats s)), s)
         else (WsSilent, s))"

section \<open>Requests\<close>

datatype parsed_body = NoJson | OtherJson | CallJson pydict

record rt_request =
  rq_method :: pystr
  rq_path :: pystr
  rq_headers :: headers
  rq_peer :: "pystr option"
  rq_body :: pybytes
  rq_json :: parsed_body

text \<open>What the world adds to a request: the clock readings, the ids, the layer times, the sends.\<close>

record rt_io =
  io_auth_time :: rat
  io_event_time :: rat
  io_record_time :: rat
  io_call_id :: pystr
  io_proxy_id :: pystr
  io_lat :: "nat \<Rightarrow> rat"
  io_sends :: "(bool \<times> ws_change list) list"

record rt_env =
  re_ucd :: ucd
  re_str :: "pyval \<Rightarrow> pystr"
  re_repr :: "pyval \<Rightarrow> pystr"
  re_float :: "rat \<Rightarrow> pystr"

datatype rt_body = Detail string | Snapshot stats_view | Threats "sec_event list" | Scanned five_verdict

record rt_answer =
  ra_status :: int
  ra_body :: rt_body
  ra_headers :: "(string \<times> string) list"

definition reply_with :: "int \<Rightarrow> rt_body \<Rightarrow> rt_answer" where
  "reply_with status body = \<lparr>ra_status = status, ra_body = body, ra_headers = []\<rparr>"

type_synonym rt_step = "realtime \<Rightarrow> (unit + rt_answer) \<times> realtime"

text \<open>\<open>Depends(_require_realtime_api_key)\<close>.\<close>

definition with_key :: "rt_io \<Rightarrow> rt_request \<Rightarrow> rt_step \<Rightarrow> rt_step" where
  "with_key io rq handler s =
    (case require_api_key (rq_headers rq) (rq_peer rq) (io_auth_time io) s of
       (Granted, s1) \<Rightarrow> handler s1
     | (Denied status msg, s1) \<Rightarrow>
         (Inr ((reply_with status (Detail msg))\<lparr>ra_headers := (if status = 429 then [(''Retry-After'', ''60'')] else [])\<rparr>), s1)
     | (AuthRaised, s1) \<Rightarrow> (Inl (), s1))"

definition broadcast_scan :: "rt_env \<Rightarrow> rt_io \<Rightarrow> pydict \<Rightarrow> five_verdict \<Rightarrow> pystr \<Rightarrow> realtime \<Rightarrow> bool \<times> realtime" where
  "broadcast_scan env io call v source s =
    (let e = event_of (re_str env) (re_repr env) (io_lat io) (io_event_time io) source call v;
         (ok, active) = broadcast (io_sends io) (rt_active s)
     in (ok, s\<lparr>rt_stats := record_event (re_str env) (io_record_time io) e (rt_stats s), rt_active := active\<rparr>))"

definition api_scan :: "rt_env \<Rightarrow> rt_io \<Rightarrow> pydict \<Rightarrow> rt_step" where
  "api_scan env io call s =
    (case evaluate_call (re_ucd env) (re_float env) (io_call_id io) (io_proxy_id io) call (rt_defense s) of
       (Inl exc, f) \<Rightarrow> (Inl (), s\<lparr>rt_defense := f\<rparr>)
     | (Inr v, f) \<Rightarrow>
         (case broadcast_scan env io call v (u ''external'') (s\<lparr>rt_defense := f\<rparr>) of
            (True, s1) \<Rightarrow> (Inr (reply_with 200 (Scanned v)), s1)
          | (False, s1) \<Rightarrow> (Inl (), s1)))"

definition api_stats :: "rt_io \<Rightarrow> rt_step" where
  "api_stats io s = (Inr (reply_with 200 (Snapshot (stats_snapshot (rt_demo s) (io_event_time io) (rt_stats s)))), s)"

definition api_threats :: rt_step where
  "api_threats s = (Inr (reply_with 200 (Threats (take 50 (rs_recent (rt_stats s))))), s)"

definition scan_route :: "rt_env \<Rightarrow> rt_io \<Rightarrow> rt_request \<Rightarrow> rt_step" where
  "scan_route env io rq s =
    (case rq_json rq of
       NoJson \<Rightarrow> (Inr (reply_with 422 (Detail ''json_invalid'')), s)
     | OtherJson \<Rightarrow> with_key io rq (\<lambda>s. (Inr (reply_with 422 (Detail ''dict_type'')), s)) s
     | CallJson call \<Rightarrow> with_key io rq (api_scan env io call) s)"

definition realtime_route :: "rt_env \<Rightarrow> rt_io \<Rightarrow> rt_request \<Rightarrow> rt_step" where
  "realtime_route env io rq s =
    (if rq_path rq = u ''/api/scan'' \<and> rq_method rq = u ''POST'' then scan_route env io rq s
     else if rq_path rq = u ''/api/stats'' \<and> rq_method rq = u ''GET'' then with_key io rq (api_stats io) s
     else if rq_path rq = u ''/api/threats'' \<and> rq_method rq = u ''GET'' then with_key io rq api_threats s
     else (Inr (reply_with 404 (Detail ''Not Found'')), s))"

definition SECURITY_HEADERS :: "(string \<times> string) list" where
  "SECURITY_HEADERS = [(''X-Content-Type-Options'', ''nosniff''), (''X-Frame-Options'', ''DENY''),
     (''Referrer-Policy'', ''no-referrer'')]"

text \<open>The answers the middleware gives itself: a declared length over the limit or that is no number, and a
  body over the limit.\<close>

definition body_refusal :: "realtime_settings \<Rightarrow> rt_request \<Rightarrow> rt_answer option" where
  "body_refusal z rq =
    (let declared = dget_or (rq_headers rq) (u ''content-length'') [];
         too_large = reply_with 413 (Detail ''Request body too large'')
     in if rq_method rq \<notin> {u ''POST'', u ''PUT'', u ''PATCH''} then None
        else (case (if declared = [] then Some 0 else py_int 10 declared) of
            None \<Rightarrow> Some (reply_with 400 (Detail ''Invalid Content-Length''))
          | Some n \<Rightarrow>
              if n > rz_max_body z then Some too_large
              else if int (length (rq_body rq)) > rz_max_body z then Some too_large else None))"

definition security_boundary :: "rt_request \<Rightarrow> rt_step \<Rightarrow> rt_step" where
  "security_boundary rq call_next s =
    (case body_refusal (rt_settings s) rq of
       Some refusal \<Rightarrow> (Inr refusal, s)
     | None \<Rightarrow>
         (case call_next s of
            (Inl exc, s1) \<Rightarrow> (Inl exc, s1)
          | (Inr a, s1) \<Rightarrow> (Inr (a\<lparr>ra_headers := ra_headers a @ SECURITY_HEADERS\<rparr>), s1)))"

definition serve_realtime :: "rt_env \<Rightarrow> rt_io \<Rightarrow> rt_request \<Rightarrow> rt_step" where
  "serve_realtime env io rq = security_boundary rq (realtime_route env io rq)"

section \<open>A run\<close>

datatype rt_event =
    Http rt_io rt_request
  | WsOpen nat headers
  | WsAccepted nat rat
  | WsText nat pystr rat
  | WsGone nat

definition rt_step_event :: "rt_env \<Rightarrow> rt_event \<Rightarrow> realtime \<Rightarrow> realtime" where
  "rt_step_event env e s =
    (case e of
       Http io rq \<Rightarrow> snd (serve_realtime env io rq s)
     | WsOpen w hs \<Rightarrow> snd (ws_handshake w hs s)
     | WsAccepted w now \<Rightarrow> if w \<in> set (rt_pending s) then snd (ws_accepted w now s) else s
     | WsText w data now \<Rightarrow> snd (ws_text w data now s)
     | WsGone w \<Rightarrow> ws_disconnect w s)"

definition run_realtime :: "rt_env \<Rightarrow> rt_event list \<Rightarrow> realtime \<Rightarrow> realtime" where
  "run_realtime env es s = fold (rt_step_event env) es s"

section \<open>What a run keeps\<close>

definition settings_ok :: "realtime_settings \<Rightarrow> bool" where
  "settings_ok z \<longleftrightarrow> (rz_env z = u ''production'' \<longrightarrow> 32 \<le> length (rz_api_key z)) \<and>
     1024 \<le> rz_max_body z \<and> rz_max_body z \<le> 1024 * 1024 \<and> 1 \<le> rz_rpm z \<and> rz_rpm z \<le> 10000 \<and>
     1 \<le> rz_max_ws z \<and> rz_max_ws z \<le> 1024"

definition realtime_ok :: "rt_env \<Rightarrow> realtime \<Rightarrow> bool" where
  "realtime_ok env s \<longleftrightarrow> settings_ok (rt_settings s) \<and> deployed (re_ucd env) (re_str env) (rt_defense s) \<and>
     stats_ok (rt_stats s) \<and> stats_keys (rt_stats s)"

lemma setting_Inr [simp]: "setting bad exc = Inr x \<longleftrightarrow> \<not> bad"
  by (simp add: setting_def)

lemma settings_read: "read_settings environ = Inr z \<Longrightarrow> settings_ok z"
  by (auto simp: read_settings_def settings_ok_def Let_def not_less)

lemma started_ok: "start_realtime (re_ucd env) (re_str env) environ now = Inr s \<Longrightarrow> realtime_ok env s"
  using settings_read built_deployed made_stats by (auto simp: start_realtime_def realtime_ok_def)

lemma require_keeps:
  assumes "require_api_key hs peer now s = (a, s1)"
  shows "\<exists>ws. s1 = s\<lparr>rt_windows := ws\<rparr>"
  using assms unfolding require_api_key_def Let_def
  by (auto split: if_splits sum.splits bool.splits prod.splits) (rule exI [of _ "rt_windows s1"], simp)+

lemma windows_ok [simp]: "realtime_ok env (s\<lparr>rt_windows := ws\<rparr>) \<longleftrightarrow> realtime_ok env s"
  by (simp add: realtime_ok_def)

lemma require_ok: "require_api_key hs peer now s = (a, s1) \<Longrightarrow> realtime_ok env s1 \<longleftrightarrow> realtime_ok env s"
  by (auto dest: require_keeps)

lemma scan_ok:
  assumes "realtime_ok env s"
  shows "realtime_ok env (snd (api_scan env io call s))"
proof -
  obtain out f where ev: "evaluate_call (re_ucd env) (re_float env) (io_call_id io) (io_proxy_id io) call (rt_defense s) = (out, f)"
    by fastforce
  have dep: "deployed (re_ucd env) (re_str env) f"
    using evaluate_keeps [of "re_ucd env" "re_str env" "rt_defense s" "re_float env" "io_call_id io" "io_proxy_id io" call] assms ev
    by (simp add: realtime_ok_def)
  show ?thesis
  proof (cases out)
    case (Inl exc)
    with ev dep assms show ?thesis by (simp add: api_scan_def realtime_ok_def)
  next
    case (Inr v)
    with evaluate_decides ev have "blames_last v" by blast
    from event_of_ok [OF this, THEN record_event_ok [rotated 2]] assms dep ev Inr show ?thesis
      by (auto simp: api_scan_def broadcast_scan_def realtime_ok_def Let_def split: prod.splits bool.splits)
  qed
qed

lemma with_key_ok:
  assumes "\<And>s. realtime_ok env s \<Longrightarrow> realtime_ok env (snd (handler s))" "realtime_ok env s"
  shows "realtime_ok env (snd (with_key io rq handler s))"
proof -
  obtain a s1 where r: "require_api_key (rq_headers rq) (rq_peer rq) (io_auth_time io) s = (a, s1)" by fastforce
  with require_ok [OF r] assms show ?thesis by (cases a) (simp_all add: with_key_def)
qed

lemma route_ok: "realtime_ok env s \<Longrightarrow> realtime_ok env (snd (realtime_route env io rq s))"
  by (auto simp: realtime_route_def scan_route_def api_stats_def api_threats_def intro!: with_key_ok scan_ok
      split: parsed_body.splits)

lemma boundary_snd:
  "snd (security_boundary rq call_next s) = (if body_refusal (rt_settings s) rq = None then snd (call_next s) else s)"
  by (auto simp: security_boundary_def split: option.splits prod.splits sum.splits)

lemma event_ok_run: "realtime_ok env s \<Longrightarrow> realtime_ok env (rt_step_event env e s)"
proof (cases e)
  case (Http io rq)
  assume "realtime_ok env s"
  with route_ok Http show ?thesis by (simp add: rt_step_event_def serve_realtime_def boundary_snd)
next
  case (WsOpen w hs)
  assume "realtime_ok env s"
  with WsOpen show ?thesis
    by (auto simp: rt_step_event_def ws_handshake_def realtime_ok_def Let_def split: sum.splits bool.splits)
qed (auto simp: rt_step_event_def ws_accepted_def ws_text_def ws_disconnect_def realtime_ok_def Let_def split: option.splits)

lemma run_ok: "realtime_ok env s \<Longrightarrow> realtime_ok env (run_realtime env es s)"
  unfolding run_realtime_def by (induction es arbitrary: s) (auto intro: event_ok_run)

section \<open>A scan is authorised, recorded and answered as the defence decides\<close>

definition holds_key :: "realtime_settings \<Rightarrow> rt_request \<Rightarrow> bool" where
  "holds_key z rq \<longleftrightarrow> \<not> auth_required z \<or>
     32 \<le> length (rz_api_key z) \<and> dget (rq_headers rq) (u ''x-api-key'') = Some (rz_api_key z)"

lemma granted_key: "require_api_key (rq_headers rq) peer now s = (Granted, s1) \<Longrightarrow> holds_key (rt_settings s) rq"
  by (auto simp: require_api_key_def holds_key_def compare_digest_def dget_or_def Let_def
      split: if_splits sum.splits bool.splits prod.splits option.splits)

text \<open>What is scanned: the verdict on the call, in the answer and at the head of the recent events.\<close>

definition scan_recorded :: "rt_env \<Rightarrow> rt_io \<Rightarrow> pydict \<Rightarrow> five_verdict \<Rightarrow> realtime \<Rightarrow> realtime \<Rightarrow> bool" where
  "scan_recorded env io call v s s' \<longleftrightarrow>
     rs_total (rt_stats s') = Suc (rs_total (rt_stats s)) \<and>
     (\<exists>older. rs_recent (rt_stats s') =
        event_of (re_str env) (re_repr env) (io_lat io) (io_event_time io) (u ''external'') call v # older) \<and>
     (fv_allowed v \<longleftrightarrow> named_server call \<and> clears (re_ucd env) (re_str env) (re_float env) call (fl_semantic (rt_defense s)))"

lemma record_event_recent:
  "rs_total (record_event st now e s) = Suc (rs_total s) \<and> (\<exists>older. rs_recent (record_event st now e s) = e # older)"
  by (cases "rs_recent s") (simp_all add: record_event_def Let_def)

lemma scan_effect:
  assumes "realtime_ok env s" "api_scan env io call s = (out, s')"
  shows "(\<exists>v. scan_recorded env io call v s s' \<and> (\<forall>a. out = Inr a \<longrightarrow> ra_body a = Scanned v)) \<or>
    rt_stats s' = rt_stats s \<and> isl out"
proof -
  obtain r f where ev: "evaluate_call (re_ucd env) (re_float env) (io_call_id io) (io_proxy_id io) call (rt_defense s) = (r, f)"
    by fastforce
  show ?thesis
  proof (cases r)
    case (Inl exc)
    with ev assms(2) show ?thesis by (auto simp: api_scan_def)
  next
    case (Inr v)
    note ok = deployed_allows [OF assms(1) [unfolded realtime_ok_def, THEN conjunct2, THEN conjunct1] ev [unfolded Inr]]
    let ?e = "event_of (re_str env) (re_repr env) (io_lat io) (io_event_time io) (u ''external'') call v"
    have "rt_stats s' = record_event (re_str env) (io_record_time io) ?e (rt_stats s) \<and>
        (\<forall>a. out = Inr a \<longrightarrow> ra_body a = Scanned v)"
      using assms(2) ev Inr
      by (auto simp: api_scan_def broadcast_scan_def reply_with_def Let_def split: prod.splits bool.splits)
    with record_event_recent [of "re_str env" "io_record_time io" ?e "rt_stats s"] ok
    show ?thesis unfolding scan_recorded_def by metis
  qed
qed

definition is_scan :: "rt_answer \<Rightarrow> bool" where
  "is_scan a \<longleftrightarrow> (\<exists>v. ra_body a = Scanned v)"

lemma with_key_effect:
  assumes "with_key io rq handler s = (out, s')"
  obtains (granted) s1 where "handler s1 = (out, s')" "\<exists>ws. s1 = s\<lparr>rt_windows := ws\<rparr>" "holds_key (rt_settings s) rq"
  | (refused) "rt_stats s' = rt_stats s" "\<And>a. out = Inr a \<Longrightarrow> \<not> is_scan a"
proof -
  obtain a s1 where r: "require_api_key (rq_headers rq) (rq_peer rq) (io_auth_time io) s = (a, s1)" by fastforce
  note k = require_keeps [OF r]
  show ?thesis
  proof (cases a)
    case Granted
    with assms r have "handler s1 = (out, s')" by (simp add: with_key_def)
    from granted [OF this k granted_key [OF r [unfolded Granted]]] show ?thesis .
  next
    case (Denied status msg)
    with assms r k show ?thesis by (intro refused) (auto simp: with_key_def reply_with_def is_scan_def)
  next
    case AuthRaised
    with assms r k show ?thesis by (intro refused) (auto simp: with_key_def)
  qed
qed

lemma windows_recorded: "scan_recorded env io call v (s\<lparr>rt_windows := ws\<rparr>) s' \<longleftrightarrow> scan_recorded env io call v s s'"
  by (simp add: scan_recorded_def)

text \<open>
  A request changes the statistics, or is answered with a verdict, only as a scan: a POST of an object to
  \<open>/api/scan\<close>, within the body limit, that carries the key when one is required (always in production). It
  is then counted once and stands at the head of the recent events; and the verdict, in the answer too,
  allows the call exactly when it names a known server or none, no rule objects, and the other layers let
  it pass, whatever was served before.
\<close>

theorem realtime_scan_guarded:
  assumes start: "start_realtime (re_ucd env) (re_str env) environ t0 = Inr s0" and s: "s = run_realtime env es s0"
    and serve: "serve_realtime env io rq s = (out, s')"
    and effect: "rt_stats s' \<noteq> rt_stats s \<or> (\<exists>a v. out = Inr a \<and> ra_body a = Scanned v)"
  shows "\<exists>call v. rq_path rq = u ''/api/scan'' \<and> rq_method rq = u ''POST'' \<and> rq_json rq = CallJson call \<and>
    int (length (rq_body rq)) \<le> rz_max_body (rt_settings s) \<and> holds_key (rt_settings s) rq \<and>
    (rz_env (rt_settings s) = u ''production'' \<longrightarrow>
       dget (rq_headers rq) (u ''x-api-key'') = Some (rz_api_key (rt_settings s)) \<and> 32 \<le> length (rz_api_key (rt_settings s))) \<and>
    scan_recorded env io call v s s' \<and> (\<forall>a. out = Inr a \<longrightarrow> ra_body a = Scanned v)"
proof -
  have ok: "realtime_ok env s" unfolding s by (rule run_ok [OF started_ok [OF start]])
  from effect serve have small: "body_refusal (rt_settings s) rq = None"
    by (auto simp: serve_realtime_def security_boundary_def body_refusal_def reply_with_def Let_def
        split: option.splits if_splits)
  with serve obtain out1 where route: "realtime_route env io rq s = (out1, s')"
    and out: "case out of Inl _ \<Rightarrow> isl out1 | Inr a \<Rightarrow> \<exists>a1. out1 = Inr a1 \<and> ra_body a = ra_body a1"
    by (auto simp: serve_realtime_def security_boundary_def split: prod.splits sum.splits)
  have eff: "rt_stats s' \<noteq> rt_stats s \<or> (\<exists>a. out1 = Inr a \<and> is_scan a)"
    using effect out by (auto simp: is_scan_def split: sum.splits) metis
  have no_key: False if "with_key io rq h s = (out1, s')" "\<And>s o' s'. h s = (o', s') \<Longrightarrow> s' = s \<and> (\<forall>a. o' = Inr a \<longrightarrow> \<not> is_scan a)"
    for h using that(1)
  proof (cases rule: with_key_effect)
    case (granted s1)
    with that(2) [OF granted(1)] eff show False by auto
  qed (use eff in auto)
  have path: "rq_path rq = u ''/api/scan'' \<and> rq_method rq = u ''POST''"
    using route eff no_key [of "api_stats io"] no_key [of api_threats]
    by (auto simp: realtime_route_def api_stats_def api_threats_def reply_with_def is_scan_def split: if_splits)
  with route have scan: "scan_route env io rq s = (out1, s')" by (simp add: realtime_route_def)
  obtain call where call: "rq_json rq = CallJson call"
    using scan eff no_key [of "\<lambda>s. (Inr (reply_with 422 (Detail ''dict_type'')), s)"]
    by (cases "rq_json rq") (auto simp: scan_route_def reply_with_def is_scan_def)
  with scan have "with_key io rq (api_scan env io call) s = (out1, s')" by (simp add: scan_route_def)
  then show ?thesis
  proof (cases rule: with_key_effect)
    case (granted s1)
    then obtain ws where s1: "s1 = s\<lparr>rt_windows := ws\<rparr>" by blast
    from scan_effect [OF _ granted(1)] ok s1 eff
    obtain v where v: "scan_recorded env io call v s s'" "\<And>a. out1 = Inr a \<Longrightarrow> ra_body a = Scanned v"
      by (auto simp: windows_recorded is_scan_def)
    have "\<forall>a. out = Inr a \<longrightarrow> ra_body a = Scanned v" using out v(2) by auto
    moreover have "int (length (rq_body rq)) \<le> rz_max_body (rt_settings s)"
      using small path by (auto simp: body_refusal_def u_def Let_def split: if_splits option.splits)
    moreover have "holds_key (rt_settings s) rq \<and> (rz_env (rt_settings s) = u ''production'' \<longrightarrow>
       dget (rq_headers rq) (u ''x-api-key'') = Some (rz_api_key (rt_settings s)) \<and> 32 \<le> length (rz_api_key (rt_settings s)))"
      using granted(3) by (auto simp: holds_key_def auth_required_def)
    ultimately show ?thesis using path call v(1) by blast
  qed (use eff in auto)
qed

section \<open>A first scan\<close>

definition plain_env :: rt_env where
  "plain_env = \<lparr>re_ucd = plain_ucd, re_str = (\<lambda>v. []), re_repr = (\<lambda>v. []), re_float = (\<lambda>q. [])\<rparr>"

definition plain_io :: rt_io where
  "plain_io = \<lparr>io_auth_time = 0, io_event_time = 0, io_record_time = 0, io_call_id = [], io_proxy_id = [],
     io_lat = (\<lambda>l. 0), io_sends = []\<rparr>"

definition shadow_request :: rt_request where
  "shadow_request = \<lparr>rq_method = u ''POST'', rq_path = u ''/api/scan'', rq_headers = [], rq_peer = None, rq_body = [],
     rq_json = CallJson [(u ''name'', PStr (u ''x'')), (u ''server_id'', PStr (u ''shadow''))]\<rparr>"

lemma plain_start: "\<exists>s. start_realtime (re_ucd env) (re_str env) (\<lambda>_. None) 0 = Inr s \<and> rz_env (rt_settings s) = u ''development'' \<and>
    rz_api_key (rt_settings s) = []"
proof -
  have "case read_settings (\<lambda>_. None) of Inl _ \<Rightarrow> False
      | Inr z \<Rightarrow> rz_env z = u ''development'' \<and> rz_api_key z = []" by code_simp
  then show ?thesis by (auto simp: start_realtime_def split: sum.splits)
qed

lemma shadow_scanned:
  assumes "start_realtime (re_ucd plain_env) (re_str plain_env) (\<lambda>_. None) 0 = Inr s"
    "rz_env (rt_settings s) = u ''development''" "rz_api_key (rt_settings s) = []"
  shows "\<exists>a v s'. serve_realtime plain_env plain_io shadow_request s = (Inr a, s') \<and> ra_body a = Scanned v"
proof -
  have ok: "deployed plain_ucd (re_str plain_env) (rt_defense s)" "1024 \<le> rz_max_body (rt_settings s)"
    using started_ok [OF assms(1)] by (auto simp: realtime_ok_def settings_ok_def plain_env_def)
  let ?call = "[(u ''name'', PStr (u ''x'')), (u ''server_id'', PStr (u ''shadow''))]"
  have known: "fl_known_servers (rt_defense s) = set KNOWN_SERVERS" using ok by (simp add: deployed_def)
  have "\<not> in_strs (PStr (u ''shadow'')) (set KNOWN_SERVERS)" "set KNOWN_SERVERS \<noteq> {}"
    by (simp_all add: KNOWN_SERVERS_def)
  then have "layer1_passed (rt_defense s) (PStr (u ''shadow'')) = Inr False" by (simp add: layer1_passed_def known)
  then obtain v f where "evaluate_call plain_ucd (\<lambda>q. []) [] [] ?call (rt_defense s) = (Inr v, f)"
    by (simp add: evaluate_call_def give_verdict_def Let_def)
  moreover have "body_refusal (rt_settings s) shadow_request = None"
    using ok(2) by (simp add: body_refusal_def shadow_request_def Let_def)
  ultimately show ?thesis
    using assms(2,3)
    by (simp add: serve_realtime_def security_boundary_def realtime_route_def scan_route_def with_key_def
        require_api_key_def auth_required_def shadow_request_def api_scan_def broadcast_scan_def broadcast_def
        plain_env_def plain_io_def reply_with_def Let_def)
qed

lemma realtime_scan_guarded_witness:
  "\<exists>s0 out s' call v. start_realtime (re_ucd plain_env) (re_str plain_env) (\<lambda>_. None) 0 = Inr s0 \<and>
     serve_realtime plain_env plain_io shadow_request s0 = (out, s') \<and> rq_json shadow_request = CallJson call \<and>
     scan_recorded plain_env plain_io call v s0 s'"
proof -
  obtain s0 where s0: "start_realtime (re_ucd plain_env) (re_str plain_env) (\<lambda>_. None) 0 = Inr s0"
    "rz_env (rt_settings s0) = u ''development''" "rz_api_key (rt_settings s0) = []"
    using plain_start by blast
  from shadow_scanned [OF this] obtain a v s'
    where serve: "serve_realtime plain_env plain_io shadow_request s0 = (Inr a, s')" "ra_body a = Scanned v" by blast
  then have "rt_stats s' \<noteq> rt_stats s0 \<or> (\<exists>b w. Inr a = (Inr b :: unit + rt_answer) \<and> ra_body b = Scanned w)" by blast
  from realtime_scan_guarded [OF s0(1) _ serve(1) this, of "[]"] show ?thesis
    using s0(1) serve(1) by (auto simp: run_realtime_def)
qed

section \<open>The figures of the service\<close>

text \<open>
  Over any run the statistics add up: every event is blocked or allowed, the blocked ones are those of the
  five layers together, and each of the counts by category, severity, source, server and tool sums up to
  the number of events; the samples, the rates and the recent events are kept up to their bounds. The
  defence stays the one that was built.
\<close>

theorem realtime_figures:
  assumes "start_realtime (re_ucd env) (re_str env) environ t0 = Inr s0" "s = run_realtime env es s0"
  shows "stats_ok (rt_stats s) \<and> deployed (re_ucd env) (re_str env) (rt_defense s) \<and> settings_ok (rt_settings s)"
  using run_ok [OF started_ok [OF assms(1)], of es] assms(2) by (simp add: realtime_ok_def)

lemma realtime_figures_witness:
  "\<exists>s0. start_realtime (re_ucd plain_env) (re_str plain_env) (\<lambda>_. None) 0 = Inr s0 \<and>
     stats_ok (rt_stats (run_realtime plain_env [Http plain_io shadow_request] s0))"
proof -
  obtain s0 where s0: "start_realtime (re_ucd plain_env) (re_str plain_env) (\<lambda>_. None) 0 = Inr s0"
    using plain_start by blast
  from realtime_figures [OF s0 refl, of "[Http plain_io shadow_request]"] s0 show ?thesis by blast
qed

section \<open>The rate of a client\<close>

text \<open>The checks of a run: who asks, and when. \<open>rate_run\<close> gives those that pass and the windows left.\<close>

fun rate_run :: "int \<Rightarrow> (pystr \<times> rat) list \<Rightarrow> (pystr \<times> rat) list \<times> (pystr \<times> rat list) list \<Rightarrow>
    (pystr \<times> rat) list \<times> (pystr \<times> rat list) list" where
  "rate_run rpm [] st = st"
| "rate_run rpm ((i, t) # es) (passed, ws) =
    (case consume_rate rpm i t ws of (ok, ws') \<Rightarrow> rate_run rpm es (if ok then passed @ [(i, t)] else passed, ws'))"

definition times_of :: "pystr \<Rightarrow> (pystr \<times> rat) list \<Rightarrow> rat list" where
  "times_of i ps = map snd (filter (\<lambda>(j, t). j = i) ps)"

lemma times_of_simps [simp]:
  "times_of i [] = []" "times_of i (ps @ qs) = times_of i ps @ times_of i qs"
  "times_of i [(j, t)] = (if j = i then [t] else [])"
  by (simp_all add: times_of_def)

definition rate_inv :: "int \<Rightarrow> rat \<Rightarrow> (pystr \<times> rat) list \<Rightarrow> (pystr \<times> rat list) list \<Rightarrow> bool" where
  "rate_inv rpm now passed ws \<longleftrightarrow>
     (\<forall>i x. now - 60 \<le> x \<longrightarrow> filter (\<lambda>t. x < t) (times_of i passed) = filter (\<lambda>t. x < t) (dget_or ws i [])) \<and>
     (\<forall>i a. int (length (filter (\<lambda>t. a < t \<and> t \<le> a + 60) (times_of i passed))) \<le> rpm)"

lemma filter_tighter: "x \<le> y \<Longrightarrow> filter (\<lambda>t. y < t) (filter (\<lambda>t. x < t) ts) = filter (\<lambda>t. y < t) ts" for x y :: rat
  by (auto intro: filter_cong)

lemma length_filter_le_if: "(\<And>x. P x \<Longrightarrow> Q x) \<Longrightarrow> length (filter P xs) \<le> length (filter Q xs)"
  by (induction xs) auto

lemma consume_inv:
  assumes inv: "rate_inv rpm now0 passed ws" and le: "now0 \<le> now" and c: "consume_rate rpm i now ws = (ok, ws')"
  shows "rate_inv rpm now (if ok then passed @ [(i, now)] else passed) ws'"
proof -
  let ?b = "filter (\<lambda>ts. ts > now - 60) (dget_or ws i [])"
  let ?p = "if ok then passed @ [(i, now)] else passed"
  have kept: "filter (\<lambda>t. x < t) (times_of j passed) = filter (\<lambda>t. x < t) (dget_or ws j [])" if "now - 60 \<le> x" for j x
    using inv that le by (simp add: rate_inv_def)
  have ok: "ok \<longleftrightarrow> int (length ?b) < rpm" and ws': "ws' = dset i (if ok then ?b @ [now] else ?b) ws"
    using c by (auto simp: consume_rate_def Let_def split: if_splits)
  have "filter (\<lambda>t. x < t) (times_of j ?p) = filter (\<lambda>t. x < t) (dget_or ws' j [])" if "now - 60 \<le> x" for j x
    using kept [OF that, of j] filter_tighter [OF that, of "dget_or ws i []"] by (auto simp: ws' dget_or_def)
  moreover have "int (length (filter (\<lambda>t. a < t \<and> t \<le> a + 60) (times_of j ?p))) \<le> rpm" for j a
  proof (cases "ok \<and> j = i \<and> a < now \<and> now \<le> a + 60")
    case True
    have "length (filter (\<lambda>t. a < t \<and> t \<le> a + 60) (times_of i passed)) \<le>
        length (filter (\<lambda>t. now - 60 < t) (times_of i passed))"
      by (rule length_filter_le_if) (use True in auto)
    also have "\<dots> = length ?b" by (simp only: kept [OF order_refl])
    finally show ?thesis using True ok by simp
  next
    case False
    then have "filter (\<lambda>t. a < t \<and> t \<le> a + 60) (times_of j ?p) = filter (\<lambda>t. a < t \<and> t \<le> a + 60) (times_of j passed)"
      by auto
    with inv show ?thesis by (simp add: rate_inv_def)
  qed
  ultimately show ?thesis by (simp add: rate_inv_def)
qed

lemma run_inv:
  "rate_inv rpm now0 passed ws \<Longrightarrow> sorted (now0 # map snd es) \<Longrightarrow> rate_run rpm es (passed, ws) = (passed', ws') \<Longrightarrow>
   \<exists>now. rate_inv rpm now passed' ws'"
proof (induction es arbitrary: now0 passed ws)
  case (Cons e es)
  obtain i t where e: "e = (i, t)" by fastforce
  obtain ok w where c: "consume_rate rpm i t ws = (ok, w)" by fastforce
  from Cons.prems(2) e have le: "now0 \<le> t" and sorted: "sorted (t # map snd es)" by simp_all
  have "rate_run rpm es (if ok then passed @ [(i, t)] else passed, w) = (passed', ws')"
    using Cons.prems(3) by (simp add: e c)
  from Cons.IH [OF consume_inv [OF Cons.prems(1) le c] sorted this] show ?case .
qed auto

text \<open>
  A client passes at most \<open>MCP_REALTIME_RATE_LIMIT_RPM\<close> times in any minute, wherever the minute begins,
  whatever the other clients do, as long as the clock does not run backwards.
\<close>

theorem realtime_rate_bound:
  assumes "0 \<le> rpm" "sorted (map snd es)" "rate_run rpm es ([], []) = (passed, ws)"
  shows "int (length (filter (\<lambda>t. a < t \<and> t \<le> a + 60) (times_of i passed))) \<le> rpm"
proof (cases es)
  case Nil
  with assms show ?thesis by simp
next
  case (Cons e es')
  have "rate_inv rpm (snd e) [] []" using assms(1) by (simp add: rate_inv_def)
  from run_inv [OF this _ assms(3)] assms(2) Cons show ?thesis by (auto simp: rate_inv_def)
qed

lemma realtime_rate_bound_witness:
  "case rate_run 1 [(u ''a'', 0), (u ''a'', 1), (u ''a'', 61)] ([], []) of
     (passed, ws) \<Rightarrow> passed = [(u ''a'', 0), (u ''a'', 61)] \<and>
       int (length (filter (\<lambda>t. 0 < t \<and> t \<le> 0 + 60) (times_of (u ''a'') passed))) \<le> 1"
proof -
  have r: "rate_run 1 [(u ''a'', 0), (u ''a'', 1), (u ''a'', 61)] ([], []) =
      ([(u ''a'', 0), (u ''a'', 61)], [(u ''a'', [61])])"
    by (simp add: consume_rate_def Let_def dget_or_def)
  from realtime_rate_bound [OF _ _ r, of 0 "u ''a''"] show ?thesis unfolding r by simp
qed

section \<open>Gaps\<close>

text \<open>The answers that the middleware gives itself lack the security headers.\<close>

lemma refusal_without_headers:
  "body_refusal (rt_settings s) rq = Some a \<Longrightarrow> serve_realtime env io rq s = (Inr a, s) \<and> ra_headers a = []"
  by (auto simp: serve_realtime_def security_boundary_def body_refusal_def reply_with_def Let_def
      split: if_splits option.splits)

text \<open>Undisturbed, a broadcast removes exactly the sockets whose send failed.\<close>

lemma send_all_undisturbed:
  "i + length oks = length active \<Longrightarrow> send_all i (map (\<lambda>ok. (ok, [])) oks) active dead =
     (active, dead @ map fst (filter (\<lambda>(w, ok). \<not> ok) (zip (drop i active) oks)))"
proof (induction oks arbitrary: i dead)
  case (Cons ok oks)
  then have "drop i active = active ! i # drop (Suc i) active" by (simp add: Cons_nth_drop_Suc)
  with Cons show ?case by simp
qed simp

text \<open>A socket that fails and is dropped by its own task while the event goes to the next one makes
  \<open>broadcast\<close> raise, so the scan is recorded and answered with an error.\<close>

lemma vanished_socket_raises: "fst (broadcast [(False, []), (True, [Leaves 7])] [7, 8]) = False"
  by (simp add: broadcast_def)

text \<open>A text that is too long ends the endpoint without \<open>disconnect\<close>: the closed socket keeps its place.\<close>

lemma closed_socket_stays:
  assumes "utf8_encode data = Some bs" "length bs > 64"
  shows "ws_text w data now s = (WsClose 1009, s)"
  using assms by (simp add: ws_text_def)

text \<open>The check of the number of sockets is before the handshake, the entry after it: handshakes that
  overlap pass it together.\<close>

lemma overlapping_handshakes_exceed_cap:
  assumes "\<not> auth_required (rt_settings s)" "rz_max_ws (rt_settings s) = 1" "rt_active s = []" "rt_pending s = []"
  shows "rt_active (run_realtime env [WsOpen 1 [], WsOpen 2 [], WsAccepted 1 0, WsAccepted 2 0] s) = [1, 2]"
  using assms by (simp add: run_realtime_def rt_step_event_def ws_handshake_def ws_accepted_def Let_def)

text \<open>One after the other, they stay within it.\<close>

lemma handshake_within_cap:
  assumes "ws_handshake w hs s = (WsAccept, s1)" "ws_accepted w now s1 = (r, s2)"
  shows "int (length (rt_active s2)) \<le> rz_max_ws (rt_settings s)"
  using assms by (auto simp: ws_handshake_def ws_accepted_def Let_def split: sum.splits bool.splits if_splits)

text \<open>A destination given as a URL is compared as a whole, so every call that carries a real URL is refused
  by the egress layer: only a bare host name passes.\<close>

lemma url_never_reachable: "starts_with s (u ''http'') \<Longrightarrow> may_reach sid args \<Longrightarrow> dget args (u ''url'') \<noteq> Some (PStr s)"
proof
  assume s: "starts_with s (u ''http'')" and r: "may_reach sid args" and d: "dget args (u ''url'') = Some (PStr s)"
  from s have "s \<noteq> []" by (auto simp: u_def)
  with r d have "s \<in> ALLOWED_HOSTS" by (simp add: may_reach_def dget_or_def Let_def)
  with s show False by (auto simp: ALLOWED_HOSTS_def u_def)
qed

end
