(* ===== verification/Spec2Isabelle.thy ===== *)
theory Spec2Isabelle
  imports StdioProxy CircuitBreaker PolicyEngine AuditLog WriteAheadLog InjectionDetector Defense10 Sandbox SecurityMonitor FiveLayer ToolInvariants ToolManifest ToolCanary DriftDetector CrossTool LogShipper DetectionLifecycle ServiceConfig ServiceMetrics GracefulStop Tracing Alerting GatewayClient AddressText ProductionServer RealtimeServer
begin

text \<open>
  A verification development for the MCP agent security gateway (\<open>src/src/mcp_monitor\<close>; file names
  below are relative to that directory). The program stands between an agent and the tool servers it calls and
  decides, call by call, what may pass. It runs in three shapes: a proxy on standard input and output
  (\<open>proxy/stdio_proxy.py\<close>), an HTTP service (\<open>production/server.py\<close>) and a demonstration
  service (\<open>server/realtime.py\<close>). All three read JSON from outside, ask a stack of detectors and policies,
  and write what they decided to logs.

  \<^bold>\<open>Conventions.\<close> A class with state is a record, a method is a function from its arguments and the
  record to its answer and the record after it, an exception is the left side of a sum, a Python dictionary
  an association list in insertion order, a string the list of its code points, a float an exact rational
  (\<open>Prelude\<close>, \<open>PyValues\<close>). A field of a decoded message is any JSON value, so a value of the wrong type raises
  in the model where it raises in the code. Locks make an operation one step; where the code takes a lock several
  times in one operation (the circuit breaker) the critical sections are the steps.

  \<^bold>\<open>What is a parameter.\<close> Everything that is not in the repository or depends on the machine: NFKC, the
  word characters and \<open>str.isprintable\<close> of the Unicode database; SHA-256 and HMAC; the \<open>repr\<close> and \<open>str\<close>
  of floats and containers; random bytes, UUIDs and clocks; the transport to the downstream server, the file
  system under the shippers, \<open>subprocess.run\<close>, the HTTP exchanges; the trained classifier; the framework
  under the demonstration service. Theorems that need something of a parameter say so in a hypothesis
  (\<open>repr_law\<close>: the text of a float reads back; \<open>hex_digests\<close>: digests are 64 ASCII characters), and a
  witness instantiates it.
\<close>

text \<open>
  \<^bold>\<open>The standard library that the gateway relies on.\<close>
  \<open>PyNumbers\<close> holds number literals and digit tables, \<open>PyNet\<close> \<open>urlparse\<close> and \<open>ipaddress\<close>, \<open>Utf8\<close> strict
  decoding. \<open>Json\<close> is \<open>json.loads\<close> with \<open>object_pairs_hook\<close>, \<open>JsonDump\<close> is \<open>json.dumps\<close> and the round trip
  between the two, \<open>NdJson\<close> the files of one document per line. \<open>PyRegex\<close> is the part of \<open>re\<close> that the patterns use:
  a backtracking matcher that lists the matches in the order Python tries them, proved equal to a declarative
  reading of patterns. \<open>AddressText\<close> shows that the printed form of an address or network reads back.
  \<open>Greedy\<close> is the search for a sequence of stages that both correlation engines use.

  \<^bold>\<open>The gateway on standard input and output.\<close>
  \<open>JsonRpc\<close> (\<open>protocol/jsonrpc.py\<close>) parses a payload under a byte budget and a nesting budget into tool
  calls. \<open>TokenBucket\<close> (\<open>production/rate_limiter.py\<close>) is the admission gate, behind the locale \<open>rate_gate\<close>.
  \<open>InjectionSignatures\<close> and \<open>InjectionDetector\<close> (\<open>detectors/prompt_injection.py\<close>) hold the signatures and the
  scan. \<open>StdioProxy\<close> (\<open>proxy/stdio_proxy.py\<close>) composes them: one payload, the loop over payloads and the reader of
  lines; it knows its detector through the locale \<open>detector_contract\<close>, which \<open>InjectionDetector\<close> interprets.
  The theorem at the end of this theory puts proxy and detector together.

  \<^bold>\<open>The detectors and the layers.\<close>
  \<open>PiiDetector\<close>, \<open>Exfiltration\<close>, \<open>ShadowServer\<close> (\<open>detectors/\<close>) and their fail-closed composition
  \<open>SecurityMonitor\<close> (\<open>monitor.py\<close>). \<open>InlineProxy\<close>, \<open>SemanticAnalyzer\<close>, \<open>NetworkEgress\<close>, \<open>KernelMonitor\<close>
  (\<open>layers/\<close>) and their composition \<open>FiveLayer\<close> (\<open>layers/orchestrator.py\<close>). \<open>SlidingWindow\<close>,
  \<open>EgressInspector\<close>, \<open>NetworkMonitor\<close>, \<open>Honeypot\<close>, \<open>Sandbox\<close> (\<open>defense10/\<close>) and \<open>Defense10\<close>
  (\<open>defense10/orchestrator10.py\<close>). \<open>PolicyEngine\<close> (\<open>policy/policy_engine.py\<close>). \<open>ToolInvariants\<close>,
  \<open>ToolManifest\<close>, \<open>ToolCanary\<close>, \<open>DriftDetector\<close>, \<open>CrossTool\<close> (\<open>advanced/\<close>).

  \<^bold>\<open>Logs and the SIEM pipeline.\<close>
  \<open>AuditLog\<close> and \<open>WriteAheadLog\<close> (\<open>audit/\<close>); \<open>EcsFormatter\<close>, \<open>LogShipper\<close>, \<open>SiemCorrelation\<close> and
  \<open>DetectionLifecycle\<close> (\<open>siem/\<close>). The buffer of a shipper is proved over the locale \<open>log_backend\<close>,
  interpreted by the file and the console backends.

  \<^bold>\<open>The services.\<close>
  \<open>CircuitBreaker\<close>, \<open>ServiceConfig\<close>, \<open>ServiceMetrics\<close>, \<open>GracefulStop\<close>, \<open>Tracing\<close>, \<open>Alerting\<close>,
  \<open>IdentityTelemetry\<close> and \<open>IdentityDelivery\<close> (\<open>production/\<close>) are the parts of the HTTP service; \<open>HttpRequest\<close> reads
  one request from a connection and \<open>ProductionServer\<close> handles it (\<open>production/server.py\<close>). \<open>GatewayClient\<close>
  (\<open>client.py\<close>) is its client. \<open>RealtimeRules\<close>, \<open>RealtimeDefense\<close>, \<open>RealtimeStats\<close> and \<open>RealtimeServer\<close>
  (\<open>server/realtime.py\<close>) are the demonstration service with the five layers that it builds at import.
\<close>

text \<open>
  \<^bold>\<open>What the theorems show.\<close>
  \<^item> Nothing passes unexamined. What the stdio proxy writes downstream was parsed without ambiguity, within the
    budgets, and every tool call in it was allowed by the detector; the exact conditions of forwarding, of a denial
    and of an error reply are given. The HTTP service sends a verdict only for a request that is framed,
    authorised and admitted, and the verdict is that of its monitor.
  \<^item> Exact decisions. The monitor, the five layers, the policy engine, the egress policy and inspector, the kernel
    monitor, the semantic analyser, the manifest verifier and the drift detector allow, alert or report exactly
    when a condition stated over their inputs holds. The orchestrator of \<open>defense10\<close> bounds how many
    messages a server can send in any window.
  \<^item> Logs. \<open>verify_chain\<close> accepts exactly the linked logs. A forged log that passes with the genuine length and
    last hash either says the same at every place or holds, at some place, an entry whose own hashed text
    differs from the genuine one and has the same digest. A log reopened from its file is the log
    in memory; recovery of the write-ahead log refines a list of pending entries; shippers and the identity
    queue write each event once and in order, or deliver it at least once.
  \<^item> State over time. The token bucket admits no more than its burst plus the rate; the breaker's state
    is the one its history determines under every interleaving; the sliding window admits up to its limit and
    no more; retries end; between requests the HTTP service holds no
    request in flight, so a shutdown drains at once.
  \<^item> Correlation. The window of a session is a function of its history, and an alert is raised
    exactly for the earliest match of the stages in that window, when it is within the rule's own time span.

  Beside these stand lemmas on the gaps of the code: what a chain does not cover, the old event that
  hides a later burst, the message that is taken for a response, and the like. They are statements about the code
  as it is and hold of it.
\<close>

text \<open>
  \<^bold>\<open>Loops, bounds and fuel.\<close> Recursion is structural or has a proved measure, with these exceptions. The JSON
  scanner runs on fuel one above the length of the text (\<open>loads_text_fuel\<close>: it never runs out); its limit on nesting
  is the interpreter's recursion limit and is an argument (\<open>rl\<close>). A repetition of a pattern runs at most
  as many rounds as characters are left, since each round must consume one. Arguments are flattened to the depth the
  source fixes (64). The reader of requests has the source's limits: 64 KiB for a line, 32 KiB of headers and at most
  100 of them, the configured size of the body. The drain at shutdown polls a clock and is a partial function, with its return proved for a clock
  that advances. The delivery of the identity queue assumes a queue file shorter than \<open>10 ^ 4300\<close> bytes, since the cursor
  is written as a decimal and \<open>int\<close> refuses longer ones.

  \<^bold>\<open>What is not modelled.\<close> The trained classifier, its features and its training data (numerics of third-party
  libraries; its answer is a parameter); the payloads and the simulator of \<open>redteam/\<close> and the scripted
  traffic of \<open>siem/attack_simulations.py\<close> and \<open>server/workload.py\<close> (test traffic); the terminal and HTML
  output of \<open>dashboard/\<close> and the Markdown reports; the configuration of \<open>logging\<close>; the mitmproxy add-on, the eBPF
  text that nothing loads; the launch of processes, signal registration and sockets below the level of the
  bytes they carry; the smoke test of the identity endpoint. Rounding of floats is not modelled, and the texts of
  messages for people are constructors where nothing reads them back.
\<close>

section \<open>The gateway with its injection detector\<close>

definition clean_message :: "ucd \<Rightarrow> pydict \<Rightarrow> bool" where
  "clean_message uc m \<longleftrightarrow>
     (\<exists>name args. requests_call m name args \<and>
        (\<forall>raw \<in> set (extract_strings (PDict args)). names_in uc raw = {}))"

lemma call_strings_of_call [simp]:
  "call_strings (to_internal_format (call_of msg name args)) = extract_strings (PDict args)"
  by (simp add: call_strings_def to_internal_format_def call_of_def dget_or_def)

lemma allowed_is_clean:
  assumes "is_tools_call m" "\<not> response_shaped m" "allowed_by (detect uc None) ad m"
  shows "clean_message uc m"
proof -
  from assms inspection_allows [OF assms(1)]
  obtain name args flag patterns where rq: "requests_call m name args"
    and d: "detect uc None (to_internal_format (call_of m name args)) = Inr (flag, patterns)"
    and ok: "\<not> flag \<or> patterns = []" by auto
  from injection.flag_patterns [OF d] ok d
  have "detect uc None (to_internal_format (call_of m name args)) = Inr (False, [])" by auto
  with rq show ?thesis unfolding detect_clean call_strings_of_call clean_message_def by blast
qed

text \<open>
  C3: The gateway end to end, with the regex detector it is started with. Over a whole session,
  whatever is written downstream is, in order and unaltered, a subsequence of the client's lines;
  each is a well-formed payload, and in each every \<open>tools/call\<close> that is not shaped like a
  response carries arguments in whose strings, at any depth and in every normalised or decoded
  variant, no signature and no structural check hits.
\<close>

theorem gateway_forwards_clean_calls:
  "\<exists>raws. px_sent (fst (proxy_run (detect uc None) rl clk tr lines px)) =
       px_sent px @ map (\<lambda>raw. raw @ [10]) raws \<and>
     subseq raws (map bytes_strip lines) \<and>
     (\<forall>raw \<in> set raws. \<exists>ms. payload_messages rl raw = Some ms \<and>
        (\<forall>m \<in> set ms. is_tools_call m \<longrightarrow> response_shaped m \<or> clean_message uc m))"
proof -
  from proxy_run_sends [of "detect uc None" rl clk tr lines px]
  obtain raws where raws: "px_sent (fst (proxy_run (detect uc None) rl clk tr lines px)) =
       px_sent px @ map (\<lambda>raw. raw @ [10]) raws" "subseq raws (map bytes_strip lines)"
    and ok: "list_all (cleared_payload (detect uc None) rl (px_adapter px)) raws"
    by (auto simp: Let_def)
  have "\<exists>ms. payload_messages rl raw = Some ms \<and>
        (\<forall>m \<in> set ms. is_tools_call m \<longrightarrow> response_shaped m \<or> clean_message uc m)"
    if "raw \<in> set raws" for raw
    using ok that allowed_is_clean
    by (fastforce simp: list_all_iff cleared_payload_def cleared_calls_def)
  with raws show ?thesis by blast
qed

lemma gateway_forwards_clean_calls_witness:
  "\<exists>raws. px_sent (fst (proxy_run
        (detect \<lparr>ucd_nfkc = id, ucd_printable = (\<lambda>c. True), ucd_word = (\<lambda>c. False)\<rparr> None)
        1000 (\<lambda>i j. 0) (\<lambda>i. \<lparr>te_send_error = None, te_receive = Inr (u ''{}'')\<rparr>)
        [u ''{} ''] (make_proxy 10 10))) =
       px_sent (make_proxy 10 10) @ map (\<lambda>raw. raw @ [10]) raws \<and>
     subseq raws (map bytes_strip [u ''{} '']) \<and>
     (\<forall>raw \<in> set raws. \<exists>ms. payload_messages 1000 raw = Some ms \<and>
        (\<forall>m \<in> set ms. is_tools_call m \<longrightarrow> response_shaped m \<or>
          clean_message \<lparr>ucd_nfkc = id, ucd_printable = (\<lambda>c. True), ucd_word = (\<lambda>c. False)\<rparr> m))"
  by (rule gateway_forwards_clean_calls)

end
